(* ===== verification/Prelude.thy ===== *)
theory Prelude
  imports Main "HOL-Library.Word" "HOL-Library.List_Lexorder" "HOL-Library.Char_ord"
    "HOL-Library.Stream"
begin

text \<open>
  What every component of the clock shares: the fixed-width integer types of
  \<^verbatim>\<open>src/stdTypes.h\<close>, the ordered map that \<^verbatim>\<open>std::map\<close> is,
  the interfaces (locales) that several components implement, and generic lemmas on lists
  and words.

  The program is compiled for a 32-bit target, so \<^verbatim>\<open>int\<close> and
  \<^verbatim>\<open>long\<close> are 32 bits wide. A signed value that the code keeps in range is
  an \<open>int\<close>; a conversion between widths goes through \<open>word_of_int\<close> and
  \<open>sint\<close>.
\<close>

unbundle bit_operations_syntax

section \<open>Machine integers\<close>

type_synonym Int8U = "8 word"
type_synonym Int16U = "16 word"
type_synonym Int32U = "32 word"
type_synonym Int64U = "64 word"

text \<open>The value that an unsigned 32-bit number has as a signed \<^verbatim>\<open>int\<close>.\<close>

abbreviation (input) as_int :: "Int32U \<Rightarrow> int" where
  "as_int w \<equiv> sint w"

text \<open>C++ integer division truncates towards zero, and the remainder has the sign of the
  dividend.\<close>

definition c_div :: "int \<Rightarrow> int \<Rightarrow> int" where
  "c_div a b = (if (a < 0) = (b < 0) then \<bar>a\<bar> div \<bar>b\<bar> else - (\<bar>a\<bar> div \<bar>b\<bar>))"

definition c_mod :: "int \<Rightarrow> int \<Rightarrow> int" where
  "c_mod a b = a - c_div a b * b"

named_theorems model_simps \<open>equations that evaluate the model on concrete states\<close>
named_theorems inv_intros \<open>preservation of a component's invariant by its operations\<close>

lemma c_div_nonneg [simp]: "0 \<le> a \<Longrightarrow> 0 < b \<Longrightarrow> c_div a b = a div b"
  by (simp add: c_div_def)

lemma c_mod_nonneg [simp]: "0 \<le> a \<Longrightarrow> 0 < b \<Longrightarrow> c_mod a b = a mod b"
  by (simp add: c_mod_def minus_div_mult_eq_mod)

lemma unat_word_of_int_id:
  "0 \<le> k \<Longrightarrow> k < 2 ^ LENGTH('a) \<Longrightarrow> unat (word_of_int k :: 'a::len word) = nat k"
  by (simp add: unat_eq_nat_uint unsigned_of_int take_bit_int_eq_self)

lemma unat_minus_one_neq: "w \<noteq> 0 \<Longrightarrow> unat (w - 1) = unat w - 1" for w :: "'a::len word"
  by (simp add: unat_sub word_le_nat_alt unat_gt_0 Suc_leI)

lemma unat_plus_one_neq: "w + 1 \<noteq> 0 \<Longrightarrow> unat (w + 1) = Suc (unat w)" for w :: "'a::len word"
  by (metis add.commute unatSuc)

lemma word_eq_1_unat: "w = 1 \<longleftrightarrow> unat w = 1" for w :: "'a::len word"
  by (simp add: word_unat_eq_iff)

lemma unat_of_nat_id: "n < 2 ^ LENGTH('a) \<Longrightarrow> unat (of_nat n :: 'a::len word) = n"
  by (simp add: unat_of_nat)

lemma bit_unat: "bit (unat w) n \<longleftrightarrow> bit w n" for w :: "'a::len word"
  by (simp add: bit_unsigned_iff)

lemma drop_bit_0_not_bit: "drop_bit m w = 0 \<Longrightarrow> \<not> bit w m" for w :: "'a::len word"
proof -
  assume a: "drop_bit m w = 0"
  have "bit (drop_bit m w) 0 = bit w m" by (simp only: bit_drop_bit_eq comp_apply add_0_right)
  with a show ?thesis by simp
qed

lemma unat_less_16: "unat (w :: Int16U) < 65536"
  using unsigned_less[of w, where 'a = nat] by simp

text \<open>Two words are compared bit by bit.\<close>

lemma less_8_cases: "b < 8 \<Longrightarrow> b = 7 \<or> b = 6 \<or> b = 5 \<or> b = 4 \<or> b = 3 \<or> b = 2 \<or> b = 1 \<or> b = 0" for b :: nat
  by arith

lemma less_4_cases: "b < 4 \<Longrightarrow> b = 3 \<or> b = 2 \<or> b = 1 \<or> b = 0" for b :: nat
  by arith

lemma less_32_cases: "b < 32 \<Longrightarrow>
     b = 31 \<or> b = 30 \<or> b = 29 \<or> b = 28 \<or> b = 27 \<or> b = 26 \<or> b = 25 \<or> b = 24
     \<or> b = 23 \<or> b = 22 \<or> b = 21 \<or> b = 20 \<or> b = 19 \<or> b = 18 \<or> b = 17 \<or> b = 16
     \<or> b = 15 \<or> b = 14 \<or> b = 13 \<or> b = 12 \<or> b = 11 \<or> b = 10 \<or> b = 9 \<or> b = 8
     \<or> b = 7 \<or> b = 6 \<or> b = 5 \<or> b = 4 \<or> b = 3 \<or> b = 2 \<or> b = 1 \<or> b = 0" for b :: nat
  by (auto simp: less_Suc_eq numeral_eq_Suc)

section \<open>Ordered maps\<close>

text \<open>
  \<^verbatim>\<open>std::map\<close> iterates over its keys in ascending order. It is an association
  list whose keys ascend strictly; \<open>omap_set\<close> is \<^verbatim>\<open>m[k] = v\<close>,
  \<open>omap_erase\<close> is \<^verbatim>\<open>m.erase(k)\<close> and \<open>omap_upper_bound\<close> gives
  the entries from the iterator \<^verbatim>\<open>m.upper_bound(k)\<close> on. Strings are ordered
  byte by byte, as \<^verbatim>\<open>std::string\<close> orders them.
\<close>

type_synonym ('k, 'v) omap = "('k \<times> 'v) list"

type_synonym StringMap = "(string, string) omap"

fun omap_set :: "'k::linorder \<Rightarrow> 'v \<Rightarrow> ('k, 'v) omap \<Rightarrow> ('k, 'v) omap" where
  "omap_set k v [] = [(k, v)]"
| "omap_set k v ((k', v') # m) =
     (if k < k' then (k, v) # (k', v') # m
      else if k = k' then (k, v) # m
      else (k', v') # omap_set k v m)"

definition omap_erase :: "'k \<Rightarrow> ('k, 'v) omap \<Rightarrow> ('k, 'v) omap" where
  "omap_erase k m = filter (\<lambda>e. fst e \<noteq> k) m"

definition omap_upper_bound :: "'k::linorder \<Rightarrow> ('k, 'v) omap \<Rightarrow> ('k, 'v) omap" where
  "omap_upper_bound k m = dropWhile (\<lambda>e. fst e \<le> k) m"

definition omap_inv :: "('k::linorder, 'v) omap \<Rightarrow> bool" where
  "omap_inv m \<longleftrightarrow> sorted_wrt (<) (map fst m)"

abbreviation omap_find :: "('k, 'v) omap \<Rightarrow> 'k \<Rightarrow> 'v option" where
  "omap_find m k \<equiv> map_of m k"

lemma omap_inv_Nil [simp, inv_intros]: "omap_inv []"
  by (simp add: omap_inv_def)

lemma omap_inv_Cons [simp]:
  "omap_inv ((k, v) # m) \<longleftrightarrow> (\<forall>k' \<in> fst ` set m. k < k') \<and> omap_inv m"
  by (auto simp: omap_inv_def)

lemma omap_inv_distinct: "omap_inv m \<Longrightarrow> distinct (map fst m)"
  by (simp add: omap_inv_def strict_sorted_iff)

lemma fst_set_omap_set [simp]: "fst ` set (omap_set k v m) = insert k (fst ` set m)"
  by (induction k v m rule: omap_set.induct) auto

lemma omap_inv_set [simp, inv_intros]: "omap_inv m \<Longrightarrow> omap_inv (omap_set k v m)"
  by (induction k v m rule: omap_set.induct) (auto simp: not_less)

lemma omap_find_set [simp]:
  "omap_inv m \<Longrightarrow> omap_find (omap_set k v m) k' = (if k' = k then Some v else omap_find m k')"
  by (induction k v m rule: omap_set.induct) auto

lemma omap_inv_erase [simp, inv_intros]: "omap_inv m \<Longrightarrow> omap_inv (omap_erase k m)"
  by (induction m) (auto simp: omap_erase_def)

lemma omap_find_erase [simp]:
  "omap_find (omap_erase k m) k' = (if k' = k then None else omap_find m k')"
  by (induction m) (auto simp: omap_erase_def)

lemma length_omap_set_new: "omap_find m k = None \<Longrightarrow> length (omap_set k v m) = Suc (length m)"
  by (induction k v m rule: omap_set.induct) (auto split: if_splits)

lemma set_omap_set_new:
  "omap_find m k = None \<Longrightarrow> set (omap_set k v m) = insert (k, v) (set m)"
  by (induction k v m rule: omap_set.induct) (auto split: if_splits)

lemma distinct_map_omap_set:
  "omap_find m k = None \<Longrightarrow> f (k, v) \<notin> f ` set m \<Longrightarrow> distinct (map f m) \<Longrightarrow>
   distinct (map f (omap_set k v m))"
  by (induction k v m rule: omap_set.induct)
    (auto simp: set_omap_set_new split: if_splits)

lemma omap_erase_absent: "omap_find m k = None \<Longrightarrow> omap_erase k m = m"
  by (induction m) (auto simp: omap_erase_def split: if_splits)

lemma length_omap_erase:
  "omap_inv m \<Longrightarrow> omap_find m k = Some v \<Longrightarrow> Suc (length (omap_erase k m)) = length m"
proof (induction m)
  case Nil
  then show ?case by simp
next
  case (Cons e m)
  obtain k' v' where e: "e = (k', v')" by (cases e)
  show ?case
  proof (cases "k' = k")
    case True
    with Cons.prems e have "k \<notin> fst ` set m" by auto
    then have "omap_erase k m = m"
      by (auto simp: omap_erase_def filter_id_conv)
    with True e show ?thesis by (simp add: omap_erase_def)
  next
    case False
    with Cons e show ?thesis by (simp add: omap_erase_def)
  qed
qed

lemma omap_upper_bound_inv [simp, inv_intros]: "omap_inv m \<Longrightarrow> omap_inv (omap_upper_bound k m)"
  by (induction m) (auto simp: omap_upper_bound_def)

lemma omap_upper_bound_filter:
  "omap_inv m \<Longrightarrow> omap_upper_bound k m = filter (\<lambda>e. k < fst e) m"
proof (induction m)
  case Nil
  then show ?case by (simp add: omap_upper_bound_def)
next
  case (Cons e m)
  obtain k' v' where e: "e = (k', v')" by (cases e)
  show ?case
  proof (cases "k' \<le> k")
    case True
    with Cons e show ?thesis by (auto simp: omap_upper_bound_def)
  next
    case False
    with Cons.prems e have "\<forall>e \<in> set m. k < fst e" by force
    with False e show ?thesis by (simp add: omap_upper_bound_def filter_id_conv)
  qed
qed

end
