(* ===== verification/Gpio_Lines.thy ===== *)
theory Gpio_Lines
  imports Prelude
begin

text \<open>
  \<^verbatim>\<open>src/gpio/Gpio.h\<close>, \<^verbatim>\<open>src/gpio/FakeGpio.h\<close>,
  \<^verbatim>\<open>src/gpio/fakeGpio.cpp\<close> and \<^verbatim>\<open>src/gpio/bcm2835GpioRegisters.cpp\<close>:
  the operations on pins. A driver that only writes pins is modelled by the list of
  operations it makes, in order, which is what the recording implementation keeps; a device
  on the pins is a reader of such a list.
\<close>

section \<open>Operations\<close>

datatype GpioValue = low | high

datatype GpioOperation =
    op_initialize
  | op_configureInput int
  | op_configureOutput int GpioValue
  | op_read int GpioValue
  | op_write int GpioValue
  | op_delayMilliseconds nat

abbreviation gpio_bit :: "bool \<Rightarrow> GpioValue" where
  "gpio_bit b \<equiv> (if b then high else low)"

record FakeGpio =
  inputValues :: "int \<Rightarrow> GpioValue option"
  queuedInputValues :: "int \<Rightarrow> GpioValue list"
  operationHistory :: "GpioOperation list"
  initializeResult :: bool

definition newFakeGpio :: FakeGpio where
  "newFakeGpio = \<lparr>inputValues = (\<lambda>_. None), queuedInputValues = (\<lambda>_. []), operationHistory = [],
     initializeResult = True\<rparr>"

definition gpio_record :: "GpioOperation \<Rightarrow> FakeGpio \<Rightarrow> FakeGpio" where
  "gpio_record p g = g\<lparr>operationHistory := operationHistory g @ [p]\<rparr>"

definition gpio_initialize :: "FakeGpio \<Rightarrow> bool \<times> FakeGpio" where
  "gpio_initialize g = (initializeResult g, gpio_record op_initialize g)"

definition gpio_configureInput :: "int \<Rightarrow> FakeGpio \<Rightarrow> FakeGpio" where
  "gpio_configureInput pin = gpio_record (op_configureInput pin)"

definition gpio_configureOutput :: "int \<Rightarrow> GpioValue \<Rightarrow> FakeGpio \<Rightarrow> FakeGpio" where
  "gpio_configureOutput pin v = gpio_record (op_configureOutput pin v)"

definition gpio_read :: "int \<Rightarrow> FakeGpio \<Rightarrow> GpioValue \<times> FakeGpio" where
  "gpio_read pin g =
     (let (v, g1) = (case queuedInputValues g pin of
            x # xs \<Rightarrow> (x, g\<lparr>queuedInputValues := (queuedInputValues g)(pin := xs)\<rparr>)
          | [] \<Rightarrow> (case inputValues g pin of Some x \<Rightarrow> (x, g) | None \<Rightarrow> (low, g)))
      in (v, gpio_record (op_read pin v) g1))"

definition gpio_write :: "int \<Rightarrow> GpioValue \<Rightarrow> FakeGpio \<Rightarrow> FakeGpio" where
  "gpio_write pin v = gpio_record (op_write pin v)"

definition gpio_delayMilliseconds :: "nat \<Rightarrow> FakeGpio \<Rightarrow> FakeGpio" where
  "gpio_delayMilliseconds d = gpio_record (op_delayMilliseconds d)"

definition setInitializeResult :: "bool \<Rightarrow> FakeGpio \<Rightarrow> FakeGpio" where
  "setInitializeResult r g = g\<lparr>initializeResult := r\<rparr>"

definition setInputValue :: "int \<Rightarrow> GpioValue \<Rightarrow> FakeGpio \<Rightarrow> FakeGpio" where
  "setInputValue pin v g = g\<lparr>inputValues := (inputValues g)(pin \<mapsto> v)\<rparr>"

definition queueInputValues :: "int \<Rightarrow> GpioValue list \<Rightarrow> FakeGpio \<Rightarrow> FakeGpio" where
  "queueInputValues pin vs g =
     g\<lparr>queuedInputValues := (queuedInputValues g)(pin := queuedInputValues g pin @ vs)\<rparr>"

definition clearOperations :: "FakeGpio \<Rightarrow> FakeGpio" where
  "clearOperations g = g\<lparr>operationHistory := []\<rparr>"

text \<open>What a driver that makes the operations \<open>ops\<close> leaves in the recorder.\<close>

fun gpio_play :: "GpioOperation list \<Rightarrow> FakeGpio \<Rightarrow> FakeGpio" where
  "gpio_play [] g = g"
| "gpio_play (op_initialize # ops) g = gpio_play ops (snd (gpio_initialize g))"
| "gpio_play (op_configureInput p # ops) g = gpio_play ops (gpio_configureInput p g)"
| "gpio_play (op_configureOutput p v # ops) g = gpio_play ops (gpio_configureOutput p v g)"
| "gpio_play (op_read p v # ops) g = gpio_play ops (snd (gpio_read p g))"
| "gpio_play (op_write p v # ops) g = gpio_play ops (gpio_write p v g)"
| "gpio_play (op_delayMilliseconds d # ops) g = gpio_play ops (gpio_delayMilliseconds d g)"

section \<open>A device with a clock and a data pin\<close>

text \<open>
  The level of a pin after the operations, and the levels of the data pin at each rising edge
  of the clock: what a device that samples on the rising edge receives.
\<close>

fun pin_level :: "int \<Rightarrow> GpioOperation list \<Rightarrow> GpioValue \<Rightarrow> GpioValue" where
  "pin_level p [] v = v"
| "pin_level p (op_configureOutput q x # ops) v = pin_level p ops (if q = p then x else v)"
| "pin_level p (op_write q x # ops) v = pin_level p ops (if q = p then x else v)"
| "pin_level p (_ # ops) v = pin_level p ops v"

fun sampledBits :: "int \<Rightarrow> int \<Rightarrow> GpioOperation list \<Rightarrow> GpioValue \<Rightarrow> bool list" where
  "sampledBits dpin cpin [] v = []"
| "sampledBits dpin cpin (op_configureOutput q x # ops) v =
     sampledBits dpin cpin ops (if q = dpin then x else v)"
| "sampledBits dpin cpin (op_write q x # ops) v =
     (if q = dpin then sampledBits dpin cpin ops x
      else if q = cpin \<and> x = high then (v = high) # sampledBits dpin cpin ops v
      else sampledBits dpin cpin ops v)"
| "sampledBits dpin cpin (_ # ops) v = sampledBits dpin cpin ops v"

lemma pin_level_append [simp]:
  "pin_level p (ops @ ops') v = pin_level p ops' (pin_level p ops v)"
  by (induction p ops v rule: pin_level.induct) auto

lemma sampledBits_append [simp]:
  "sampledBits dpin cpin (ops @ ops') v =
     sampledBits dpin cpin ops v @ sampledBits dpin cpin ops' (pin_level dpin ops v)"
  by (induction dpin cpin ops v rule: sampledBits.induct) auto

definition clock_pulse :: "int \<Rightarrow> GpioOperation list" where
  "clock_pulse cpin = [op_write cpin high, op_write cpin low]"

lemma clock_pulse_simps [simp]:
  "dpin \<noteq> cpin \<Longrightarrow> sampledBits dpin cpin (clock_pulse cpin) v = [v = high]"
  "p \<noteq> cpin \<Longrightarrow> pin_level p (clock_pulse cpin) v = v"
  by (simp_all add: clock_pulse_def)

text \<open>The bits of a byte, the most significant first.\<close>

definition byte_bits :: "Int8U \<Rightarrow> bool list" where
  "byte_bits b = map (\<lambda>i. bit b (7 - i)) [0..<8]"

lemma length_byte_bits [simp]: "length (byte_bits b) = 8"
  by (simp add: byte_bits_def)

lemma byte_bits_0 [simp]: "byte_bits 0 = replicate 8 False"
  by (simp add: byte_bits_def upt_rec numeral_eq_Suc)

section \<open>The registers of the BCM2835\<close>

text \<open>The mapping is a function from the word offset to the value last stored there.\<close>

datatype register_error = OutOfRange

definition setRegister0 :: nat where "setRegister0 = 7"
definition clearRegister0 :: nat where "clearRegister0 = 10"
definition levelRegister0 :: nat where "levelRegister0 = 13"

definition supportsOffset :: "int \<Rightarrow> bool" where
  "supportsOffset bcmGpio \<longleftrightarrow> 0 \<le> bcmGpio \<and> bcmGpio < 32"

definition maskForOffset :: "int \<Rightarrow> register_error + Int32U" where
  "maskForOffset bcmGpio =
     (if \<not> supportsOffset bcmGpio then Inl OutOfRange else Inr (push_bit (nat bcmGpio) 1))"

definition registers_read :: "int \<Rightarrow> (nat \<Rightarrow> Int32U) \<Rightarrow> register_error + GpioValue" where
  "registers_read bcmGpio regs = (case maskForOffset bcmGpio of
     Inl e \<Rightarrow> Inl e
   | Inr m \<Rightarrow> Inr (gpio_bit (regs levelRegister0 AND m \<noteq> 0)))"

definition registers_write :: "int \<Rightarrow> GpioValue \<Rightarrow> (nat \<Rightarrow> Int32U) \<Rightarrow> register_error + (nat \<Rightarrow> Int32U)" where
  "registers_write bcmGpio v regs = (case maskForOffset bcmGpio of
     Inl e \<Rightarrow> Inl e
   | Inr m \<Rightarrow> Inr (regs((if v = high then setRegister0 else clearRegister0) := m)))"

text \<open>
  The chip is a parameter: it turns the lines as they were and the values just stored into the
  lines as they are. What is used of it is what its manual documents: a one in the set register
  drives its line high, a one in the clear register drives its line low, and a line with a zero
  in both keeps its level.
\<close>

definition chip_documented :: "((nat \<Rightarrow> Int32U) \<Rightarrow> Int32U \<Rightarrow> Int32U) \<Rightarrow> bool" where
  "chip_documented chip \<longleftrightarrow> (\<forall>regs levels n. n < 32 \<longrightarrow>
     (bit (regs setRegister0) n \<and> \<not> bit (regs clearRegister0) n \<longrightarrow> bit (chip regs levels) n) \<and>
     (bit (regs clearRegister0) n \<and> \<not> bit (regs setRegister0) n \<longrightarrow> \<not> bit (chip regs levels) n) \<and>
     (\<not> bit (regs setRegister0) n \<and> \<not> bit (regs clearRegister0) n \<longrightarrow>
        bit (chip regs levels) n = bit levels n))"

lemma mask_bit: "supportsOffset p \<Longrightarrow> bit (push_bit (nat p) (1::Int32U)) n \<longleftrightarrow> n = nat p"
  by (auto simp: supportsOffset_def bit_simps)

lemma registers_read_bit:
  "supportsOffset q \<Longrightarrow> registers_read q regs = Inr (gpio_bit (bit (regs levelRegister0) (nat q)))"
  by (simp add: registers_read_def maskForOffset_def and_exp_eq_0_iff_not_bit)

text \<open>
  A store to the registers drives exactly the line it names: after it, that line reads
  back as written, every other line of the bank reads as before, and an offset outside the
  bank is refused before any store.
\<close>

theorem register_write_drives_one_line:
  assumes "chip_documented chip" and "supportsOffset p"
  shows "\<exists>regs. registers_write p v (\<lambda>_. 0) = Inr regs \<and>
    (\<forall>q. supportsOffset q \<longrightarrow>
       registers_read q (\<lambda>i. if i = levelRegister0 then chip regs levels else 0) =
       Inr (if q = p then v else gpio_bit (bit levels (nat q)))) \<and>
    (\<forall>q. \<not> supportsOffset q \<longrightarrow> registers_write q v (\<lambda>_. 0) = Inl OutOfRange)"
proof -
  let ?regs = "(\<lambda>_. 0)((if v = high then setRegister0 else clearRegister0) := push_bit (nat p) 1 :: Int32U)"
  have w: "registers_write p v (\<lambda>_. 0) = Inr ?regs"
    using assms(2) by (simp add: registers_write_def maskForOffset_def)
  have "registers_read q (\<lambda>i. if i = levelRegister0 then chip ?regs levels else 0) =
       Inr (if q = p then v else gpio_bit (bit levels (nat q)))" if q: "supportsOffset q" for q
  proof -
    have nq: "nat q < 32" "nat q = nat p \<longleftrightarrow> q = p" using q assms(2) by (auto simp: supportsOffset_def)
    have "bit (chip ?regs levels) (nat q) \<longleftrightarrow> (if q = p then v = high else bit levels (nat q))"
      using nq mask_bit[OF assms(2), of "nat q"] assms(1)
      by (cases v) (auto simp: chip_documented_def setRegister0_def clearRegister0_def)
    then show ?thesis
      by (cases v) (simp_all add: registers_read_bit[OF q] del: fun_upd_apply)
  qed
  moreover have "registers_write q v (\<lambda>_. 0) = Inl OutOfRange" if "\<not> supportsOffset q" for q
    using that by (simp add: registers_write_def maskForOffset_def)
  ultimately show ?thesis using w by blast
qed

theorem register_write_drives_one_line_witness:
  "\<exists>regs. registers_write 6 high (\<lambda>_. 0) = Inr regs \<and>
    (\<forall>q. supportsOffset q \<longrightarrow>
       registers_read q (\<lambda>i. if i = levelRegister0 then (5 OR regs setRegister0) AND NOT (regs clearRegister0) else 0) =
       Inr (if q = 6 then high else gpio_bit (bit (5 :: Int32U) (nat q)))) \<and>
    (\<forall>q. \<not> supportsOffset q \<longrightarrow> registers_write q high (\<lambda>_. 0) = Inl OutOfRange)"
proof (rule register_write_drives_one_line)
  show "chip_documented (\<lambda>regs levels. (levels OR regs setRegister0) AND NOT (regs clearRegister0))"
    by (simp add: chip_documented_def bit_simps)
qed (simp add: supportsOffset_def)

end
