(* ===== verification/Interfaces.thy ===== *)
theory Interfaces
  imports Prelude
begin

text \<open>
  The interfaces that several components of the clock implement, as locales: a first-in
  first-out queue (the inboxes and the two work lists), a countdown (the timer services and
  the timeouts of the strip and of the message mode) and a store of pixels (the strip and the
  matrix). Each component interprets the ones it provides on its own definitions, and its
  properties rest on the lemmas proved here.
\<close>

section \<open>Queues\<close>

locale fifo =
  fixes push :: "'a \<Rightarrow> 'q \<Rightarrow> 'q"
    and pop :: "'q \<Rightarrow> 'a option \<times> 'q"
    and contents :: "'q \<Rightarrow> 'a list"
    and wf :: "'q \<Rightarrow> bool"
  assumes contents_push: "wf q \<Longrightarrow> contents (push x q) = contents q @ [x]"
    and pop_empty: "wf q \<Longrightarrow> contents q = [] \<Longrightarrow> pop q = (None, q)"
    and pop_front: "wf q \<Longrightarrow> contents q = x # xs \<Longrightarrow> fst (pop q) = Some x"
    and contents_pop: "wf q \<Longrightarrow> contents q = x # xs \<Longrightarrow> contents (snd (pop q)) = xs"
    and wf_push: "wf q \<Longrightarrow> wf (push x q)"
    and wf_pop: "wf q \<Longrightarrow> wf (snd (pop q))"
begin

primrec push_all :: "'a list \<Rightarrow> 'q \<Rightarrow> 'q" where
  "push_all [] q = q"
| "push_all (x # xs) q = push_all xs (push x q)"

primrec pop_n :: "nat \<Rightarrow> 'q \<Rightarrow> 'a list \<times> 'q" where
  "pop_n 0 q = ([], q)"
| "pop_n (Suc n) q =
     (case pop q of
        (None, q') \<Rightarrow> ([], q')
      | (Some x, q') \<Rightarrow> (case pop_n n q' of (xs, q'') \<Rightarrow> (x # xs, q'')))"

lemma wf_push_all: "wf q \<Longrightarrow> wf (push_all xs q)"
  by (induction xs arbitrary: q) (auto intro: wf_push)

lemma contents_push_all: "wf q \<Longrightarrow> contents (push_all xs q) = contents q @ xs"
  by (induction xs arbitrary: q) (simp_all add: contents_push wf_push)

lemma pop_n_contents:
  "wf q \<Longrightarrow> n \<le> length (contents q) \<Longrightarrow>
   fst (pop_n n q) = take n (contents q) \<and> contents (snd (pop_n n q)) = drop n (contents q)"
proof (induction n arbitrary: q)
  case 0
  then show ?case by simp
next
  case (Suc n)
  then obtain x xs where c: "contents q = x # xs"
    by (cases "contents q") auto
  obtain q' where p: "pop q = (Some x, q')"
    using pop_front[OF Suc.prems(1) c] by (cases "pop q") auto
  have "wf q'" "contents q' = xs"
    using wf_pop[OF Suc.prems(1)] contents_pop[OF Suc.prems(1) c] p by auto
  with Suc.IH[of q'] Suc.prems c p show ?case by (auto simp: split_beta)
qed

text \<open>What is pushed comes out in the order it went in, behind what was there.\<close>

lemma push_pop_order:
  assumes "wf q" "contents q = []"
  shows "fst (pop_n (length xs) (push_all xs q)) = xs"
  using pop_n_contents[of "push_all xs q" "length xs"] assms
  by (simp add: contents_push_all wf_push_all)

end

section \<open>Countdowns\<close>

text \<open>
  A countdown holds a number of ticks. A tick with ticks left counts one down, and the tick
  that leaves none is the one that fires.
\<close>

locale countdown =
  fixes left :: "'s \<Rightarrow> nat"
    and tick :: "'s \<Rightarrow> 's"
    and fires :: "'s \<Rightarrow> bool"
    and wf :: "'s \<Rightarrow> bool"
  assumes left_tick: "wf s \<Longrightarrow> 1 < left s \<Longrightarrow> left (tick s) = left s - 1"
    and fires_iff: "wf s \<Longrightarrow> fires s \<longleftrightarrow> left s = 1"
    and wf_tick: "wf s \<Longrightarrow> 1 < left s \<Longrightarrow> wf (tick s)"
begin

lemma left_ticks:
  "wf s \<Longrightarrow> k < left s \<Longrightarrow> left ((tick ^^ k) s) = left s - k \<and> wf ((tick ^^ k) s)"
  by (induction k) (auto simp: left_tick wf_tick)

text \<open>The countdown fires at the tick numbered by what is left, and at none before it.\<close>

lemma fires_exactly:
  assumes "wf s" "0 < left s" "k < left s"
  shows "fires ((tick ^^ k) s) \<longleftrightarrow> Suc k = left s"
  using left_ticks[OF assms(1,3)] fires_iff assms(3) by auto

lemma quiet_before: "wf s \<Longrightarrow> Suc k < left s \<Longrightarrow> \<not> fires ((tick ^^ k) s)"
  using fires_exactly[of s k] by auto

end

section \<open>Stores of cells\<close>

text \<open>
  A store of cells addressed by an index: writing an index in range changes that cell and no
  other, writing outside changes nothing.
\<close>

locale cell_store =
  fixes get :: "'s \<Rightarrow> 'i \<Rightarrow> 'v"
    and set_cell :: "'i \<Rightarrow> 'v \<Rightarrow> 's \<Rightarrow> 's"
    and valid :: "'s \<Rightarrow> 'i \<Rightarrow> bool"
    and norm :: "'v \<Rightarrow> 'v"
    and wf :: "'s \<Rightarrow> bool"
  assumes get_set_same: "wf s \<Longrightarrow> valid s i \<Longrightarrow> get (set_cell i v s) i = norm v"
    and get_set_other: "wf s \<Longrightarrow> valid s j \<Longrightarrow> i \<noteq> j \<Longrightarrow> get (set_cell i v s) j = get s j"
    and set_invalid: "wf s \<Longrightarrow> \<not> valid s i \<Longrightarrow> set_cell i v s = s"
    and valid_set: "wf s \<Longrightarrow> valid (set_cell i v s) = valid s"
    and wf_set: "wf s \<Longrightarrow> wf (set_cell i v s)"
begin

primrec set_cells :: "('i \<times> 'v) list \<Rightarrow> 's \<Rightarrow> 's" where
  "set_cells [] s = s"
| "set_cells (c # cs) s = set_cells cs (set_cell (fst c) (snd c) s)"

lemma wf_set_cells: "wf s \<Longrightarrow> wf (set_cells cs s)"
  by (induction cs arbitrary: s) (auto intro: wf_set)

lemma valid_set_cells: "wf s \<Longrightarrow> valid (set_cells cs s) = valid s"
  by (induction cs arbitrary: s) (auto simp: valid_set wf_set)

lemma get_set_cells:
  "wf s \<Longrightarrow> valid s j \<Longrightarrow>
   get (set_cells cs s) j = (case map_of (rev cs) j of None \<Rightarrow> get s j | Some v \<Rightarrow> norm v)"
proof (induction cs arbitrary: s)
  case Nil
  then show ?case by simp
next
  case (Cons c cs)
  obtain i v where c: "c = (i, v)" by (cases c)
  have "get (set_cell i v s) j = (if i = j then norm v else get s j)"
    using Cons.prems by (auto simp: get_set_same get_set_other)
  then show ?case
    using Cons c by (auto simp: wf_set valid_set map_add_def split: option.splits)
qed

end

end
