(* ===== verification/LPD8806.thy ===== *)
theory LPD8806
  imports Gpio_Lines Interfaces
begin

text \<open>
  \<^verbatim>\<open>lpd8806/LPD8806.h\<close> and \<^verbatim>\<open>lpd8806/LPD8806.cpp\<close>: the driver
  of the LED strip. Three bytes per LED in the order green, red, blue, each with its top bit
  set; a frame is shifted out over two pins or handed to an SPI output, followed by a latch of
  zero bits.
\<close>

section \<open>Model\<close>

text \<open>
  The pixel buffer is a pointer that is null, or points to allocated bytes, or dangles after
  \<^verbatim>\<open>free\<close>. Whether an allocation succeeds is an argument of the operation that
  makes it.
\<close>

datatype pixel_buffer = NullBuffer | Allocated "Int8U list" | Dangling

record LPD8806 =
  spiOutput :: bool
  numLEDs :: Int16U
  largestChangedLed :: Int16U
  pixels :: pixel_buffer
  clkpin :: Int8U
  datapin :: Int8U
  begun :: bool

datatype strip_error = DoubleFree | SpiHasNoPins

abbreviation (input) BYTES_PER_LED :: nat where
  "BYTES_PER_LED \<equiv> 3"

definition buffer_bytes :: "LPD8806 \<Rightarrow> Int8U list" where
  "buffer_bytes s = (case pixels s of Allocated bs \<Rightarrow> bs | _ \<Rightarrow> [])"

definition Color :: "Int8U \<Rightarrow> Int8U \<Rightarrow> Int8U \<Rightarrow> Int32U" where
  "Color r g b =
     push_bit 16 (ucast (g OR 0x80)) OR push_bit 8 (ucast (r OR 0x80)) OR ucast b OR 0x80"

definition nullColor :: Int32U where
  "nullColor = Color 0 0 0"

definition updateLength :: "bool \<Rightarrow> Int16U \<Rightarrow> LPD8806 \<Rightarrow> strip_error + LPD8806" where
  "updateLength mallocOk n s =
     (if pixels s = Dangling then Inl DoubleFree
      else
        let s1 = s\<lparr>numLEDs := 0, largestChangedLed := 0,
                    pixels := (if pixels s = NullBuffer then NullBuffer else Dangling)\<rparr>;
            dataBytes = unat n * BYTES_PER_LED
        in Inr (if 0 < n then
             (if mallocOk then
                s1\<lparr>numLEDs := n, pixels := Allocated (replicate dataBytes 0x80),
                   largestChangedLed := n - 1\<rparr>
              else s1\<lparr>pixels := NullBuffer\<rparr>)
           else s1))"

definition latchByteCount :: "LPD8806 \<Rightarrow> nat" where
  "latchByteCount s = (unat (numLEDs s) + 31) div 32"

definition transferSpiLatch :: "LPD8806 \<Rightarrow> Int8U list list" where
  "transferSpiLatch s =
     (let latch = replicate (latchByteCount s) 0 in if latch \<noteq> [] then [latch] else [])"

definition bitBangLatchSignal :: "LPD8806 \<Rightarrow> GpioOperation list" where
  "bitBangLatchSignal s =
     op_write (uint (datapin s)) low #
     concat (replicate (unat (of_nat (((unat (numLEDs s) + 31) div 32) * 8) :: Int16U))
       (clock_pulse (uint (clkpin s))))"

definition startBitbang :: "LPD8806 \<Rightarrow> GpioOperation list" where
  "startBitbang s =
     [op_configureOutput (uint (datapin s)) low, op_configureOutput (uint (clkpin s)) low] @
     bitBangLatchSignal s"

text \<open>An operation gives what it writes to the pins and what it transfers over SPI.\<close>

type_synonym strip_output = "GpioOperation list \<times> Int8U list list"

definition strip_begin :: "LPD8806 \<Rightarrow> strip_output \<times> LPD8806" where
  "strip_begin s =
     ((if spiOutput s then ([], transferSpiLatch s) else (startBitbang s, [])), s\<lparr>begun := True\<rparr>)"

definition updatePins :: "Int8U \<Rightarrow> Int8U \<Rightarrow> LPD8806 \<Rightarrow> (strip_error + GpioOperation list) \<times> LPD8806" where
  "updatePins dpin cpin s =
     (if spiOutput s then (Inl SpiHasNoPins, s)
      else
        let ops = (if begun s then [op_configureInput (uint (datapin s)), op_configureInput (uint (clkpin s))]
                   else []);
            s1 = s\<lparr>datapin := dpin, clkpin := cpin\<rparr>
        in (Inr (ops @ (if begun s1 then startBitbang s1 else [])), s1))"

definition emptyStrip :: "bool \<Rightarrow> LPD8806" where
  "emptyStrip spi = \<lparr>spiOutput = spi, numLEDs = 0, largestChangedLed = 0, pixels = NullBuffer,
     clkpin = 0, datapin = 0, begun = False\<rparr>"

definition newPinStrip :: "bool \<Rightarrow> Int16U \<Rightarrow> Int8U \<Rightarrow> Int8U \<Rightarrow> strip_error + LPD8806" where
  "newPinStrip mallocOk n dpin cpin =
     (case updateLength mallocOk n (emptyStrip False) of
        Inl e \<Rightarrow> Inl e
      | Inr s \<Rightarrow> (case updatePins dpin cpin s of (Inl e, _) \<Rightarrow> Inl e | (Inr _, s1) \<Rightarrow> Inr s1))"

definition newSpiStrip :: "bool \<Rightarrow> Int16U \<Rightarrow> strip_error + LPD8806" where
  "newSpiStrip mallocOk n = updateLength mallocOk n (emptyStrip True)"

definition deleteStrip :: "LPD8806 \<Rightarrow> strip_error + LPD8806" where
  "deleteStrip s = updateLength True 0 s"

definition numPixels :: "LPD8806 \<Rightarrow> Int16U" where
  "numPixels s = numLEDs s"

text \<open>
  The loops of \<^verbatim>\<open>show\<close>: a bit of a byte, all its bits from the top one, then all
  bytes. The argument \<open>cur\<close> is \<^verbatim>\<open>currDatapinValue\<close>, with \<open>None\<close> for
  \<^verbatim>\<open>~0\<close>.
\<close>

definition shiftBit :: "int \<Rightarrow> int \<Rightarrow> bool \<Rightarrow> bool option \<Rightarrow> GpioOperation list \<times> bool option" where
  "shiftBit dpin cpin b cur =
     ((if cur \<noteq> Some b then [op_write dpin (gpio_bit b)] else []) @ clock_pulse cpin, Some b)"

fun shiftBits :: "int \<Rightarrow> int \<Rightarrow> bool list \<Rightarrow> bool option \<Rightarrow> GpioOperation list \<times> bool option" where
  "shiftBits dpin cpin [] cur = ([], cur)"
| "shiftBits dpin cpin (b # bs) cur =
     (let (ops, cur1) = shiftBit dpin cpin b cur; (ops', cur2) = shiftBits dpin cpin bs cur1
      in (ops @ ops', cur2))"

fun shiftBytes :: "int \<Rightarrow> int \<Rightarrow> Int8U list \<Rightarrow> bool option \<Rightarrow> GpioOperation list \<times> bool option" where
  "shiftBytes dpin cpin [] cur = ([], cur)"
| "shiftBytes dpin cpin (p # ps) cur =
     (let (ops, cur1) = shiftBits dpin cpin (byte_bits p) cur;
          (ops', cur2) = shiftBytes dpin cpin ps cur1
      in (ops @ ops', cur2))"

definition strip_show :: "LPD8806 \<Rightarrow> strip_output \<times> LPD8806" where
  "strip_show s =
     (if numLEDs s = 0 then (([], []), s)
      else if spiOutput s then
        let dataBytes = unat (numPixels s) * BYTES_PER_LED;
            frame = take dataBytes (buffer_bytes s) @ replicate (latchByteCount s) 0
        in (([], [frame]), s\<lparr>largestChangedLed := 0\<rparr>)
      else
        let i = unat (numPixels s * of_nat BYTES_PER_LED :: Int16U);
            ops = fst (shiftBytes (uint (datapin s)) (uint (clkpin s)) (take i (buffer_bytes s)) None)
        in ((ops @ bitBangLatchSignal s, []), s\<lparr>largestChangedLed := 0\<rparr>))"

definition store_pixel :: "Int16U \<Rightarrow> Int8U \<Rightarrow> Int8U \<Rightarrow> Int8U \<Rightarrow> LPD8806 \<Rightarrow> LPD8806" where
  "store_pixel n b0 b1 b2 s =
     (if n < numLEDs s then
        let k = unat n * BYTES_PER_LED; bs = buffer_bytes s
        in s\<lparr>pixels := Allocated (bs[k := b0 OR 0x80, k + 1 := b1 OR 0x80, k + 2 := b2 OR 0x80]),
             largestChangedLed := (if largestChangedLed s < n then n else largestChangedLed s)\<rparr>
      else s)"

definition setPixelColorRGB :: "Int16U \<Rightarrow> Int8U \<Rightarrow> Int8U \<Rightarrow> Int8U \<Rightarrow> LPD8806 \<Rightarrow> LPD8806" where
  "setPixelColorRGB n r g b s = store_pixel n g r b s"

definition setPixelColor :: "Int16U \<Rightarrow> Int32U \<Rightarrow> LPD8806 \<Rightarrow> LPD8806" where
  "setPixelColor n c s = store_pixel n (ucast (drop_bit 16 c)) (ucast (drop_bit 8 c)) (ucast c) s"

definition clearPixelColors :: "LPD8806 \<Rightarrow> LPD8806" where
  "clearPixelColors s =
     (if numLEDs s = 0 \<or> pixels s = NullBuffer then s\<lparr>largestChangedLed := 0\<rparr>
      else s\<lparr>pixels := Allocated (replicate (unat (numLEDs s) * BYTES_PER_LED) 0x80),
             largestChangedLed := numLEDs s - 1\<rparr>)"

text \<open>The packed form computes its offset in 16 bits.\<close>

definition getPixelColor :: "Int16U \<Rightarrow> LPD8806 \<Rightarrow> Int32U" where
  "getPixelColor n s =
     (if n < numLEDs s then
        let ofs = unat (n * of_nat BYTES_PER_LED :: Int16U); bs = buffer_bytes s
        in push_bit 16 (ucast (bs ! ofs AND 0x7F)) OR
           push_bit 8 (ucast (bs ! (ofs + 1) AND 0x7F)) OR ucast (bs ! (ofs + 2) AND 0x7F)
      else 0)"

definition getPixelColorRGB :: "Int16U \<Rightarrow> LPD8806 \<Rightarrow> Int8U \<times> Int8U \<times> Int8U" where
  "getPixelColorRGB n s =
     (if n < numLEDs s then
        let k = unat n * BYTES_PER_LED; bs = buffer_bytes s
        in (bs ! (k + 1) AND 0x7F, bs ! k AND 0x7F, bs ! (k + 2) AND 0x7F)
      else (0, 0, 0))"

section \<open>The invariant\<close>

text \<open>
  The buffer has three bytes per LED, each with its top bit set, so that no byte of a frame
  can be taken for a latch byte.
\<close>

definition strip_inv :: "LPD8806 \<Rightarrow> bool" where
  "strip_inv s \<longleftrightarrow>
     length (buffer_bytes s) = unat (numLEDs s) * BYTES_PER_LED \<and>
     (\<forall>b \<in> set (buffer_bytes s). bit b 7) \<and>
     (numLEDs s \<noteq> 0 \<longrightarrow> largestChangedLed s < numLEDs s)"

text \<open>The lengths for which three times the number of LEDs fits in 16 bits.\<close>

definition strip_wf :: "LPD8806 \<Rightarrow> bool" where
  "strip_wf s \<longleftrightarrow> strip_inv s \<and> unat (numLEDs s) * BYTES_PER_LED < 2 ^ 16"

lemma bit_7_or_80 [simp]: "bit (b OR 0x80 :: Int8U) 7"
  by (simp add: bit_simps)

lemma strip_inv_updateLength [inv_intros]:
  assumes "updateLength ok n s = Inr s'"
  shows "strip_inv s'"
proof -
  have "n - 1 < n" if "n \<noteq> 0"
    using that by (simp add: word_less_nat_alt unat_minus_one_neq unat_gt_0)
  then show ?thesis
    using assms
    by (auto simp: updateLength_def strip_inv_def buffer_bytes_def Let_def word_gt_0 bit_simps
        split: if_splits)
qed

lemma store_pixel_sel [simp]:
  "numLEDs (store_pixel n b0 b1 b2 s) = numLEDs s"
  "spiOutput (store_pixel n b0 b1 b2 s) = spiOutput s"
  "datapin (store_pixel n b0 b1 b2 s) = datapin s"
  "clkpin (store_pixel n b0 b1 b2 s) = clkpin s"
  by (simp_all add: store_pixel_def Let_def)

lemma buffer_store_pixel:
  "buffer_bytes (store_pixel n b0 b1 b2 s) =
     (if n < numLEDs s
      then (buffer_bytes s)[unat n * 3 := b0 OR 0x80, unat n * 3 + 1 := b1 OR 0x80,
             unat n * 3 + 2 := b2 OR 0x80]
      else buffer_bytes s)"
  by (simp add: store_pixel_def Let_def buffer_bytes_def)

lemma set_update_3: "set (xs[i := a, j := b, k := c]) \<subseteq> {a, b, c} \<union> set xs"
  using set_update_subset_insert[of "xs[i := a, j := b]" k c]
    set_update_subset_insert[of "xs[i := a]" j b] set_update_subset_insert[of xs i a] by blast

lemma strip_inv_store_pixel [inv_intros]: "strip_inv s \<Longrightarrow> strip_inv (store_pixel n b0 b1 b2 s)"
  unfolding strip_inv_def buffer_store_pixel store_pixel_sel
proof (intro conjI ballI impI)
  assume inv: "length (buffer_bytes s) = unat (numLEDs s) * 3 \<and> (\<forall>b\<in>set (buffer_bytes s). bit b 7) \<and>
    (numLEDs s \<noteq> 0 \<longrightarrow> largestChangedLed s < numLEDs s)"
  show "length (if n < numLEDs s then (buffer_bytes s)[unat n * 3 := b0 OR 0x80,
      unat n * 3 + 1 := b1 OR 0x80, unat n * 3 + 2 := b2 OR 0x80] else buffer_bytes s) =
    unat (numLEDs s) * 3" using inv by simp
  show "bit b 7" if "b \<in> set (if n < numLEDs s then (buffer_bytes s)[unat n * 3 := b0 OR 0x80,
      unat n * 3 + 1 := b1 OR 0x80, unat n * 3 + 2 := b2 OR 0x80] else buffer_bytes s)" for b
  proof (cases "n < numLEDs s")
    case True
    have "b \<in> {b0 OR 0x80, b1 OR 0x80, b2 OR 0x80} \<union> set (buffer_bytes s)"
      using that[unfolded if_P[OF True]] by (rule subsetD[OF set_update_3])
    with inv show ?thesis by auto
  qed (use that inv in simp)
  show "largestChangedLed (store_pixel n b0 b1 b2 s) < numLEDs s" if "numLEDs s \<noteq> 0"
    using that inv by (simp add: store_pixel_def Let_def)
qed

lemma strip_wf_store_pixel [simp]: "strip_wf s \<Longrightarrow> strip_wf (store_pixel n b0 b1 b2 s)"
  by (simp add: strip_wf_def strip_inv_store_pixel)

lemma strip_wf_set [simp]: "strip_wf s \<Longrightarrow> strip_wf (setPixelColor n c s)"
  by (simp add: setPixelColor_def)

section \<open>Pixels are a store of cells\<close>

lemma unat_3_mult: "unat n * 3 < 2 ^ 16 \<Longrightarrow> unat (n * 3 :: Int16U) = unat n * 3"
  by (simp add: unat_word_ariths)

lemma nth_update_3:
  assumes "3 * m + 2 < length xs" "3 * n + 2 < length xs"
  shows "(xs[m * 3 := a, m * 3 + 1 := b, m * 3 + 2 := c]) ! (n * 3) = (if m = n then a else xs ! (n * 3))"
    "(xs[m * 3 := a, m * 3 + 1 := b, m * 3 + 2 := c]) ! (n * 3 + 1) = (if m = n then b else xs ! (n * 3 + 1))"
    "(xs[m * 3 := a, m * 3 + 1 := b, m * 3 + 2 := c]) ! (n * 3 + 2) = (if m = n then c else xs ! (n * 3 + 2))"
  using assms by (auto simp: nth_list_update; presburger)+

lemma pixel_index:
  assumes "strip_wf s" "n < numLEDs s"
  shows "3 * unat n + 2 < length (buffer_bytes s)" "unat (n * 3 :: Int16U) = unat n * 3"
proof -
  have lt: "unat n < unat (numLEDs s)" using assms(2) by (simp add: word_less_nat_alt)
  then show "3 * unat n + 2 < length (buffer_bytes s)"
    using assms(1) by (simp add: strip_wf_def strip_inv_def)
  show "unat (n * 3 :: Int16U) = unat n * 3"
    using assms(1) lt by (intro unat_3_mult) (simp add: strip_wf_def)
qed

lemma color_bytes:
  "push_bit 16 (ucast ((ucast (drop_bit 16 c) OR 0x80 :: Int8U) AND 0x7F)) OR
   push_bit 8 (ucast ((ucast (drop_bit 8 c) OR 0x80 :: Int8U) AND 0x7F)) OR
   ucast ((ucast c OR 0x80 :: Int8U) AND 0x7F) = (c AND 0x7F7F7F :: Int32U)"
proof (rule bit_word_eqI)
  fix n assume "n < LENGTH(32)"
  then have "n < 32" by simp
  from less_32_cases[OF this]
  show "bit (push_bit 16 (ucast ((ucast (drop_bit 16 c) OR 0x80 :: Int8U) AND 0x7F)) OR
     push_bit 8 (ucast ((ucast (drop_bit 8 c) OR 0x80 :: Int8U) AND 0x7F)) OR
     ucast ((ucast c OR 0x80 :: Int8U) AND 0x7F) :: Int32U) n = bit (c AND 0x7F7F7F) n"
    by (elim disjE; simp add: bit_simps)
qed

lemma getPixelColor_set:
  assumes wf: "strip_wf s" and m: "m < numLEDs s"
  shows "getPixelColor m (setPixelColor n c s) =
    (if n = m then c AND 0x7F7F7F else getPixelColor m s)"
proof (cases "n < numLEDs s")
  case False
  then show ?thesis using m by (auto simp: setPixelColor_def store_pixel_def)
next
  case True
  let ?s = "setPixelColor n c s"
  have wf': "strip_wf ?s" using wf by simp
  have nm: "numLEDs ?s = numLEDs s" by (simp add: setPixelColor_def)
  note ix = pixel_index[OF wf m] pixel_index[OF wf True]
  have eq: "unat n = unat m \<longleftrightarrow> n = m" by (simp add: word_unat_eq_iff)
  note up = nth_update_3[OF ix(3) ix(1), unfolded eq]
  show ?thesis
    using m True unfolding getPixelColor_def nm Let_def
    by (simp add: ix(2) setPixelColor_def buffer_store_pixel up[simplified] color_bytes)
qed

interpretation strip_cells: cell_store
  "\<lambda>s n. getPixelColor n s" setPixelColor "\<lambda>s n. n < numLEDs s" "\<lambda>c. c AND 0x7F7F7F" strip_wf
  by unfold_locales
    (simp_all add: getPixelColor_set, simp_all add: setPixelColor_def, simp add: store_pixel_def)

text \<open>
  Setting and reading the strip: after any sequence of \<^verbatim>\<open>setPixelColor\<close>
  calls, an LED reads back the color of the last call for it, with the seven bits that a
  component has, an LED that no call names reads back as before, and the frame stays one in
  which every byte has its top bit set.
\<close>

theorem strip_set_get:
  assumes "strip_wf s" and "m < numLEDs s"
  shows "getPixelColor m (fold (\<lambda>(n, c). setPixelColor n c) cs s) =
     (case map_of (rev cs) m of None \<Rightarrow> getPixelColor m s | Some c \<Rightarrow> c AND 0x7F7F7F) \<and>
   strip_wf (fold (\<lambda>(n, c). setPixelColor n c) cs s)"
proof -
  have "fold (\<lambda>(n, c). setPixelColor n c) cs s = strip_cells.set_cells cs s"
    by (induction cs arbitrary: s) (auto simp: split_beta)
  then show ?thesis using strip_cells.get_set_cells[OF assms] strip_cells.wf_set_cells[OF assms(1)] by simp
qed

definition sampleStrip :: LPD8806 where
  "sampleStrip = (emptyStrip False)\<lparr>numLEDs := 4, largestChangedLed := 3,
     pixels := Allocated (replicate 12 0x80), datapin := 5, clkpin := 6\<rparr>"

lemma sampleStrip_wf: "strip_wf sampleStrip"
  by (simp add: strip_wf_def strip_inv_def sampleStrip_def buffer_bytes_def emptyStrip_def bit_simps)

theorem strip_set_get_witness:
  "getPixelColor 2 (fold (\<lambda>(n, c). setPixelColor n c) [(2, 1), (9, 3), (2, 0xFF0201)] sampleStrip) = 0x7F0201"
  using strip_set_get[OF sampleStrip_wf, of 2 "[(2, 1), (9, 3), (2, 0xFF0201)]"]
  by (simp add: sampleStrip_def)

section \<open>What the strip receives\<close>

text \<open>
  With a cached level that agrees with the pin, shifting bits makes the receiver sample exactly
  those bits; skipping a write of the level that the pin has already loses nothing.
\<close>

definition cache_ok :: "bool option \<Rightarrow> GpioValue \<Rightarrow> bool" where
  "cache_ok cur v \<longleftrightarrow> (\<forall>b. cur = Some b \<longrightarrow> v = gpio_bit b)"

lemma shiftBit_sampled:
  assumes "dpin \<noteq> cpin" "cache_ok cur v" "shiftBit dpin cpin b cur = (ops, cur')"
  shows "sampledBits dpin cpin ops v = [b] \<and> cache_ok cur' (pin_level dpin ops v)"
  using assms by (auto simp: shiftBit_def cache_ok_def)

lemma shiftBits_sampled:
  "dpin \<noteq> cpin \<Longrightarrow> cache_ok cur v \<Longrightarrow> shiftBits dpin cpin bs cur = (ops, cur') \<Longrightarrow>
   sampledBits dpin cpin ops v = bs \<and> cache_ok cur' (pin_level dpin ops v)"
proof (induction dpin cpin bs cur arbitrary: v ops cur' rule: shiftBits.induct)
  case (1 dpin cpin cur)
  then show ?case by simp
next
  case (2 dpin cpin b bs cur)
  obtain o1 c1 where b1: "shiftBit dpin cpin b cur = (o1, c1)" by fastforce
  obtain o2 c2 where b2: "shiftBits dpin cpin bs c1 = (o2, c2)" by fastforce
  note s1 = shiftBit_sampled[OF 2(2,3) b1]
  have "sampledBits dpin cpin o2 (pin_level dpin o1 v) = bs \<and>
      cache_ok c2 (pin_level dpin o2 (pin_level dpin o1 v))"
    using 2(1)[OF b1[symmetric] refl 2(2)] s1 b2 by blast
  with s1 b1 b2 2(4) show ?case by auto
qed

lemma shiftBytes_sampled:
  "dpin \<noteq> cpin \<Longrightarrow> cache_ok cur v \<Longrightarrow> shiftBytes dpin cpin ps cur = (ops, cur') \<Longrightarrow>
   sampledBits dpin cpin ops v = concat (map byte_bits ps)"
proof (induction dpin cpin ps cur arbitrary: v ops cur' rule: shiftBytes.induct)
  case (1 dpin cpin cur)
  then show ?case by simp
next
  case (2 dpin cpin p ps cur)
  obtain o1 c1 where b1: "shiftBits dpin cpin (byte_bits p) cur = (o1, c1)" by fastforce
  obtain o2 c2 where b2: "shiftBytes dpin cpin ps c1 = (o2, c2)" by fastforce
  note s1 = shiftBits_sampled[OF 2(2,3) b1]
  have "sampledBits dpin cpin o2 (pin_level dpin o1 v) = concat (map byte_bits ps)"
    using 2(1)[OF b1[symmetric] refl 2(2)] s1 b2 by blast
  with s1 b1 b2 2(4) show ?case by auto
qed

lemma sampled_pulses:
  "dpin \<noteq> cpin \<Longrightarrow> sampledBits dpin cpin (concat (replicate n (clock_pulse cpin))) v = replicate n (v = high)"
  by (induction n) simp_all

lemma concat_byte_bits_0: "concat (map byte_bits (replicate n 0)) = replicate (8 * n) False"
  by (induction n) (simp_all add: replicate_add)

lemma latch_sampled:
  assumes "datapin s \<noteq> clkpin s"
  shows "sampledBits (uint (datapin s)) (uint (clkpin s)) (bitBangLatchSignal s) v =
    concat (map byte_bits (replicate (latchByteCount s) 0))"
proof -
  have "unat (numLEDs s) < 65536" using unsigned_less[of "numLEDs s"] by simp
  then have "(unat (numLEDs s) + 31) div 32 * 8 < 65536" by linarith
  moreover have "unat (of_nat k :: Int16U) = k" if "k < 65536" for k
    using that by (simp add: unat_of_nat)
  ultimately have "unat (of_nat ((unat (numLEDs s) + 31) div 32 * 8) :: Int16U) = 8 * latchByteCount s"
    unfolding latchByteCount_def by (metis mult.commute)
  note c = this
  show ?thesis
    unfolding bitBangLatchSignal_def c concat_byte_bits_0 using assms
    by (simp add: sampled_pulses word_uint_eq_iff[symmetric])
qed

text \<open>
  C15. The two transports agree: what a strip on the two pins samples, at the rising edges of
  its clock, when \<^verbatim>\<open>show\<close> is called is, bit by bit and most significant bit
  first, the frame that \<^verbatim>\<open>show\<close> hands to an SPI output for the same pixels: all
  pixel bytes and then one latch byte for every 32 LEDs begun. It holds whatever level the
  data pin had before.
\<close>

theorem bitbang_sends_spi_frame:
  assumes "strip_wf s" and "numLEDs s \<noteq> 0" and "\<not> spiOutput s" and "datapin s \<noteq> clkpin s"
  shows "\<exists>ops s1 frame s2. strip_show s = ((ops, []), s1) \<and>
    strip_show (s\<lparr>spiOutput := True\<rparr>) = (([], [frame]), s2) \<and>
    sampledBits (uint (datapin s)) (uint (clkpin s)) ops v = concat (map byte_bits frame) \<and>
    frame = buffer_bytes s @ replicate ((unat (numLEDs s) + 31) div 32) 0"
proof -
  let ?d = "uint (datapin s)" and ?c = "uint (clkpin s)"
  have dc: "?d \<noteq> ?c" using assms(4) by (simp add: word_uint_eq_iff[symmetric])
  have len: "length (buffer_bytes s) = unat (numLEDs s) * 3"
    and i: "unat (numLEDs s * 3 :: Int16U) = unat (numLEDs s) * 3"
    using assms(1) unat_3_mult[of "numLEDs s"] by (simp_all add: strip_wf_def strip_inv_def)
  obtain ops cur where sh: "shiftBytes ?d ?c (buffer_bytes s) None = (ops, cur)" by fastforce
  have "sampledBits ?d ?c ops v = concat (map byte_bits (buffer_bytes s))"
    using shiftBytes_sampled[OF dc _ sh, of v] by (simp add: cache_ok_def)
  moreover have "strip_show s = ((ops @ bitBangLatchSignal s, []), s\<lparr>largestChangedLed := 0\<rparr>)"
    using assms sh len i by (simp add: strip_show_def Let_def numPixels_def)
  moreover have "strip_show (s\<lparr>spiOutput := True\<rparr>) =
      (([], [buffer_bytes s @ replicate (latchByteCount s) 0]), s\<lparr>spiOutput := True, largestChangedLed := 0\<rparr>)"
    using assms len by (simp add: strip_show_def Let_def numPixels_def buffer_bytes_def latchByteCount_def)
  moreover note latch_sampled[OF assms(4), of "pin_level ?d ops v"]
  ultimately show ?thesis by (simp add: latchByteCount_def)
qed

theorem bitbang_sends_spi_frame_witness:
  "\<exists>ops s1 frame s2. strip_show sampleStrip = ((ops, []), s1) \<and>
    strip_show (sampleStrip\<lparr>spiOutput := True\<rparr>) = (([], [frame]), s2) \<and>
    sampledBits 5 6 ops high = concat (map byte_bits frame) \<and> frame = replicate 12 0x80 @ [0]"
  using bitbang_sends_spi_frame[OF sampleStrip_wf, of high]
  by (simp add: sampleStrip_def emptyStrip_def buffer_bytes_def)

text \<open>
  C39. A strip whose length is set to zero keeps a dangling buffer: the next change of length,
  and so the destructor, frees the buffer a second time.
\<close>

theorem zero_length_then_double_free:
  assumes "strip_inv s" and "numLEDs s \<noteq> 0"
  shows "\<exists>s1. updateLength ok 0 s = Inr s1 \<and> numLEDs s1 = 0 \<and>
           updateLength ok n s1 = Inl DoubleFree \<and> deleteStrip s1 = Inl DoubleFree"
proof -
  have "unat (numLEDs s) \<noteq> 0" using assms(2) by (simp add: unat_eq_0)
  then obtain bs where "pixels s = Allocated bs"
    using assms(1) by (cases "pixels s") (auto simp: strip_inv_def buffer_bytes_def)
  then show ?thesis by (simp add: updateLength_def deleteStrip_def Let_def)
qed

theorem zero_length_then_double_free_witness:
  "\<exists>s1. updateLength True 0 sampleStrip = Inr s1 \<and> numLEDs s1 = 0 \<and>
     updateLength True 8 s1 = Inl DoubleFree \<and> deleteStrip s1 = Inl DoubleFree"
  using sampleStrip_wf
  by (intro zero_length_then_double_free) (simp_all add: strip_wf_def, simp add: sampleStrip_def)

end
