(* ===== verification/Inbox.thy ===== *)
theory Inbox
  imports Interfaces
begin

text \<open>
  \<^verbatim>\<open>src/inbox.h\<close>, \<^verbatim>\<open>src/inbox.cpp\<close> and the thread ids of
  \<^verbatim>\<open>src/threadsMain.h\<close>: the mailbox of each thread and the registry that holds
  them. Every operation runs under the mutex of its object, so each is one step on the
  state.
\<close>

section \<open>Threads and messages\<close>

datatype ThreadId =
    threadIdDisplay | threadIdLedStrip | threadIdLightSensor | threadIdMotionSensor
  | threadIdMqttClient | threadIdDictionary | threadIdTimerTick
  | threadIdIgnore

text \<open>The ids below \<^verbatim>\<open>threadIdCount\<close>, in the order of the enumeration;
  \<open>threadIdIgnore\<close> is \<^verbatim>\<open>threadIdCount\<close> itself.\<close>

definition threadIds :: "ThreadId list" where
  "threadIds = [threadIdDisplay, threadIdLedStrip, threadIdLightSensor, threadIdMotionSensor,
     threadIdMqttClient, threadIdDictionary, threadIdTimerTick]"

datatype InboxMsgType =
    inboxMsgTypeNoop | inboxMsgTypeTerminate | inboxMsgTypeMotionOn | inboxMsgTypeMotionOff
  | inboxMsgTypeTimerTickMessage | inboxMsgTypeDisplayBrightHigh | inboxMsgTypeDisplayBrightLow
  | inboxMsgTypeDisplayModeNothing | inboxMsgTypeDisplayModeBasicClock
  | inboxMsgTypeDisplayModeMessage | inboxMsgTypeCount

record InboxMsg =
  inboxMsgType :: InboxMsgType
  payload :: "Int8U list"

definition maxPayloadSize :: nat where
  "maxPayloadSize = 64"

definition initPayload :: "InboxMsg \<Rightarrow> InboxMsg" where
  "initPayload m = m\<lparr>payload := replicate maxPayloadSize 0\<rparr>"

definition mkInboxMsg :: "InboxMsgType \<Rightarrow> InboxMsg" where
  "mkInboxMsg t = initPayload \<lparr>inboxMsgType = t, payload = []\<rparr>"

section \<open>One inbox\<close>

record Inbox =
  msgs :: "InboxMsg list"
  msgCount :: Int32U

definition newInbox :: Inbox where
  "newInbox = \<lparr>msgs = [], msgCount = 0\<rparr>"

definition timerTickMessage :: InboxMsg where
  "timerTickMessage = mkInboxMsg inboxMsgTypeTimerTickMessage"

definition addMessage :: "InboxMsg \<Rightarrow> Inbox \<Rightarrow> Inbox" where
  "addMessage msg q = q\<lparr>msgs := msgs q @ [msg], msgCount := msgCount q + 1\<rparr>"

text \<open>\<open>None\<close> is the result \<^verbatim>\<open>false\<close>, with the out-parameter untouched.\<close>

definition getMessage :: "Inbox \<Rightarrow> InboxMsg option \<times> Inbox" where
  "getMessage q = (case msgs q of
     [] \<Rightarrow> (None, q)
   | m # ms \<Rightarrow> (Some m, q\<lparr>msgs := ms, msgCount := msgCount q - 1\<rparr>))"

text \<open>\<open>None\<close>: the caller stays blocked on the condition variable.\<close>

definition waitForMessage :: "Inbox \<Rightarrow> (InboxMsg \<times> Inbox) option" where
  "waitForMessage q = (case msgs q of
     [] \<Rightarrow> None
   | m # ms \<Rightarrow> Some (m, q\<lparr>msgs := ms, msgCount := msgCount q - 1\<rparr>))"

definition inbox_empty :: "Inbox \<Rightarrow> bool" where
  "inbox_empty q \<longleftrightarrow> msgs q = []"

definition getMsgCount :: "Inbox \<Rightarrow> Int32U" where
  "getMsgCount q = msgCount q"

definition inbox_clear :: "Inbox \<Rightarrow> Inbox" where
  "inbox_clear q = q\<lparr>msgs := [], msgCount := 0\<rparr>"

section \<open>The registry\<close>

text \<open>
  \<^verbatim>\<open>std::unordered_map<int, Inbox*>\<close>: every loop over it treats each inbox on its
  own, so its iteration order does not matter and the registry is a partial map. The
  singleton pointer is an option.
\<close>

type_synonym InboxRegistry = "ThreadId \<Rightarrow> Inbox option"

definition registry_bind :: "InboxRegistry option \<Rightarrow> InboxRegistry" where
  "registry_bind inst = (case inst of None \<Rightarrow> (\<lambda>_. None) | Some r \<Rightarrow> r)"

definition registry_shutdown :: "InboxRegistry option \<Rightarrow> InboxRegistry option" where
  "registry_shutdown inst = None"

definition getInbox :: "ThreadId \<Rightarrow> InboxRegistry \<Rightarrow> Inbox \<times> InboxRegistry" where
  "getInbox t r = (case r t of
     Some q \<Rightarrow> (q, r)
   | None \<Rightarrow> (newInbox, r(t \<mapsto> newInbox)))"

definition broadcast :: "InboxMsg \<Rightarrow> ThreadId \<Rightarrow> InboxRegistry \<Rightarrow> InboxRegistry" where
  "broadcast msg from r =
     (\<lambda>t. map_option (\<lambda>q. if t \<noteq> from then addMessage msg q else q) (r t))"

section \<open>Laws\<close>

text \<open>The counter is the length of the list, modulo its width.\<close>

definition inbox_wf :: "Inbox \<Rightarrow> bool" where
  "inbox_wf q \<longleftrightarrow> msgCount q = of_nat (length (msgs q))"

definition registry_wf :: "InboxRegistry \<Rightarrow> bool" where
  "registry_wf r \<longleftrightarrow> (\<forall>t q. r t = Some q \<longrightarrow> inbox_wf q)"

lemma inbox_wf_new [simp, inv_intros]: "inbox_wf newInbox"
  by (simp add: inbox_wf_def newInbox_def)

lemma inbox_wf_clear [simp, inv_intros]: "inbox_wf (inbox_clear q)"
  by (simp add: inbox_wf_def inbox_clear_def)

lemma inbox_wf_add [simp, inv_intros]: "inbox_wf q \<Longrightarrow> inbox_wf (addMessage m q)"
  by (simp add: inbox_wf_def addMessage_def add.commute)

lemma inbox_wf_get [simp, inv_intros]: "inbox_wf q \<Longrightarrow> inbox_wf (snd (getMessage q))"
  by (auto simp: inbox_wf_def getMessage_def split: list.splits)

lemma msgs_addMessage [simp]: "msgs (addMessage m q) = msgs q @ [m]"
  by (simp add: addMessage_def)

lemma msgs_newInbox [simp]: "msgs newInbox = []"
  by (simp add: newInbox_def)

interpretation inboxq: fifo addMessage getMessage msgs inbox_wf
  by unfold_locales (simp_all, simp_all add: getMessage_def)

lemma waitForMessage_iff: "waitForMessage q = Some (m, q') \<longleftrightarrow> getMessage q = (Some m, q')"
  by (auto simp: waitForMessage_def getMessage_def split: list.splits)

lemma registry_wf_getInbox [inv_intros]: "registry_wf r \<Longrightarrow> registry_wf (snd (getInbox t r))"
  by (auto simp: registry_wf_def getInbox_def split: option.splits)

lemma registry_wf_broadcast [inv_intros]: "registry_wf r \<Longrightarrow> registry_wf (broadcast m from r)"
  by (auto simp: registry_wf_def broadcast_def)

lemma dom_broadcast [simp]: "dom (broadcast m from r) = dom r"
  by (auto simp: broadcast_def)

lemma broadcast_msgs:
  "r t = Some q \<Longrightarrow>
   \<exists>q'. broadcast m from r t = Some q' \<and> msgs q' = (if t = from then msgs q else msgs q @ [m])"
  by (simp add: broadcast_def)

text \<open>Broadcasting is a push on every inbox but the sender's.\<close>

definition broadcast_all :: "InboxMsg list \<Rightarrow> ThreadId \<Rightarrow> InboxRegistry \<Rightarrow> InboxRegistry" where
  "broadcast_all ms from r = fold (\<lambda>m. broadcast m from) ms r"

lemma broadcast_all_push:
  "r t = Some q \<Longrightarrow>
   broadcast_all ms from r t = Some (if t = from then q else inboxq.push_all ms q)"
  unfolding broadcast_all_def
  by (induction ms arbitrary: r q) (auto simp: broadcast_def)

text \<open>
  C24. Messages broadcast by one thread reach every other registered thread completely and in
  the order they were sent: an inbox that was empty hands out exactly the broadcast messages
  when its owner reads as many, and the sender's own inbox stays empty.
\<close>

theorem broadcast_delivers_in_order:
  assumes "r t = Some q" and "msgs q = []" and "inbox_wf q"
  shows "\<exists>q'. broadcast_all ms from r t = Some q' \<and> inbox_wf q' \<and>
           fst (inboxq.pop_n (length ms) q') = (if t = from then [] else ms)"
proof (cases "t = from")
  case True
  have "fst (inboxq.pop_n n q) = []" for n
    using assms(2) by (cases n) (simp_all add: getMessage_def)
  with True assms show ?thesis by (simp add: broadcast_all_push)
next
  case False
  with assms show ?thesis
    by (simp add: broadcast_all_push inboxq.push_pop_order inboxq.wf_push_all)
qed

theorem broadcast_delivers_in_order_witness:
  "\<exists>q'. broadcast_all [mkInboxMsg inboxMsgTypeMotionOn, mkInboxMsg inboxMsgTypeMotionOff]
          threadIdMotionSensor (\<lambda>t. Some newInbox) threadIdMqttClient = Some q' \<and> inbox_wf q' \<and>
        fst (inboxq.pop_n 2 q') = [mkInboxMsg inboxMsgTypeMotionOn, mkInboxMsg inboxMsgTypeMotionOff]"
  using broadcast_delivers_in_order[of "\<lambda>t. Some newInbox" threadIdMqttClient newInbox
      "[mkInboxMsg inboxMsgTypeMotionOn, mkInboxMsg inboxMsgTypeMotionOff]" threadIdMotionSensor]
  by (simp add: numeral_2_eq_2)

end
