(* ===== verification/Timer_Tick.thy ===== *)
theory Timer_Tick
  imports Inbox
begin

text \<open>
  \<^verbatim>\<open>src/timerTick.h\<close> and \<^verbatim>\<open>src/timerTick.cpp\<close>: the clock's own
  timer. One thread sleeps for a tick of 12 ms and then counts down every registered service;
  a service that reaches zero runs its trigger and, when periodic, starts again.

  Services are objects that their owners hold and that the timer reaches by pointer, so they
  live in a store addressed by \<open>ServiceId\<close>. All operations hold
  \<^verbatim>\<open>instanceMutex\<close>.
\<close>

section \<open>Services\<close>

type_synonym TimerTickId = Int64U

definition nullCookie :: TimerTickId where
  "nullCookie = 0"

definition millisPerTick :: int where
  "millisPerTick = 12"

text \<open>
  The subclasses: a flag, a flag with a condition variable, and a message to an inbox, sent
  unless the condition function (if any) says no.
\<close>

datatype TickTrigger =
    TimerTickServiceBool bool
  | TimerTickServiceCv bool
  | TimerTickServiceMessage ThreadId "bool option"

record TimerTickService =
  interval :: int
  periodic :: bool
  cookie :: TimerTickId
  ticksLeft :: Int64U
  trigger :: TickTrigger

definition mkTimerTickService :: "int \<Rightarrow> bool \<Rightarrow> TickTrigger \<Rightarrow> TimerTickService" where
  "mkTimerTickService i p t =
     \<lparr>interval = i, periodic = p, cookie = nullCookie, ticksLeft = 0, trigger = t\<rparr>"

definition getIsRegistered :: "TimerTickService \<Rightarrow> bool" where
  "getIsRegistered s \<longleftrightarrow> cookie s \<noteq> nullCookie"

definition getIsExpired :: "TimerTickService \<Rightarrow> bool" where
  "getIsExpired s \<longleftrightarrow> ticksLeft s = 0"

definition expireTrigger :: "TimerTickService \<Rightarrow> InboxRegistry \<Rightarrow> TimerTickService \<times> InboxRegistry" where
  "expireTrigger s r = (case trigger s of
     TimerTickServiceBool _ \<Rightarrow> (s\<lparr>trigger := TimerTickServiceBool True\<rparr>, r)
   | TimerTickServiceCv _ \<Rightarrow> (s\<lparr>trigger := TimerTickServiceCv True\<rparr>, r)
   | TimerTickServiceMessage t cond \<Rightarrow>
       (s, if cond = None \<or> cond = Some True
           then r(t := map_option (addMessage timerTickMessage) (r t)) else r))"

text \<open>\<^verbatim>\<open>expired.exchange(false)\<close>; only the flag class has it.\<close>

definition getAndResetExpired :: "TimerTickService \<Rightarrow> bool \<times> TimerTickService" where
  "getAndResetExpired s = (case trigger s of
     TimerTickServiceBool b \<Rightarrow> (b, s\<lparr>trigger := TimerTickServiceBool False\<rparr>)
   | _ \<Rightarrow> (False, s))"

text \<open>\<^verbatim>\<open>wait()\<close> of the condition variable class; \<open>None\<close> while it blocks.\<close>

definition cvWait :: "TimerTickService \<Rightarrow> TimerTickService option" where
  "cvWait s = (case trigger s of
     TimerTickServiceCv True \<Rightarrow> Some (s\<lparr>trigger := TimerTickServiceCv False\<rparr>)
   | _ \<Rightarrow> None)"

definition startTimerTickService2 :: "TimerTickService \<Rightarrow> TimerTickService" where
  "startTimerTickService2 s =
     s\<lparr>ticksLeft := (if 0 \<le> interval s then word_of_int (1 + c_div (interval s) millisPerTick) else 1)\<rparr>"

section \<open>The timer\<close>

type_synonym ServiceId = nat

record TimerTick =
  nextTimerTickId :: TimerTickId
  timerTickServices :: "(TimerTickId \<times> ServiceId) list"
  services :: "ServiceId \<Rightarrow> TimerTickService"
  tickInboxes :: InboxRegistry

datatype tick_error = DoubleRegister | TooManyTimerTickServices | CouldNotInsert

definition newTimerTick :: "(ServiceId \<Rightarrow> TimerTickService) \<Rightarrow> InboxRegistry \<Rightarrow> TimerTick" where
  "newTimerTick svcs r = \<lparr>nextTimerTickId = nullCookie + 1, timerTickServices = [],
     services = svcs, tickInboxes = r\<rparr>"

definition update_service :: "ServiceId \<Rightarrow> (TimerTickService \<Rightarrow> TimerTickService) \<Rightarrow> TimerTick \<Rightarrow> TimerTick" where
  "update_service sid f w = w\<lparr>services := (services w)(sid := f (services w sid))\<rparr>"

text \<open>An exception leaves the effects of the statements before it.\<close>

definition registerTimerTickService ::
  "ServiceId \<Rightarrow> bool \<Rightarrow> TimerTick \<Rightarrow> (tick_error + TimerTickId) \<times> TimerTick" where
  "registerTimerTickService sid start w =
     (if getIsRegistered (services w sid) then (Inl DoubleRegister, w)
      else
        let c = nextTimerTickId w;
            w1 = update_service sid (\<lambda>s. s\<lparr>cookie := c\<rparr>) (w\<lparr>nextTimerTickId := c + 1\<rparr>)
        in if c = nullCookie then (Inl TooManyTimerTickServices, w1)
           else if map_of (timerTickServices w1) c \<noteq> None then (Inl CouldNotInsert, w1)
           else
             let w2 = w1\<lparr>timerTickServices := (c, sid) # timerTickServices w1\<rparr>;
                 w3 = (if start then update_service sid startTimerTickService2 w2 else w2)
             in (Inr c, w3))"

definition startTimerTickService :: "TimerTickId \<Rightarrow> TimerTick \<Rightarrow> bool \<times> TimerTick" where
  "startTimerTickService c w = (case map_of (timerTickServices w) c of
     None \<Rightarrow> (False, w)
   | Some sid \<Rightarrow> (True, update_service sid startTimerTickService2 w))"

definition unregisterTimerTickService :: "TimerTickId \<Rightarrow> TimerTick \<Rightarrow> TimerTick" where
  "unregisterTimerTickService c w = (case map_of (timerTickServices w) c of
     None \<Rightarrow> w
   | Some sid \<Rightarrow>
       (update_service sid (\<lambda>s. s\<lparr>cookie := nullCookie, ticksLeft := 0\<rparr>) w)
         \<lparr>timerTickServices := filter (\<lambda>e. fst e \<noteq> c) (timerTickServices w)\<rparr>)"

text \<open>The body of the loop of \<^verbatim>\<open>runThreadLoop\<close> for one entry, then for all.\<close>

definition tickService :: "TimerTickService \<Rightarrow> InboxRegistry \<Rightarrow> TimerTickService \<times> InboxRegistry" where
  "tickService s r =
     (if 0 < ticksLeft s then
        let s1 = s\<lparr>ticksLeft := ticksLeft s - 1\<rparr>
        in if ticksLeft s1 = 0 then
             let (s2, r2) = expireTrigger s1 r
             in (if periodic s2 \<and> getIsRegistered s2 then startTimerTickService2 s2 else s2, r2)
           else (s1, r)
      else (s, r))"

definition tickEntry :: "TimerTickId \<times> ServiceId \<Rightarrow> TimerTick \<Rightarrow> TimerTick" where
  "tickEntry e w =
     (let (s, r) = tickService (services w (snd e)) (tickInboxes w)
      in w\<lparr>services := (services w)(snd e := s), tickInboxes := r\<rparr>)"

definition timerTick :: "TimerTick \<Rightarrow> TimerTick" where
  "timerTick w = fold tickEntry (timerTickServices w) w"

text \<open>One round of \<^verbatim>\<open>runThreadLoop\<close>; the flag says whether the loop goes on.\<close>

definition timerLoopStep :: "TimerTick \<Rightarrow> bool \<times> TimerTick" where
  "timerLoopStep w =
     (let (inbox, r) = getInbox threadIdTimerTick (tickInboxes w);
          (msg, inbox1) = getMessage inbox;
          w1 = w\<lparr>tickInboxes := r(threadIdTimerTick \<mapsto> inbox1)\<rparr>
      in if map_option inboxMsgType msg = Some inboxMsgTypeTerminate then (False, w1)
         else (True, timerTick w1))"

section \<open>Laws of one service\<close>

text \<open>The service alone: what a tick does to it does not depend on the inboxes.\<close>

definition tickOnly :: "TimerTickService \<Rightarrow> TimerTickService" where
  "tickOnly s = fst (tickService s (\<lambda>_. None))"

definition period :: "TimerTickService \<Rightarrow> nat" where
  "period s = (if 0 \<le> interval s then nat (1 + interval s div millisPerTick) else 1)"

text \<open>The tick at which the trigger runs.\<close>

definition fires :: "TimerTickService \<Rightarrow> bool" where
  "fires s \<longleftrightarrow> ticksLeft s = 1"

definition interval_ok :: "TimerTickService \<Rightarrow> bool" where
  "interval_ok s \<longleftrightarrow> interval s < 2 ^ 31"

lemma expireTrigger_fields [simp]:
  "interval (fst (expireTrigger s r)) = interval s"
  "periodic (fst (expireTrigger s r)) = periodic s"
  "cookie (fst (expireTrigger s r)) = cookie s"
  "ticksLeft (fst (expireTrigger s r)) = ticksLeft s"
  by (auto simp: expireTrigger_def split: TickTrigger.splits)

lemma start_fields [simp]:
  "interval (startTimerTickService2 s) = interval s"
  "periodic (startTimerTickService2 s) = periodic s"
  "cookie (startTimerTickService2 s) = cookie s"
  "trigger (startTimerTickService2 s) = trigger s"
  by (auto simp: startTimerTickService2_def)

lemma fst_expireTrigger: "fst (expireTrigger s r) = fst (expireTrigger s r')"
  by (auto simp: expireTrigger_def split: TickTrigger.splits)

lemma fst_tickService: "fst (tickService s r) = tickOnly s"
  unfolding tickOnly_def tickService_def
  by (auto simp: Let_def split_beta fst_expireTrigger[of _ r "\<lambda>_. None"])

lemma tickOnly_fields [simp]:
  "interval (tickOnly s) = interval s"
  "periodic (tickOnly s) = periodic s"
  "cookie (tickOnly s) = cookie s"
  by (auto simp: tickOnly_def tickService_def Let_def split_beta)

lemma tickOnly_funpow_fields [simp]:
  "interval ((tickOnly ^^ n) s) = interval s"
  "periodic ((tickOnly ^^ n) s) = periodic s"
  "cookie ((tickOnly ^^ n) s) = cookie s"
  by (induction n) auto

lemma unat_ticksLeft_start:
  assumes "interval_ok s"
  shows "unat (ticksLeft (startTimerTickService2 s)) = period s"
proof (cases "0 \<le> interval s")
  case True
  let ?n = "1 + interval s div 12"
  have "0 \<le> ?n" "?n < 2 ^ 64"
    using True assms by (auto simp: interval_ok_def)
  then have "unat (word_of_int ?n :: 64 word) = nat ?n"
    by (intro unat_word_of_int_id) simp_all
  with True show ?thesis
    by (simp add: startTimerTickService2_def period_def millisPerTick_def)
next
  case False
  then show ?thesis by (simp add: startTimerTickService2_def period_def)
qed

lemma period_pos [simp]: "0 < period s"
  by (simp add: period_def millisPerTick_def pos_imp_zdiv_nonneg_iff add_pos_nonneg)

interpretation svc: countdown "\<lambda>s. unat (ticksLeft s)" tickOnly fires "\<lambda>_. True"
proof unfold_locales
  fix s :: TimerTickService
  assume "1 < unat (ticksLeft s)"
  then have "unat (ticksLeft s - 1) = unat (ticksLeft s) - 1" "ticksLeft s - 1 \<noteq> 0" "0 < ticksLeft s"
    by (auto simp: unat_sub word_le_nat_alt word_less_nat_alt)
  then show "unat (ticksLeft (tickOnly s)) = unat (ticksLeft s) - 1"
    by (simp add: tickOnly_def tickService_def)
next
  fix s show "fires s \<longleftrightarrow> unat (ticksLeft s) = 1"
    by (simp add: fires_def word_eq_1_unat)
qed auto

lemma tickOnly_refires:
  assumes "fires s" "periodic s" "getIsRegistered s"
  shows "ticksLeft (tickOnly s) = ticksLeft (startTimerTickService2 s)"
  using assms
  by (simp add: tickOnly_def tickService_def fires_def Let_def split_beta getIsRegistered_def
      startTimerTickService2_def)

lemma ticksLeft_periodic:
  assumes "periodic s" "getIsRegistered s" "interval_ok s"
  shows "unat (ticksLeft ((tickOnly ^^ n) (startTimerTickService2 s))) = period s - n mod period s"
proof (induction n)
  case 0
  then show ?case using assms by (simp add: unat_ticksLeft_start)
next
  case (Suc n)
  let ?t = "(tickOnly ^^ n) (startTimerTickService2 s)"
  have same: "periodic ?t" "getIsRegistered ?t" "interval ?t = interval s"
    using assms by (simp_all add: getIsRegistered_def)
  show ?case
  proof (cases "Suc (n mod period s) = period s")
    case True
    then have "fires ?t" using Suc.IH by (simp add: fires_def word_eq_1_unat)
    then have "unat (ticksLeft (tickOnly ?t)) = period s"
      using same assms tickOnly_refires[of ?t] unat_ticksLeft_start[of ?t]
      by (simp add: interval_ok_def period_def)
    with True show ?thesis by (simp add: mod_Suc)
  next
    case False
    then have "Suc (n mod period s) < period s"
      using mod_less_divisor[OF period_pos, of n s] by linarith
    then have "1 < unat (ticksLeft ?t)" using Suc.IH by simp
    from svc.left_tick[OF TrueI this] Suc.IH False show ?thesis by (simp add: mod_Suc)
  qed
qed

lemma one_shot_expired:
  assumes "ticksLeft s = 0"
  shows "(tickOnly ^^ n) s = s"
  using assms by (induction n) (auto simp: tickOnly_def tickService_def)

lemma one_shot_countdown:
  assumes "\<not> periodic s" "interval_ok s"
  shows "getIsExpired ((tickOnly ^^ n) (startTimerTickService2 s)) \<longleftrightarrow> period s \<le> n"
proof (cases "n < period s")
  case True
  then have "unat (ticksLeft ((tickOnly ^^ n) (startTimerTickService2 s))) = period s - n"
    using svc.left_ticks[where s = "startTimerTickService2 s" and k = n] unat_ticksLeft_start[OF assms(2)] by simp
  with True have "ticksLeft ((tickOnly ^^ n) (startTimerTickService2 s)) \<noteq> 0" by auto
  with True show ?thesis by (simp add: getIsExpired_def)
next
  case False
  let ?k = "period s - 1"
  let ?t = "(tickOnly ^^ ?k) (startTimerTickService2 s)"
  have "unat (ticksLeft ?t) = 1"
    using svc.left_ticks[where s = "startTimerTickService2 s" and k = ?k] unat_ticksLeft_start[OF assms(2)]
    by (simp add: Suc_leI)
  then have "ticksLeft ?t = 1" by (simp add: word_eq_1_unat)
  moreover have "\<not> periodic ?t" using assms by simp
  ultimately have z: "ticksLeft (tickOnly ?t) = 0"
    by (simp add: tickOnly_def tickService_def Let_def split_beta)
  have "n = (n - period s) + Suc ?k" using False period_pos[of s] by linarith
  then have "(tickOnly ^^ n) (startTimerTickService2 s) = (tickOnly ^^ (n - period s)) (tickOnly ?t)"
    by (metis funpow_add comp_apply funpow.simps(2))
  with z False show ?thesis by (simp add: one_shot_expired getIsExpired_def)
qed

section \<open>Laws of the timer\<close>

definition registered :: "TimerTick \<Rightarrow> ServiceId \<Rightarrow> bool" where
  "registered w sid \<longleftrightarrow> sid \<in> snd ` set (timerTickServices w)"

text \<open>
  The map and the cookies agree: an entry's key is the cookie of its service, no service is
  entered twice, a service outside the map has the null cookie, and the next id is above all
  that are in use.
\<close>

definition tick_inv :: "TimerTick \<Rightarrow> bool" where
  "tick_inv w \<longleftrightarrow>
     distinct (map fst (timerTickServices w)) \<and>
     distinct (map snd (timerTickServices w)) \<and>
     (\<forall>(c, sid) \<in> set (timerTickServices w).
        cookie (services w sid) = c \<and> c \<noteq> nullCookie \<and> c < nextTimerTickId w) \<and>
     (\<forall>sid. \<not> registered w sid \<longrightarrow> cookie (services w sid) = nullCookie)"

lemma tick_inv_registered:
  "tick_inv w \<Longrightarrow> registered w sid \<longleftrightarrow> getIsRegistered (services w sid)"
  by (auto simp: tick_inv_def registered_def getIsRegistered_def)

lemma tick_inv_lookup:
  assumes "tick_inv w" "registered w sid"
  shows "map_of (timerTickServices w) (cookie (services w sid)) = Some sid"
  using assms by (auto simp: tick_inv_def registered_def)

lemma tick_inv_new: "\<forall>sid. cookie (svcs sid) = nullCookie \<Longrightarrow> tick_inv (newTimerTick svcs r)"
  by (simp add: tick_inv_def newTimerTick_def registered_def)

lemma update_service_sel [simp]:
  "services (update_service sid f w) = (services w)(sid := f (services w sid))"
  "timerTickServices (update_service sid f w) = timerTickServices w"
  "nextTimerTickId (update_service sid f w) = nextTimerTickId w"
  "tickInboxes (update_service sid f w) = tickInboxes w"
  by (simp_all add: update_service_def)

lemma tick_inv_register:
  assumes inv: "tick_inv w" and unreg: "\<not> registered w sid"
    and room: "nextTimerTickId w \<noteq> 0" "nextTimerTickId w + 1 \<noteq> 0"
  shows "\<exists>w'. registerTimerTickService sid start w = (Inr (nextTimerTickId w), w') \<and> tick_inv w' \<and>
           registered w' sid \<and>
           services w' = (services w)(sid := (if start then startTimerTickService2 else id)
             ((services w sid)\<lparr>cookie := nextTimerTickId w\<rparr>))"
proof -
  let ?c = "nextTimerTickId w"
  have nr: "\<not> getIsRegistered (services w sid)"
    using inv unreg tick_inv_registered by blast
  have lt: "c < ?c" if "(c, s) \<in> set (timerTickServices w)" for c s
    using inv that by (auto simp: tick_inv_def)
  have fresh: "map_of (timerTickServices w) ?c = None"
    using lt[of ?c] by (fastforce simp: map_of_eq_None_iff)
  have "?c < ?c + 1"
    using room by (simp add: word_less_nat_alt unat_plus_one_neq)
  then have lt': "c < ?c + 1" if "(c, s) \<in> set (timerTickServices w)" for c s
    using lt[OF that] by (meson order_less_trans)
  have nin: "s \<noteq> sid" if "(c, s) \<in> set (timerTickServices w)" for c s
    using unreg that by (force simp: registered_def)
  show ?thesis
    using inv nr fresh room lt' nin \<open>?c < ?c + 1\<close> unreg
    by (auto simp: registerTimerTickService_def Let_def tick_inv_def registered_def nullCookie_def
        map_of_eq_None_iff split: prod.splits)
qed

lemma unregister_unknown [simp]:
  "tick_inv w \<Longrightarrow> unregisterTimerTickService nullCookie w = w"
  by (auto simp: unregisterTimerTickService_def tick_inv_def split: option.splits
      dest!: map_of_SomeD)

lemma unregister_known:
  assumes inv: "tick_inv w" and reg: "registered w sid"
  shows "services (unregisterTimerTickService (cookie (services w sid)) w) =
           (services w)(sid := (services w sid)\<lparr>cookie := nullCookie, ticksLeft := 0\<rparr>)"
    and "registered (unregisterTimerTickService (cookie (services w sid)) w) sid' \<longleftrightarrow>
           registered w sid' \<and> sid' \<noteq> sid"
    and "tick_inv (unregisterTimerTickService (cookie (services w sid)) w)"
proof -
  note look = tick_inv_lookup[OF inv reg]
  let ?w' = "unregisterTimerTickService (cookie (services w sid)) w"
  show sv: "services ?w' = (services w)(sid := (services w sid)\<lparr>cookie := nullCookie, ticksLeft := 0\<rparr>)"
    using look by (simp add: unregisterTimerTickService_def)
  have key: "cookie (services w s) = c" if "(c, s) \<in> set (timerTickServices w)" for c s
    using inv that by (auto simp: tick_inv_def)
  have uniq: "s = sid" if "(cookie (services w sid), s) \<in> set (timerTickServices w)" for s
    using inv look that by (auto simp: tick_inv_def)
  have "fst e \<noteq> cookie (services w sid) \<longleftrightarrow> snd e \<noteq> sid" if "e \<in> set (timerTickServices w)" for e
    using key[of "fst e" "snd e"] uniq[of "snd e"] that by (cases e) auto
  then have ents: "timerTickServices ?w' = filter (\<lambda>e. snd e \<noteq> sid) (timerTickServices w)"
    using look by (simp add: unregisterTimerTickService_def cong: filter_cong)
  show reg': "registered ?w' sid' \<longleftrightarrow> registered w sid' \<and> sid' \<noteq> sid" for sid'
    unfolding registered_def ents by auto
  have dist: "distinct (map fst (timerTickServices ?w'))" "distinct (map snd (timerTickServices ?w'))"
    using inv look by (auto simp: unregisterTimerTickService_def tick_inv_def distinct_map_filter)
  have nxt: "nextTimerTickId ?w' = nextTimerTickId w"
    using look by (simp add: unregisterTimerTickService_def)
  show "tick_inv ?w'"
    using inv dist unfolding tick_inv_def reg' ents nxt sv by auto
qed

text \<open>A tick of the timer is a tick of each registered service, and of no other.\<close>

lemma services_tickEntries:
  "distinct (map snd es) \<Longrightarrow>
   services (fold tickEntry es w) sid =
     (if sid \<in> snd ` set es then tickOnly (services w sid) else services w sid)"
proof (induction es arbitrary: w)
  case Nil
  then show ?case by simp
next
  case (Cons e es)
  have "services (tickEntry e w) = (services w)(snd e := tickOnly (services w (snd e)))"
    by (simp add: tickEntry_def split_beta fst_tickService)
  with Cons show ?case by auto
qed

lemma tickEntries_frame:
  "timerTickServices (fold tickEntry es w) = timerTickServices w"
  "nextTimerTickId (fold tickEntry es w) = nextTimerTickId w"
  by (induction es arbitrary: w) (simp_all add: tickEntry_def split_beta)

lemma timerTick_services:
  "tick_inv w \<Longrightarrow> services (timerTick w) sid =
     (if registered w sid then tickOnly (services w sid) else services w sid)"
  by (simp add: timerTick_def services_tickEntries tick_inv_def registered_def)

lemma timerTick_registered [simp]: "registered (timerTick w) = registered w"
  by (auto simp: timerTick_def registered_def tickEntries_frame)

lemma tick_inv_timerTick [inv_intros]: "tick_inv w \<Longrightarrow> tick_inv (timerTick w)"
  using timerTick_services[of w]
  by (simp add: tick_inv_def timerTick_def tickEntries_frame registered_def split_beta)

lemma timerTick_funpow:
  "tick_inv w \<Longrightarrow> registered w sid \<Longrightarrow>
   services ((timerTick ^^ n) w) sid = (tickOnly ^^ n) (services w sid) \<and>
   tick_inv ((timerTick ^^ n) w) \<and> registered ((timerTick ^^ n) w) sid"
  by (induction n) (auto simp: timerTick_services tick_inv_timerTick)


definition sampleTimer :: TimerTick where
  "sampleTimer = newTimerTick (\<lambda>_. mkTimerTickService 1000 True (TimerTickServiceBool False)) (\<lambda>_. None)"

lemma sampleTimer_ok [simp]: "tick_inv sampleTimer" "\<not> registered sampleTimer sid"
  "nextTimerTickId sampleTimer = 1"
  "services sampleTimer = (\<lambda>_. mkTimerTickService 1000 True (TimerTickServiceBool False))"
  by (simp_all add: sampleTimer_def tick_inv_def newTimerTick_def mkTimerTickService_def registered_def
      nullCookie_def)


text \<open>
  The timer keeps its books: registering a service that is not registered, while ids
  remain, succeeds with a cookie that is not null and leaves all other services as they were;
  registering it again is refused and changes nothing; unregistering by that cookie clears it
  and the service is out of the map, all under the invariant.
\<close>

theorem register_unregister_books:
  assumes "tick_inv w" and "\<not> registered w sid"
    and "nextTimerTickId w \<noteq> 0" and "nextTimerTickId w + 1 \<noteq> 0"
  shows "\<exists>c w'. registerTimerTickService sid start w = (Inr c, w') \<and> c \<noteq> nullCookie \<and>
           tick_inv w' \<and> registered w' sid \<and>
           (\<forall>sid'. sid' \<noteq> sid \<longrightarrow> services w' sid' = services w sid') \<and>
           registerTimerTickService sid start w' = (Inl DoubleRegister, w') \<and>
           tick_inv (unregisterTimerTickService c w') \<and>
           \<not> registered (unregisterTimerTickService c w') sid \<and>
           getIsExpired (services (unregisterTimerTickService c w') sid)"
proof -
  let ?c = "nextTimerTickId w"
  obtain w' where w': "registerTimerTickService sid start w = (Inr ?c, w')" "tick_inv w'"
    "registered w' sid"
    "services w' = (services w)(sid := (if start then startTimerTickService2 else id)
       ((services w sid)\<lparr>cookie := ?c\<rparr>))"
    using tick_inv_register[OF assms] by blast
  have ck: "cookie (services w' sid) = ?c" using w'(4) by simp
  have "registerTimerTickService sid start w' = (Inl DoubleRegister, w')"
    using w'(2,3) by (simp add: registerTimerTickService_def tick_inv_registered)
  moreover note unregister_known[OF w'(2,3), unfolded ck]
  moreover have "?c \<noteq> nullCookie" using assms(3) by (simp add: nullCookie_def)
  ultimately show ?thesis
    using w' by (intro exI[of _ ?c] exI[of _ w']) (auto simp: getIsExpired_def)
qed

theorem register_unregister_books_witness:
  "\<exists>c w'. registerTimerTickService 7 True sampleTimer = (Inr c, w') \<and> c \<noteq> nullCookie \<and>
     tick_inv w' \<and> registered w' 7 \<and>
     (\<forall>sid'. sid' \<noteq> 7 \<longrightarrow> services w' sid' = services sampleTimer sid') \<and>
     registerTimerTickService 7 True w' = (Inl DoubleRegister, w') \<and>
     tick_inv (unregisterTimerTickService c w') \<and>
     \<not> registered (unregisterTimerTickService c w') 7 \<and>
     getIsExpired (services (unregisterTimerTickService c w') 7)"
  by (rule register_unregister_books) simp_all

text \<open>
  The services that the display and the strip run on every tick, with an interval of one
  tick, fire on every second tick only.
\<close>

theorem fast_tick_every_second_tick:
  assumes "tick_inv w" and "\<not> registered w sid"
    and "nextTimerTickId w \<noteq> 0" and "nextTimerTickId w + 1 \<noteq> 0"
    and "services w sid = mkTimerTickService millisPerTick True (TimerTickServiceCv False)"
  shows "fires (services ((timerTick ^^ k) (snd (registerTimerTickService sid True w))) sid) \<longleftrightarrow> odd k"
proof -
  let ?s = "(services w sid)\<lparr>cookie := nextTimerTickId w\<rparr>"
  obtain w' where w': "registerTimerTickService sid True w = (Inr (nextTimerTickId w), w')"
    "tick_inv w'" "registered w' sid" "services w' sid = startTimerTickService2 ?s"
    using tick_inv_register[OF assms(1-4), of True] by auto
  have p: "period ?s = 2" "periodic ?s" "getIsRegistered ?s" "interval_ok ?s"
    using assms(3,5)
    by (simp_all add: period_def mkTimerTickService_def millisPerTick_def getIsRegistered_def
        nullCookie_def interval_ok_def)
  have "fires (services ((timerTick ^^ k) w') sid) \<longleftrightarrow> 2 - k mod 2 = 1"
    using timerTick_funpow[OF w'(2,3), of k] ticksLeft_periodic[OF p(2-4), of k] w'(4) p(1)
    by (simp add: fires_def word_eq_1_unat)
  also have "\<dots> \<longleftrightarrow> odd k" by presburger
  finally show ?thesis using w'(1) by simp
qed

definition fastTimer :: TimerTick where
  "fastTimer = newTimerTick (\<lambda>_. mkTimerTickService millisPerTick True (TimerTickServiceCv False)) (\<lambda>_. None)"

theorem fast_tick_every_second_tick_witness:
  "fires (services ((timerTick ^^ 1) (snd (registerTimerTickService 0 True fastTimer))) 0) \<and>
   \<not> fires (services ((timerTick ^^ 2) (snd (registerTimerTickService 0 True fastTimer))) 0)"
proof -
  have h: "tick_inv fastTimer" "\<not> registered fastTimer 0" "nextTimerTickId fastTimer \<noteq> 0"
    "nextTimerTickId fastTimer + 1 \<noteq> 0"
    "services fastTimer 0 = mkTimerTickService millisPerTick True (TimerTickServiceCv False)"
    by (simp_all add: fastTimer_def tick_inv_def newTimerTick_def mkTimerTickService_def
        registered_def nullCookie_def)
  show ?thesis
    using fast_tick_every_second_tick[OF h, of 1] fast_tick_every_second_tick[OF h, of 2]
    by (simp del: One_nat_def)
qed

end
