(* ===== verification/C_Strings.thy ===== *)
theory C_Strings
  imports Prelude
begin

text \<open>
  The parts of the C and C++ standard library that the program's text handling uses:
  C strings, the case-insensitive comparisons, the \<^verbatim>\<open>strtoul\<close> and
  \<^verbatim>\<open>std::stoi\<close> families, decimal printing and bounded copies. The
  C locale is in effect. \<^verbatim>\<open>unsigned long\<close> is 32 bits wide.
\<close>

section \<open>C strings\<close>

abbreviation NUL :: char where
  "NUL \<equiv> CHR 0x00"

text \<open>What an API that takes \<^verbatim>\<open>const char*\<close> sees of a string.\<close>

definition c_str :: "string \<Rightarrow> string" where
  "c_str s = takeWhile (\<lambda>c. c \<noteq> NUL) s"

text \<open>\<^verbatim>\<open>snprintf(buf, n, "%s", s)\<close>: at most \<open>n - 1\<close> characters.\<close>

definition snprintf_s :: "nat \<Rightarrow> string \<Rightarrow> string" where
  "snprintf_s n s = take (n - 1) (c_str s)"

definition tolower :: "char \<Rightarrow> char" where
  "tolower c = (if 65 \<le> (of_char c :: nat) \<and> (of_char c :: nat) \<le> 90
                then char_of ((of_char c :: nat) + 32) else c)"

text \<open>Equality by \<^verbatim>\<open>strncasecmp(a, b, n) == 0\<close> and
  \<^verbatim>\<open>strcasecmp(a, b) == 0\<close>, on strings without a NUL.\<close>

definition strncasecmp_eq :: "string \<Rightarrow> string \<Rightarrow> nat \<Rightarrow> bool" where
  "strncasecmp_eq a b n \<longleftrightarrow> map tolower (take n a) = map tolower (take n b)"

definition strcasecmp_eq :: "string \<Rightarrow> string \<Rightarrow> bool" where
  "strcasecmp_eq a b \<longleftrightarrow> map tolower a = map tolower b"

section \<open>Numbers from text\<close>

definition isspace :: "char \<Rightarrow> bool" where
  "isspace c \<longleftrightarrow> c = CHR '' '' \<or> (9 \<le> (of_char c :: nat) \<and> (of_char c :: nat) \<le> 13)"

definition digit_val :: "char \<Rightarrow> nat option" where
  "digit_val c = (let n = (of_char c :: nat) in
     if 48 \<le> n \<and> n \<le> 57 then Some (n - 48)
     else if 97 \<le> n \<and> n \<le> 122 then Some (n - 87)
     else if 65 \<le> n \<and> n \<le> 90 then Some (n - 55)
     else None)"

definition is_base_digit :: "nat \<Rightarrow> char \<Rightarrow> bool" where
  "is_base_digit b c = (case digit_val c of None \<Rightarrow> False | Some d \<Rightarrow> d < b)"

definition isxdigit :: "char \<Rightarrow> bool" where
  "isxdigit c = is_base_digit 16 c"

fun digits_value :: "nat \<Rightarrow> nat \<Rightarrow> string \<Rightarrow> nat" where
  "digits_value b acc [] = acc"
| "digits_value b acc (c # cs) =
     (if is_base_digit b c then digits_value b (acc * b + the (digit_val c)) cs else acc)"

text \<open>
  The subject sequence: white space, a sign, for base 0 and 16 the prefix
  \<^verbatim>\<open>0x\<close> when a hexadecimal digit follows, then the digits. The result is the
  sign, the magnitude and the text after the digits; \<open>None\<close> when there is no digit.
\<close>

definition split_sign :: "string \<Rightarrow> bool \<times> string" where
  "split_sign s = (case s of
     c # cs \<Rightarrow> if c = CHR ''-'' then (True, cs) else if c = CHR ''+'' then (False, cs)
               else (False, s)
   | [] \<Rightarrow> (False, s))"

definition has_hex_prefix :: "string \<Rightarrow> bool" where
  "has_hex_prefix s = (case s of
     z # x # d # _ \<Rightarrow> z = CHR ''0'' \<and> (x = CHR ''x'' \<or> x = CHR ''X'') \<and> isxdigit d
   | _ \<Rightarrow> False)"

definition split_base :: "nat \<Rightarrow> string \<Rightarrow> nat \<times> string" where
  "split_base base s =
     (if (base = 0 \<or> base = 16) \<and> has_hex_prefix s then (16, drop 2 s)
      else if base = 0 then (if s \<noteq> [] \<and> hd s = CHR ''0'' then 8 else 10, s)
      else (base, s))"

definition scan_int :: "nat \<Rightarrow> string \<Rightarrow> (bool \<times> nat \<times> string) option" where
  "scan_int base s =
     (let (neg, s1) = split_sign (dropWhile isspace (c_str s));
          (b, s2) = split_base base s1
      in if s2 \<noteq> [] \<and> is_base_digit b (hd s2)
         then Some (neg, digits_value b 0 s2, dropWhile (is_base_digit b) s2)
         else None)"

text \<open>\<^verbatim>\<open>strtoul\<close>: 0 when nothing converts, the greatest value on overflow,
  and a minus sign negates the unsigned result.\<close>

definition strtoul :: "string \<Rightarrow> nat \<Rightarrow> Int32U" where
  "strtoul s base = (case scan_int base s of
     None \<Rightarrow> 0
   | Some (neg, n, _) \<Rightarrow>
       if 2 ^ 32 \<le> n then - 1
       else if neg then - (of_nat n) else of_nat n)"

text \<open>\<^verbatim>\<open>std::stoi\<close> and \<^verbatim>\<open>std::stoll\<close> throw when nothing
  converts and when the value does not fit: \<open>None\<close>.\<close>

definition signed_range :: "nat \<Rightarrow> int \<Rightarrow> int option" where
  "signed_range w i = (if - (2 ^ (w - 1)) \<le> i \<and> i < 2 ^ (w - 1) then Some i else None)"

definition sto_signed :: "nat \<Rightarrow> string \<Rightarrow> nat \<Rightarrow> int option" where
  "sto_signed w s base = (case scan_int base s of
     None \<Rightarrow> None
   | Some (neg, n, _) \<Rightarrow> signed_range w (if neg then - int n else int n))"

definition stoi :: "string \<Rightarrow> nat \<Rightarrow> int option" where
  "stoi s base = sto_signed 32 s base"

definition stoll :: "string \<Rightarrow> nat \<Rightarrow> int option" where
  "stoll s base = sto_signed 64 s base"

text \<open>
  \<^verbatim>\<open>strtol\<close> in base 10: no value when nothing converts; otherwise the value, the text that
  follows it, and whether \<^verbatim>\<open>errno\<close> was set because it does not fit 32 bits.
\<close>

definition strtol_end :: "string \<Rightarrow> (int \<times> string \<times> bool) option" where
  "strtol_end s = (case scan_int 10 s of
     None \<Rightarrow> None
   | Some (neg, n, rest) \<Rightarrow>
       let v = if neg then - int n else int n
       in Some (max (- (2 ^ 31)) (min (2 ^ 31 - 1) v), rest, v < - (2 ^ 31) \<or> 2 ^ 31 \<le> v))"

section \<open>Text from numbers\<close>

definition digit_char :: "nat \<Rightarrow> char" where
  "digit_char d = char_of (48 + d)"

fun dec_nat :: "nat \<Rightarrow> string" where
  "dec_nat n = (if n < 10 then [digit_char n] else dec_nat (n div 10) @ [digit_char (n mod 10)])"

declare dec_nat.simps [simp del]

text \<open>\<^verbatim>\<open>"%d"\<close> and \<^verbatim>\<open>std::to_string\<close>.\<close>

definition dec_int :: "int \<Rightarrow> string" where
  "dec_int i = (if i < 0 then CHR ''-'' # dec_nat (nat (- i)) else dec_nat (nat i))"

text \<open>\<^verbatim>\<open>"%02d"\<close> and \<^verbatim>\<open>"%2d"\<close> of a number that is not negative.\<close>

definition pad_left :: "char \<Rightarrow> nat \<Rightarrow> string \<Rightarrow> string" where
  "pad_left c n s = replicate (n - length s) c @ s"

section \<open>Laws\<close>

lemma c_str_id [simp]: "NUL \<notin> set s \<Longrightarrow> c_str s = s"
  by (simp add: c_str_def takeWhile_eq_all_conv) metis

lemma NUL_notin_c_str [simp]: "NUL \<notin> set (c_str s)"
  by (auto simp: c_str_def dest: set_takeWhileD)

lemma length_snprintf_s: "0 < n \<Longrightarrow> length (snprintf_s n s) < n"
  by (simp add: snprintf_s_def min_def) linarith

lemma snprintf_s_no_NUL [simp]: "NUL \<notin> set (snprintf_s n s)"
  using NUL_notin_c_str[of s] by (auto simp: snprintf_s_def dest: in_set_takeD)

lemma of_char_digit_char: "d < 10 \<Longrightarrow> (of_char (digit_char d) :: nat) = 48 + d"
  by (simp add: digit_char_def)

lemma digit_val_digit_char [simp]: "d < 10 \<Longrightarrow> digit_val (digit_char d) = Some d"
  by (simp add: digit_val_def of_char_digit_char Let_def)

lemma is_base_digit_digit_char [simp]:
  "d < 10 \<Longrightarrow> is_base_digit b (digit_char d) \<longleftrightarrow> d < b"
  by (simp add: is_base_digit_def)

lemma digit_char_inj: "a < 10 \<Longrightarrow> b < 10 \<Longrightarrow> digit_char a = digit_char b \<longleftrightarrow> a = b"
  by (metis digit_val_digit_char option.inject)

lemma of_char_eq_char: "(of_char c :: nat) = n \<Longrightarrow> c = char_of n"
  by (metis char_of_char)

lemma digits_value_append:
  "\<forall>c \<in> set xs. is_base_digit b c \<Longrightarrow>
   digits_value b acc (xs @ ys) = digits_value b (digits_value b acc xs) ys"
  by (induction xs arbitrary: acc) auto

lemma dec_nat_digits: "\<forall>c \<in> set (dec_nat n). is_base_digit 10 c \<and> (of_char c :: nat) \<in> {48..57}"
proof (induction n rule: dec_nat.induct)
  case (1 n)
  then show ?case
    by (subst dec_nat.simps) (auto simp: of_char_digit_char)
qed

lemma dec_nat_nonempty [simp]: "dec_nat n \<noteq> []"
  by (subst dec_nat.simps) simp

lemma digits_value_dec_nat: "digits_value 10 0 (dec_nat n) = n"
proof (induction n rule: dec_nat.induct)
  case (1 n)
  show ?case
  proof (cases "n < 10")
    case True
    then show ?thesis by (subst dec_nat.simps) simp
  next
    case False
    then have "digits_value 10 0 (dec_nat (n div 10) @ [digit_char (n mod 10)]) = n"
      using 1 dec_nat_digits[of "n div 10"] by (simp add: digits_value_append)
    with False show ?thesis by (subst dec_nat.simps) simp
  qed
qed

lemma dec_nat_inj: "dec_nat m = dec_nat n \<longleftrightarrow> m = n"
  by (metis digits_value_dec_nat)

lemma dec_nat_no_NUL [simp]: "NUL \<notin> set (dec_nat n)"
  using dec_nat_digits[of n] by force

lemma dec_int_no_NUL [simp]: "NUL \<notin> set (dec_int i)"
  by (simp add: dec_int_def)

lemma dec_nat_hd:
  shows "is_base_digit 10 (hd (dec_nat n))" "\<not> isspace (hd (dec_nat n))"
    "hd (dec_nat n) \<noteq> CHR ''-''" "hd (dec_nat n) \<noteq> CHR ''+''"
proof -
  have "hd (dec_nat n) \<in> set (dec_nat n)" by simp
  then have h: "is_base_digit 10 (hd (dec_nat n))" "(of_char (hd (dec_nat n)) :: nat) \<in> {48..57}"
    using dec_nat_digits[of n] by blast+
  show "is_base_digit 10 (hd (dec_nat n))" by (rule h(1))
  show "\<not> isspace (hd (dec_nat n))" using h(2) by (auto simp: isspace_def)
  show "hd (dec_nat n) \<noteq> CHR ''-''" using h(2) by auto
  show "hd (dec_nat n) \<noteq> CHR ''+''" using h(2) by auto
qed

lemma dropWhile_hd: "xs \<noteq> [] \<Longrightarrow> \<not> P (hd xs) \<Longrightarrow> dropWhile P xs = xs"
  by (cases xs) auto

lemma scan_int_dec_nat: "scan_int 10 (dec_nat n) = Some (False, n, [])"
proof -
  have sp: "dropWhile isspace (dec_nat n) = dec_nat n"
    by (simp add: dropWhile_hd dec_nat_hd)
  have sg: "split_sign (dec_nat n) = (False, dec_nat n)"
    using dec_nat_hd[of n] by (cases "dec_nat n") (auto simp: split_sign_def)
  have "dropWhile (is_base_digit 10) (dec_nat n) = []"
    using dec_nat_digits[of n] by simp
  then show ?thesis
    using dec_nat_hd(1)[of n] by (simp add: scan_int_def sp sg split_base_def digits_value_dec_nat)
qed

lemma strtoul_dec_nat: "n < 2 ^ 32 \<Longrightarrow> strtoul (dec_nat n) 10 = of_nat n"
  by (simp add: strtoul_def scan_int_dec_nat)

lemma scan_int_dec_neg: "scan_int 10 (CHR ''-'' # dec_nat n) = Some (True, n, [])"
proof -
  have "dropWhile (is_base_digit 10) (dec_nat n) = []"
    using dec_nat_digits[of n] by simp
  then show ?thesis
    using dec_nat_hd(1)[of n]
    by (simp add: scan_int_def split_base_def split_sign_def isspace_def digits_value_dec_nat)
qed

text \<open>Printing a 32-bit integer and reading it back gives the integer.\<close>

lemma stoi_dec_int: "- (2 ^ 31) \<le> i \<Longrightarrow> i < 2 ^ 31 \<Longrightarrow> stoi (dec_int i) 10 = Some i"
  by (cases "i < 0")
    (simp_all add: stoi_def sto_signed_def dec_int_def scan_int_dec_nat scan_int_dec_neg
      signed_range_def)

lemma strncasecmp_eq_refl [simp]: "strncasecmp_eq a a n"
  by (simp add: strncasecmp_eq_def)

text \<open>A comparison over the length of the key is a test for a prefix, not for equality.\<close>

lemma strncasecmp_eq_key:
  "strncasecmp_eq key w (length key) \<longleftrightarrow> map tolower key = map tolower (take (length key) w)"
  by (simp add: strncasecmp_eq_def)

end
