(* ===== verification/Common_Utils.thy ===== *)
theory Common_Utils
  imports C_Strings
begin

text \<open>
  \<^verbatim>\<open>src/commonUtils.cpp\<close>: random numbers, the reading of booleans, the lookup of
  request parameters and the filter of the timestamp.
\<close>

section \<open>Random numbers\<close>

text \<open>
  The engine is seeded from a random device, so its outputs are a parameter: the stream of
  numbers that \<^verbatim>\<open>uniform_dist(randomEngine)\<close> delivers. Each draw takes one,
  under \<^verbatim>\<open>randomMutex\<close>.
\<close>

type_synonym rng = "Int32U stream"

definition getRandomNumber :: "Int32U \<Rightarrow> rng \<Rightarrow> Int32U \<times> rng" where
  "getRandomNumber upperBound r =
     (if upperBound = 0 then (0, r) else (shd r mod upperBound, stl r))"

section \<open>Request parameters\<close>

definition parseBooleanValue :: "string option \<Rightarrow> bool" where
  "parseBooleanValue valueStr = (case valueStr of
     None \<Rightarrow> False
   | Some v \<Rightarrow>
       if strncasecmp_eq v ''n'' 1 then False
       else if strncasecmp_eq v ''y'' 1 then True
       else if strcasecmp_eq v ''false'' then False
       else if strcasecmp_eq v ''true'' then True
       else strtoul v 0 \<noteq> 0)"

definition isParamSet :: "StringMap \<Rightarrow> string \<Rightarrow> string option \<Rightarrow> bool" where
  "isParamSet params paramName paramValue =
     (case omap_find params paramName of
        None \<Rightarrow> False
      | Some found \<Rightarrow> (case paramValue of None \<Rightarrow> True | Some v \<Rightarrow> found = v))"

text \<open>The out-parameter keeps its old value when the parameter is absent.\<close>

definition getParamValue :: "StringMap \<Rightarrow> string \<Rightarrow> string \<Rightarrow> bool \<times> string" where
  "getParamValue params paramName paramValueFound =
     (case omap_find params paramName of
        Some v \<Rightarrow> (True, v)
      | None \<Rightarrow> (False, paramValueFound))"

section \<open>Main threads\<close>

text \<open>
  The guard every singleton has around its main thread: only one thread may register itself.
\<close>

datatype thread_error = DoubleRegisterThread

definition registerMainThread :: "'t option \<Rightarrow> 't \<Rightarrow> thread_error + 't option" where
  "registerMainThread mainThreadId caller =
     (if mainThreadId \<noteq> None \<and> mainThreadId \<noteq> Some caller then Inl DoubleRegisterThread
      else Inr (Some caller))"

section \<open>Timestamp\<close>

text \<open>\<^verbatim>\<open>char\<close> is signed or unsigned by platform; bytes of 128 and above are
  unwanted either way.\<close>

definition isUnwantedChar :: "char \<Rightarrow> bool" where
  "isUnwantedChar c \<longleftrightarrow> (of_char c :: nat) < 32 \<or> 126 < (of_char c :: nat)"

text \<open>The text of \<^verbatim>\<open>asctime_r\<close> is the argument.\<close>

definition currTimestamp :: "string \<Rightarrow> string" where
  "currTimestamp asctime = filter (\<lambda>c. \<not> isUnwantedChar c) (c_str asctime)"

section \<open>Laws\<close>

lemma getRandomNumber_less:
  assumes "0 < upperBound"
  shows "fst (getRandomNumber upperBound r) < upperBound"
proof -
  have "upperBound \<noteq> 0" using assms by auto
  then show ?thesis
    using assms by (simp add: getRandomNumber_def word_less_nat_alt unat_mod)
qed

lemma getRandomNumber_zero [simp]: "getRandomNumber 0 r = (0, r)"
  by (simp add: getRandomNumber_def)

lemma parseBooleanValue_examples [model_simps]:
  "parseBooleanValue None = False"
  "parseBooleanValue (Some ''yes'') = True"
  "parseBooleanValue (Some ''No'') = False"
  "parseBooleanValue (Some ''TRUE'') = True"
  by (code_simp)+

lemma isParamSet_iff:
  "isParamSet ps k None \<longleftrightarrow> k \<in> dom (map_of ps)"
  "isParamSet ps k (Some v) \<longleftrightarrow> omap_find ps k = Some v"
  by (auto simp: isParamSet_def split: option.splits)

lemma getParamValue_found [simp]: "omap_find ps k = Some v \<Longrightarrow> getParamValue ps k d = (True, v)"
  by (simp add: getParamValue_def)

lemma getParamValue_absent [simp]: "omap_find ps k = None \<Longrightarrow> getParamValue ps k d = (False, d)"
  by (simp add: getParamValue_def)

text \<open>What the timestamp keeps is printable, so it holds no line end and no NUL.\<close>

lemma currTimestamp_printable:
  "\<forall>c \<in> set (currTimestamp t). 32 \<le> (of_char c :: nat) \<and> (of_char c :: nat) \<le> 126"
  by (auto simp: currTimestamp_def isUnwantedChar_def)

end
