(* ===== verification/Led_Strip_Internal.thy ===== *)
theory Led_Strip_Internal
  imports LPD8806 Timer_Tick Common_Utils
begin

text \<open>
  \<^verbatim>\<open>src/ledStripTypes.h\<close>, \<^verbatim>\<open>src/ledStripInternal.h\<close> and
  \<^verbatim>\<open>src/ledStripInternal.cpp\<close>: the modes of the LED strip, their handlers for
  the ticks, and the timeout that brings the strip back to the manual mode.

  The static locals of the handlers are fields of the state, and so is the stream of raw
  random numbers. What the handlers send to the strip, and how long they wait in between, is
  kept in \<open>stripEffects\<close>, the oldest first.
\<close>

section \<open>State\<close>

datatype LedStripMode =
    ledStripModeManual | ledStripModePastel | ledStripModeFill | ledStripModeRainbow
  | ledStripModeScan | ledStripModeBinaryCounter

text \<open>The values of the enumeration.\<close>

fun ledStripModeValue :: "LedStripMode \<Rightarrow> int" where
  "ledStripModeValue ledStripModeManual = 0"
| "ledStripModeValue ledStripModePastel = 1"
| "ledStripModeValue ledStripModeFill = 2"
| "ledStripModeValue ledStripModeRainbow = 3"
| "ledStripModeValue ledStripModeScan = 4"
| "ledStripModeValue ledStripModeBinaryCounter = 5"

datatype strip_effect = StripShow strip_output | StripDelay int

record LedStripInternalInfo =
  lpd8806 :: LPD8806
  currModeIndex :: nat
  secsUntilGoingToManualMode :: int
  params :: StringMap
  pastelCurrPixel :: int
  rainbowJ :: Int16U
  scanColor :: Int32U
  scanI :: int
  scanIncrement :: int
  currentCounterValue :: Int64U
  stripRng :: rng
  stripEffects :: "strip_effect list"

definition ledStripParamLedStripMode :: string where "ledStripParamLedStripMode = ''ledStripMode''"
definition ledStripParamTimeout :: string where "ledStripParamTimeout = ''timeout''"
definition ledStripParamClearAllPixels :: string where "ledStripParamClearAllPixels = ''clearPixels''"
definition ledStripParamExtra :: string where "ledStripParamExtra = ''extraParam''"
definition ledStripParamFrom :: string where "ledStripParamFrom = ''from''"
definition ledStripParamTo :: string where "ledStripParamTo = ''to''"

definition setPixel :: "int \<Rightarrow> Int32U \<Rightarrow> LedStripInternalInfo \<Rightarrow> LedStripInternalInfo" where
  "setPixel n c info = info\<lparr>lpd8806 := setPixelColor (word_of_int n) c (lpd8806 info)\<rparr>"

definition showPixels :: "LedStripInternalInfo \<Rightarrow> LedStripInternalInfo" where
  "showPixels info =
     (let (out, s) = strip_show (lpd8806 info)
      in info\<lparr>lpd8806 := s, stripEffects := stripEffects info @ [StripShow out]\<rparr>)"

abbreviation pixelCount :: "LedStripInternalInfo \<Rightarrow> nat" where
  "pixelCount info \<equiv> unat (numPixels (lpd8806 info))"

definition clearPixelColorsAndShow :: "LedStripInternalInfo \<Rightarrow> LedStripInternalInfo" where
  "clearPixelColorsAndShow info =
     showPixels (info\<lparr>lpd8806 := clearPixelColors (lpd8806 info)\<rparr>)"

section \<open>Colors\<close>

definition wheel :: "Int16U \<Rightarrow> Int32U" where
  "wheel wheelPos =
     (let k = uint wheelPos; m = word_of_int (k mod 128) :: Int8U; d = word_of_int (127 - k mod 128)
      in if k div 128 = 0 then Color d m 0
         else if k div 128 = 1 then Color 0 d m
         else if k div 128 = 2 then Color m 0 d
         else Color 0 0 0)"

definition colorParam :: "StringMap \<Rightarrow> string \<Rightarrow> string" where
  "colorParam ps name = (let (found, v) = getParamValue ps name '''' in if \<not> found \<or> v = '''' then ''0'' else v)"

definition getPixelColorParam :: "StringMap \<Rightarrow> Int32U" where
  "getPixelColorParam ps =
     (case (stoi (colorParam ps ''red'') 0, stoi (colorParam ps ''green'') 0, stoi (colorParam ps ''blue'') 0) of
        (Some r, Some g, Some b) \<Rightarrow> Color (word_of_int r) (word_of_int g) (word_of_int b)
      | _ \<Rightarrow> nullColor)"

definition randomColor :: "LedStripInternalInfo \<Rightarrow> Int32U \<times> LedStripInternalInfo" where
  "randomColor info =
     (let (c, r) = getRandomNumber 0x00FFFFFE (stripRng info) in (c + 1, info\<lparr>stripRng := r\<rparr>))"

definition wantedColor :: "LedStripInternalInfo \<Rightarrow> Int32U \<times> LedStripInternalInfo" where
  "wantedColor info =
     (if getPixelColorParam (params info) = nullColor then randomColor info
      else (getPixelColorParam (params info), info))"

definition extraIs :: "string \<Rightarrow> LedStripInternalInfo \<Rightarrow> bool" where
  "extraIs v info = isParamSet (params info) ledStripParamExtra (Some v)"

section \<open>The modes\<close>

definition modeManualInit :: "LedStripInternalInfo \<Rightarrow> LedStripInternalInfo" where
  "modeManualInit info = info"

definition pastelShiftPixels :: int where
  "pastelShiftPixels = 1"

text \<open>One round of the pastel loop; the local variables are the color and
  \<^verbatim>\<open>repeat\<close>.\<close>

definition pastelStep ::
  "(Int8U \<times> Int8U \<times> Int8U) \<times> int \<times> LedStripInternalInfo \<Rightarrow> (Int8U \<times> Int8U \<times> Int8U) \<times> int \<times> LedStripInternalInfo" where
  "pastelStep st = (case st of ((r, g, b), rep, info) \<Rightarrow>
     (let ((r1, g1, b1), rep1) =
            (if rep < 63 then ((r + 1, g, b), rep)
             else if rep < 63 * 2 then ((r, g, b - 1), rep)
             else if rep < 63 * 3 then ((r, g + 1, b), rep)
             else ((63, 63, 127), -1));
          info1 = info\<lparr>lpd8806 :=
            setPixelColorRGB (word_of_int (pastelCurrPixel info)) r1 g1 b1 (lpd8806 info)\<rparr>;
          cp = pastelCurrPixel info1 + 1
      in ((r1, g1, b1), rep1 + 1,
          info1\<lparr>pastelCurrPixel := (if int (pixelCount info1) \<le> cp then 0 else cp)\<rparr>)))"

definition modePastelMain :: "LedStripInternalInfo \<Rightarrow> LedStripInternalInfo" where
  "modePastelMain info =
     (let (_, _, info1) = (pastelStep ^^ pixelCount info) ((63, 63, 127), 0, info);
          info2 = showPixels info1;
          cp = pastelCurrPixel info2 + pastelShiftPixels
      in info2\<lparr>pastelCurrPixel := (if int (pixelCount info2) \<le> cp then 0 else cp)\<rparr>)"

definition modePastelFast :: "LedStripInternalInfo \<Rightarrow> LedStripInternalInfo" where
  "modePastelFast info = (if extraIs ''fast'' info then modePastelMain info else info)"
definition modePastel1Sec :: "LedStripInternalInfo \<Rightarrow> LedStripInternalInfo" where
  "modePastel1Sec info = (if extraIs ''1sec'' info then modePastelMain info else info)"
definition modePastel10Sec :: "LedStripInternalInfo \<Rightarrow> LedStripInternalInfo" where
  "modePastel10Sec info = (if extraIs ''10sec'' info then modePastelMain info else info)"
definition modePastel1Min :: "LedStripInternalInfo \<Rightarrow> LedStripInternalInfo" where
  "modePastel1Min info = (if extraIs ''1min'' info then modePastelMain info else info)"

text \<open>The exception of the first conversion skips the second one.\<close>

definition fillRange :: "StringMap \<Rightarrow> Int64U \<times> Int64U" where
  "fillRange ps =
     (let (haveFrom, fromStr) = getParamValue ps ledStripParamFrom '''';
          (haveTo, toStr) = getParamValue ps ledStripParamTo '''';
          getTo = (if haveTo then (case stoll toStr 0 of Some n \<Rightarrow> word_of_int n | None \<Rightarrow> 0) else 0)
      in if haveFrom then
           (case stoll fromStr 0 of
              None \<Rightarrow> (0, 0)
            | Some n \<Rightarrow> (word_of_int n, getTo))
         else (0, getTo))"

definition fillStep :: "Int64U \<Rightarrow> Int64U \<Rightarrow> nat \<Rightarrow> Int32U \<times> LedStripInternalInfo \<Rightarrow> Int32U \<times> LedStripInternalInfo" where
  "fillStep from to i st = (case st of (color, info) \<Rightarrow>
     (if from \<noteq> 0 \<and> of_nat (i + 1) < from then (color, info)
      else if to \<noteq> 0 \<and> to < of_nat (i + 1) then (color, info)
      else
        let info1 = setPixel (int i) color info
        in if extraIs ''randomColor'' info1 then randomColor info1 else (color, info1)))"

definition modeFillInit :: "LedStripInternalInfo \<Rightarrow> LedStripInternalInfo" where
  "modeFillInit info =
     (let (color, info1) = wantedColor info;
          (from, to) = fillRange (params info1)
      in showPixels (snd (fold (fillStep from to) [0..<pixelCount info1] (color, info1))))"

definition modeRainbowMain :: "LedStripInternalInfo \<Rightarrow> LedStripInternalInfo" where
  "modeRainbowMain info =
     (let n = pixelCount info;
          info1 = fold (\<lambda>i info. setPixel (int i)
                    (wheel (word_of_int ((int i * 384 div int n + uint (rainbowJ info)) mod 384))) info)
                  [0..<n] info;
          info2 = showPixels info1;
          j = rainbowJ info2 + 1
      in info2\<lparr>rainbowJ := (if 384 \<le> j then 0 else j)\<rparr>)"

definition modeRainbowFast :: "LedStripInternalInfo \<Rightarrow> LedStripInternalInfo" where
  "modeRainbowFast info = (if extraIs ''fast'' info then modeRainbowMain info else info)"
definition modeRainbow1sec :: "LedStripInternalInfo \<Rightarrow> LedStripInternalInfo" where
  "modeRainbow1sec info = (if extraIs ''1sec'' info then modeRainbowMain info else info)"
definition modeRainbow10sec :: "LedStripInternalInfo \<Rightarrow> LedStripInternalInfo" where
  "modeRainbow10sec info = (if extraIs ''10sec'' info then modeRainbowMain info else info)"

definition ledsVisitedPerFrame :: nat where
  "ledsVisitedPerFrame = 11"

text \<open>One pass of the loop of the scan, up to the test of \<^verbatim>\<open>i == -1\<close>, and the
  loop itself.\<close>

definition scanVisit :: "LedStripInternalInfo \<Rightarrow> LedStripInternalInfo" where
  "scanVisit info =
     (let info1 = setPixel (scanI info) 0 (showPixels (setPixel (scanI info) (scanColor info) info))
      in info1\<lparr>scanI := scanI info1 + scanIncrement info1\<rparr>)"

function scanLoop :: "nat \<Rightarrow> LedStripInternalInfo \<Rightarrow> LedStripInternalInfo" where
  "scanLoop ledsVisited info =
     (let info1 = scanVisit info
      in if scanI info1 = -1 then
           clearPixelColorsAndShow (info1\<lparr>scanI := 0, scanIncrement := 1\<rparr>)
         else
           let info2 = (if scanI info1 = int (pixelCount info1)
                        then info1\<lparr>scanI := scanI info1 - 2, scanIncrement := -1\<rparr> else info1)
           in if ledsVisitedPerFrame < ledsVisited + 1 then info2
              else scanLoop (ledsVisited + 1)
                (info2\<lparr>stripEffects := stripEffects info2 @
                   [StripDelay (millisPerTick div int ledsVisitedPerFrame)]\<rparr>))"
  by pat_completeness auto
termination
  by (relation "measure (\<lambda>(v, _). Suc ledsVisitedPerFrame - v)") auto

declare scanLoop.simps [simp del]

definition modeScanMain :: "LedStripInternalInfo \<Rightarrow> LedStripInternalInfo" where
  "modeScanMain info =
     (let info1 = (if scanI info = 0 then
                     (case wantedColor info of (c, info0) \<Rightarrow> info0\<lparr>scanColor := c\<rparr>) else info)
      in scanLoop 0 info1)"

definition modeScanFast :: "LedStripInternalInfo \<Rightarrow> LedStripInternalInfo" where
  "modeScanFast info =
     (if \<not> isParamSet (params info) ledStripParamExtra None \<or> extraIs '''' info
      then modeScanMain info else info)"
definition modeScan1Sec :: "LedStripInternalInfo \<Rightarrow> LedStripInternalInfo" where
  "modeScan1Sec info = (if extraIs ''1sec'' info then modeScanMain info else info)"
definition modeScan10Sec :: "LedStripInternalInfo \<Rightarrow> LedStripInternalInfo" where
  "modeScan10Sec info = (if extraIs ''10sec'' info then modeScanMain info else info)"
definition modeScan1Min :: "LedStripInternalInfo \<Rightarrow> LedStripInternalInfo" where
  "modeScan1Min info = (if extraIs ''1min'' info then modeScanMain info else info)"

text \<open>The loop of the counter: pixel after pixel while bits are left.\<close>

fun counterLoop :: "nat list \<Rightarrow> Int64U \<Rightarrow> Int32U \<Rightarrow> LedStripInternalInfo \<Rightarrow> LedStripInternalInfo" where
  "counterLoop [] v color info = info"
| "counterLoop (p # ps) v color info =
     (if v \<noteq> 0
      then counterLoop ps (drop_bit 1 v) color (setPixel (int p) (if v AND 1 \<noteq> 0 then color else 0) info)
      else info)"

definition counterStart :: "StringMap \<Rightarrow> Int64U" where
  "counterStart ps = (case getParamValue ps ledStripParamExtra '''' of
     (True, s) \<Rightarrow> (case stoll s 0 of Some n \<Rightarrow> word_of_int n | None \<Rightarrow> 0)
   | (False, _) \<Rightarrow> 0)"

definition modeBinaryCounterMain :: "LedStripInternalInfo \<Rightarrow> LedStripInternalInfo" where
  "modeBinaryCounterMain info =
     (let lastPixel = int (pixelCount info) - 1;
          info1 =
            (if getPixelColor (word_of_int lastPixel) (lpd8806 info) = 0 then
               setPixel lastPixel (Color 1 1 1)
                 (info\<lparr>currentCounterValue := counterStart (params info),
                       lpd8806 := clearPixelColors (lpd8806 info)\<rparr>)
             else info\<lparr>currentCounterValue := currentCounterValue info + 1\<rparr>);
          (color, info2) = wantedColor info1
      in showPixels (counterLoop [0..<pixelCount info2 - 1] (currentCounterValue info2) color info2))"

definition modeBinaryCounterFast :: "LedStripInternalInfo \<Rightarrow> LedStripInternalInfo" where
  "modeBinaryCounterFast info = (if extraIs ''fast'' info then modeBinaryCounterMain info else info)"

section \<open>The table of modes\<close>

type_synonym modeFunction = "(LedStripInternalInfo \<Rightarrow> LedStripInternalInfo) option"

record Mode =
  ledStripMode :: LedStripMode
  ledStripModeStr :: string
  handlerInit :: modeFunction
  handlerTickFast :: modeFunction
  handlerTick1Sec :: modeFunction
  handlerTick10Sec :: modeFunction
  handlerTick1Min :: modeFunction

definition modeManual :: Mode where
  "modeManual = \<lparr>ledStripMode = ledStripModeManual, ledStripModeStr = ''manual'',
     handlerInit = Some modeManualInit, handlerTickFast = None, handlerTick1Sec = None,
     handlerTick10Sec = None, handlerTick1Min = None\<rparr>"

definition modePastel :: Mode where
  "modePastel = \<lparr>ledStripMode = ledStripModePastel, ledStripModeStr = ''pastel'',
     handlerInit = Some modePastelMain, handlerTickFast = Some modePastelFast,
     handlerTick1Sec = Some modePastel1Sec, handlerTick10Sec = Some modePastel10Sec,
     handlerTick1Min = Some modePastel1Min\<rparr>"

definition modeFill :: Mode where
  "modeFill = \<lparr>ledStripMode = ledStripModeFill, ledStripModeStr = ''fill'',
     handlerInit = Some modeFillInit, handlerTickFast = None, handlerTick1Sec = None,
     handlerTick10Sec = None, handlerTick1Min = None\<rparr>"

definition modeRainbow :: Mode where
  "modeRainbow = \<lparr>ledStripMode = ledStripModeRainbow, ledStripModeStr = ''rainbow'',
     handlerInit = Some modeRainbowMain, handlerTickFast = Some modeRainbowFast,
     handlerTick1Sec = Some modeRainbow1sec, handlerTick10Sec = Some modeRainbow10sec,
     handlerTick1Min = Some modeRainbowMain\<rparr>"

definition modeScan :: Mode where
  "modeScan = \<lparr>ledStripMode = ledStripModeScan, ledStripModeStr = ''scan'',
     handlerInit = None, handlerTickFast = Some modeScanFast,
     handlerTick1Sec = Some modeScan1Sec, handlerTick10Sec = Some modeScan10Sec,
     handlerTick1Min = Some modeScan1Min\<rparr>"

definition modeBinaryCounter :: Mode where
  "modeBinaryCounter = \<lparr>ledStripMode = ledStripModeBinaryCounter, ledStripModeStr = ''binCnt'',
     handlerInit = None, handlerTickFast = Some modeBinaryCounterFast,
     handlerTick1Sec = Some modeBinaryCounterMain, handlerTick10Sec = None,
     handlerTick1Min = None\<rparr>"

definition allModes :: "Mode list" where
  "allModes = [modeManual, modePastel, modeFill, modeRainbow, modeScan, modeBinaryCounter]"

definition currMode :: "LedStripInternalInfo \<Rightarrow> Mode" where
  "currMode info = allModes ! currModeIndex info"

definition getLedStripMode :: "LedStripInternalInfo \<Rightarrow> LedStripMode" where
  "getLedStripMode info = ledStripMode (currMode info)"

definition callHandler :: "modeFunction \<Rightarrow> LedStripInternalInfo \<Rightarrow> LedStripInternalInfo" where
  "callHandler h info = (case h of None \<Rightarrow> info | Some f \<Rightarrow> f info)"

definition modeTimeout :: "StringMap \<Rightarrow> int" where
  "modeTimeout ps =
     (let (found, v) = getParamValue ps ledStripParamTimeout ''''
      in if found \<and> v \<noteq> '''' then (case stoi v 0 of Some n \<Rightarrow> n | None \<Rightarrow> 0) else -1)"

definition shouldClearAllPixels :: "StringMap \<Rightarrow> bool" where
  "shouldClearAllPixels ps =
     (let (found, v) = getParamValue ps ledStripParamClearAllPixels ''''
      in found \<and> v \<noteq> '''' \<and> parseBooleanValue (Some v))"

text \<open>The wanted mode may be any number, since it is cast from one; the loop looks for the
  first entry of the table that has it.\<close>

definition changeLedStripMode :: "int \<Rightarrow> LedStripInternalInfo \<Rightarrow> StringMap \<Rightarrow> LedStripInternalInfo" where
  "changeLedStripMode wanted info ps =
     (case filter (\<lambda>i. ledStripModeValue (ledStripMode (allModes ! i)) = wanted) [0..<length allModes] of
        [] \<Rightarrow> info
      | i # _ \<Rightarrow>
          let info1 = (if ledStripModeValue (getLedStripMode info) \<noteq> wanted \<or> shouldClearAllPixels ps
                       then clearPixelColorsAndShow info else info);
              info2 = info1\<lparr>secsUntilGoingToManualMode := modeTimeout ps, currModeIndex := i, params := ps\<rparr>
          in callHandler (handlerInit (allModes ! i)) info2)"

definition checkIfModeTimedOut :: "LedStripInternalInfo \<Rightarrow> LedStripInternalInfo" where
  "checkIfModeTimedOut info =
     (if secsUntilGoingToManualMode info < 0 then info
      else
        let info1 = info\<lparr>secsUntilGoingToManualMode := secsUntilGoingToManualMode info - 1\<rparr>
        in if secsUntilGoingToManualMode info1 < 0
           then changeLedStripMode (ledStripModeValue ledStripModeManual) info1
                  [(ledStripParamClearAllPixels, ''yes'')]
           else info1)"

definition newLedStripInternalInfo :: "LPD8806 \<Rightarrow> rng \<Rightarrow> LedStripInternalInfo" where
  "newLedStripInternalInfo s r =
     (let (out, s1) = strip_begin s
      in showPixels \<lparr>lpd8806 = s1, currModeIndex = 0, secsUntilGoingToManualMode = -1, params = [],
        pastelCurrPixel = 0, rainbowJ = 0, scanColor = 0, scanI = 0, scanIncrement = 1,
        currentCounterValue = 0, stripRng = r, stripEffects = [StripShow out]\<rparr>)"

definition strip_fastTick :: "LedStripInternalInfo \<Rightarrow> LedStripInternalInfo" where
  "strip_fastTick info = callHandler (handlerTickFast (currMode info)) info"

definition strip_tick1sec :: "LedStripInternalInfo \<Rightarrow> LedStripInternalInfo" where
  "strip_tick1sec info = checkIfModeTimedOut (callHandler (handlerTick1Sec (currMode info)) info)"

definition strip_tick10sec :: "LedStripInternalInfo \<Rightarrow> LedStripInternalInfo" where
  "strip_tick10sec info = callHandler (handlerTick10Sec (currMode info)) info"

definition strip_tick1min :: "LedStripInternalInfo \<Rightarrow> LedStripInternalInfo" where
  "strip_tick1min info = callHandler (handlerTick1Min (currMode info)) info"

definition strip_doHandleModePost :: "StringMap \<Rightarrow> LedStripInternalInfo \<Rightarrow> LedStripInternalInfo" where
  "strip_doHandleModePost postValues info =
     (let (found, v) = getParamValue postValues ledStripParamLedStripMode ''''
      in if \<not> found \<or> v = '''' then info
         else case stoi v 10 of
                None \<Rightarrow> info
              | Some m \<Rightarrow> changeLedStripMode m info postValues)"

definition getLedStripModeStr :: "LedStripInternalInfo \<Rightarrow> string" where
  "getLedStripModeStr info = ledStripModeStr (currMode info)"

definition ledStripModeToStr :: "LedStripMode \<Rightarrow> string" where
  "ledStripModeToStr m =
     (case filter (\<lambda>e. ledStripMode e = m) allModes of [] \<Rightarrow> '''' | e # _ \<Rightarrow> ledStripModeStr e)"

definition newLedStripInternal :: "LPD8806 \<Rightarrow> rng \<Rightarrow> LedStripInternalInfo" where
  "newLedStripInternal s r =
     changeLedStripMode (ledStripModeValue ledStripModeRainbow) (newLedStripInternalInfo s r)
       [(ledStripParamTimeout, ''3'')]"

definition deleteLedStripInternal :: "LedStripInternalInfo \<Rightarrow> LedStripInternalInfo" where
  "deleteLedStripInternal info = (clearPixelColorsAndShow info)\<lparr>params := []\<rparr>"

section \<open>What every handler keeps\<close>

text \<open>
  A handler of a mode changes pixels and its own static locals; the mode, its parameters, the
  timeout and the length of the strip stay, and a well-formed strip stays well-formed.
\<close>

definition keeps :: "LedStripInternalInfo \<Rightarrow> LedStripInternalInfo \<Rightarrow> bool" where
  "keeps info info' \<longleftrightarrow>
     secsUntilGoingToManualMode info' = secsUntilGoingToManualMode info \<and>
     currModeIndex info' = currModeIndex info \<and> params info' = params info \<and>
     numLEDs (lpd8806 info') = numLEDs (lpd8806 info) \<and>
     (strip_wf (lpd8806 info) \<longrightarrow> strip_wf (lpd8806 info'))"

lemma keeps_refl [simp, intro]: "keeps info info"
  by (simp add: keeps_def)

lemma keeps_trans: "keeps a b \<Longrightarrow> keeps b c \<Longrightarrow> keeps a c"
  by (simp add: keeps_def)

lemma strip_wf_show [simp]: "strip_wf s \<Longrightarrow> strip_wf (snd (strip_show s))"
  by (auto simp: strip_show_def strip_wf_def strip_inv_def Let_def buffer_bytes_def word_gt_0)

lemma strip_show_sel [simp]:
  "numLEDs (snd (strip_show s)) = numLEDs s"
  "buffer_bytes (snd (strip_show s)) = buffer_bytes s"
  by (auto simp: strip_show_def Let_def buffer_bytes_def)

lemma getPixelColor_show [simp]: "getPixelColor n (snd (strip_show s)) = getPixelColor n s"
  by (simp add: getPixelColor_def)

lemma strip_wf_clear [simp]: "strip_wf s \<Longrightarrow> strip_wf (clearPixelColors s)"
proof -
  have "n - 1 < n" if "n \<noteq> 0" for n :: Int16U
    using that by (simp add: word_less_nat_alt unat_minus_one_neq unat_gt_0)
  then show "strip_wf s \<Longrightarrow> strip_wf (clearPixelColors s)"
    by (auto simp: clearPixelColors_def strip_wf_def strip_inv_def buffer_bytes_def bit_simps
        word_gt_0)
qed

lemma clear_sel [simp]: "numLEDs (clearPixelColors s) = numLEDs s"
  by (simp add: clearPixelColors_def)

lemma keeps_setPixel [simp, intro]: "keeps info (setPixel n c info)"
  by (simp add: keeps_def setPixel_def) (simp add: setPixelColor_def)

lemma keeps_show [simp, intro]: "keeps info (showPixels info)"
  by (simp add: keeps_def showPixels_def split_beta Let_def)

lemma keeps_clear [simp, intro]: "keeps info (clearPixelColorsAndShow info)"
  unfolding clearPixelColorsAndShow_def
  by (rule keeps_trans[OF _ keeps_show]) (simp add: keeps_def)

lemma keeps_statics [simp]:
  "keeps info (info'\<lparr>pastelCurrPixel := a\<rparr>) = keeps info info'"
  "keeps info (info'\<lparr>rainbowJ := j\<rparr>) = keeps info info'"
  "keeps info (info'\<lparr>scanColor := c\<rparr>) = keeps info info'"
  "keeps info (info'\<lparr>scanI := i\<rparr>) = keeps info info'"
  "keeps info (info'\<lparr>scanIncrement := i\<rparr>) = keeps info info'"
  "keeps info (info'\<lparr>currentCounterValue := v\<rparr>) = keeps info info'"
  "keeps info (info'\<lparr>stripRng := r\<rparr>) = keeps info info'"
  "keeps info (info'\<lparr>stripEffects := e\<rparr>) = keeps info info'"
  by (simp_all add: keeps_def)

lemma keeps_randomColor: "keeps info (snd (randomColor info))"
  by (simp add: randomColor_def Let_def split_beta)

lemma keeps_wantedColor: "keeps info (snd (wantedColor info))"
  by (simp add: wantedColor_def keeps_randomColor)

lemma keeps_pastelStep: "keeps info0 (snd (snd st)) \<Longrightarrow> keeps info0 (snd (snd (pastelStep st)))"
proof -
  assume a: "keeps info0 (snd (snd st))"
  obtain r g b rep info where st: "st = ((r, g, b), rep, info)" by (cases st) auto
  have k: "keeps info0 (info\<lparr>lpd8806 := setPixelColorRGB n x y z (lpd8806 info)\<rparr>)" for n x y z
    using a st by (simp add: keeps_def setPixelColorRGB_def)
  show ?thesis unfolding st pastelStep_def by (simp add: Let_def split_beta k)
qed

lemma keeps_pastelSteps: "keeps info0 (snd (snd st)) \<Longrightarrow> keeps info0 (snd (snd ((pastelStep ^^ n) st)))"
  by (induction n) (simp_all add: keeps_pastelStep)

lemma keeps_pastel: "keeps info (modePastelMain info)"
  using keeps_pastelSteps[of info "((63, 63, 127), 0, info)" "pixelCount info"]
  by (auto simp: modePastelMain_def Let_def split_beta intro: keeps_trans)

lemma keeps_fold: "(\<And>x i. keeps i (f x i)) \<Longrightarrow> keeps info (fold f xs info)"
  by (induction xs arbitrary: info) (auto intro: keeps_trans)

lemma keeps_fillStep: "keeps info0 (snd st) \<Longrightarrow> keeps info0 (snd (fillStep a b i st))"
  using keeps_trans[OF _ keeps_setPixel] keeps_trans[OF keeps_trans[OF _ keeps_setPixel] keeps_randomColor]
  by (auto simp: fillStep_def Let_def split: prod.splits)

lemma keeps_fillSteps: "keeps info0 (snd st) \<Longrightarrow> keeps info0 (snd (fold (fillStep a b) is st))"
  by (induction "is" arbitrary: st) (auto simp: keeps_fillStep)

lemma keeps_fill: "keeps info (modeFillInit info)"
proof -
  obtain c info1 where w: "wantedColor info = (c, info1)" by fastforce
  then have "keeps info info1" using keeps_wantedColor[of info] by simp
  then show ?thesis
    using keeps_trans[OF keeps_fillSteps keeps_show]
    by (simp add: modeFillInit_def w Let_def split_beta)
qed

lemma keeps_rainbow: "keeps info (modeRainbowMain info)"
  unfolding modeRainbowMain_def Let_def
  by (simp, rule keeps_trans[OF keeps_fold keeps_show]) simp

lemma keeps_scanVisit: "keeps info (scanVisit info)"
  unfolding scanVisit_def Let_def
  by (simp, rule keeps_trans[OF keeps_trans[OF keeps_setPixel keeps_show] keeps_setPixel])

lemma keeps_scanLoop: "keeps info (scanLoop k info)"
proof (induction k info rule: scanLoop.induct)
  case (1 k info)
  let ?i1 = "scanVisit info"
  let ?i2 = "if scanI ?i1 = int (pixelCount ?i1)
    then ?i1\<lparr>scanI := scanI ?i1 - 2, scanIncrement := -1\<rparr> else ?i1"
  let ?i3 = "?i2\<lparr>stripEffects := stripEffects ?i2 @
    [StripDelay (millisPerTick div int ledsVisitedPerFrame)]\<rparr>"
  have k1: "keeps info (?i1\<lparr>scanI := 0, scanIncrement := 1\<rparr>)" "keeps info ?i2" "keeps info ?i3"
    using keeps_scanVisit[of info] by simp_all
  show ?case
    using 1[OF refl _ refl] k1 keeps_trans[OF k1(1) keeps_clear] keeps_trans[OF k1(3)]
    by (subst scanLoop.simps) (simp add: Let_def)
qed

lemma keeps_scan: "keeps info (modeScanMain info)"
proof -
  obtain c info0 where w: "wantedColor info = (c, info0)" by fastforce
  then have "keeps info info0" using keeps_wantedColor[of info] by simp
  then show ?thesis
    using keeps_trans[OF _ keeps_scanLoop, of info "info0\<lparr>scanColor := c\<rparr>" 0] keeps_scanLoop[of info]
    by (simp add: modeScanMain_def w Let_def)
qed

lemma keeps_counterLoop: "keeps info (counterLoop ps v c info)"
  by (induction ps v c info rule: counterLoop.induct) (auto intro: keeps_trans)

lemma keeps_counter: "keeps info (modeBinaryCounterMain info)"
proof -
  have c: "keeps info (info\<lparr>currentCounterValue := v, lpd8806 := clearPixelColors (lpd8806 info)\<rparr>)" for v
    by (simp add: keeps_def)
  show ?thesis
    unfolding modeBinaryCounterMain_def Let_def
    by (auto simp: split_beta intro!: keeps_trans[OF keeps_trans[OF keeps_trans[OF _ keeps_wantedColor]
          keeps_counterLoop] keeps_show] keeps_trans[OF c keeps_setPixel])
qed

lemmas keeps_handlers =
  keeps_pastel keeps_fill keeps_rainbow keeps_scan keeps_counter

lemmas mode_tables =
  modeManual_def modePastel_def modeFill_def modeRainbow_def modeScan_def modeBinaryCounter_def

lemmas tick_defs =
  modeManualInit_def modePastelFast_def modePastel1Sec_def modePastel10Sec_def modePastel1Min_def
  modeRainbowFast_def modeRainbow1sec_def modeRainbow10sec_def
  modeScanFast_def modeScan1Sec_def modeScan10Sec_def modeScan1Min_def modeBinaryCounterFast_def

lemma allModes_handlers:
  assumes "m \<in> set allModes"
  shows "keeps info (callHandler (handlerInit m) info)" "keeps info (callHandler (handlerTickFast m) info)"
    "keeps info (callHandler (handlerTick1Sec m) info)" "keeps info (callHandler (handlerTick10Sec m) info)"
    "keeps info (callHandler (handlerTick1Min m) info)"
  using assms
  by (auto simp: allModes_def mode_tables callHandler_def tick_defs keeps_handlers)

definition mode_ok :: "LedStripInternalInfo \<Rightarrow> bool" where
  "mode_ok info \<longleftrightarrow> currModeIndex info < length allModes"

lemma currMode_in: "mode_ok info \<Longrightarrow> currMode info \<in> set allModes"
  by (simp add: mode_ok_def currMode_def)

section \<open>The timeout\<close>

text \<open>One second: any fast, ten-second and one-minute ticks in any order, and then the tick of
  the second.\<close>

datatype strip_tick = FastTick | TenSecTick | MinTick

fun strip_other_tick :: "strip_tick \<Rightarrow> LedStripInternalInfo \<Rightarrow> LedStripInternalInfo" where
  "strip_other_tick FastTick = strip_fastTick"
| "strip_other_tick TenSecTick = strip_tick10sec"
| "strip_other_tick MinTick = strip_tick1min"

definition strip_second :: "strip_tick list \<Rightarrow> LedStripInternalInfo \<Rightarrow> LedStripInternalInfo" where
  "strip_second ts info = strip_tick1sec (fold strip_other_tick ts info)"

lemma keeps_mode_ok: "keeps a b \<Longrightarrow> mode_ok a \<Longrightarrow> mode_ok b"
  by (simp add: keeps_def mode_ok_def)

lemma keeps_other_tick: "mode_ok info \<Longrightarrow> keeps info (strip_other_tick t info)"
  by (cases t) (simp_all add: strip_fastTick_def strip_tick10sec_def strip_tick1min_def
      allModes_handlers[OF currMode_in])

lemma keeps_other_ticks: "mode_ok info \<Longrightarrow> keeps info (fold strip_other_tick ts info)"
proof (induction ts arbitrary: info)
  case Nil
  then show ?case by simp
next
  case (Cons t ts)
  note k = keeps_other_tick[OF Cons.prems, of t]
  show ?case using Cons.IH[OF keeps_mode_ok[OF k Cons.prems]] keeps_trans[OF k] by simp
qed

lemma strip_second_before:
  assumes "mode_ok info"
  shows "\<exists>info'. keeps info info' \<and> strip_second ts info = checkIfModeTimedOut info'"
proof -
  let ?i = "fold strip_other_tick ts info"
  have k: "keeps info ?i" by (rule keeps_other_ticks[OF assms])
  have "keeps ?i (callHandler (handlerTick1Sec (currMode ?i)) ?i)"
    using allModes_handlers(3)[OF currMode_in[OF keeps_mode_ok[OF k assms]]] .
  with k show ?thesis unfolding strip_second_def strip_tick1sec_def by (blast intro: keeps_trans)
qed

lemma strip_second_counts:
  assumes "mode_ok info" "0 < secsUntilGoingToManualMode info"
  shows "secsUntilGoingToManualMode (strip_second ts info) = secsUntilGoingToManualMode info - 1 \<and>
    currModeIndex (strip_second ts info) = currModeIndex info \<and>
    params (strip_second ts info) = params info \<and> mode_ok (strip_second ts info) \<and>
    numLEDs (lpd8806 (strip_second ts info)) = numLEDs (lpd8806 info) \<and>
    (strip_wf (lpd8806 info) \<longrightarrow> strip_wf (lpd8806 (strip_second ts info)))"
proof -
  obtain i where i: "keeps info i" "strip_second ts info = checkIfModeTimedOut i"
    using strip_second_before[OF assms(1)] by blast
  have "checkIfModeTimedOut i = i\<lparr>secsUntilGoingToManualMode := secsUntilGoingToManualMode i - 1\<rparr>"
    using i(1) assms(2) by (simp add: checkIfModeTimedOut_def keeps_def)
  with i assms show ?thesis by (simp add: keeps_def mode_ok_def)
qed

interpretation strip_timeout: countdown
  "\<lambda>info. nat (secsUntilGoingToManualMode info + 1)" "strip_second ts"
  "\<lambda>info. secsUntilGoingToManualMode info = 0" mode_ok for ts
  using strip_second_counts by unfold_locales auto

lemma strip_seconds_keep:
  assumes "mode_ok info" "int k \<le> secsUntilGoingToManualMode info"
  shows "mode_ok ((strip_second ts ^^ k) info) \<and>
    currModeIndex ((strip_second ts ^^ k) info) = currModeIndex info \<and>
    params ((strip_second ts ^^ k) info) = params info \<and>
    numLEDs (lpd8806 ((strip_second ts ^^ k) info)) = numLEDs (lpd8806 info) \<and>
    (strip_wf (lpd8806 info) \<longrightarrow> strip_wf (lpd8806 ((strip_second ts ^^ k) info)))"
  using assms(2)
proof (induction k)
  case 0
  then show ?case using assms(1) by simp
next
  case (Suc k)
  let ?i = "(strip_second ts ^^ k) info"
  have "nat (secsUntilGoingToManualMode ?i + 1) = nat (secsUntilGoingToManualMode info + 1) - k"
    using strip_timeout.left_ticks[OF assms(1), of k ts] Suc.prems by simp
  then have "0 < secsUntilGoingToManualMode ?i" using Suc.prems by simp
  with strip_second_counts[of ?i ts] Suc show ?case by auto
qed

lemma timeout_goes_manual:
  assumes "mode_ok info" "secsUntilGoingToManualMode info = 0"
  shows "\<exists>i. keeps info i \<and> strip_second ts info =
    (clearPixelColorsAndShow i)\<lparr>secsUntilGoingToManualMode := -1, currModeIndex := 0,
       params := [(ledStripParamClearAllPixels, ''yes'')]\<rparr>"
proof -
  obtain i where i: "keeps info i" "strip_second ts info = checkIfModeTimedOut i"
    using strip_second_before[OF assms(1)] by blast
  let ?ps = "[(ledStripParamClearAllPixels, ''yes'')]"
  have yes: "parseBooleanValue (Some ''yes'')" by code_simp
  have "shouldClearAllPixels ?ps" "modeTimeout ?ps = -1"
    by (simp_all add: shouldClearAllPixels_def modeTimeout_def getParamValue_def yes
        ledStripParamClearAllPixels_def ledStripParamTimeout_def)
  moreover have "filter (\<lambda>k. ledStripModeValue (ledStripMode (allModes ! k)) = 0) [0..<length allModes] = [0]"
    by (simp add: allModes_def mode_tables upt_rec)
  ultimately have "changeLedStripMode 0 (i\<lparr>secsUntilGoingToManualMode := -1\<rparr>) ?ps =
      (clearPixelColorsAndShow (i\<lparr>secsUntilGoingToManualMode := -1\<rparr>))
        \<lparr>secsUntilGoingToManualMode := -1, currModeIndex := 0, params := ?ps\<rparr>"
    by (simp add: changeLedStripMode_def Let_def) (simp add: allModes_def modeManual_def callHandler_def
        modeManualInit_def)
  also have "\<dots> = (clearPixelColorsAndShow i)\<lparr>secsUntilGoingToManualMode := -1, currModeIndex := 0,
       params := ?ps\<rparr>"
    by (simp add: clearPixelColorsAndShow_def showPixels_def split_beta Let_def)
  finally show ?thesis
    using i assms(2) by (auto simp: checkIfModeTimedOut_def keeps_def Let_def)
qed

lemma getPixelColor_clear:
  assumes "strip_wf s"
  shows "getPixelColor n (clearPixelColors s) = 0"
proof (cases "n < numLEDs s")
  case False
  then show ?thesis by (simp add: getPixelColor_def)
next
  case True
  then have "pixels s \<noteq> NullBuffer" "numLEDs s \<noteq> 0"
    using pixel_index(1)[OF assms True] by (auto simp: buffer_bytes_def)
  then have b: "buffer_bytes (clearPixelColors s) = replicate (unat (numLEDs s) * 3) 0x80"
    by (simp add: clearPixelColors_def buffer_bytes_def)
  have "unat n < unat (numLEDs s)" using True by (simp add: word_less_nat_alt)
  then show ?thesis
    using pixel_index(2)[OF assms True] True by (simp add: getPixelColor_def b)
qed

text \<open>
  C37. A mode that was given a timeout of \<open>t\<close> seconds keeps running, with its parameters,
  for \<open>t\<close> ticks of the second, whatever other ticks come in between; the next tick of the
  second brings the strip back to the manual mode with no timeout, and every LED is off.
\<close>

theorem strip_mode_times_out:
  assumes "mode_ok info" and "strip_wf (lpd8806 info)" and "secsUntilGoingToManualMode info = int t"
  shows "(\<forall>k \<le> t. getLedStripMode ((strip_second ts ^^ k) info) = getLedStripMode info \<and>
            params ((strip_second ts ^^ k) info) = params info) \<and>
    getLedStripMode ((strip_second ts ^^ Suc t) info) = ledStripModeManual \<and>
    secsUntilGoingToManualMode ((strip_second ts ^^ Suc t) info) = -1 \<and>
    (\<forall>n. getPixelColor n (lpd8806 ((strip_second ts ^^ Suc t) info)) = 0)"
proof -
  let ?i = "(strip_second ts ^^ t) info"
  note keep = strip_seconds_keep[OF assms(1), of _ ts]
  have last: "mode_ok ?i" "strip_wf (lpd8806 ?i)" using keep[of t] assms(2,3) by auto
  have "nat (secsUntilGoingToManualMode ?i + 1) = 1"
    using strip_timeout.left_ticks[OF assms(1), of t ts] assms(3) by simp
  then have "secsUntilGoingToManualMode ?i = 0" by simp
  from timeout_goes_manual[OF last(1) this, of ts]
  obtain i where i: "keeps ?i i" "strip_second ts ?i = (clearPixelColorsAndShow i)
      \<lparr>secsUntilGoingToManualMode := -1, currModeIndex := 0,
       params := [(ledStripParamClearAllPixels, ''yes'')]\<rparr>" by blast
  have "strip_wf (lpd8806 i)" using i(1) last(2) by (simp add: keeps_def)
  then have "getPixelColor n (lpd8806 (strip_second ts ?i)) = 0" for n
    using i(2) by (simp add: clearPixelColorsAndShow_def showPixels_def split_beta Let_def getPixelColor_clear)
  moreover have "getLedStripMode (strip_second ts ?i) = ledStripModeManual"
    using i(2) by (simp add: getLedStripMode_def currMode_def allModes_def modeManual_def)
  ultimately show ?thesis
    using keep i(2) assms(3) by (simp add: getLedStripMode_def currMode_def)
qed

definition sampleInfo :: "nat \<Rightarrow> StringMap \<Rightarrow> LedStripInternalInfo" where
  "sampleInfo mode ps = \<lparr>lpd8806 = sampleStrip, currModeIndex = mode, secsUntilGoingToManualMode = 3,
     params = ps, pastelCurrPixel = 0, rainbowJ = 0, scanColor = 0x7F, scanI = 0, scanIncrement = 1,
     currentCounterValue = 0, stripRng = sconst 0, stripEffects = []\<rparr>"

theorem strip_mode_times_out_witness:
  "getLedStripMode ((strip_second [FastTick, MinTick] ^^ 3) (sampleInfo 3 [])) = ledStripModeRainbow \<and>
   getLedStripMode ((strip_second [FastTick, MinTick] ^^ 4) (sampleInfo 3 [])) = ledStripModeManual"
proof -
  have "mode_ok (sampleInfo 3 [])" "strip_wf (lpd8806 (sampleInfo 3 []))"
    "secsUntilGoingToManualMode (sampleInfo 3 []) = int 3"
    by (simp_all add: mode_ok_def sampleInfo_def sampleStrip_wf allModes_def)
  from strip_mode_times_out[OF this, of "[FastTick, MinTick]"]
  have "getLedStripMode ((strip_second [FastTick, MinTick] ^^ 3) (sampleInfo 3 [])) =
      getLedStripMode (sampleInfo 3 [])"
    and "getLedStripMode ((strip_second [FastTick, MinTick] ^^ Suc 3) (sampleInfo 3 [])) = ledStripModeManual"
    by blast+
  moreover have "getLedStripMode (sampleInfo 3 []) = ledStripModeRainbow"
    by (simp add: getLedStripMode_def currMode_def sampleInfo_def allModes_def modeRainbow_def)
  ultimately show ?thesis by (simp del: funpow.simps)
qed

section \<open>Pixels by index\<close>

abbreviation px :: "LedStripInternalInfo \<Rightarrow> nat \<Rightarrow> Int32U" where
  "px info m \<equiv> getPixelColor (of_nat m) (lpd8806 info)"

lemma unat_of_nat_pixel: "m < pixelCount info \<Longrightarrow> unat (of_nat m :: Int16U) = m"
  using unat_less_16[of "numPixels (lpd8806 info)"] by (simp add: unat_of_nat)

lemma pixel_valid: "m < pixelCount info \<Longrightarrow> of_nat m < numLEDs (lpd8806 info)"
  using unat_of_nat_pixel[of m info] by (simp add: word_less_nat_alt numPixels_def)

lemma px_setPixel:
  assumes "strip_wf (lpd8806 info)" "m < pixelCount info" "i < pixelCount info"
  shows "px (setPixel (int i) c info) m = (if i = m then c AND 0x7F7F7F else px info m)"
proof -
  have "(of_nat i :: Int16U) = of_nat m \<longleftrightarrow> i = m"
    using unat_of_nat_pixel[OF assms(2)] unat_of_nat_pixel[OF assms(3)] by metis
  then show ?thesis
    using getPixelColor_set[OF assms(1) pixel_valid[OF assms(2)], of "of_nat i" c]
    by (simp add: setPixel_def)
qed

lemma px_show [simp]: "px (showPixels info) m = px info m"
  by (simp add: showPixels_def split_beta Let_def)

lemma pixelCount_keeps: "keeps a b \<Longrightarrow> pixelCount b = pixelCount a"
  by (simp add: keeps_def numPixels_def)

lemma setPixel_wf: "strip_wf (lpd8806 info) \<Longrightarrow> strip_wf (lpd8806 (setPixel n c info))"
  using keeps_setPixel[of info n c] by (simp add: keeps_def)

lemma setPixel_frame [simp]:
  "params (setPixel n c info) = params info"
  "pixelCount (setPixel n c info) = pixelCount info"
  "stripEffects (setPixel n c info) = stripEffects info"
  "scanI (setPixel n c info) = scanI info"
  "scanIncrement (setPixel n c info) = scanIncrement info"
  "scanColor (setPixel n c info) = scanColor info"
  "currentCounterValue (setPixel n c info) = currentCounterValue info"
  by (simp_all add: setPixel_def setPixelColor_def numPixels_def)

section \<open>Fill\<close>

definition in_fill_range :: "Int64U \<Rightarrow> Int64U \<Rightarrow> nat \<Rightarrow> bool" where
  "in_fill_range lo hi i \<longleftrightarrow>
     \<not> (lo \<noteq> 0 \<and> of_nat (i + 1) < lo) \<and> \<not> (hi \<noteq> 0 \<and> hi < of_nat (i + 1))"

lemma fillSteps_px:
  assumes "strip_wf (lpd8806 info)" "\<not> extraIs ''randomColor'' info"
    "set is \<subseteq> {..<pixelCount info}" "m < pixelCount info"
  shows "px (snd (fold (fillStep lo hi) is (c, info))) m =
     (if m \<in> set is \<and> in_fill_range lo hi m then c AND 0x7F7F7F else px info m)"
  using assms
proof (induction "is" arbitrary: info)
  case Nil
  then show ?case by simp
next
  case (Cons i "is")
  let ?info = "if in_fill_range lo hi i then setPixel (int i) c info else info"
  have step: "fillStep lo hi i (c, info) = (c, ?info)"
    using Cons.prems(2) by (auto simp: fillStep_def in_fill_range_def extraIs_def Let_def)
  have p: "px ?info m = (if i = m \<and> in_fill_range lo hi i then c AND 0x7F7F7F else px info m)"
    using px_setPixel[OF Cons.prems(1,4), of i c] Cons.prems(3) by auto
  have "px (snd (fold (fillStep lo hi) is (c, ?info))) m =
     (if m \<in> set is \<and> in_fill_range lo hi m then c AND 0x7F7F7F else px ?info m)"
    using Cons.prems by (intro Cons.IH) (auto simp: setPixel_wf extraIs_def)
  then show ?case using step p by auto
qed

text \<open>
  Filling with a color that was given sets exactly the LEDs of the wanted range, counted
  from one, where a bound that is absent or zero is no bound, and leaves all other LEDs as they
  were.
\<close>

theorem fill_sets_exactly_the_range:
  assumes "strip_wf (lpd8806 info)" and "getPixelColorParam (params info) \<noteq> nullColor"
    and "\<not> extraIs ''randomColor'' info" and "m < pixelCount info"
    and "fillRange (params info) = (lo, hi)"
  shows "px (modeFillInit info) m =
    (if (lo = 0 \<or> unat lo \<le> m + 1) \<and> (hi = 0 \<or> m + 1 \<le> unat hi)
     then getPixelColorParam (params info) AND 0x7F7F7F else px info m)"
proof -
  have "m + 1 < 2 ^ LENGTH(64)" using assms(4) unat_less_16[of "numPixels (lpd8806 info)"] by simp
  then have "unat (of_nat (m + 1) :: Int64U) = m + 1" by (rule unat_of_nat_id)
  then have r: "in_fill_range lo hi m \<longleftrightarrow>
      (lo = 0 \<or> unat lo \<le> m + 1) \<and> (hi = 0 \<or> m + 1 \<le> unat hi)"
    by (simp only: in_fill_range_def word_less_nat_alt) auto
  have w: "wantedColor info = (getPixelColorParam (params info), info)"
    using assms(2) by (simp add: wantedColor_def)
  have "{0..<pixelCount info} \<subseteq> {..<pixelCount info}" by auto
  then show ?thesis
    using fillSteps_px[OF assms(1,3) _ assms(4), of "[0..<pixelCount info]" lo hi] assms(4)
    by (simp add: modeFillInit_def w assms(5) r)
qed

theorem fill_sets_exactly_the_range_witness:
  "px (modeFillInit (sampleInfo 2 [(''blue'', ''5''), (''from'', ''2''), (''to'', ''3'')])) 1 = 5 \<and>
   px (modeFillInit (sampleInfo 2 [(''blue'', ''5''), (''from'', ''2''), (''to'', ''3'')])) 3 = 0"
proof -
  let ?ps = "[(''blue'', ''5''), (''from'', ''2''), (''to'', ''3'')]"
  have c: "getPixelColorParam ?ps = 0x808085" "nullColor = 0x808080" "fillRange ?ps = (2, 3)"
    by code_simp+
  have h: "strip_wf (lpd8806 (sampleInfo 2 ?ps))" "pixelCount (sampleInfo 2 ?ps) = 4"
    "\<not> extraIs ''randomColor'' (sampleInfo 2 ?ps)" "params (sampleInfo 2 ?ps) = ?ps"
    by (simp_all add: sampleInfo_def sampleStrip_wf)
      (simp_all add: numPixels_def sampleStrip_def extraIs_def isParamSet_def ledStripParamExtra_def)
  have "px (sampleInfo 2 ?ps) 3 = 0"
    by (simp add: sampleInfo_def sampleStrip_def getPixelColor_def buffer_bytes_def)
  then show ?thesis
    using fill_sets_exactly_the_range[of "sampleInfo 2 ?ps" 1 2 3]
      fill_sets_exactly_the_range[of "sampleInfo 2 ?ps" 3 2 3] by (simp add: h c)
qed

section \<open>The binary counter\<close>

lemma Color_visible: "Color r g b \<noteq> nullColor \<Longrightarrow> Color r g b AND 0x7F7F7F \<noteq> 0"
proof (rule ccontr)
  assume a: "Color r g b \<noteq> nullColor" "\<not> Color r g b AND 0x7F7F7F \<noteq> 0"
  have "Color r g b = (Color r g b AND 0x7F7F7F) OR nullColor"
  proof (rule bit_word_eqI)
    fix n assume "n < LENGTH(32)"
    then have "n < 32" by simp
    from less_32_cases[OF this]
    show "bit (Color r g b) n = bit ((Color r g b AND 0x7F7F7F) OR nullColor) n"
      by (elim disjE; auto simp: Color_def nullColor_def bit_simps dest: bit_imp_le_length)
  qed
  with a show False by simp
qed

lemma getPixelColorParam_visible:
  "getPixelColorParam ps \<noteq> nullColor \<Longrightarrow> getPixelColorParam ps AND 0x7F7F7F \<noteq> 0"
  using Color_visible by (auto simp: getPixelColorParam_def split: option.splits)

text \<open>Lit pixels below \<open>k\<close> are those of the bits of the value.\<close>

lemma counterLoop_px:
  assumes "strip_wf (lpd8806 info)" "k + length ps \<le> pixelCount info" "m < pixelCount info"
    "ps = [k..<k + length ps]"
  shows "px (counterLoop ps v c info) m =
    (if k \<le> m \<and> m < k + length ps \<and> drop_bit (m - k) v \<noteq> 0
     then (if bit v (m - k) then c AND 0x7F7F7F else 0) else px info m)"
  using assms
proof (induction ps v c info arbitrary: k rule: counterLoop.induct)
  case (1 v color info)
  then show ?case by auto
next
  case (2 p ps v color info)
  have p: "p = k" "ps = [Suc k..<Suc k + length ps]"
    using 2(5) by (auto simp: upt_rec split: if_splits)
  show ?case
  proof (cases "v = 0")
    case True
    then show ?thesis by simp
  next
    case False
    let ?info = "setPixel (int p) (if v AND 1 \<noteq> 0 then color else 0) info"
    have ih: "px (counterLoop ps (drop_bit 1 v) color ?info) m =
      (if Suc k \<le> m \<and> m < Suc k + length ps \<and> drop_bit (m - Suc k) (drop_bit 1 v) \<noteq> 0
       then (if bit (drop_bit 1 v) (m - Suc k) then color AND 0x7F7F7F else 0) else px ?info m)"
      using 2(2-4) by (intro 2(1)[OF False _ _ _ p(2)]) (auto simp: setPixel_wf)
    have odd: "v AND 1 \<noteq> 0 \<longleftrightarrow> bit v 0" by (simp add: and_one_eq bit_0 odd_iff_mod_2_eq_one)
    have px: "px ?info m = (if k = m then (if bit v 0 then color else 0) AND 0x7F7F7F else px info m)"
      using px_setPixel[OF 2(2,4), of p] 2(3) p(1) odd by simp
    have sh: "drop_bit (m - Suc k) (drop_bit 1 v) = drop_bit (m - k) v"
      "bit (drop_bit 1 v) (m - Suc k) = bit v (m - k)" if "Suc k \<le> m"
      using that by (simp_all add: drop_bit_drop_bit bit_drop_bit_eq Suc_diff_Suc Suc_le_eq)
    show ?thesis
      using False ih px sh by (cases m k rule: linorder_cases) auto
  qed
qed

text \<open>The strip shows the counter: the LEDs but the last are lit as its bits are set, and the
  last one is lit as the mark that counting goes on.\<close>

definition shows_counter :: "LedStripInternalInfo \<Rightarrow> bool" where
  "shows_counter info \<longleftrightarrow> strip_wf (lpd8806 info) \<and> 2 \<le> pixelCount info \<and>
     px info (pixelCount info - 1) \<noteq> 0 \<and>
     (\<forall>m < pixelCount info - 1. (px info m \<noteq> 0) \<longleftrightarrow> bit (currentCounterValue info) m)"

lemma counterLoop_frame:
  "currentCounterValue (counterLoop ps v c info) = currentCounterValue info"
  by (induction ps v c info rule: counterLoop.induct) auto

lemma showPixels_frame [simp]:
  "currentCounterValue (showPixels info) = currentCounterValue info"
  "params (showPixels info) = params info"
  "pixelCount (showPixels info) = pixelCount info"
  "scanI (showPixels info) = scanI info"
  "scanIncrement (showPixels info) = scanIncrement info"
  "scanColor (showPixels info) = scanColor info"
  by (simp_all add: showPixels_def split_beta Let_def numPixels_def)

lemma counter_paints:
  assumes wf: "strip_wf (lpd8806 i)" and n: "2 \<le> pixelCount i" and last: "px i (pixelCount i - 1) \<noteq> 0"
    and color: "getPixelColorParam (params i) \<noteq> nullColor"
    and old: "\<And>m. m < pixelCount i - 1 \<Longrightarrow> drop_bit m (currentCounterValue i) = 0 \<Longrightarrow> px i m = 0"
  shows "shows_counter (showPixels (counterLoop [0..<pixelCount i - 1] (currentCounterValue i)
    (getPixelColorParam (params i)) i))"
proof -
  let ?v = "currentCounterValue i" and ?c = "getPixelColorParam (params i)" and ?n = "pixelCount i"
  let ?j = "counterLoop [0..<?n - 1] ?v ?c i"
  have k: "keeps i ?j" by (rule keeps_counterLoop)
  have p: "px ?j m = (if m < ?n - 1 \<and> drop_bit m ?v \<noteq> 0
      then (if bit ?v m then ?c AND 0x7F7F7F else 0) else px i m)" if "m < ?n" for m
    using counterLoop_px[OF wf, of 0 "[0..<?n - 1]" m ?v ?c] that by simp
  have "(px ?j m \<noteq> 0) \<longleftrightarrow> bit ?v m" if m: "m < ?n - 1" for m
  proof (cases "drop_bit m ?v = 0")
    case True
    then have "\<not> bit ?v m" by (rule drop_bit_0_not_bit)
    with True p[of m] m old[OF m] show ?thesis by simp
  next
    case False
    with p[of m] m getPixelColorParam_visible[OF color] show ?thesis by simp
  qed
  moreover have "px ?j (?n - 1) \<noteq> 0" using p[of "?n - 1"] n last by simp
  moreover have "strip_wf (lpd8806 (showPixels ?j))"
    using keeps_trans[OF k keeps_show] wf by (simp add: keeps_def)
  ultimately show ?thesis
    using n unfolding shows_counter_def showPixels_frame counterLoop_frame px_show pixelCount_keeps[OF k]
    by blast
qed

lemma drop_bit_Suc_0:
  assumes "v + 1 \<noteq> 0" "drop_bit m (v + 1) = 0"
  shows "\<not> bit (v :: Int64U) m"
proof -
  have "unat (v + 1) div 2 ^ m = 0"
    using assms(2) by (metis unat_0 unat_drop_bit_eq drop_bit_eq_div)
  then have "unat v < 2 ^ m"
    using unat_plus_one_neq[OF assms(1)] by (auto simp: div_eq_0_iff)
  then have "\<not> bit (unat v) m" by (simp add: bit_iff_odd)
  then show ?thesis by (simp add: bit_unat)
qed

lemma counter_start:
  assumes "strip_wf (lpd8806 info)" "2 \<le> pixelCount info" "px info (pixelCount info - 1) = 0"
    "getPixelColorParam (params info) \<noteq> nullColor"
  shows "shows_counter (modeBinaryCounterMain info) \<and>
    currentCounterValue (modeBinaryCounterMain info) = counterStart (params info) \<and>
    params (modeBinaryCounterMain info) = params info"
proof -
  let ?n = "pixelCount info"
  let ?a = "info\<lparr>currentCounterValue := counterStart (params info), lpd8806 := clearPixelColors (lpd8806 info)\<rparr>"
  let ?i = "setPixel (int (?n - 1)) (Color 1 1 1) ?a"
  have wf0: "strip_wf (lpd8806 ?a)" "pixelCount ?a = ?n" using assms(1) by (simp_all add: numPixels_def)
  have last: "int ?n - 1 = int (?n - 1)" using assms(2) by simp
  have c: "Color 1 1 1 AND 0x7F7F7F = 0x10101" by code_simp
  have p: "px ?i m = (if ?n - 1 = m then 0x10101 else 0)" if "m < ?n" for m
    using px_setPixel[OF wf0(1), of m "?n - 1" "Color 1 1 1"] that wf0(2) c assms(1)
    by (simp add: getPixelColor_clear)
  have eq: "modeBinaryCounterMain info = showPixels (counterLoop [0..<?n - 1]
      (currentCounterValue ?i) (getPixelColorParam (params ?i)) ?i)"
    using assms(2-4) wf0(2) unfolding modeBinaryCounterMain_def last
    by (simp add: wantedColor_def Let_def)
  have "shows_counter (showPixels (counterLoop [0..<pixelCount ?i - 1]
      (currentCounterValue ?i) (getPixelColorParam (params ?i)) ?i))"
  proof (rule counter_paints)
    have pc: "pixelCount ?i = ?n" using wf0(2) by (simp only: setPixel_frame)
    show "strip_wf (lpd8806 ?i)" using wf0(1) by (rule setPixel_wf)
    show "2 \<le> pixelCount ?i" unfolding pc by (rule assms(2))
    have "?n - 1 < ?n" using assms(2) by linarith
    from p[OF this] have "px ?i (?n - 1) = 0x10101" by (simp only: refl if_True)
    then show "px ?i (pixelCount ?i - 1) \<noteq> 0" unfolding pc by (simp only:) simp
    show "getPixelColorParam (params ?i) \<noteq> nullColor" using assms(4) by simp
    show "px ?i m = 0" if "m < pixelCount ?i - 1" for m using p[of m] that unfolding pc by simp
  qed
  moreover have "params (counterLoop ps v col ?i) = params info" for ps v col
    using keeps_counterLoop[of ?i ps v col] by (simp add: keeps_def)
  ultimately show ?thesis using wf0(2) by (simp add: eq counterLoop_frame)
qed

lemma counter_next:
  assumes "shows_counter info" "currentCounterValue info + 1 \<noteq> 0"
    "getPixelColorParam (params info) \<noteq> nullColor"
  shows "shows_counter (modeBinaryCounterMain info) \<and>
    currentCounterValue (modeBinaryCounterMain info) = currentCounterValue info + 1 \<and>
    params (modeBinaryCounterMain info) = params info"
proof -
  let ?n = "pixelCount info"
  let ?i = "info\<lparr>currentCounterValue := currentCounterValue info + 1\<rparr>"
  have sc: "strip_wf (lpd8806 info)" "2 \<le> ?n" "px info (?n - 1) \<noteq> 0"
    "\<And>m. m < ?n - 1 \<Longrightarrow> (px info m \<noteq> 0) \<longleftrightarrow> bit (currentCounterValue info) m"
    using assms(1) by (auto simp: shows_counter_def)
  have last: "int ?n - 1 = int (?n - 1)" using sc(2) by simp
  have eq: "modeBinaryCounterMain info = showPixels (counterLoop [0..<?n - 1]
      (currentCounterValue ?i) (getPixelColorParam (params ?i)) ?i)"
    using sc(3) assms(3) unfolding modeBinaryCounterMain_def last
    by (simp add: wantedColor_def Let_def)
  have "shows_counter (showPixels (counterLoop [0..<pixelCount ?i - 1]
      (currentCounterValue ?i) (getPixelColorParam (params ?i)) ?i))"
    using sc assms drop_bit_Suc_0[OF assms(2)] by (intro counter_paints) auto
  moreover have "params (counterLoop ps v col ?i) = params info" for ps v col
    using keeps_counterLoop[of ?i ps v col] by (simp add: keeps_def)
  ultimately show ?thesis by (simp add: eq counterLoop_frame)
qed

text \<open>
  The binary counter counts: started on a strip whose last LED is off, after \<open>k\<close> more
  rounds the LEDs before the last show, one bit each and the lowest first, the start value plus
  \<open>k\<close>, as long as that fits in 64 bits.
\<close>

theorem binary_counter_counts:
  assumes "strip_wf (lpd8806 info)" and "2 \<le> pixelCount info" and "px info (pixelCount info - 1) = 0"
    and "getPixelColorParam (params info) \<noteq> nullColor"
    and "unat (counterStart (params info)) + k < 2 ^ 64" and "m < pixelCount info - 1"
  shows "(px ((modeBinaryCounterMain ^^ Suc k) info) m \<noteq> 0) \<longleftrightarrow>
    bit (unat (counterStart (params info)) + k) m"
proof -
  let ?s = "counterStart (params info)"
  have "shows_counter ((modeBinaryCounterMain ^^ Suc k) info) \<and>
    unat (currentCounterValue ((modeBinaryCounterMain ^^ Suc k) info)) = unat ?s + k \<and>
    params ((modeBinaryCounterMain ^^ Suc k) info) = params info"
    using assms(5)
  proof (induction k)
    case 0
    then show ?case using counter_start[OF assms(1-4)] by simp
  next
    case (Suc k)
    let ?i = "(modeBinaryCounterMain ^^ Suc k) info"
    have ih: "shows_counter ?i" "unat (currentCounterValue ?i) = unat ?s + k" "params ?i = params info"
      using Suc by auto
    have "unat (currentCounterValue ?i + 1) = Suc (unat ?s + k)"
      using ih(2) Suc.prems by (simp add: unat_word_ariths)
    moreover from this have "currentCounterValue ?i + 1 \<noteq> 0" by (metis unat_0 nat.distinct(1))
    ultimately show ?case using counter_next[OF ih(1)] ih(3) assms(4) by simp
  qed
  moreover have "pixelCount ((modeBinaryCounterMain ^^ j) info) = pixelCount info" for j
    by (induction j) (simp_all add: pixelCount_keeps[OF keeps_counter])
  ultimately show ?thesis
    using assms(6) unfolding shows_counter_def by (metis bit_unat)
qed

theorem binary_counter_counts_witness:
  "px ((modeBinaryCounterMain ^^ Suc 2) (sampleInfo 5 [(''extraParam'', ''3''), (''red'', ''9'')])) 0 \<noteq> 0 \<and>
   px ((modeBinaryCounterMain ^^ Suc 2) (sampleInfo 5 [(''extraParam'', ''3''), (''red'', ''9'')])) 1 = 0 \<and>
   px ((modeBinaryCounterMain ^^ Suc 2) (sampleInfo 5 [(''extraParam'', ''3''), (''red'', ''9'')])) 2 \<noteq> 0"
proof -
  let ?info = "sampleInfo 5 [(''extraParam'', ''3''), (''red'', ''9'')]"
  have "counterStart [(''extraParam'', ''3''), (''red'', ''9'')] = 3"
    "getPixelColorParam [(''extraParam'', ''3''), (''red'', ''9'')] \<noteq> nullColor" by code_simp+
  then have c: "unat (counterStart (params ?info)) + 2 = 5" "getPixelColorParam (params ?info) \<noteq> nullColor"
    by (simp_all add: sampleInfo_def)
  have p: "pixelCount ?info = 4" "strip_wf (lpd8806 ?info)" "px ?info 3 = 0"
    by (simp_all add: sampleInfo_def sampleStrip_wf)
      (simp_all add: numPixels_def sampleStrip_def getPixelColor_def buffer_bytes_def)
  have q: "(px ((modeBinaryCounterMain ^^ Suc 2) ?info) m \<noteq> 0) \<longleftrightarrow> bit (5::nat) m" if "m < 3" for m
    using binary_counter_counts[of ?info 2 m] p c that by (simp del: funpow.simps)
  moreover have "bit (5::nat) 0" "\<not> bit (5::nat) 1" "bit (5::nat) 2" by code_simp+
  ultimately show ?thesis using q[of 0] q[of 1] q[of 2] by (simp del: funpow.simps)
qed

section \<open>The scan\<close>

text \<open>Frames that the strip was sent, as far as they show pixels.\<close>

definition scan_ok :: "LedStripInternalInfo \<Rightarrow> bool" where
  "scan_ok info \<longleftrightarrow> strip_wf (lpd8806 info) \<and> 2 \<le> pixelCount info \<and>
     0 \<le> scanI info \<and> scanI info < int (pixelCount info) \<and>
     (scanIncrement info = 1 \<or> scanIncrement info = -1) \<and>
     (\<forall>m < pixelCount info. px info m = 0)"

text \<open>The pixels as they are when the frame is sent.\<close>

definition scanFrame :: "LedStripInternalInfo \<Rightarrow> LedStripInternalInfo" where
  "scanFrame info = setPixel (scanI info) (scanColor info) info"

lemma scan_frame_one_lit:
  assumes "scan_ok info" "m < pixelCount info"
  shows "px (scanFrame info) m = (if int m = scanI info then scanColor info AND 0x7F7F7F else 0)"
proof -
  obtain i where i: "scanI info = int i" "i < pixelCount info"
    using assms(1) by (metis scan_ok_def nonneg_int_cases of_nat_less_iff)
  show ?thesis
    using px_setPixel[of info m i "scanColor info"] assms i by (auto simp: scanFrame_def scan_ok_def)
qed

lemma scanVisit_step:
  assumes "scan_ok info"
  shows "strip_wf (lpd8806 (scanVisit info))" "pixelCount (scanVisit info) = pixelCount info"
    "scanI (scanVisit info) = scanI info + scanIncrement info"
    "scanIncrement (scanVisit info) = scanIncrement info"
    "scanColor (scanVisit info) = scanColor info"
    "m < pixelCount info \<Longrightarrow> px (scanVisit info) m = 0"
proof -
  have k: "keeps info (scanVisit info)" by (rule keeps_scanVisit)
  show "strip_wf (lpd8806 (scanVisit info))" using k assms by (simp add: keeps_def scan_ok_def)
  show "pixelCount (scanVisit info) = pixelCount info" by (rule pixelCount_keeps[OF k])
  show "scanI (scanVisit info) = scanI info + scanIncrement info"
    "scanIncrement (scanVisit info) = scanIncrement info" "scanColor (scanVisit info) = scanColor info"
    by (simp_all add: scanVisit_def Let_def)
  show "px (scanVisit info) m = 0" if m: "m < pixelCount info"
  proof -
    obtain i where i: "scanI info = int i" "i < pixelCount info"
      using assms by (metis scan_ok_def nonneg_int_cases of_nat_less_iff)
    let ?f = "showPixels (scanFrame info)"
    have "keeps info ?f" unfolding scanFrame_def by (rule keeps_trans[OF keeps_setPixel keeps_show])
    then have f: "strip_wf (lpd8806 ?f)" "pixelCount ?f = pixelCount info"
      using assms pixelCount_keeps[OF \<open>keeps info ?f\<close>] by (simp_all add: keeps_def scan_ok_def)
    have "px (scanVisit info) m = px (setPixel (int i) 0 ?f) m"
      by (simp add: scanVisit_def Let_def i(1) scanFrame_def)
    also have "\<dots> = (if i = m then 0 else px ?f m)"
      using px_setPixel[OF f(1), of m i 0] f(2) m i(2) by simp
    finally show ?thesis
      using scan_frame_one_lit[OF assms m] i(1) by (simp split: if_splits)
  qed
qed

text \<open>An effect that sends a frame with at most one lit LED.\<close>

definition lit_leds :: "nat \<Rightarrow> LPD8806 \<Rightarrow> nat set" where
  "lit_leds n s = {m. m < n \<and> getPixelColor (of_nat m) s \<noteq> 0}"

definition one_lit_effect :: "nat \<Rightarrow> strip_effect \<Rightarrow> bool" where
  "one_lit_effect n e \<longleftrightarrow> (\<forall>out. e = StripShow out \<longrightarrow>
     (\<exists>s. out = fst (strip_show s) \<and> unat (numPixels s) = n \<and> card (lit_leds n s) \<le> 1))"

definition adds_one_lit :: "LedStripInternalInfo \<Rightarrow> LedStripInternalInfo \<Rightarrow> bool" where
  "adds_one_lit info info' \<longleftrightarrow> (\<exists>es. stripEffects info' = stripEffects info @ es \<and>
     (\<forall>e \<in> set es. one_lit_effect (pixelCount info) e))"

lemma adds_one_lit_trans:
  "adds_one_lit a b \<Longrightarrow> pixelCount b = pixelCount a \<Longrightarrow> adds_one_lit b c \<Longrightarrow> adds_one_lit a c"
  by (auto simp: adds_one_lit_def)

lemma one_lit_card:
  assumes "\<And>m. m < n \<Longrightarrow> getPixelColor (of_nat m) s \<noteq> 0 \<Longrightarrow> m = k"
  shows "card (lit_leds n s) \<le> 1"
proof -
  have "lit_leds n s \<subseteq> {k}" using assms by (auto simp: lit_leds_def)
  then show ?thesis using card_mono[of "{k}"] by fastforce
qed

lemma one_lit_effect_show:
  "card (lit_leds n s) \<le> 1 \<Longrightarrow> unat (numPixels s) = n \<Longrightarrow> one_lit_effect n (StripShow (fst (strip_show s)))"
  unfolding one_lit_effect_def by blast

lemma show_effects: "stripEffects (showPixels info) = stripEffects info @ [StripShow (fst (strip_show (lpd8806 info)))]"
  by (simp add: showPixels_def split_beta Let_def)

lemma scanVisit_effects:
  assumes "scan_ok info"
  shows "adds_one_lit info (scanVisit info)"
proof -
  let ?s = "lpd8806 (scanFrame info)"
  have "card (lit_leds (pixelCount info) ?s) \<le> 1"
    using scan_frame_one_lit[OF assms] by (intro one_lit_card[where k = "nat (scanI info)"]) (auto split: if_splits)
  moreover have "unat (numPixels ?s) = pixelCount info" by (simp add: scanFrame_def)
  moreover have "stripEffects (scanVisit info) = stripEffects info @ [StripShow (fst (strip_show ?s))]"
    by (simp add: scanVisit_def scanFrame_def Let_def show_effects)
  ultimately show ?thesis
    unfolding adds_one_lit_def by (intro exI conjI) (assumption, simp add: one_lit_effect_show)
qed

lemma clear_effects:
  assumes "strip_wf (lpd8806 info)"
  shows "adds_one_lit info (clearPixelColorsAndShow info)" "px (clearPixelColorsAndShow info) m = 0"
proof -
  have "unat (numPixels (clearPixelColors (lpd8806 info))) = pixelCount info" by (simp add: numPixels_def)
  moreover have "lit_leds n (clearPixelColors (lpd8806 info)) = {}" for n
    using assms by (simp add: lit_leds_def getPixelColor_clear)
  ultimately show "adds_one_lit info (clearPixelColorsAndShow info)"
    by (simp add: adds_one_lit_def clearPixelColorsAndShow_def show_effects one_lit_effect_show)
  show "px (clearPixelColorsAndShow info) m = 0"
    using assms by (simp add: clearPixelColorsAndShow_def getPixelColor_clear)
qed

lemma clear_frame [simp]:
  "scanI (clearPixelColorsAndShow info) = scanI info"
  "scanIncrement (clearPixelColorsAndShow info) = scanIncrement info"
  by (simp_all add: clearPixelColorsAndShow_def)

lemma scanLoop_ok:
  "scan_ok info \<Longrightarrow> scan_ok (scanLoop k info) \<and> adds_one_lit info (scanLoop k info)"
proof (induction k info rule: scanLoop.induct)
  case (1 k info)
  let ?v = "scanVisit info"
  note v = scanVisit_step[OF 1(2)] and ve = scanVisit_effects[OF 1(2)]
  have r: "0 \<le> scanI info" "scanI info < int (pixelCount info)" "2 \<le> pixelCount info"
    "scanIncrement info = 1 \<or> scanIncrement info = -1" using 1(2) by (auto simp: scan_ok_def)
  show ?case
  proof (cases "scanI ?v = -1")
    case True
    let ?c = "?v\<lparr>scanI := 0, scanIncrement := 1\<rparr>"
    have wf: "strip_wf (lpd8806 ?c)" using v(1) by simp
    have k: "keeps ?c (clearPixelColorsAndShow ?c)" by (rule keeps_clear)
    have "scan_ok (clearPixelColorsAndShow ?c)"
      using clear_effects(2)[OF wf] k wf v(2) r pixelCount_keeps[OF k] by (simp add: scan_ok_def keeps_def)
    moreover have "adds_one_lit ?v ?c" by (simp add: adds_one_lit_def)
    ultimately show ?thesis
      using True adds_one_lit_trans[OF adds_one_lit_trans[OF ve v(2)] _ clear_effects(1)[OF wf]] v(2)
      by (simp add: scanLoop.simps[of k info] Let_def)
  next
    case False
    let ?t = "if scanI ?v = int (pixelCount ?v) then ?v\<lparr>scanI := scanI ?v - 2, scanIncrement := -1\<rparr> else ?v"
    let ?d = "?t\<lparr>stripEffects := stripEffects ?t @ [StripDelay (millisPerTick div int ledsVisitedPerFrame)]\<rparr>"
    have t: "scan_ok ?t" "scan_ok ?d"
    proof -
      have nv: "numPixels (lpd8806 ?v) = numPixels (lpd8806 info)"
        using keeps_scanVisit[of info] by (simp add: keeps_def numPixels_def)
      have "2 \<le> int (pixelCount info)" using r(3) by linarith
      then have n2: "2 \<le> uint (numPixels (lpd8806 info))" by simp
      show "scan_ok ?t" "scan_ok ?d"
        using v(1,3-6) r n2 False by (auto simp: scan_ok_def nv)
    qed
    have e: "adds_one_lit info ?t" "adds_one_lit info ?d" "pixelCount ?d = pixelCount info"
      using ve v(2) by (auto simp: adds_one_lit_def one_lit_effect_def)
    show ?thesis
      using 1(1)[OF refl False refl _ t(2)] e t adds_one_lit_trans[OF e(2,3)] False
      by (simp add: scanLoop.simps[of k info] Let_def)
  qed
qed

text \<open>
  The scan: on a blank strip of at least two LEDs, a round of the scan ends with the
  position still on the strip and the strip blank again in memory, and every frame it sends has
  at most one lit LED.
\<close>

theorem scan_moves_one_led:
  assumes "scan_ok info"
  shows "scan_ok (modeScanMain info) \<and>
    (\<exists>es. stripEffects (modeScanMain info) = stripEffects info @ es \<and>
       (\<forall>e \<in> set es. \<forall>out. e = StripShow out \<longrightarrow>
          (\<exists>s. out = fst (strip_show s) \<and> unat (numPixels s) = pixelCount info \<and>
             card (lit_leds (pixelCount info) s) \<le> 1)))"
proof -
  have w: "scan_ok ((snd (wantedColor info))\<lparr>scanColor := c\<rparr>) \<and>
      stripEffects (snd (wantedColor info)) = stripEffects info \<and>
      pixelCount (snd (wantedColor info)) = pixelCount info" for c
    using assms by (simp add: wantedColor_def randomColor_def scan_ok_def Let_def split_beta)
  show ?thesis
    using scanLoop_ok[OF assms, of 0] scanLoop_ok[of "(snd (wantedColor info))\<lparr>scanColor := fst (wantedColor info)\<rparr>" 0] w
    by (auto simp: modeScanMain_def Let_def split_beta adds_one_lit_def one_lit_effect_def)
qed

theorem scan_moves_one_led_witness:
  "scan_ok (modeScanMain (sampleInfo 4 [])) \<and>
    (\<exists>es. stripEffects (modeScanMain (sampleInfo 4 [])) = es \<and>
       (\<forall>e \<in> set es. \<forall>out. e = StripShow out \<longrightarrow>
          (\<exists>s. out = fst (strip_show s) \<and> unat (numPixels s) = 4 \<and> card (lit_leds 4 s) \<le> 1)))"
proof -
  have p: "pixelCount (sampleInfo 4 []) = 4" "stripEffects (sampleInfo 4 []) = []"
    by (simp_all add: sampleInfo_def sampleStrip_def numPixels_def)
  have z: "px (sampleInfo 4 []) m = 0" for m
  proof (cases "(of_nat m :: Int16U) < 4")
    case True
    then have "unat (of_nat m :: Int16U) \<in> {0, 1, 2, 3}" by (simp add: word_less_nat_alt) linarith
    then have "(of_nat m :: Int16U) \<in> {0, 1, 2, 3}" by (auto simp: word_unat_eq_iff)
    then show ?thesis
      by (auto simp: sampleInfo_def sampleStrip_def getPixelColor_def buffer_bytes_def)
  next
    case False
    then show ?thesis by (simp add: sampleInfo_def sampleStrip_def getPixelColor_def)
  qed
  have "scan_ok (sampleInfo 4 [])"
    unfolding scan_ok_def p using z by (simp add: sampleInfo_def sampleStrip_wf)
  from scan_moves_one_led[OF this] show ?thesis by (simp add: p)
qed

end
