(* ===== verification/Led_Strip.thy ===== *)
theory Led_Strip
  imports Led_Strip_Internal
begin

text \<open>
  \<^verbatim>\<open>src/ledStrip.h\<close> and \<^verbatim>\<open>src/ledStrip.cpp\<close>: the thread of the LED
  strip. Requests from other threads are kept in a list; each round of the loop takes at most
  one of them and then runs the ticks that are due. Every access holds
  \<^verbatim>\<open>instanceMutex\<close>.
\<close>

section \<open>Model\<close>

datatype LedStripTodo = LedStripTodoHandleModePost StringMap

record LedStrip =
  ledStripTodos :: "LedStripTodo list"
  strip_internal :: "LedStripInternalInfo option"

definition numberOfLeds :: Int16U where
  "numberOfLeds = 240"
definition strip_pinDATA :: Int8U where
  "strip_pinDATA = 21"
definition strip_pinCLK :: Int8U where
  "strip_pinCLK = 20"

definition newLedStrip :: LedStrip where
  "newLedStrip = \<lparr>ledStripTodos = [], strip_internal = None\<rparr>"

definition strip_enqueueMsgModePost :: "StringMap \<Rightarrow> LedStrip \<Rightarrow> LedStrip" where
  "strip_enqueueMsgModePost postValues s =
     s\<lparr>ledStripTodos := ledStripTodos s @ [LedStripTodoHandleModePost postValues]\<rparr>"

definition getInternalLedStripMode :: "LedStrip \<Rightarrow> string" where
  "getInternalLedStripMode s =
     (case strip_internal s of None \<Rightarrow> ''starting'' | Some i \<Rightarrow> getLedStripModeStr i)"

definition strip_getLedStripModeStr :: "LedStripMode \<Rightarrow> LedStrip \<Rightarrow> string" where
  "strip_getLedStripModeStr m s = (case strip_internal s of
     None \<Rightarrow> (if m = ledStripModeManual then ''manual'' else '''')
   | Some _ \<Rightarrow> ledStripModeToStr m)"

definition dequeueLedStripTodo :: "LedStrip \<Rightarrow> LedStripTodo option \<times> LedStrip" where
  "dequeueLedStripTodo s = (case ledStripTodos s of
     [] \<Rightarrow> (None, s)
   | t # ts \<Rightarrow> (Some t, s\<lparr>ledStripTodos := ts\<rparr>))"

definition handleStripTodo :: "LedStripTodo \<Rightarrow> LedStripInternalInfo \<Rightarrow> LedStripInternalInfo" where
  "handleStripTodo t i = (case t of LedStripTodoHandleModePost ps \<Rightarrow> strip_doHandleModePost ps i)"

definition strip_checkTodoList :: "LedStrip \<Rightarrow> LedStrip" where
  "strip_checkTodoList s = (case dequeueLedStripTodo s of
     (None, s1) \<Rightarrow> s1
   | (Some t, s1) \<Rightarrow> s1\<lparr>strip_internal := map_option (handleStripTodo t) (strip_internal s1)\<rparr>)"

text \<open>The strip that the thread sets up, over SPI when there is one.\<close>

definition strip_setup :: "bool \<Rightarrow> bool \<Rightarrow> rng \<Rightarrow> LedStrip \<Rightarrow> strip_error + LedStrip" where
  "strip_setup haveSpi mallocOk r s =
     (case (if haveSpi then newSpiStrip mallocOk numberOfLeds
            else newPinStrip mallocOk numberOfLeds strip_pinDATA strip_pinCLK) of
        Inl e \<Rightarrow> Inl e
      | Inr l \<Rightarrow> Inr (s\<lparr>strip_internal := Some (newLedStripInternal l r)\<rparr>))"

text \<open>
  One round of the loop: the message found in the inbox, and which of the periodic flags have
  expired since they were last reset.
\<close>

record strip_flags =
  due1sec :: bool
  due10sec :: bool
  due1min :: bool

definition strip_ticks :: "strip_flags \<Rightarrow> LedStripInternalInfo \<Rightarrow> LedStripInternalInfo" where
  "strip_ticks f i =
     (let i1 = strip_fastTick i;
          i2 = (if due1sec f then strip_tick1sec i1 else i1);
          i3 = (if due10sec f then strip_tick10sec i2 else i2)
      in if due1min f then strip_tick1min i3 else i3)"

definition stripLoopStep :: "InboxMsg option \<Rightarrow> strip_flags \<Rightarrow> LedStrip \<Rightarrow> bool \<times> LedStrip" where
  "stripLoopStep msg f s =
     (if map_option inboxMsgType msg = Some inboxMsgTypeTerminate then (False, s)
      else
        let s1 = strip_checkTodoList s
        in (True, s1\<lparr>strip_internal := map_option (strip_ticks f) (strip_internal s1)\<rparr>))"

text \<open>The end of the thread: the destructor blanks the strip.\<close>

definition strip_teardown :: "LedStrip \<Rightarrow> LedStrip \<times> LedStripInternalInfo option" where
  "strip_teardown s = (s\<lparr>strip_internal := None\<rparr>, map_option deleteLedStripInternal (strip_internal s))"



section \<open>The list of requests is a queue\<close>

interpretation strip_todo: fifo
  "\<lambda>t s. s\<lparr>ledStripTodos := ledStripTodos s @ [t]\<rparr>" dequeueLedStripTodo ledStripTodos "\<lambda>_. True"
  by unfold_locales (simp_all add: dequeueLedStripTodo_def split: list.splits)

fun strip_rounds :: "strip_flags list \<Rightarrow> LedStrip \<Rightarrow> LedStrip" where
  "strip_rounds [] s = s"
| "strip_rounds (f # fs) s = strip_rounds fs (snd (stripLoopStep None f s))"

lemma strip_round:
  assumes "ledStripTodos s = t # ts" "strip_internal s = Some i"
  shows "snd (stripLoopStep None f s) = s\<lparr>ledStripTodos := ts,
    strip_internal := Some (strip_ticks f (handleStripTodo t i))\<rparr>"
  using strip_todo.pop_front[where q = s and x = t and xs = ts] assms
  by (simp add: stripLoopStep_def strip_checkTodoList_def dequeueLedStripTodo_def)

text \<open>
  Requests to the strip are handled in the order in which they were queued, one in each
  round of the loop and before the ticks of that round, and none is lost: after as many rounds
  as there were requests, the strip is what handling them one after the other gives, and the
  list is empty.
\<close>

theorem strip_requests_in_order:
  assumes "strip_internal s = Some i" and "ledStripTodos s = []" and "length fs = length ps"
  shows "strip_rounds fs (fold strip_enqueueMsgModePost ps s) =
    s\<lparr>strip_internal := Some (fold (\<lambda>(f, p) i. strip_ticks f (strip_doHandleModePost p i)) (zip fs ps) i)\<rparr>"
proof -
  have q: "fold strip_enqueueMsgModePost ps s =
      s\<lparr>ledStripTodos := ledStripTodos s @ map LedStripTodoHandleModePost ps\<rparr>" for s
    by (induction ps arbitrary: s) (simp_all add: strip_enqueueMsgModePost_def)
  have "strip_rounds fs (s\<lparr>ledStripTodos := map LedStripTodoHandleModePost ps, strip_internal := Some i\<rparr>) =
      s\<lparr>ledStripTodos := [], strip_internal :=
        Some (fold (\<lambda>(f, p) i. strip_ticks f (strip_doHandleModePost p i)) (zip fs ps) i)\<rparr>"
    using assms(3)
  proof (induction fs ps arbitrary: i rule: list_induct2)
    case Nil
    then show ?case by simp
  next
    case (Cons f fs p ps)
    then show ?case by (simp add: strip_round handleStripTodo_def)
  qed
  with assms(1,2) show ?thesis by (cases s) (simp add: q)
qed

theorem strip_requests_in_order_witness:
  "strip_rounds [\<lparr>due1sec = True, due10sec = False, due1min = False\<rparr>,
      \<lparr>due1sec = False, due10sec = False, due1min = False\<rparr>]
     (fold strip_enqueueMsgModePost [[(''ledStripMode'', ''2'')], [(''ledStripMode'', ''0'')]]
       \<lparr>ledStripTodos = [], strip_internal = Some (sampleInfo 0 [])\<rparr>) =
   \<lparr>ledStripTodos = [], strip_internal = Some
     (strip_ticks \<lparr>due1sec = False, due10sec = False, due1min = False\<rparr>
       (strip_doHandleModePost [(''ledStripMode'', ''0'')]
         (strip_ticks \<lparr>due1sec = True, due10sec = False, due1min = False\<rparr>
           (strip_doHandleModePost [(''ledStripMode'', ''2'')] (sampleInfo 0 [])))))\<rparr>"
  using strip_requests_in_order[of "\<lparr>ledStripTodos = [], strip_internal = Some (sampleInfo 0 [])\<rparr>"
      "sampleInfo 0 []" "[\<lparr>due1sec = True, due10sec = False, due1min = False\<rparr>,
      \<lparr>due1sec = False, due10sec = False, due1min = False\<rparr>]"
      "[[(''ledStripMode'', ''2'')], [(''ledStripMode'', ''0'')]]"]
  by simp

end
