(* ===== verification/HT1632.thy ===== *)
theory HT1632
  imports Gpio_Lines Interfaces C_Strings
begin

text \<open>
  \<^verbatim>\<open>ht1632/HT1632.h\<close> and \<^verbatim>\<open>ht1632/HT1632.cpp\<close>: the driver of the
  LED matrix, 128 columns by 16 rows in two colors. A board is a buffer of 512 bytes, each with
  four pixels in its low bits and a mark in bit 4 that it needs to be sent; the third buffer is
  a scratch board that is never shown.

  What the driver writes to its four pins is a list of \<open>matrix_op\<close>, by the role of the
  pin; \<open>pin_event\<close> says how such a write leaves the driver.
\<close>

section \<open>Constants and state\<close>

abbreviation (input) COM_SIZE :: int where "COM_SIZE \<equiv> 16"
abbreviation (input) OUT_SIZE :: int where "OUT_SIZE \<equiv> 128"
abbreviation (input) NUM_ACTIVE_CHIPS :: nat where "NUM_ACTIVE_CHIPS \<equiv> 16"
abbreviation (input) MAX_BOARDS :: nat where "MAX_BOARDS \<equiv> 3"
abbreviation (input) BUFFER_SECONDARY :: int where "BUFFER_SECONDARY \<equiv> 2"
abbreviation (input) ADDR_SPACE_SIZE :: nat where "ADDR_SPACE_SIZE \<equiv> 512"
abbreviation (input) MASK_NEEDS_REWRITING :: Int8U where "MASK_NEEDS_REWRITING \<equiv> 0x10"

definition GET_CHIP_FROM_X_Y :: "int \<Rightarrow> int \<Rightarrow> int" where
  "GET_CHIP_FROM_X_Y x y = c_div x 16 + (if 7 < y then 2 else 0) + c_div x 32 * 2"

definition GET_ADDR_FROM_X_Y :: "int \<Rightarrow> int \<Rightarrow> int" where
  "GET_ADDR_FROM_X_Y x y =
     c_mod x 16 * 2 + c_div (c_mod y 8) 4 + GET_CHIP_FROM_X_Y x y * 32"

definition HT1632_ID_CMD :: int where "HT1632_ID_CMD = 4"
definition HT1632_ID_WR :: int where "HT1632_ID_WR = 5"
abbreviation (input) HT1632_ID_LEN :: nat where "HT1632_ID_LEN \<equiv> 3"
abbreviation (input) HT1632_CMD_LEN :: nat where "HT1632_CMD_LEN \<equiv> 8"
abbreviation (input) HT1632_ADDR_LEN :: nat where "HT1632_ADDR_LEN \<equiv> 7"
abbreviation (input) HT1632_WORD_LEN :: nat where "HT1632_WORD_LEN \<equiv> 4"

definition HT1632_CMD_SYSDIS :: int where "HT1632_CMD_SYSDIS = 0"
definition HT1632_CMD_SYSEN :: int where "HT1632_CMD_SYSEN = 1"
definition HT1632_CMD_LEDOFF :: int where "HT1632_CMD_LEDOFF = 2"
definition HT1632_CMD_LEDON :: int where "HT1632_CMD_LEDON = 3"
definition HT1632_CMD_BLOFF :: int where "HT1632_CMD_BLOFF = 8"
definition HT1632_CMD_RCCLK :: int where "HT1632_CMD_RCCLK = 0x18"
definition HT1632_CMD_COMS00 :: int where "HT1632_CMD_COMS00 = 0x20"
definition HT1632_CMD_PWM :: "int \<Rightarrow> int" where "HT1632_CMD_PWM lvl = 0xA0 OR (lvl - 1)"

datatype MatrixPin = pinCS | pinWR | pinDATA | pinCLK

datatype matrix_op =
    PinConfigure MatrixPin GpioValue
  | PinWrite MatrixPin GpioValue
  | MatrixDelay int

record HT1632Class =
  brightness :: int
  pinNumber :: "MatrixPin \<Rightarrow> int"
  pinMask :: "MatrixPin \<Rightarrow> Int32U"
  burstReady :: bool
  tgtBuffer :: int
  globalNeedsRewriting :: "nat \<Rightarrow> bool"
  mem :: "nat \<Rightarrow> nat \<Rightarrow> Int8U"
  matrixOps :: "matrix_op list"

text \<open>\<^verbatim>\<open>pinWrite\<close>: through the pre-resolved registers when the backend handed
  them out, through \<^verbatim>\<open>gpio.write\<close> otherwise.\<close>

datatype pin_out = ViaGpio GpioOperation | ViaRegister Int32U GpioValue

definition pin_event :: "HT1632Class \<Rightarrow> matrix_op \<Rightarrow> pin_out" where
  "pin_event h p = (case p of
     PinConfigure r v \<Rightarrow> ViaGpio (op_configureOutput (pinNumber h r) v)
   | PinWrite r v \<Rightarrow> (if burstReady h then ViaRegister (pinMask h r) v
                     else ViaGpio (op_write (pinNumber h r) v))
   | MatrixDelay d \<Rightarrow> ViaGpio (op_delayMilliseconds (nat d)))"

definition emit :: "matrix_op list \<Rightarrow> HT1632Class \<Rightarrow> HT1632Class" where
  "emit ops h = h\<lparr>matrixOps := matrixOps h @ ops\<rparr>"

definition newHT1632 :: HT1632Class where
  "newHT1632 = \<lparr>brightness = 16, pinNumber = (\<lambda>_. 0), pinMask = (\<lambda>_. 0), burstReady = False,
     tgtBuffer = -1, globalNeedsRewriting = (\<lambda>_. False), mem = (\<lambda>_ _. 0), matrixOps = []\<rparr>"

section \<open>Lower level: the pins\<close>

text \<open>One bit: the data pin first, then a pulse on the write pin.\<close>

definition writeBit :: "bool \<Rightarrow> matrix_op list" where
  "writeBit b = [PinWrite pinDATA (gpio_bit b), PinWrite pinWR high, PinWrite pinWR low]"

fun writeData :: "int \<Rightarrow> nat \<Rightarrow> matrix_op list" where
  "writeData d 0 = []"
| "writeData d (Suc j) = writeBit (bit d j) @ writeData d j"

fun writeDataRev :: "int \<Rightarrow> nat \<Rightarrow> matrix_op list" where
  "writeDataRev d 0 = []"
| "writeDataRev d (Suc k) = writeBit (bit d 0) @ writeDataRev (drop_bit 1 d) k"

definition writeSingleBit :: "matrix_op list" where
  "writeSingleBit = writeBit False"

definition writeCommand :: "int \<Rightarrow> matrix_op list" where
  "writeCommand d = writeData d HT1632_CMD_LEN @ writeSingleBit"

definition outputCLK_Pulse :: "matrix_op list" where
  "outputCLK_Pulse = [PinWrite pinCLK high, PinWrite pinCLK low]"

definition clk_pulses :: "nat \<Rightarrow> matrix_op list" where
  "clk_pulses n = concat (replicate n outputCLK_Pulse)"

definition select :: "int \<Rightarrow> matrix_op list" where
  "select m =
     (if m < 0 then PinWrite pinCS low # clk_pulses NUM_ACTIVE_CHIPS
      else if m = 0 then PinWrite pinCS high # clk_pulses NUM_ACTIVE_CHIPS
      else PinWrite pinCS high # clk_pulses NUM_ACTIVE_CHIPS @
           PinWrite pinCS low # outputCLK_Pulse @
           PinWrite pinCS high # clk_pulses (nat (m - 1)))"

section \<open>Mid level: memory and commands\<close>

definition target_ok :: "HT1632Class \<Rightarrow> bool" where
  "target_ok h \<longleftrightarrow> \<not> (BUFFER_SECONDARY < tgtBuffer h \<or> tgtBuffer h < 0)"

definition shown_target_ok :: "HT1632Class \<Rightarrow> bool" where
  "shown_target_ok h \<longleftrightarrow> \<not> (BUFFER_SECONDARY \<le> tgtBuffer h \<or> tgtBuffer h < 0)"

abbreviation tgt :: "HT1632Class \<Rightarrow> nat" where
  "tgt h \<equiv> nat (tgtBuffer h)"

definition drawTarget :: "int \<Rightarrow> HT1632Class \<Rightarrow> HT1632Class" where
  "drawTarget targetBuffer h =
     (if 0 \<le> targetBuffer \<and> targetBuffer < int MAX_BOARDS then h\<lparr>tgtBuffer := targetBuffer\<rparr> else h)"

definition setTarget :: "(nat \<Rightarrow> Int8U) \<Rightarrow> HT1632Class \<Rightarrow> HT1632Class" where
  "setTarget m h = h\<lparr>mem := (mem h)(tgt h := m)\<rparr>"

definition markRewriting :: "nat \<Rightarrow> bool \<Rightarrow> HT1632Class \<Rightarrow> HT1632Class" where
  "markRewriting b v h = h\<lparr>globalNeedsRewriting := (globalNeedsRewriting h)(b := v)\<rparr>"

definition initialize :: "HT1632Class \<Rightarrow> HT1632Class" where
  "initialize h =
     (let chip = (\<lambda>i. select (int i) @ writeData HT1632_ID_CMD HT1632_ID_LEN @
            writeCommand HT1632_CMD_SYSDIS @ writeCommand HT1632_CMD_COMS00 @
            writeCommand HT1632_CMD_RCCLK @ writeCommand HT1632_CMD_SYSEN @
            writeCommand HT1632_CMD_LEDON @ writeCommand (HT1632_CMD_PWM (brightness h)) @
            writeCommand HT1632_CMD_BLOFF @ select 0)
      in (emit (select 0 @ concat (map chip [1..<Suc NUM_ACTIVE_CHIPS])) h)
           \<lparr>globalNeedsRewriting := (\<lambda>b. if b < MAX_BOARDS then True else globalNeedsRewriting h b)\<rparr>)"

definition matrix_setPixel :: "int \<Rightarrow> int \<Rightarrow> bool \<Rightarrow> HT1632Class \<Rightarrow> HT1632Class" where
  "matrix_setPixel loc_x loc_y datum h =
     (if \<not> target_ok h then h
      else if loc_x < 0 \<or> OUT_SIZE \<le> loc_x \<or> loc_y < 0 \<or> COM_SIZE \<le> loc_y then h
      else
        let a = nat (GET_ADDR_FROM_X_Y loc_x loc_y);
            k = nat (c_mod loc_y 4);
            old = mem h (tgt h) a
        in setTarget ((mem h (tgt h))(a :=
             (if datum then old OR push_bit k 1 else old AND NOT (push_bit k 1)) OR MASK_NEEDS_REWRITING)) h)"

definition matrix_clear :: "HT1632Class \<Rightarrow> HT1632Class" where
  "matrix_clear h =
     (if \<not> target_ok h then h
      else markRewriting (tgt h) True
        (setTarget (\<lambda>a. if a < ADDR_SPACE_SIZE then 0 else mem h (tgt h) a) h))"

text \<open>
  \<^verbatim>\<open>render\<close>: the cells that need it, in sessions that stay open while the cells are
  of one chip and follow each other. \<open>None\<close> is \<^verbatim>\<open>nChipOpen == -1\<close>.
\<close>

definition renderCell :: "HT1632Class \<Rightarrow> nat \<Rightarrow> matrix_op list \<times> nat option \<Rightarrow> matrix_op list \<times> nat option" where
  "renderCell h i st = (case st of (ops, nChipOpen) \<Rightarrow>
     (let cell = mem h (tgt h) i; nChip = i div 32 + 1
      in if globalNeedsRewriting h (tgt h) \<or> cell AND MASK_NEEDS_REWRITING \<noteq> 0 then
           (ops @
            (if nChipOpen \<noteq> Some nChip then
               select (int nChip) @ writeData HT1632_ID_WR HT1632_ID_LEN @
               writeData (int (i mod 32) + tgtBuffer h * 32) HT1632_ADDR_LEN
             else []) @
            writeDataRev (uint cell) HT1632_WORD_LEN, Some nChip)
         else (ops @ (if nChipOpen \<noteq> None then select 0 else []), None)))"

definition matrix_render :: "HT1632Class \<Rightarrow> HT1632Class" where
  "matrix_render h =
     (if \<not> shown_target_ok h then h
      else
        let (ops, nChipOpen) = fold (renderCell h) [0..<ADDR_SPACE_SIZE] (select 0, None)
        in markRewriting (tgt h) False
             (emit (ops @ (if nChipOpen \<noteq> None then select 0 else [])) h))"

definition onBoards :: "(HT1632Class \<Rightarrow> HT1632Class) \<Rightarrow> HT1632Class \<Rightarrow> HT1632Class" where
  "onBoards f h = fold (\<lambda>i h. f (drawTarget (int i) h)) [0..<MAX_BOARDS] h"

definition matrix_clearAll :: "HT1632Class \<Rightarrow> HT1632Class" where
  "matrix_clearAll h = drawTarget (tgtBuffer h) (onBoards matrix_clear h)"

definition matrix_renderAll :: "HT1632Class \<Rightarrow> HT1632Class" where
  "matrix_renderAll h = drawTarget (tgtBuffer h) (onBoards matrix_render h)"

definition matrix_reinit :: "HT1632Class \<Rightarrow> HT1632Class" where
  "matrix_reinit h = drawTarget (tgtBuffer h) (onBoards matrix_render (initialize h))"

text \<open>The backend answers the request for registers with the masks, or refuses; the content of
  the new buffers is whatever the allocation gave.\<close>

definition matrix_begin ::
  "(MatrixPin \<Rightarrow> int) \<Rightarrow> (MatrixPin \<Rightarrow> Int32U) option \<Rightarrow> (nat \<Rightarrow> nat \<Rightarrow> Int8U) \<Rightarrow> HT1632Class \<Rightarrow> HT1632Class" where
  "matrix_begin pins burst fresh h =
     (let h1 = emit [PinConfigure pinCS high, PinConfigure pinWR low, PinConfigure pinDATA low,
                     PinConfigure pinCLK low] (h\<lparr>pinNumber := pins, mem := fresh\<rparr>);
          h2 = (case burst of None \<Rightarrow> h1 | Some ms \<Rightarrow> h1\<lparr>pinMask := ms, burstReady := True\<rparr>)
      in drawTarget 0 (onBoards (\<lambda>h. matrix_render (matrix_clear h)) (initialize h2)))"

definition matrix_blank :: "HT1632Class \<Rightarrow> HT1632Class" where
  "matrix_blank h =
     emit (select 0 @ concat (map (\<lambda>i. select (int i) @ writeData HT1632_ID_CMD HT1632_ID_LEN @
       writeCommand HT1632_CMD_LEDOFF @ select 0) [1..<Suc NUM_ACTIVE_CHIPS])) h"

definition setBrightness :: "int \<Rightarrow> HT1632Class \<Rightarrow> HT1632Class" where
  "setBrightness brightnessParam h =
     (if brightnessParam < 1 \<or> 16 < brightnessParam then h
      else emit (concat (map (\<lambda>i. select (int i) @ writeData HT1632_ID_CMD HT1632_ID_LEN @
             writeCommand (HT1632_CMD_PWM brightnessParam)) [1..<Suc NUM_ACTIVE_CHIPS]) @ select 0)
             (h\<lparr>brightness := brightnessParam\<rparr>))"

section \<open>The copying engine\<close>

definition imageWord :: "Int8U list \<Rightarrow> int \<Rightarrow> int \<Rightarrow> int \<Rightarrow> int \<Rightarrow> Int8U" where
  "imageWord img height offset i j = img ! nat ((height + 3) div 4 * i + c_div j 4 + offset)"

definition bottomMask :: "int \<Rightarrow> int \<Rightarrow> Int8U" where
  "bottomMask room shiftBottom =
     (if 4 \<le> room \<or> shiftBottom \<le> 0 then 0xF else drop_bit (nat shiftBottom) 0xF AND 0xF)"

text \<open>The low bits under the mask become those of the new value; the others stay.\<close>

definition blend :: "Int8U \<Rightarrow> Int8U \<Rightarrow> Int8U \<Rightarrow> Int8U" where
  "blend old m v = (old AND NOT m AND 0xF) OR (v AND m) OR MASK_NEEDS_REWRITING"

text \<open>The inner loop over the words of one column, with its two carry variables.\<close>

function drawRows ::
  "Int8U list \<Rightarrow> int \<Rightarrow> int \<Rightarrow> int \<Rightarrow> int \<Rightarrow> int \<Rightarrow> int \<Rightarrow> Int8U \<Rightarrow> bool \<Rightarrow> (nat \<Rightarrow> Int8U) \<Rightarrow> (nat \<Rightarrow> Int8U)" where
  "drawRows img height offset i loc_x y j carryover_y carryover_valid m =
     (if \<not> j < (if carryover_valid then height + 4 else height) then m
      else
        let loc_y = j + y;
            num = nat (y - (y AND NOT 3));
            a = nat (GET_ADDR_FROM_X_Y loc_x loc_y);
            w = imageWord img height offset i j
        in if loc_y \<le> -4 \<or> COM_SIZE \<le> loc_y then
             drawRows img height offset i loc_x y (j + 4) carryover_y carryover_valid m
           else if c_mod loc_y 4 = 0 then
             drawRows img height offset i loc_x y (j + 4) carryover_y carryover_valid
               (m(a := blend (m a) (bottomMask (height - loc_y) (4 - (height - j))) w))
           else
             let m1 =
               (if \<not> carryover_valid then
                  (if 0 < loc_y then
                     m(a := blend (m a)
                       (push_bit num 0xF AND bottomMask (height - loc_y) (4 - (height - j)))
                       (push_bit num w))
                   else m)
                else if height \<le> j then
                  m(a := blend (m a) (drop_bit (4 - num) 0xF AND 0xF) (drop_bit (4 - num) carryover_y))
                else
                  m(a := blend (m a) (bottomMask (height - loc_y) (4 - (height + int num - j)))
                       (push_bit num w OR drop_bit (4 - num) carryover_y)))
             in drawRows img height offset i loc_x y (j + 4)
                  (if j < height then w else carryover_y) True m1)"
  by pat_completeness auto
termination
  by (relation "measure (\<lambda>(img, height, offset, i, loc_x, y, j, c, v, m). nat (height + 4 - j))")
    (auto split: if_splits)

declare drawRows.simps [simp del]

definition drawImage ::
  "Int8U list \<Rightarrow> int \<Rightarrow> int \<Rightarrow> int \<Rightarrow> int \<Rightarrow> int \<Rightarrow> HT1632Class \<Rightarrow> HT1632Class" where
  "drawImage img width height x y offset h =
     (if \<not> target_ok h then h
      else if y + height < 0 \<or> x + width < 0 \<or> COM_SIZE < y \<or> OUT_SIZE < x then h
      else setTarget
        (fold (\<lambda>i m. let loc_x = int i + x
                in if loc_x < 0 \<or> OUT_SIZE \<le> loc_x then m
                   else drawRows img height offset (int i) loc_x y 0 0 False m)
           [0..<nat width] (mem h (tgt h))) h)"

section \<open>High level: text\<close>

text \<open>The glyph of a character, or \<open>None\<close> for one that is skipped.\<close>

definition glyphIndex :: "char \<Rightarrow> nat option" where
  "glyphIndex c =
     (let k = int (of_char c) - 32;
          k1 = (if 65 \<le> k \<and> k \<le> 90 then k - 32 else k)
      in if k1 < 0 \<or> 64 \<le> k1 then None else Some (nat k1))"

record FontTable =
  fontData :: "Int8U list"
  fontWidth :: "int list"
  fontHeight :: int
  fontGlyphStep :: int

fun drawGlyphs :: "string \<Rightarrow> int \<Rightarrow> int \<Rightarrow> FontTable \<Rightarrow> int \<Rightarrow> HT1632Class \<Rightarrow> HT1632Class" where
  "drawGlyphs [] curr_x y f gutter h = h"
| "drawGlyphs (c # text) curr_x y f gutter h =
     (case glyphIndex c of
        None \<Rightarrow> drawGlyphs text curr_x y f gutter h
      | Some g \<Rightarrow>
          if OUT_SIZE \<le> curr_x then h
          else
            let w = fontWidth f ! g;
                h1 = (if 0 \<le> curr_x + w + gutter then
                        fold (\<lambda>j h. drawImage (fontData f) 1 (fontHeight f) (curr_x + w + int j) y 0 h)
                          [0..<nat gutter]
                          (drawImage (fontData f) w (fontHeight f) curr_x y (int g * fontGlyphStep f) h)
                      else h)
            in drawGlyphs text (curr_x + w + gutter) y f gutter h1)"

definition drawText :: "string \<Rightarrow> int \<Rightarrow> int \<Rightarrow> FontTable \<Rightarrow> int \<Rightarrow> HT1632Class \<Rightarrow> HT1632Class" where
  "drawText text x y f gutter h =
     (if y + fontHeight f < 0 \<or> COM_SIZE \<le> y then h
      else drawGlyphs (c_str text) x y f gutter h)"

fun textWidth :: "string \<Rightarrow> FontTable \<Rightarrow> int \<Rightarrow> int \<Rightarrow> int" where
  "textWidth [] f gutter wd = wd - gutter"
| "textWidth (c # text) f gutter wd =
     (case glyphIndex c of
        None \<Rightarrow> textWidth text f gutter wd
      | Some g \<Rightarrow> textWidth text f gutter (wd + fontWidth f ! g + gutter))"

definition getTextWidth :: "string \<Rightarrow> FontTable \<Rightarrow> int \<Rightarrow> int" where
  "getTextWidth text f gutter = textWidth (c_str text) f gutter 0"

section \<open>Transitions\<close>

datatype Transition =
    TRANSITION_BUFFER_SWAP | TRANSITION_SAVE | TRANSITION_SAVE_XOR | TRANSITION_REMOVE_PIXELS
  | TRANSITION_RESTORE | TRANSITION_RESTORE_OR | TRANSITION_FADE

definition combineCells :: "(Int8U \<Rightarrow> Int8U \<Rightarrow> Int8U) \<Rightarrow> (nat \<Rightarrow> Int8U) \<Rightarrow> (nat \<Rightarrow> Int8U) \<Rightarrow> (nat \<Rightarrow> Int8U)" where
  "combineCells f to from = (\<lambda>a. if a < ADDR_SPACE_SIZE then f (to a) (from a) else to a)"

definition bufferSwap :: "HT1632Class \<Rightarrow> HT1632Class" where
  "bufferSwap h =
     markRewriting (tgt h) True
       (h\<lparr>mem := (mem h)(tgt h := mem h 2, 2 := mem h (tgt h))\<rparr>)"

definition fade :: "int \<Rightarrow> HT1632Class \<Rightarrow> HT1632Class" where
  "fade time h =
     (let t = c_div time 32;
          step = (\<lambda>i h. emit [MatrixDelay t] (setBrightness (int i) h));
          h1 = fold step (rev [1..<16]) h;
          h2 = emit [MatrixDelay t] (matrix_render (matrix_clear h1));
          h3 = emit [MatrixDelay t] (matrix_render (bufferSwap h2));
          h4 = fold step [2..<17] h3
      in setBrightness (brightness h) h4)"

definition transition :: "Transition \<Rightarrow> int \<Rightarrow> HT1632Class \<Rightarrow> HT1632Class" where
  "transition mode time h =
     (if \<not> shown_target_ok h then h
      else case mode of
        TRANSITION_BUFFER_SWAP \<Rightarrow> bufferSwap h
      | TRANSITION_SAVE \<Rightarrow>
          h\<lparr>mem := (mem h)(2 := combineCells (\<lambda>_ s. s) (mem h 2) (mem h (tgt h)))\<rparr>
      | TRANSITION_SAVE_XOR \<Rightarrow>
          h\<lparr>mem := (mem h)(2 := combineCells (XOR) (mem h 2) (mem h (tgt h)))\<rparr>
      | TRANSITION_REMOVE_PIXELS \<Rightarrow>
          h\<lparr>mem := (mem h)(2 := combineCells (\<lambda>d s. d AND NOT s) (mem h 2) (mem h (tgt h)))\<rparr>
      | TRANSITION_RESTORE \<Rightarrow>
          markRewriting (tgt h) True
            (setTarget (combineCells (\<lambda>_ s. s) (mem h (tgt h)) (mem h 2)) h)
      | TRANSITION_RESTORE_OR \<Rightarrow>
          markRewriting (tgt h) True
            (setTarget (combineCells (OR) (mem h (tgt h)) (mem h 2)) h)
      | TRANSITION_FADE \<Rightarrow> fade time h)"

section \<open>Addresses\<close>

text \<open>Where an address of the buffer lies: its column and the first of its four rows.\<close>

definition decodeAddr :: "int \<Rightarrow> int \<times> int" where
  "decodeAddr a = (let chip = a div 32 in
     (chip div 4 * 32 + chip mod 2 * 16 + a mod 32 div 2, chip div 2 mod 2 * 8 + a mod 2 * 4))"

lemma small_div: "0 \<le> z \<Longrightarrow> z < 8 \<Longrightarrow> z div 4 = 0 \<or> z div 4 = 1" for z :: int
  by presburger

lemma addr_form:
  assumes "0 \<le> x" "x < 128" "0 \<le> y" "y < 16"
  shows "GET_ADDR_FROM_X_Y x y = x mod 16 * 2 + y mod 8 div 4 + (x div 16 + y div 8 * 2 + x div 32 * 2) * 32"
proof -
  have "(if 7 < y then 2 else 0) = y div 8 * 2" using assms(3,4) by auto
  then show ?thesis using assms by (simp add: GET_ADDR_FROM_X_Y_def GET_CHIP_FROM_X_Y_def)
qed

lemma decode_addr:
  assumes "0 \<le> x" "x < 128" "0 \<le> y" "y < 16"
  shows "decodeAddr (GET_ADDR_FROM_X_Y x y) = (x, y - y mod 4)"
proof -
  define p t e m where "p = x div 16" and "t = y div 8" and "e = y mod 8 div 4" and "m = x mod 16"
  define c l where "c = p + t * 2 + p div 2 * 2" and "l = m * 2 + e"
  have x32: "x div 32 = p div 2" by (simp add: p_def flip: zdiv_zmult2_eq)
  have a: "GET_ADDR_FROM_X_Y x y = l + c * 32"
    unfolding addr_form[OF assms] x32 l_def c_def by (simp only: p_def t_def e_def m_def)
  have e: "e = 0 \<or> e = 1" unfolding e_def by (rule small_div) simp_all
  have m: "0 \<le> m" "m < 16" by (simp_all add: m_def)
  have p8: "0 \<le> p" "p < 8" unfolding p_def using assms by auto
  then have p: "p = 0 \<or> p = 1 \<or> p = 2 \<or> p = 3 \<or> p = 4 \<or> p = 5 \<or> p = 6 \<or> p = 7" by arith
  have t: "t = 0 \<or> t = 1" unfolding t_def using assms by (cases "y < 8") auto
  have l: "0 \<le> l" "l < 32" "l div 2 = m" "l mod 2 = e" using e m by (auto simp: l_def)
  have d: "(l + c * 32) div 32 = c" "(l + c * 32) mod 32 = l" using l by simp_all
  have d2: "(l + c * 32) mod 2 = e" using l(4) by (simp add: mod_add_right_eq[symmetric])
  have c2: "c div 4 = p div 2" "c mod 2 = p mod 2" "c div 2 mod 2 = t"
    unfolding c_def using p t by auto
  have "p * 16 + m = x" by (simp add: p_def m_def)
  moreover have "p div 2 * 2 + p mod 2 = p" by simp
  ultimately have "p div 2 * 32 + p mod 2 * 16 + m = x" by linarith
  moreover have "t * 8 + e * 4 = y - y mod 4"
  proof -
    have "t * 8 + y mod 8 = y" by (simp add: t_def)
    moreover have "e * 4 + y mod 8 mod 4 = y mod 8" unfolding e_def by (rule div_mult_mod_eq)
    moreover have "y mod 8 mod 4 = y mod 4" by (simp add: mod_mod_cancel)
    ultimately show ?thesis by linarith
  qed
  ultimately show ?thesis unfolding decodeAddr_def a Let_def d d2 l(3) c2 by simp
qed

lemma addr_sum_bound:
  fixes m e p t u :: int
  assumes "0 \<le> p" "p < 8" "0 \<le> u" "u < 4" "0 \<le> t" "t < 2" "0 \<le> m" "m < 16" "0 \<le> e" "e \<le> 1"
  shows "0 \<le> m * 2 + e + (p + t * 2 + u * 2) * 32 \<and> m * 2 + e + (p + t * 2 + u * 2) * 32 < 512"
  using assms by auto

lemma addr_range:
  assumes "0 \<le> x" "x < 128" "0 \<le> y" "y < 16"
  shows "0 \<le> GET_ADDR_FROM_X_Y x y \<and> GET_ADDR_FROM_X_Y x y < 512"
proof -
  have b: "0 \<le> x div 16" "x div 16 < 8" "0 \<le> x div 32" "x div 32 < 4" "0 \<le> y div 8" "y div 8 < 2"
    "0 \<le> x mod 16" "x mod 16 < 16" using assms by auto
  have "y mod 8 div 4 = 0 \<or> y mod 8 div 4 = 1" by (rule small_div) simp_all
  then have "0 \<le> y mod 8 div 4" "y mod 8 div 4 \<le> 1" by auto
  with b show ?thesis unfolding addr_form[OF assms] by (intro addr_sum_bound)
qed

lemma addr_inj:
  assumes "0 \<le> x" "x < 128" "0 \<le> y" "y < 16" "0 \<le> x'" "x' < 128" "0 \<le> y'" "y' < 16"
  shows "GET_ADDR_FROM_X_Y x y = GET_ADDR_FROM_X_Y x' y' \<longleftrightarrow> x = x' \<and> y div 4 = y' div 4"
proof
  assume "GET_ADDR_FROM_X_Y x y = GET_ADDR_FROM_X_Y x' y'"
  then have "(x, y - y mod 4) = (x', y' - y' mod 4)" using decode_addr assms by metis
  then show "x = x' \<and> y div 4 = y' div 4" by (simp add: minus_mod_eq_mult_div)
next
  assume a: "x = x' \<and> y div 4 = y' div 4"
  have "z mod 8 div 4 = z div 4 mod 2" "z div 8 = z div 4 div 2" for z :: int
    using zmod_zmult2_eq[of 2 z 4] by (simp_all add: zdiv_zmult2_eq[symmetric])
  with a show "GET_ADDR_FROM_X_Y x y = GET_ADDR_FROM_X_Y x' y'" by (simp add: addr_form assms)
qed

abbreviation on_matrix :: "int \<Rightarrow> int \<Rightarrow> bool" where
  "on_matrix x y \<equiv> 0 \<le> x \<and> x < 128 \<and> 0 \<le> y \<and> y < 16"

definition cell_px :: "(nat \<Rightarrow> Int8U) \<Rightarrow> int \<Rightarrow> int \<Rightarrow> bool" where
  "cell_px m x y = bit (m (nat (GET_ADDR_FROM_X_Y x y))) (nat (y mod 4))"

lemma nat_addr_inj:
  assumes "on_matrix x y" "on_matrix x' y'"
  shows "nat (GET_ADDR_FROM_X_Y x y) = nat (GET_ADDR_FROM_X_Y x' y') \<longleftrightarrow> x = x' \<and> y div 4 = y' div 4"
  using addr_inj[of x y x' y'] addr_range[of x y] addr_range[of x' y'] assms by auto

lemma cell_px_write:
  assumes "on_matrix x y" "on_matrix x' y'"
  shows "cell_px (m(nat (GET_ADDR_FROM_X_Y x y) := v)) x' y' =
    (if x = x' \<and> y div 4 = y' div 4 then bit v (nat (y' mod 4)) else cell_px m x' y')"
  using nat_addr_inj[OF assms] by (auto simp: cell_px_def)

lemma row_eq: "y div 4 = y' div 4 \<Longrightarrow> y mod 4 = y' mod 4 \<Longrightarrow> y = y'" for y y' :: int
  by (metis mult_div_mod_eq)

section \<open>Pixels are a store of cells\<close>

definition matrix_px :: "HT1632Class \<Rightarrow> int \<times> int \<Rightarrow> bool" where
  "matrix_px h p = cell_px (mem h (tgt h)) (fst p) (snd p)"

lemma nat_mod_4: "nat (y mod 4) < 4" for y :: int
  by simp

lemma bit_10_low: "k < 4 \<Longrightarrow> \<not> bit (0x10 :: Int8U) k"
  by (drule less_4_cases) (elim disjE; simp)

lemma bit_set_pixel:
  assumes "k < 4" "k' < 4"
  shows "bit ((if b then w OR push_bit k 1 else w AND NOT (push_bit k 1)) OR 0x10 :: Int8U) k' =
    (if k' = k then b else bit w k')"
  using assms bit_10_low[of k'] by (auto simp: bit_simps)

lemma matrix_px_set:
  assumes "target_ok h" "on_matrix x y"
  shows "matrix_px (matrix_setPixel x' y' b h) (x, y) = (if (x', y') = (x, y) then b else matrix_px h (x, y))"
proof (cases "on_matrix x' y'")
  case False
  then have "matrix_setPixel x' y' b h = h" by (auto simp: matrix_setPixel_def)
  with False assms show ?thesis by auto
next
  case True
  let ?m = "mem h (tgt h)"
  let ?k = "nat (y' mod 4)"
  let ?old = "?m (nat (GET_ADDR_FROM_X_Y x' y'))"
  let ?v = "(if b then ?old OR push_bit ?k 1 else ?old AND NOT (push_bit ?k 1)) OR 0x10"
  have k: "c_mod y' 4 = y' mod 4" using True by simp
  have "matrix_setPixel x' y' b h = setTarget (?m(nat (GET_ADDR_FROM_X_Y x' y') := ?v)) h"
    using True assms(1) by (simp only: matrix_setPixel_def Let_def k) simp
  then have "matrix_px (matrix_setPixel x' y' b h) (x, y) =
      cell_px (?m(nat (GET_ADDR_FROM_X_Y x' y') := ?v)) x y"
    by (simp add: matrix_px_def setTarget_def)
  also have "\<dots> = (if x' = x \<and> y' div 4 = y div 4
      then (if nat (y mod 4) = ?k then b else bit ?old (nat (y mod 4))) else cell_px ?m x y)"
    unfolding cell_px_write[OF True assms(2)] bit_set_pixel[OF nat_mod_4 nat_mod_4] ..
  also have "\<dots> = (if x' = x \<and> y' = y then b else cell_px ?m x y)"
  proof (cases "x' = x \<and> y' div 4 = y div 4")
    case same: True
    then have a: "nat (GET_ADDR_FROM_X_Y x' y') = nat (GET_ADDR_FROM_X_Y x y)"
      using nat_addr_inj[OF True assms(2)] by simp
    have "nat (y mod 4) = ?k \<longleftrightarrow> y' = y"
      using row_eq[of y' y] same by (auto simp: eq_nat_nat_iff)
    with same a show ?thesis by (simp add: cell_px_def)
  next
    case False
    then show ?thesis by auto
  qed
  finally show ?thesis by (simp add: matrix_px_def)
qed

lemma target_ok_setPixel [simp]: "target_ok (matrix_setPixel x y b h) = target_ok h"
  by (simp add: matrix_setPixel_def setTarget_def target_ok_def Let_def)

interpretation matrix_cells: cell_store
  matrix_px "\<lambda>p. matrix_setPixel (fst p) (snd p)"
  "\<lambda>h p. target_ok h \<and> on_matrix (fst p) (snd p)" id "\<lambda>_. True"
proof unfold_locales
  fix h p b
  assume "\<not> (target_ok h \<and> on_matrix (fst p) (snd p))"
  then show "matrix_setPixel (fst p) (snd p) b h = h"
    by (auto simp: matrix_setPixel_def)
qed (auto simp: matrix_px_set)

section \<open>What the copying engine draws\<close>

text \<open>The reference: pixel \<open>d\<close> of column \<open>i\<close> of an image.\<close>

definition imageBit :: "Int8U list \<Rightarrow> int \<Rightarrow> int \<Rightarrow> int \<Rightarrow> int \<Rightarrow> bool" where
  "imageBit img height offset i d = bit (imageWord img height offset i (d - d mod 4)) (nat (d mod 4))"

lemma bit_0F: "k < 4 \<Longrightarrow> bit (0xF :: Int8U) k"
  by (drule less_4_cases) (elim disjE; simp)

lemma bit_blend:
  "k < 4 \<Longrightarrow> bit (blend old m v) k = (if bit m k then bit v k else bit old k)"
  using bit_10_low[of k] bit_0F[of k] by (auto simp: blend_def bit_simps)

lemma cell_px_blend:
  assumes "on_matrix x l" "on_matrix x' r"
  shows "cell_px (m(nat (GET_ADDR_FROM_X_Y x l) := blend (m (nat (GET_ADDR_FROM_X_Y x l))) k v)) x' r =
    (if x = x' \<and> l div 4 = r div 4 \<and> bit k (nat (r mod 4)) then bit v (nat (r mod 4)) else cell_px m x' r)"
proof (cases "x = x' \<and> l div 4 = r div 4")
  case True
  then have "nat (GET_ADDR_FROM_X_Y x l) = nat (GET_ADDR_FROM_X_Y x' r)"
    using nat_addr_inj[OF assms] by simp
  with True show ?thesis
    unfolding cell_px_write[OF assms] bit_blend[OF nat_mod_4] by (simp add: cell_px_def)
next
  case False
  then show ?thesis unfolding cell_px_write[OF assms] by auto
qed

lemma carry_num: "y - (y AND NOT 3) = y mod 4" for y :: int
proof -
  have "(y AND 3) + (y AND NOT 3) = (y AND 3) OR (y AND NOT 3)"
    by (rule disjunctive_add_eq_or) (auto intro!: bit_eqI simp: bit_simps)
  also have "\<dots> = y" by (auto intro!: bit_eqI simp: bit_simps)
  finally have "(y AND 3) + (y AND NOT 3) = y" .
  moreover have "y AND 3 = y mod 4"
    using take_bit_eq_mask[of 2 y] by (simp add: take_bit_eq_mod mask_eq_exp_minus_1)
  ultimately show ?thesis by linarith
qed

lemma bottomMask_full: "shiftBottom \<le> 0 \<Longrightarrow> bottomMask room shiftBottom = 0xF"
  by (simp add: bottomMask_def)

text \<open>Rows in groups of four.\<close>

lemma quad:
  fixes y :: int
  obtains a n where "y = 4 * a + n" "0 \<le> n" "n < 4"
  using that[of "y div 4" "y mod 4"] by simp

lemma quad_div_mod:
  fixes a n :: int
  assumes "0 \<le> n" "n < 4"
  shows "(4 * a + n) div 4 = a" "(4 * a + n) mod 4 = n"
  using assms by simp_all

lemma quads_start:
  fixes j y r :: int
  assumes "j mod 4 = 0" "(j + y) div 4 = r div 4" "y mod 4 \<le> r mod 4"
  shows "(r - y) mod 4 = r mod 4 - y mod 4 \<and> r - y - (r mod 4 - y mod 4) = j"
proof -
  obtain a where j: "j = 4 * a" using assms(1) by auto
  obtain b n where y: "y = 4 * b + n" "0 \<le> n" "n < 4" by (rule quad)
  obtain q k where r: "r = 4 * q + k" "0 \<le> k" "k < 4" by (rule quad)
  have "j + y = 4 * (a + b) + n" "n \<le> k" using assms(3) quad_div_mod y r j by simp_all
  with assms(2) have q: "q = a + b" using y r by (simp only: quad_div_mod)
  have d: "r - y = 4 * a + (k - n)" by (simp add: r y q)
  have m: "y mod 4 = n" "r mod 4 = k" "(4 * a + (k - n)) mod 4 = k - n"
    using r y \<open>n \<le> k\<close> quad_div_mod(2)[of "k - n"] by (simp_all only: quad_div_mod)
  show ?thesis unfolding d m by (simp add: j)
qed

lemma quads_end:
  fixes j y r :: int
  assumes "j mod 4 = 0" "(j + y) div 4 = r div 4" "r mod 4 < y mod 4"
  shows "(r - y) mod 4 = 4 + r mod 4 - y mod 4 \<and> r - y - (4 + r mod 4 - y mod 4) = j - 4"
proof -
  obtain a where j: "j = 4 * a" using assms(1) by auto
  obtain b n where y: "y = 4 * b + n" "0 \<le> n" "n < 4" by (rule quad)
  obtain q k where r: "r = 4 * q + k" "0 \<le> k" "k < 4" by (rule quad)
  have "j + y = 4 * (a + b) + n" "k < n" using assms(3) quad_div_mod y r j by simp_all
  with assms(2) have q: "q = a + b" using y r by (simp only: quad_div_mod)
  have d: "r - y = 4 * (a - 1) + (4 + k - n)" by (simp add: r y q)
  have m: "y mod 4 = n" "r mod 4 = k" "(4 * (a - 1) + (4 + k - n)) mod 4 = 4 + k - n"
    using r y \<open>k < n\<close> quad_div_mod(2)[of "4 + k - n"] by (simp_all only: quad_div_mod)
  show ?thesis unfolding d m by (simp add: j)
qed

lemma cell_rows:
  fixes j y r :: int
  assumes "j mod 4 = 0"
  shows "(j + y) div 4 = r div 4 \<longleftrightarrow> y + j - y mod 4 \<le> r \<and> r < y + j - y mod 4 + 4"
proof -
  obtain a where j: "j = 4 * a" using assms(1) by auto
  obtain b n where y: "y = 4 * b + n" "0 \<le> n" "n < 4" by (rule quad)
  obtain q k where r: "r = 4 * q + k" "0 \<le> k" "k < 4" by (rule quad)
  have jy: "j + y = 4 * (a + b) + n" by (simp add: j y)
  have "(j + y) div 4 = a + b" "r div 4 = q" "y mod 4 = n"
    unfolding jy using y r by (simp_all only: quad_div_mod)
  then show ?thesis using y r j by auto
qed

text \<open>The aligned case: every word is copied to a cell of its own.\<close>

lemma drawRows_aligned:
  assumes "y mod 4 = 0" "height mod 4 = 0" "on_matrix x r"
    and "j mod 4 = 0" "0 \<le> j" "j \<le> height"
  shows "cell_px (drawRows img height offset i x y j c False m) x r =
    (if y + j \<le> r \<and> r < y + height then imageBit img height offset i (r - y) else cell_px m x r)"
  using assms(4-6)
proof (induction "nat (height - j)" arbitrary: j m rule: less_induct)
  case less
  show ?case
  proof (cases "j < height")
    case False
    then show ?thesis using less.prems by (subst drawRows.simps) auto
  next
    case True
    have j4: "(j + 4) mod 4 = 0" "0 \<le> j + 4" using less.prems by simp_all
    have h4: "j + 4 \<le> height" using True less.prems(1) assms(2) by presburger
    have small: "nat (height - (j + 4)) < nat (height - j)" using True by simp
    note ih = less.hyps[OF small j4 h4]
    have al: "(j + y) mod 4 = 0" using less.prems(1) assms(1) by presburger
    show ?thesis
    proof (cases "j + y \<le> -4 \<or> 16 \<le> j + y")
      case out: True
      then have "drawRows img height offset i x y j c False m =
          drawRows img height offset i x y (j + 4) c False m"
        using True by (subst drawRows.simps) (simp add: Let_def)
      with ih out assms(3) show ?thesis by auto
    next
      case False
      then have ly: "0 \<le> j + y" "j + y < 16" using al by presburger+
      then have on: "on_matrix x (j + y)" using assms(3) by simp
      let ?w = "imageWord img height offset i j"
      let ?a = "nat (GET_ADDR_FROM_X_Y x (j + y))"
      have "drawRows img height offset i x y j c False m =
          drawRows img height offset i x y (j + 4) c False (m(?a := blend (m ?a) 0xF ?w))"
        using True False al ly h4 by (subst drawRows.simps) (simp add: Let_def bottomMask_full)
      moreover have "cell_px (m(?a := blend (m ?a) 0xF ?w)) x r =
          (if (j + y) div 4 = r div 4 then bit ?w (nat (r mod 4)) else cell_px m x r)"
        using cell_px_blend[OF on assms(3)] bit_0F[OF nat_mod_4] by simp
      moreover have "(j + y) div 4 = r div 4 \<longleftrightarrow> y + j \<le> r \<and> r < y + j + 4"
        using cell_rows[OF less.prems(1)] assms(1) by simp
      moreover have "imageBit img height offset i (r - y) = bit ?w (nat (r mod 4))" if "y + j \<le> r \<and> r < y + j + 4"
      proof -
        have "(j + y) div 4 = r div 4" using that assms(1) by (simp add: cell_rows[OF less.prems(1)])
        then show ?thesis using quads_start[OF less.prems(1), of y r] assms(1) by (simp add: imageBit_def)
      qed
      ultimately show ?thesis using ih h4 by auto
    qed
  qed
qed

text \<open>The unaligned case: a cell holds the end of one word and the start of the next.\<close>

lemma imageBit_start:
  assumes "j mod 4 = 0" "(j + y) div 4 = r div 4" "y mod 4 \<le> r mod 4"
  shows "imageBit img height offset i (r - y) = bit (imageWord img height offset i j) (nat (r mod 4) - nat (y mod 4))"
proof -
  have e: "(r - y) mod 4 = r mod 4 - y mod 4" "r - y - (r mod 4 - y mod 4) = j"
    using quads_start[OF assms] by simp_all
  have "nat (r mod 4 - y mod 4) = nat (r mod 4) - nat (y mod 4)" by (simp add: nat_diff_distrib)
  then show ?thesis by (simp add: imageBit_def e)
qed

lemma imageBit_end:
  assumes "j mod 4 = 0" "(j + y) div 4 = r div 4" "r mod 4 < y mod 4"
  shows "imageBit img height offset i (r - y) =
    bit (imageWord img height offset i (j - 4)) (4 - nat (y mod 4) + nat (r mod 4))"
proof -
  have e: "(r - y) mod 4 = 4 + r mod 4 - y mod 4" "r - y - (4 + r mod 4 - y mod 4) = j - 4"
    using quads_end[OF assms] by simp_all
  have "nat (4 + r mod 4 - y mod 4) = 4 - nat (y mod 4) + nat (r mod 4)" by linarith
  then show ?thesis unfolding imageBit_def e by (rule arg_cong)
qed

lemma top_mask: "n < 4 \<Longrightarrow> k < 4 \<Longrightarrow> bit (push_bit n 0xF AND 0xF :: Int8U) k \<longleftrightarrow> n \<le> k"
  using bit_0F[of k] bit_0F[of "k - n"] by (auto simp: bit_simps)

lemma low_mask: "0 < n \<Longrightarrow> n < 4 \<Longrightarrow> k < 4 \<Longrightarrow> bit (drop_bit (4 - n) 0xF AND 0xF :: Int8U) k \<longleftrightarrow> k < n"
proof -
  assume a: "0 < n" "n < 4" "k < 4"
  have n: "n = 1 \<or> n = 2 \<or> n = 3" using a by arith
  from less_4_cases[OF a(3)] n show ?thesis by (elim disjE; simp)
qed

lemma bit_push: "k < 4 \<Longrightarrow> bit (push_bit n w :: Int8U) k \<longleftrightarrow> n \<le> k \<and> bit w (k - n)"
  by (auto simp: bit_simps)

lemma nibble_high: "w < 16 \<Longrightarrow> 4 \<le> k \<Longrightarrow> \<not> bit (w :: Int8U) k"
proof -
  assume a: "w < 16" "4 \<le> k"
  then have "unat w < 16" by (simp add: word_less_nat_alt)
  also have "(16::nat) \<le> 2 ^ k" using power_increasing[OF a(2), of "2::nat"] by simp
  finally have "\<not> bit (unat w) k" by (simp add: bit_iff_odd)
  then show ?thesis by (simp add: bit_unat)
qed

text \<open>What holds at the head of the loop: whether a word is carried, and which.\<close>

definition carry_inv :: "Int8U list \<Rightarrow> int \<Rightarrow> int \<Rightarrow> int \<Rightarrow> int \<Rightarrow> int \<Rightarrow> Int8U \<Rightarrow> bool \<Rightarrow> bool" where
  "carry_inv img height offset i y j c v \<longleftrightarrow>
     (v \<longleftrightarrow> 4 \<le> j \<and> 0 < y + j \<and> y < 16) \<and>
     (v \<and> y + j < 20 \<and> j \<le> height \<longrightarrow> c = imageWord img height offset i (j - 4))"

definition drawn :: "Int8U list \<Rightarrow> int \<Rightarrow> int \<Rightarrow> int \<Rightarrow> int \<Rightarrow> int \<Rightarrow> int \<Rightarrow> bool \<Rightarrow> bool" where
  "drawn img height offset i y j r old =
     (if y + j - y mod 4 \<le> r \<and> y \<le> r \<and> r < y + height then imageBit img height offset i (r - y) else old)"

lemma drawn_step:
  assumes "j mod 4 = 0"
    and "\<not> ((j + y) div 4 = r div 4 \<and> y \<le> r \<and> r < y + height) \<Longrightarrow> new = old"
    and "(j + y) div 4 = r div 4 \<Longrightarrow> y \<le> r \<Longrightarrow> r < y + height \<Longrightarrow> new = imageBit img height offset i (r - y)"
  shows "drawn img height offset i y (j + 4) r new = drawn img height offset i y j r old"
  using assms(2,3) unfolding drawn_def cell_rows[OF assms(1)] by (auto simp: algebra_simps)

lemma carry_inv_skip:
  assumes "carry_inv img height offset i y j c v" "j mod 4 = 0" "0 \<le> j" "y < 16" "j + y \<le> -4 \<or> 16 \<le> j + y"
  shows "carry_inv img height offset i y (j + 4) c v"
proof -
  have "j = 0 \<or> 4 \<le> j" using assms(2,3) by presburger
  with assms show ?thesis by (auto simp: carry_inv_def)
qed

lemma carry_inv_next:
  assumes "0 \<le> j" "-4 < j + y" "j + y < 16" "y < 16"
    "y + j < 16 \<Longrightarrow> c = imageWord img height offset i j"
  shows "carry_inv img height offset i y (j + 4) c True"
  using assms by (auto simp: carry_inv_def)

lemma bit_drop: "bit (drop_bit n w :: Int8U) k \<longleftrightarrow> bit w (n + k)"
  by (simp add: bit_simps)

text \<open>The three ways a cell is written, read as pixels.\<close>

lemma write_start:
  assumes "on_matrix x l" "on_matrix x r" "l div 4 = r div 4" "n < 4"
  shows "cell_px (m(nat (GET_ADDR_FROM_X_Y x l) := blend (m (nat (GET_ADDR_FROM_X_Y x l)))
      (push_bit n 0xF AND 0xF) (push_bit n w))) x r =
    (if n \<le> nat (r mod 4) then bit w (nat (r mod 4) - n) else cell_px m x r)"
  unfolding cell_px_blend[OF assms(1,2)] top_mask[OF assms(4) nat_mod_4] bit_push[OF nat_mod_4]
  using assms(3) by simp

lemma write_end:
  assumes "on_matrix x l" "on_matrix x r" "l div 4 = r div 4" "0 < n" "n < 4"
  shows "cell_px (m(nat (GET_ADDR_FROM_X_Y x l) := blend (m (nat (GET_ADDR_FROM_X_Y x l)))
      (drop_bit (4 - n) 0xF AND 0xF) (drop_bit (4 - n) c))) x r =
    (if nat (r mod 4) < n then bit c (4 - n + nat (r mod 4)) else cell_px m x r)"
  unfolding cell_px_blend[OF assms(1,2)] low_mask[OF assms(4,5) nat_mod_4] bit_drop
  using assms(3) by simp

lemma write_both:
  assumes "on_matrix x l" "on_matrix x r" "l div 4 = r div 4" "0 < n" "n < 4" "c < 16"
  shows "cell_px (m(nat (GET_ADDR_FROM_X_Y x l) := blend (m (nat (GET_ADDR_FROM_X_Y x l)))
      0xF (push_bit n w OR drop_bit (4 - n) c))) x r =
    (if n \<le> nat (r mod 4) then bit w (nat (r mod 4) - n) else bit c (4 - n + nat (r mod 4)))"
proof -
  have "\<not> bit c (4 - n + nat (r mod 4))" if "n \<le> nat (r mod 4)"
    using nibble_high[OF assms(6)] that assms(5) by simp
  then show ?thesis
    unfolding cell_px_blend[OF assms(1,2)] bit_or_iff bit_push[OF nat_mod_4] bit_drop
    using assms(3) bit_0F[OF nat_mod_4] by auto
qed

lemma other_cell:
  assumes "on_matrix x l" "on_matrix x' r" "x \<noteq> x' \<or> l div 4 \<noteq> r div 4"
  shows "cell_px (m(nat (GET_ADDR_FROM_X_Y x l) := v)) x' r = cell_px m x' r"
  using cell_px_write[OF assms(1,2)] assms(3) by auto

text \<open>The cell that one round of the unaligned case leaves.\<close>

definition unalignedCell ::
  "Int8U list \<Rightarrow> int \<Rightarrow> int \<Rightarrow> int \<Rightarrow> int \<Rightarrow> int \<Rightarrow> int \<Rightarrow> Int8U \<Rightarrow> bool \<Rightarrow> (nat \<Rightarrow> Int8U) \<Rightarrow> (nat \<Rightarrow> Int8U)" where
  "unalignedCell img height offset i x y j c v m =
     (let a = nat (GET_ADDR_FROM_X_Y x (j + y)); n = nat (y mod 4);
          w = imageWord img height offset i j
      in if \<not> v then
           if 0 < j + y then m(a := blend (m a) (push_bit n 0xF AND 0xF) (push_bit n w)) else m
         else if height \<le> j then
           m(a := blend (m a) (drop_bit (4 - n) 0xF AND 0xF) (drop_bit (4 - n) c))
         else m(a := blend (m a) 0xF (push_bit n w OR drop_bit (4 - n) c)))"

lemma c_mod_4_0: "c_mod l 4 = 0 \<Longrightarrow> l mod 4 = 0"
  unfolding c_mod_def by (metis diff_eq_diff_eq diff_zero mod_mult_self2_is_0 right_minus_eq)

lemma drawRows_unaligned_step:
  assumes "j < (if v then height + 4 else height)" "-4 < j + y" "j + y < 16" "j mod 4 = 0" "y mod 4 \<noteq> 0"
    "height mod 4 = 0"
  shows "drawRows img height offset i x y j c v m =
    drawRows img height offset i x y (j + 4) (if j < height then imageWord img height offset i j else c) True
      (unalignedCell img height offset i x y j c v m)"
proof -
  have "(j + y) mod 4 = y mod 4" using assms(4) by (metis add_0 mod_add_left_eq)
  then have c: "c_mod (j + y) 4 \<noteq> 0" using c_mod_4_0 assms(5) by metis
  have h: "j < height \<Longrightarrow> j + 4 \<le> height" using assms(4,6) by presburger
  have "bottomMask q (4 - (height - j)) = 0xF" "bottomMask q (4 - (height + int k - j)) = 0xF" if "j < height" for q k
    using h[OF that] by (simp_all add: bottomMask_full)
  moreover have "\<not> (j + y \<le> -4 \<or> 16 \<le> j + y)" using assms(2,3) by simp
  ultimately show ?thesis using assms(1) c
    unfolding drawRows.simps[of img height offset i x y j c v m] unalignedCell_def Let_def carry_num
    by (cases v; cases "j < height") (simp_all only: if_True if_False simp_thms not_less not_le)
qed

lemma row_steps:
  fixes j height :: int
  assumes "j mod 4 = 0" "0 \<le> j" "height mod 4 = 0"
  shows "j = 0 \<or> 4 \<le> j" "j < height \<Longrightarrow> j + 4 \<le> height" "height \<le> j \<Longrightarrow> j < height + 4 \<Longrightarrow> j = height"
  using assms by presburger+

lemma cell_row_eq:
  fixes j y r :: int
  assumes "j mod 4 = 0" "(j + y) div 4 = r div 4"
  shows "r = y + j - y mod 4 + r mod 4"
proof -
  have "(j + y) mod 4 = y mod 4" using assms(1) by (metis add_0 mod_add_left_eq)
  then have "j + y = 4 * (r div 4) + y mod 4" using mult_div_mod_eq[of 4 "j + y"] assms(2) by simp
  then show ?thesis using mult_div_mod_eq[of 4 r] by linarith
qed

lemma unalignedCell_px:
  assumes on_r: "on_matrix x r" and j: "j mod 4 = 0" "0 \<le> j" and y: "y mod 4 \<noteq> 0" "y < 16"
    and l: "-4 < j + y" "j + y < 16" and height: "height mod 4 = 0"
    and inv: "carry_inv img height offset i y j c v" and run: "j < (if v then height + 4 else height)"
    and words: "\<And>d. 0 \<le> d \<Longrightarrow> d < height \<Longrightarrow> d mod 4 = 0 \<Longrightarrow> imageWord img height offset i d < 16"
  shows "drawn img height offset i y (j + 4) r (cell_px (unalignedCell img height offset i x y j c v m) x r) =
    drawn img height offset i y j r (cell_px m x r)"
proof (cases "(j + y) div 4 = r div 4")
  case False
  have "cell_px (unalignedCell img height offset i x y j c v m) x r = cell_px m x r"
  proof (cases "0 < j + y")
    case True
    then have "on_matrix x (j + y)" using on_r l by simp
    then show ?thesis using other_cell False on_r by (simp add: unalignedCell_def Let_def)
  next
    case False
    then show ?thesis using inv by (auto simp: unalignedCell_def carry_inv_def)
  qed
  then show ?thesis using False by (intro drawn_step[OF j(1)]) auto
next
  case True
  let ?n = "nat (y mod 4)" and ?k = "nat (r mod 4)"
  note row = cell_row_eq[OF j(1) True]
  have j4: "j = 0 \<or> 4 \<le> j" and h4: "j < height \<Longrightarrow> j + 4 \<le> height" and hj: "height \<le> j \<Longrightarrow> v \<Longrightarrow> j = height"
    using row_steps[OF j height] run by (auto split: if_splits)
  have n: "0 < ?n" "?n < 4" using y(1) by (auto simp: zero_less_nat_eq intro: le_neq_trans)
  have "0 < y mod 4" "r mod 4 \<le> r" using y(1) on_r by (simp_all add: zmod_le_nonneg_dividend order_less_le)
  with row have "0 < j + y" by linarith
  then have on: "on_matrix x (j + y)" using on_r l by simp
  have kn: "?n \<le> ?k \<longleftrightarrow> y mod 4 \<le> r mod 4" by (simp add: nat_le_eq_zle)
  have rm: "0 \<le> y mod 4" "y mod 4 < 4" "0 \<le> r mod 4" "r mod 4 < 4" by simp_all
  note start = imageBit_start[OF j(1) True] and ending = imageBit_end[OF j(1) True]
  show ?thesis
  proof (cases v)
    case False
    then have j0: "j = 0" "j < height" using inv j4 y(2) \<open>0 < j + y\<close> run by (auto simp: carry_inv_def)
    have "cell_px (unalignedCell img height offset i x y j c v m) x r =
        (if ?n \<le> ?k then imageBit img height offset i (r - y) else cell_px m x r)"
      using False \<open>0 < j + y\<close> write_start[OF on on_r True n(2)] start by (simp add: unalignedCell_def Let_def)
    moreover have "y \<le> r \<longleftrightarrow> ?n \<le> ?k" "r < y + height" using row j0 h4[OF j0(2)] rm by linarith+
    ultimately show ?thesis using True by (intro drawn_step[OF j(1)]) simp_all
  next
    case valid: True
    then have c: "c = imageWord img height offset i (j - 4)" "4 \<le> j" using inv l hj
      by (force simp: carry_inv_def)+
    have yr: "y \<le> r" using row c(2) rm by linarith
    show ?thesis
    proof (cases "j < height")
      case False
      then have jh: "j = height" using hj valid by simp
      have "cell_px (unalignedCell img height offset i x y j c v m) x r =
          (if ?k < ?n then imageBit img height offset i (r - y) else cell_px m x r)"
        using valid False write_end[OF on on_r True n] ending c(1) by (simp add: unalignedCell_def Let_def)
      moreover have "r < y + height \<longleftrightarrow> ?k < ?n" using row jh rm by linarith
      ultimately show ?thesis using True yr by (intro drawn_step[OF j(1)]) auto
    next
      case more: True
      then have "c < 16" using words[of "j - 4"] c j by simp
      from write_both[OF on on_r True n this] have "cell_px (unalignedCell img height offset i x y j c v m) x r =
          imageBit img height offset i (r - y)"
        using valid more start ending c(1) by (simp add: unalignedCell_def Let_def)
      moreover have "r < y + height" using row h4[OF more] rm by linarith
      ultimately show ?thesis using True yr by (intro drawn_step[OF j(1)]) simp_all
    qed
  qed
qed

lemma off_matrix_cell:
  fixes l r :: int
  assumes "l \<le> -4 \<or> 16 \<le> l" "0 \<le> r" "r < 16"
  shows "l div 4 \<noteq> r div 4"
proof -
  have "l div 4 \<le> -1 \<or> 4 \<le> l div 4" using assms(1) by presburger
  moreover have "0 \<le> r div 4" "r div 4 < 4" using assms(2,3) by presburger+
  ultimately show ?thesis by auto
qed

lemma drawRows_unaligned:
  assumes on_r: "on_matrix x r" and y: "y mod 4 \<noteq> 0" "y < 16" and height: "height mod 4 = 0"
    and words: "\<And>d. 0 \<le> d \<Longrightarrow> d < height \<Longrightarrow> d mod 4 = 0 \<Longrightarrow> imageWord img height offset i d < 16"
    and "j mod 4 = 0" "0 \<le> j" "carry_inv img height offset i y j c v"
  shows "cell_px (drawRows img height offset i x y j c v m) x r = drawn img height offset i y j r (cell_px m x r)"
  using assms(6-)
proof (induction "nat (height + 4 - j)" arbitrary: j c v m rule: less_induct)
  case less
  note j = less.prems(1,2) and inv = less.prems(3)
  have rm: "0 \<le> y mod 4" "y mod 4 < 4" by simp_all
  show ?case
  proof (cases "j < (if v then height + 4 else height)")
    case False
    moreover have "\<not> (y + j - y mod 4 \<le> r \<and> y \<le> r \<and> r < y + height)"
    proof (cases v)
      case True
      then show ?thesis using False rm by auto
    next
      case nv: False
      then have "j < 4 \<or> y + j \<le> 0" using inv y by (auto simp: carry_inv_def)
      then have "j = 0 \<or> y + j \<le> 0" using row_steps(1)[OF j height] by auto
      then show ?thesis using nv False on_r by auto
    qed
    ultimately show ?thesis by (subst drawRows.simps) (auto simp: drawn_def)
  next
    case True
    have small: "nat (height + 4 - (j + 4)) < nat (height + 4 - j)" using True by (auto split: if_splits)
    have j4: "(j + 4) mod 4 = 0" "0 \<le> j + 4" using j by simp_all
    note ih = less.hyps[OF small j4]
    show ?thesis
    proof (cases "j + y \<le> -4 \<or> 16 \<le> j + y")
      case out: True
      then have "drawRows img height offset i x y j c v m = drawRows img height offset i x y (j + 4) c v m"
        using True by (subst drawRows.simps) (simp add: Let_def)
      moreover have "\<not> ((j + y) div 4 = r div 4)"
        using off_matrix_cell[OF out] on_r by simp
      ultimately show ?thesis
        using ih[OF carry_inv_skip[OF inv j y(2) out]] drawn_step[OF j(1), of y r] by simp
    next
      case False
      then have l: "-4 < j + y" "j + y < 16" by simp_all
      let ?c = "if j < height then imageWord img height offset i j else c"
      have "carry_inv img height offset i y (j + 4) ?c True"
      proof (cases "j < height")
        case False
        then show ?thesis using j l y True by (auto simp: carry_inv_def split: if_splits)
      qed (use j l y in \<open>auto intro: carry_inv_next\<close>)
      from ih[OF this] show ?thesis
        unfolding drawRows_unaligned_step[OF True l j(1) y(1) height]
        by (rule trans[OF _ unalignedCell_px[OF on_r j y l height inv True words]])
    qed
  qed
qed

lemma c_mod_4_pos: "-4 < l \<Longrightarrow> c_mod l 4 = 0 \<Longrightarrow> 0 \<le> l"
  using c_mod_4_0[of l] by presburger

lemma drawRows_step_column:
  assumes "on_matrix x' r" "x' \<noteq> x" "0 \<le> x" "x < 128" "v \<Longrightarrow> 0 < j + y"
    "j < (if v then height + 4 else height)"
  shows "\<exists>c' v' m'. drawRows img height offset i x y j c v m = drawRows img height offset i x y (j + 4) c' v' m' \<and>
    (v' \<longrightarrow> 0 < j + 4 + y) \<and> cell_px m' x' r = cell_px m x' r"
proof (cases "j + y \<le> -4 \<or> 16 \<le> j + y")
  case True
  then have "drawRows img height offset i x y j c v m = drawRows img height offset i x y (j + 4) c v m"
    using assms(6) by (subst drawRows.simps) (simp add: Let_def)
  then show ?thesis using assms(5) by (intro exI[of _ c] exI[of _ v] exI[of _ m]) auto
next
  case False
  let ?a = "nat (GET_ADDR_FROM_X_Y x (j + y))"
  have keep: "cell_px (m(?a := u)) x' r = cell_px m x' r" if "0 \<le> j + y" for u
    using other_cell[of x "j + y" x' r] that False assms(1-4) by auto
  note unf = drawRows.simps[of img height offset i x y j c v m]
  show ?thesis
  proof (cases "c_mod (j + y) 4 = 0")
    case True
    then have "0 \<le> j + y" using c_mod_4_pos False by simp
    moreover have "\<exists>u. drawRows img height offset i x y j c v m = drawRows img height offset i x y (j + 4) c v (m(?a := u))"
      unfolding unf Let_def using assms(6) False True by auto
    ultimately show ?thesis using keep assms(5) by fastforce
  next
    case no: False
    define cont where "cont = (\<lambda>m'. drawRows img height offset i x y j c v m =
      drawRows img height offset i x y (j + 4) (if j < height then imageWord img height offset i j else c) True m')"
    have "cont m \<and> \<not> v \<or> (\<exists>u. cont (m(?a := u)) \<and> 0 < j + y)"
      unfolding cont_def unf Let_def using assms(5,6) False no by (cases v) auto
    then have "\<exists>m'. cont m' \<and> cell_px m' x' r = cell_px m x' r"
      using keep by (metis order_less_imp_le)
    moreover have "0 < j + 4 + y" using False by simp
    ultimately show ?thesis unfolding cont_def by blast
  qed
qed

lemma drawRows_other_column:
  assumes "on_matrix x' r" "x' \<noteq> x" "0 \<le> x" "x < 128" "v \<Longrightarrow> 0 < j + y"
  shows "cell_px (drawRows img height offset i x y j c v m) x' r = cell_px m x' r"
  using assms(5)
proof (induction "nat (height + 4 - j)" arbitrary: j c v m rule: less_induct)
  case less
  show ?case
  proof (cases "j < (if v then height + 4 else height)")
    case True
    then have "nat (height + 4 - (j + 4)) < nat (height + 4 - j)" by (auto split: if_splits)
    with drawRows_step_column[OF assms(1-4) less.prems True] less.hyps show ?thesis by metis
  qed (subst drawRows.simps, simp)
qed

lemma drawRows_px:
  assumes "on_matrix x r" "height mod 4 = 0" "0 \<le> height" "y \<le> 16"
    and "\<And>d. 0 \<le> d \<Longrightarrow> d < height \<Longrightarrow> d mod 4 = 0 \<Longrightarrow> imageWord img height offset i d < 16"
  shows "cell_px (drawRows img height offset i x y 0 0 False m) x r =
    (if y \<le> r \<and> r < y + height then imageBit img height offset i (r - y) else cell_px m x r)"
proof (cases "y mod 4 = 0")
  case True
  then show ?thesis using drawRows_aligned[of y height x r 0] assms by simp
next
  case False
  then have y: "y < 16" using assms(4) by (cases "y = 16") auto
  have "cell_px (drawRows img height offset i x y 0 0 False m) x r = drawn img height offset i y 0 r (cell_px m x r)"
    by (rule drawRows_unaligned[OF assms(1) False y assms(2,5)]) (simp_all add: carry_inv_def)
  moreover have "y + 0 - y mod 4 \<le> r \<and> y \<le> r \<and> r < y + height \<longleftrightarrow> y \<le> r \<and> r < y + height"
    using pos_mod_sign[of 4 y] by linarith
  ultimately show ?thesis unfolding drawn_def by (simp only:)
qed

text \<open>
  A height that is not a multiple of four. The loop runs as for the next multiple of four, on the
  same words; only the masks differ, and only on rows below the image. Every cell is written at
  most once, so such a row is either protected or becomes what the longer image has there.
\<close>

definition ceil4 :: "int \<Rightarrow> int" where
  "ceil4 h = (h + 3) div 4 * 4"

lemma ceil4_bounds: "h \<le> ceil4 h" "ceil4 h < h + 4" "ceil4 h mod 4 = 0"
  unfolding ceil4_def by presburger+

lemma ceil4_steps:
  assumes "j mod 4 = 0"
  shows "j < ceil4 h \<longleftrightarrow> j < h" "j < ceil4 h + 4 \<longleftrightarrow> j < h + 4" "ceil4 h \<le> j \<longleftrightarrow> h \<le> j"
  using assms unfolding ceil4_def by presburger+

lemma imageWord_ceil4: "imageWord img (ceil4 h) = imageWord img h"
proof -
  have "(ceil4 h + 3) div 4 = (h + 3) div 4" unfolding ceil4_def by presburger
  then show ?thesis by (simp add: imageWord_def fun_eq_iff)
qed

lemma bottomMask_keeps:
  assumes "k < 4" "int k < 4 - s"
  shows "bit (bottomMask q s) k"
proof (cases "4 \<le> q \<or> s \<le> 0")
  case True
  then show ?thesis using bit_0F[OF assms(1)] by (auto simp: bottomMask_def)
next
  case False
  have "nat s + k < 4" using False assms(2) by linarith
  from bit_0F[OF this] bit_0F[OF assms(1)] False show ?thesis
    by (simp add: bottomMask_def bit_simps)
qed

text \<open>The writes of one round: address, mask and value; none in a round that only carries.\<close>

definition roundWrite ::
  "int \<Rightarrow> Int8U list \<Rightarrow> int \<Rightarrow> int \<Rightarrow> int \<Rightarrow> int \<Rightarrow> Int8U \<Rightarrow> bool \<Rightarrow> (Int8U \<times> Int8U) option" where
  "roundWrite height img offset i y j c v =
     (let w = imageWord img height offset i j; n = nat (y mod 4) in
      if c_mod (j + y) 4 = 0 then Some (bottomMask (height - (j + y)) (4 - (height - j)), w)
      else if \<not> v then
        (if 0 < j + y then Some (push_bit n 0xF AND bottomMask (height - (j + y)) (4 - (height - j)), push_bit n w)
         else None)
      else if height \<le> j then Some (drop_bit (4 - n) 0xF AND 0xF, drop_bit (4 - n) c)
      else Some (bottomMask (height - (j + y)) (4 - (height + int n - j)), push_bit n w OR drop_bit (4 - n) c))"

definition applyWrite :: "nat \<Rightarrow> (Int8U \<times> Int8U) option \<Rightarrow> (nat \<Rightarrow> Int8U) \<Rightarrow> (nat \<Rightarrow> Int8U)" where
  "applyWrite a wr m = (case wr of None \<Rightarrow> m | Some (k, v) \<Rightarrow> m(a := blend (m a) k v))"

lemma drawRows_round:
  assumes "j < (if v then height + 4 else height)" "-4 < j + y" "j + y < 16"
  shows "drawRows img height offset i x y j c v m =
    drawRows img height offset i x y (j + 4)
      (if c_mod (j + y) 4 \<noteq> 0 \<and> j < height then imageWord img height offset i j else c)
      (c_mod (j + y) 4 \<noteq> 0 \<or> v)
      (applyWrite (nat (GET_ADDR_FROM_X_Y x (j + y))) (roundWrite height img offset i y j c v) m)"
proof -
  have "\<not> (j + y \<le> -4 \<or> 16 \<le> j + y)" using assms(2,3) by simp
  then show ?thesis using assms(1)
    unfolding drawRows.simps[of img height offset i x y j c v m] roundWrite_def applyWrite_def Let_def carry_num
    by (cases v; cases "c_mod (j + y) 4 = 0"; cases "j < height"; cases "0 < j + y")
      (simp_all only: if_True if_False simp_thms not_less[symmetric] option.simps prod.case)
qed

text \<open>Two runs in lockstep: the masks of the image are within those of the longer one, and they
  agree on the rows of the image.\<close>

definition tail_ok :: "int \<Rightarrow> int \<Rightarrow> int \<Rightarrow> int \<Rightarrow> int \<Rightarrow> (nat \<Rightarrow> Int8U) \<Rightarrow> (nat \<Rightarrow> Int8U) \<Rightarrow> (nat \<Rightarrow> Int8U) \<Rightarrow> bool" where
  "tail_ok x height y j r m0 m M \<longleftrightarrow>
     (if y + j - y mod 4 \<le> r then cell_px m x r = cell_px m0 x r \<and> cell_px M x r = cell_px m0 x r
      else cell_px m x r = cell_px M x r \<or> y + height \<le> r \<and> cell_px m x r = cell_px m0 x r)"

lemma tail_ok_write:
  assumes ok: "tail_ok x height y j r m0 m M" and on: "on_matrix x (j + y)" "on_matrix x r" and j: "j mod 4 = 0"
    and sub: "\<And>k. k < 4 \<Longrightarrow> bit a k \<Longrightarrow> bit A k"
    and low: "\<And>k. k < 4 \<Longrightarrow> bit A k \<Longrightarrow> y + j - y mod 4 + int k < y + height \<Longrightarrow> bit a k"
  shows "tail_ok x height y (j + 4) r m0
    (m(nat (GET_ADDR_FROM_X_Y x (j + y)) := blend (m (nat (GET_ADDR_FROM_X_Y x (j + y)))) a u))
    (M(nat (GET_ADDR_FROM_X_Y x (j + y)) := blend (M (nat (GET_ADDR_FROM_X_Y x (j + y)))) A u))"
proof (cases "(j + y) div 4 = r div 4")
  case True
  note row = cell_row_eq[OF j True]
  have in_cell: "y + j - y mod 4 \<le> r" "r < y + j - y mod 4 + 4" using cell_rows[OF j] True by simp_all
  have same: "cell_px m x r = cell_px m0 x r" "cell_px M x r = cell_px m0 x r"
    using ok in_cell by (simp_all add: tail_ok_def)
  have "bit A (nat (r mod 4)) \<Longrightarrow> \<not> bit a (nat (r mod 4)) \<Longrightarrow> y + height \<le> r"
    using low[OF nat_mod_4, of r] row by force
  then show ?thesis
    using in_cell sub[OF nat_mod_4, of r] True same
    by (simp add: tail_ok_def cell_px_blend[OF on] algebra_simps)
next
  case False
  then have "\<not> (y + j - y mod 4 \<le> r \<and> r < y + j - y mod 4 + 4)" using cell_rows[OF j] by simp
  then show ?thesis using ok False
    by (auto simp: tail_ok_def cell_px_blend[OF on] algebra_simps split: if_splits)
qed

definition carrying :: "int \<Rightarrow> int \<Rightarrow> bool \<Rightarrow> bool" where
  "carrying y j v \<longleftrightarrow> (v \<longleftrightarrow> y mod 4 \<noteq> 0 \<and> 4 \<le> j \<and> 0 < y + j)"

lemma mod_4_sum: "j mod 4 = 0 \<Longrightarrow> (j + y) mod 4 = y mod 4" for j y :: int
  by (metis add_0 mod_add_left_eq)

lemma c_mod_4_iff: "c_mod l 4 = 0 \<longleftrightarrow> l mod 4 = 0"
proof
  assume "l mod 4 = 0"
  then show "c_mod l 4 = 0" by (auto simp: c_mod_def c_div_def)
qed (rule c_mod_4_0)

lemma rounds_match:
  assumes j: "j mod 4 = 0" "0 \<le> j" and run: "j < (if v then height + 4 else height)" and h: "4 \<le> height"
    and inv: "carrying y j v" and l: "-4 < j + y"
  shows "roundWrite height img offset i y j c v = None \<and> roundWrite (ceil4 height) img offset i y j c v = None \<and> j + y < 0 \<or>
    (\<exists>a A u. roundWrite height img offset i y j c v = Some (a, u) \<and>
       roundWrite (ceil4 height) img offset i y j c v = Some (A, u) \<and> 0 \<le> j + y \<and>
       (\<forall>k<4. (bit a k \<longrightarrow> bit A k) \<and> (bit A k \<longrightarrow> y + j - y mod 4 + int k < y + height \<longrightarrow> bit a k)))"
proof -
  note st = ceil4_steps[OF j(1), of height]
  have full: "bottomMask q s = 0xF" if "s \<le> 0" for q s using that by (rule bottomMask_full)
  have hr: "j < height \<Longrightarrow> j + 4 \<le> ceil4 height"
    using row_steps(2)[OF j ceil4_bounds(3), of height] st(1) by simp
  have j4: "j = 0 \<or> 4 \<le> j" using row_steps(1)[OF j ceil4_bounds(3)] .
  show ?thesis
  proof (cases "y mod 4 = 0")
    case True
    then have "\<not> v" "c_mod (j + y) 4 = 0" "j < height"
      using inv run by (simp_all add: carrying_def c_mod_4_iff mod_4_sum[OF j(1)])
    moreover have "0 \<le> j + y" using c_mod_4_pos[OF l] \<open>c_mod (j + y) 4 = 0\<close> .
    ultimately show ?thesis
      using hr True bit_0F bottomMask_keeps
      by (auto simp: roundWrite_def Let_def imageWord_ceil4 full)
  next
    case False
    then have c: "c_mod (j + y) 4 \<noteq> 0" by (simp add: c_mod_4_iff mod_4_sum[OF j(1)])
    show ?thesis
    proof (cases v)
      case nv: False
      then have "0 < j + y \<Longrightarrow> j = 0" using inv j4 False by (auto simp: carrying_def)
      moreover have "\<not> 0 < j + y \<Longrightarrow> j + y < 0" using c c_mod_4_iff[of "j + y"] by (cases "j + y = 0") auto
      ultimately show ?thesis using nv c h ceil4_bounds(1)[of height]
        by (auto simp: roundWrite_def Let_def imageWord_ceil4 full)
    next
      case True
      then have pos: "0 < j + y" using inv by (simp add: carrying_def)
      show ?thesis
      proof (cases "height \<le> j")
        case at_end: True
        then show ?thesis using True c pos st(3) by (simp add: roundWrite_def Let_def)
      next
        case more: False
        then have A: "bottomMask q (4 - (ceil4 height + y mod 4 - j)) = 0xF" for q
          using hr pos_mod_sign[of 4 y] by (intro full) simp
        show ?thesis using True c pos st(3) more A bit_0F bottomMask_keeps
          by (auto simp: roundWrite_def Let_def imageWord_ceil4)
      qed
    qed
  qed
qed

lemma carrying_skip:
  assumes "carrying y j v" "0 \<le> j" "j mod 4 = 0" "y \<le> 16" "j + y \<le> -4 \<or> 16 \<le> j + y"
  shows "carrying y (j + 4) v"
proof -
  have "j = 0 \<or> 4 \<le> j" using assms(2,3) by presburger
  moreover have "y = 16 \<Longrightarrow> y mod 4 = 0" by simp
  ultimately show ?thesis using assms by (auto simp: carrying_def)
qed

lemma carrying_next:
  assumes "carrying y j v" "0 \<le> j" "j mod 4 = 0" "-4 < j + y"
  shows "carrying y (j + 4) (c_mod (j + y) 4 \<noteq> 0 \<or> v)"
  using assms by (auto simp: carrying_def c_mod_4_iff mod_4_sum)

lemma tail_ok_skip:
  assumes "tail_ok x height y j r m0 m M" "j mod 4 = 0" "(j + y) div 4 \<noteq> r div 4"
  shows "tail_ok x height y (j + 4) r m0 m M"
  using assms cell_rows[OF assms(2), of y r] by (auto simp: tail_ok_def split: if_splits)

lemma negative_cell: "l < 0 \<Longrightarrow> 0 \<le> r \<Longrightarrow> l div 4 \<noteq> r div 4" for l r :: int
proof -
  assume "l < 0" "0 \<le> r"
  then have "l div 4 < 0" "0 \<le> r div 4" by presburger+
  then show ?thesis by simp
qed

lemma drawRows_stop:
  "\<not> j < (if v then height + 4 else height) \<Longrightarrow> drawRows img height offset i x y j c v m = m"
  by (subst drawRows.simps) simp

lemma drawRows_skip:
  "j < (if v then height + 4 else height) \<Longrightarrow> j + y \<le> -4 \<or> 16 \<le> j + y \<Longrightarrow>
   drawRows img height offset i x y j c v m = drawRows img height offset i x y (j + 4) c v m"
  by (subst drawRows.simps) (simp add: Let_def)

lemma drawRows_lockstep:
  assumes on_r: "on_matrix x r" and h: "4 \<le> height" "y \<le> 16"
    and "j mod 4 = 0" "0 \<le> j" "carrying y j v" "tail_ok x height y j r m0 m M"
  shows "cell_px (drawRows img height offset i x y j c v m) x r =
      cell_px (drawRows img (ceil4 height) offset i x y j c v M) x r \<or>
    y + height \<le> r \<and> cell_px (drawRows img height offset i x y j c v m) x r = cell_px m0 x r"
  using assms(4-)
proof (induction "nat (height + 4 - j)" arbitrary: j c v m M rule: less_induct)
  case less
  note j = less.prems(1,2) and inv = less.prems(3) and ok = less.prems(4)
  note st = ceil4_steps[OF j(1), of height]
  show ?case
  proof (cases "j < (if v then height + 4 else height)")
    case False
    then have "\<not> j < (if v then ceil4 height + 4 else ceil4 height)" using st by (cases v) auto
    from drawRows_stop[OF False] drawRows_stop[OF this]
    show ?thesis using ok by (auto simp: tail_ok_def split: if_splits)
  next
    case True
    then have True': "j < (if v then ceil4 height + 4 else ceil4 height)" using st by (cases v) auto
    have small: "nat (height + 4 - (j + 4)) < nat (height + 4 - j)" using True by (auto split: if_splits)
    have j4: "(j + 4) mod 4 = 0" "0 \<le> j + 4" using j by simp_all
    note ih = less.hyps[OF small j4]
    show ?thesis
    proof (cases "j + y \<le> -4 \<or> 16 \<le> j + y")
      case out: True
      have "tail_ok x height y (j + 4) r m0 m M"
        using tail_ok_skip[OF ok j(1)] off_matrix_cell[OF out] on_r by simp
      from ih[OF carrying_skip[OF inv j(2,1) h(2) out] this] show ?thesis
        unfolding drawRows_skip[OF True out] drawRows_skip[OF True' out] .
    next
      case False
      then have l: "-4 < j + y" "j + y < 16" by simp_all
      let ?a = "nat (GET_ADDR_FROM_X_Y x (j + y))"
      have "tail_ok x height y (j + 4) r m0
          (applyWrite ?a (roundWrite height img offset i y j c v) m)
          (applyWrite ?a (roundWrite (ceil4 height) img offset i y j c v) M)"
        using rounds_match[OF j True h(1) inv l(1), of img offset i c]
      proof
        assume "roundWrite height img offset i y j c v = None \<and>
          roundWrite (ceil4 height) img offset i y j c v = None \<and> j + y < 0"
        then show ?thesis using tail_ok_skip[OF ok j(1)] negative_cell[of "j + y" r] on_r
          by (simp add: applyWrite_def)
      next
        assume "\<exists>a A u. roundWrite height img offset i y j c v = Some (a, u) \<and>
          roundWrite (ceil4 height) img offset i y j c v = Some (A, u) \<and> 0 \<le> j + y \<and>
          (\<forall>k<4. (bit a k \<longrightarrow> bit A k) \<and> (bit A k \<longrightarrow> y + j - y mod 4 + int k < y + height \<longrightarrow> bit a k))"
        then show ?thesis using tail_ok_write[OF ok _ on_r j(1)] on_r l by (auto simp: applyWrite_def)
      qed
      from ih[OF carrying_next[OF inv j(2,1) l(1)] this] show ?thesis
        unfolding drawRows_round[OF True l] drawRows_round[OF True' l] st imageWord_ceil4 .
    qed
  qed
qed

text \<open>One column of an image of any height, then the columns.\<close>

definition copied :: "Int8U list \<Rightarrow> int \<Rightarrow> int \<Rightarrow> int \<Rightarrow> int \<Rightarrow> int \<Rightarrow> bool \<Rightarrow> bool \<Rightarrow> bool" where
  "copied img height offset i y r old new \<longleftrightarrow>
     (y \<le> r \<and> r < y + height \<longrightarrow> new = imageBit img height offset i (r - y)) \<and>
     (\<not> (y \<le> r \<and> r < y + ceil4 height) \<longrightarrow> new = old)"

lemma drawRows_copies:
  assumes "on_matrix x r" "4 \<le> height" "y \<le> 16"
    and "\<And>d. 0 \<le> d \<Longrightarrow> d < height \<Longrightarrow> d mod 4 = 0 \<Longrightarrow> imageWord img height offset i d < 16"
  shows "copied img height offset i y r (cell_px m x r) (cell_px (drawRows img height offset i x y 0 0 False m) x r)"
proof -
  let ?new = "cell_px (drawRows img height offset i x y 0 0 False m) x r"
  have h: "height \<le> ceil4 height" by (rule ceil4_bounds)
  have "cell_px (drawRows img (ceil4 height) offset i x y 0 0 False m) x r =
      (if y \<le> r \<and> r < y + ceil4 height then imageBit img (ceil4 height) offset i (r - y) else cell_px m x r)"
    using assms(2,4) h ceil4_steps(1)[of _ height] imageWord_ceil4
    by (intro drawRows_px[OF assms(1) ceil4_bounds(3) _ assms(3)]) simp_all
  moreover have "?new = cell_px (drawRows img (ceil4 height) offset i x y 0 0 False m) x r \<or>
      y + height \<le> r \<and> ?new = cell_px m x r"
    by (rule drawRows_lockstep[OF assms(1-3)]) (simp_all add: carrying_def tail_ok_def)
  moreover have "imageBit img (ceil4 height) = imageBit img height"
    by (simp add: imageBit_def imageWord_ceil4 fun_eq_iff)
  ultimately show ?thesis using h unfolding copied_def by auto
qed

definition drawColumn :: "Int8U list \<Rightarrow> int \<Rightarrow> int \<Rightarrow> int \<Rightarrow> int \<Rightarrow> nat \<Rightarrow> (nat \<Rightarrow> Int8U) \<Rightarrow> (nat \<Rightarrow> Int8U)" where
  "drawColumn img height x y offset i m =
     (if int i + x < 0 \<or> OUT_SIZE \<le> int i + x then m
      else drawRows img height offset (int i) (int i + x) y 0 0 False m)"

lemma drawColumn_other:
  "on_matrix px r \<Longrightarrow> int i + x \<noteq> px \<Longrightarrow> cell_px (drawColumn img height x y offset i m) px r = cell_px m px r"
  using drawRows_other_column[of px r "int i + x" False] by (auto simp: drawColumn_def)

lemma drawColumns_copy:
  assumes on: "on_matrix px r" and h: "4 \<le> height" "y \<le> 16"
    and words: "\<And>i d. i < n \<Longrightarrow> 0 \<le> d \<Longrightarrow> d < height \<Longrightarrow> imageWord img height offset (int i) d < 16"
  shows "if x \<le> px \<and> px < x + int n
    then copied img height offset (px - x) y r (cell_px m px r)
      (cell_px (fold (drawColumn img height x y offset) [0..<n] m) px r)
    else cell_px (fold (drawColumn img height x y offset) [0..<n] m) px r = cell_px m px r"
  using words
proof (induction n)
  case 0
  then show ?case by auto
next
  case (Suc n)
  let ?m = "fold (drawColumn img height x y offset) [0..<n] m"
  have ih: "if x \<le> px \<and> px < x + int n then copied img height offset (px - x) y r (cell_px m px r) (cell_px ?m px r)
      else cell_px ?m px r = cell_px m px r"
    by (rule Suc.IH) (simp add: Suc.prems)
  have f: "fold (drawColumn img height x y offset) [0..<Suc n] m = drawColumn img height x y offset n ?m" by simp
  show ?case
  proof (cases "int n + x = px")
    case True
    then have "drawColumn img height x y offset n ?m = drawRows img height offset (int n) px y 0 0 False ?m"
      using on by (simp add: drawColumn_def)
    moreover have "copied img height offset (int n) y r (cell_px ?m px r)
        (cell_px (drawRows img height offset (int n) px y 0 0 False ?m) px r)"
      by (rule drawRows_copies[OF on h]) (rule Suc.prems; simp)
    moreover have "cell_px ?m px r = cell_px m px r" "px - x = int n" "x \<le> px \<and> px < x + int (Suc n)"
      using ih True by auto
    ultimately show ?thesis unfolding f by (simp only: if_True simp_thms)
  next
    case False
    then have "px < x + int (Suc n) \<longleftrightarrow> px < x + int n" by auto
    then show ?thesis using ih drawColumn_other[OF on False] unfolding f by (simp only:)
  qed
qed

lemma imageWord_small:
  assumes "0 \<le> offset" "list_all (\<lambda>w. w < 16) img" "(height + 3) div 4 * width + offset \<le> int (length img)"
    "0 \<le> i" "i < width" "0 \<le> d" "d < height"
  shows "imageWord img height offset i d < 16"
proof -
  have "d div 4 < (height + 3) div 4" using assms(7) by presburger
  moreover have "(height + 3) div 4 * i + (height + 3) div 4 \<le> (height + 3) div 4 * width"
    using mult_left_mono[of "i + 1" width "(height + 3) div 4"] assms(5-7) by (simp add: algebra_simps)
  ultimately have "(height + 3) div 4 * i + d div 4 + offset < int (length img)" using assms(3) by linarith
  moreover have "0 \<le> (height + 3) div 4 * i + d div 4 + offset" using assms by simp
  ultimately show ?thesis using assms(2,6) by (simp add: imageWord_def list_all_length)
qed

lemma drawImage_px:
  assumes "target_ok h" "4 \<le> height" "0 \<le> width" "0 \<le> offset"
    and "list_all (\<lambda>w. w < 16) img" "(height + 3) div 4 * width + offset \<le> int (length img)"
    and "on_matrix px py"
  shows "(x \<le> px \<and> px < x + width \<and> y \<le> py \<and> py < y + height \<longrightarrow>
      matrix_px (drawImage img width height x y offset h) (px, py) = imageBit img height offset (px - x) (py - y)) \<and>
    (\<not> (x \<le> px \<and> px < x + width \<and> y \<le> py \<and> py < y + ceil4 height) \<longrightarrow>
      matrix_px (drawImage img width height x y offset h) (px, py) = matrix_px h (px, py))"
proof (cases "y + height < 0 \<or> x + width < 0 \<or> COM_SIZE < y \<or> OUT_SIZE < x")
  case True
  then show ?thesis using assms(1,7) by (auto simp: drawImage_def)
next
  case False
  have "(\<lambda>i m. let loc_x = int i + x in if loc_x < 0 \<or> OUT_SIZE \<le> loc_x then m
          else drawRows img height offset (int i) loc_x y 0 0 False m) = drawColumn img height x y offset"
    by (simp add: fun_eq_iff drawColumn_def Let_def)
  then have "matrix_px (drawImage img width height x y offset h) (px, py) =
      cell_px (fold (drawColumn img height x y offset) [0..<nat width] (mem h (tgt h))) px py"
    using False assms(1) by (simp add: drawImage_def matrix_px_def setTarget_def)
  moreover have "if x \<le> px \<and> px < x + int (nat width)
    then copied img height offset (px - x) y py (cell_px (mem h (tgt h)) px py)
      (cell_px (fold (drawColumn img height x y offset) [0..<nat width] (mem h (tgt h))) px py)
    else cell_px (fold (drawColumn img height x y offset) [0..<nat width] (mem h (tgt h))) px py =
      cell_px (mem h (tgt h)) px py"
    using False by (intro drawColumns_copy[OF assms(7,2)] imageWord_small[OF assms(4,5,6)]) auto
  ultimately show ?thesis using assms(3) by (auto simp: matrix_px_def copied_def split: if_splits)
qed

text \<open>
  C4. The copying engine. An image of at least four rows is put on the board pixel by pixel:
  wherever it is placed, with any part of it outside the matrix, a pixel inside its rectangle
  becomes the pixel of the image, and a pixel outside the rectangle of its whole words (the height
  rounded up to a multiple of four) stays as it was. The engine works on cells of four pixels,
  masks them, and carries the rest of a word to the next cell when the row is not a multiple of
  four. For a height that is a multiple of four the two rectangles are the same.
\<close>

theorem drawImage_copies_pixels:
  assumes "target_ok h" "4 \<le> height" "0 \<le> width" "0 \<le> offset"
    and "list_all (\<lambda>w. w < 16) img" "(height + 3) div 4 * width + offset \<le> int (length img)"
    and "on_matrix px py"
  shows "(x \<le> px \<and> px < x + width \<and> y \<le> py \<and> py < y + height \<longrightarrow>
      matrix_px (drawImage img width height x y offset h) (px, py) = imageBit img height offset (px - x) (py - y)) \<and>
    (\<not> (x \<le> px \<and> px < x + width \<and> y \<le> py \<and> py < y + ceil4 height) \<longrightarrow>
      matrix_px (drawImage img width height x y offset h) (px, py) = matrix_px h (px, py))"
  using drawImage_px[OF assms] .

theorem drawImage_copies_pixels_witness:
  "\<not> matrix_px (drawImage [9, 15, 6, 3] 2 7 (-1) 13 0 (drawTarget 0 newHT1632)) (0, 13) \<and>
   \<not> matrix_px (drawImage [9, 15, 6, 3] 2 7 (-1) 13 0 (drawTarget 0 newHT1632)) (1, 13) \<and>
   matrix_px (drawImage [9, 15, 6, 3] 2 7 (-1) 13 0 (drawTarget 0 newHT1632)) (0, 14)"
proof -
  have t: "target_ok (drawTarget 0 newHT1632)" by (simp add: drawTarget_def target_ok_def)
  note th = drawImage_copies_pixels[OF t, of 7 2 0 "[9, 15, 6, 3]" _ _ "-1" 13]
  have "\<not> matrix_px (drawTarget 0 newHT1632) p" for p
    by (simp add: matrix_px_def cell_px_def newHT1632_def drawTarget_def)
  then show ?thesis
    using th[of 0 13] th[of 1 13] th[of 0 14] by (simp add: imageBit_def imageWord_def)
qed

text \<open>
  The rows between the two rectangles. The last cell of an image that does not start at a
  multiple of four is written without regard to the height: a column of five rows at row 5, where
  the scrolling messages are, ends at row 9, and yet row 12 becomes bit 3 of its last word.
\<close>

theorem short_image_overwrites_below:
  assumes "target_ok h" "0 \<le> x" "x < 128" "2 \<le> length img" "img ! 1 < 16"
  shows "matrix_px (drawImage img 1 5 x 5 0 h) (x, 12) = bit (img ! 1) 3"
proof -
  let ?m = "mem h (tgt h)" and ?w = "imageWord img 5 0 0"
  have w: "?w 4 = img ! 1" by (simp add: imageWord_def)
  have n: "nat (5 mod 4) = Suc 0" by simp
  have r8: "roundWrite 5 img 0 0 5 8 c True = Some (drop_bit 3 0xF AND 0xF, drop_bit 3 c)" for c
    by (simp add: roundWrite_def Let_def n)
  have "\<exists>m2. drawRows img 5 0 0 x 5 0 0 False ?m = drawRows img 5 0 0 x 5 8 (img ! 1) True m2"
    using drawRows_round[of 0 False 5 5 img 0 0 x 0 ?m] drawRows_round[of 4 True 5 5 img 0 0 x "?w 0"]
    by (auto simp: w)
  then obtain m2 where "drawRows img 5 0 0 x 5 0 0 False ?m = drawRows img 5 0 0 x 5 8 (img ! 1) True m2" by blast
  also have "\<dots> = drawRows img 5 0 0 x 5 12 (img ! 1) True
      (m2(nat (GET_ADDR_FROM_X_Y x 13) := blend (m2 (nat (GET_ADDR_FROM_X_Y x 13)))
         (drop_bit 3 0xF AND 0xF) (drop_bit 3 (img ! 1))))"
    using drawRows_round[of 8 True 5 5 img 0 0 x "img ! 1" m2] by (simp add: r8 applyWrite_def)
  also have "\<dots> = m2(nat (GET_ADDR_FROM_X_Y x 13) := blend (m2 (nat (GET_ADDR_FROM_X_Y x 13)))
         (drop_bit 3 0xF AND 0xF) (drop_bit 3 (img ! 1)))"
    by (rule drawRows_stop) simp
  finally have "matrix_px (drawImage img 1 5 x 5 0 h) (x, 12) = cell_px (m2(nat (GET_ADDR_FROM_X_Y x 13) :=
      blend (m2 (nat (GET_ADDR_FROM_X_Y x 13))) (drop_bit 3 0xF AND 0xF) (drop_bit 3 (img ! 1)))) x 12"
    using assms(1-3) by (simp add: drawImage_def matrix_px_def setTarget_def)
  then show ?thesis using write_end[of x 13 12 1 m2 "img ! 1"] assms by simp
qed

theorem short_image_overwrites_below_witness:
  "matrix_px (matrix_setPixel 7 12 True (drawTarget 0 newHT1632)) (7, 12) \<and>
   \<not> matrix_px (drawImage [15, 1] 1 5 7 5 0 (matrix_setPixel 7 12 True (drawTarget 0 newHT1632))) (7, 12)"
proof -
  have t: "target_ok (drawTarget 0 newHT1632)" by (simp add: drawTarget_def target_ok_def)
  show ?thesis using short_image_overwrites_below[of "matrix_setPixel 7 12 True (drawTarget 0 newHT1632)" 7 "[15, 1]"]
    t matrix_px_set[OF t, of 7 12 7 12 True] by simp
qed

section \<open>What the chips see\<close>

text \<open>
  The levels a device samples from the writes: the chip select chain shifts the level of the CS
  pin in at every pulse of the clock pin, and the selected chips read the data pin at every
  pulse of the write pin.
\<close>

fun sampled :: "MatrixPin \<Rightarrow> MatrixPin \<Rightarrow> GpioValue \<Rightarrow> matrix_op list \<Rightarrow> GpioValue list" where
  "sampled clk p level [] = []"
| "sampled clk p level (PinWrite q v # ops) =
     (if q = clk \<and> v = high then level # sampled clk p level ops
      else sampled clk p (if q = p then v else level) ops)"
| "sampled clk p level (_ # ops) = sampled clk p level ops"

definition cs_chain :: "matrix_op list \<Rightarrow> GpioValue list" where
  "cs_chain ops = rev (sampled pinCLK pinCS high ops)"

definition data_bits :: "matrix_op list \<Rightarrow> GpioValue list" where
  "data_bits ops = sampled pinWR pinDATA low ops"

lemma sampled_clk_pulses:
  "sampled pinCLK pinCS v (clk_pulses n @ ops) = replicate n v @ sampled pinCLK pinCS v ops"
  by (induction n) (simp_all add: clk_pulses_def outputCLK_Pulse_def)

lemma cs_chain_select:
  "0 < m \<Longrightarrow> cs_chain (select m) = replicate (nat (m - 1)) high @ low # replicate 16 high"
  using sampled_clk_pulses[of high 16] sampled_clk_pulses[of high "nat (m - 1)" "[]"]
  by (simp add: cs_chain_def select_def outputCLK_Pulse_def)

lemma cs_chain_select_0: "cs_chain (select 0) = replicate 16 high"
  using sampled_clk_pulses[of high 16 "[]"] by (simp add: cs_chain_def select_def)

lemma cs_chain_select_all: "m < 0 \<Longrightarrow> cs_chain (select m) = replicate 16 low"
  using sampled_clk_pulses[of low 16 "[]"] by (simp add: cs_chain_def select_def)

lemma sampled_writeBit:
  "sampled pinWR pinDATA v (writeBit b @ ops) = gpio_bit b # sampled pinWR pinDATA (gpio_bit b) ops"
  by (simp add: writeBit_def)

lemma sampled_writeData:
  "sampled pinWR pinDATA v (writeData d n @ ops) =
     map (\<lambda>k. gpio_bit (bit d k)) (rev [0..<n]) @
     sampled pinWR pinDATA (if n = 0 then v else gpio_bit (bit d 0)) ops"
  by (induction n arbitrary: v) (simp_all add: sampled_writeBit)

lemma sampled_writeDataRev:
  "sampled pinWR pinDATA v (writeDataRev d n @ ops) =
     map (\<lambda>k. gpio_bit (bit d k)) [0..<n] @
     sampled pinWR pinDATA (if n = 0 then v else gpio_bit (bit d (n - 1))) ops"
proof (induction n arbitrary: d v)
  case (Suc n)
  have u: "[0..<Suc n] = 0 # map Suc [0..<n]" by (simp add: map_Suc_upt upt_conv_Cons)
  have b: "bit (drop_bit 1 d) k = bit d (Suc k)" for k by (simp add: bit_simps)
  have "sampled pinWR pinDATA v (writeDataRev d (Suc n) @ ops) =
      gpio_bit (bit d 0) # sampled pinWR pinDATA (gpio_bit (bit d 0)) (writeDataRev (drop_bit 1 d) n @ ops)"
    by (simp add: sampled_writeBit)
  then show ?case unfolding Suc.IH u b by (cases n) (simp_all add: comp_def)
qed simp

text \<open>
  \<open>select\<close>: after it, of the sixteen positions of the chip select chain only the one of
  the chosen chip is low; \<open>select 0\<close> leaves none low.
\<close>

theorem select_addresses_one_chip:
  assumes "0 \<le> m" "m \<le> 16" "i < 16"
  shows "cs_chain (select m) ! i = low \<longleftrightarrow> int i + 1 = m"
proof (cases "m = 0")
  case True
  then show ?thesis using assms by (simp add: cs_chain_select_0)
next
  case False
  then show ?thesis using assms by (auto simp: cs_chain_select nth_append nth_Cons split: nat.splits)
qed

theorem select_addresses_one_chip_witness: "cs_chain (select 5) ! 4 = low \<and> cs_chain (select 5) ! 7 \<noteq> low"
  using select_addresses_one_chip[of 5 4] select_addresses_one_chip[of 5 7] by simp

end




