(* ===== verification/Matrix_Data.thy ===== *)
theory Matrix_Data
  imports HT1632
begin

text \<open>
  The tables the display draws from: the five fonts of \<^verbatim>\<open>ht1632/font_*.h\<close>, the images of
  \<^verbatim>\<open>ht1632/images.h\<close> that \<^verbatim>\<open>getImgArtInfo\<close> knows, the
  messages of \<^verbatim>\<open>src/fortunes.h\<close>, and the functions of
  \<^verbatim>\<open>displayInternal.cpp\<close> that select among them. A table entry is a word of four pixels,
  the first in the lowest bit. The enumerations come from requests by a cast, so a \<open>Font\<close> or
  an \<open>ImgArt\<close> is any 32-bit value.
\<close>

section \<open>Fonts\<close>

definition FONT_5X4 :: "Int8U list" where
  "FONT_5X4 = [
   0, 0, 0, 0, 0, 0, 0, 0, 0, 0, 7, 1, 0, 0, 0, 0, 0, 0, 0, 0, 3, 0, 0, 0, 3, 0, 0, 0,
   0, 0, 10, 0, 15, 1, 10, 0, 15, 1, 10, 0, 0, 0, 0, 0, 0, 0, 0, 0, 0, 0, 3, 1, 11, 0, 4, 0,
   10, 1, 9, 1, 10, 0, 5, 1, 9, 1, 10, 1, 0, 0, 3, 0, 0, 0, 0, 0, 0, 0, 0, 0, 14, 0, 1, 1,
   0, 0, 0, 0, 0, 0, 1, 1, 14, 0, 0, 0, 0, 0, 0, 0, 5, 0, 2, 0, 5, 0, 0, 0, 0, 0, 4, 0,
   4, 0, 15, 1, 4, 0, 4, 0, 0, 1, 8, 0, 0, 0, 0, 0, 0, 0, 4, 0, 4, 0, 4, 0, 0, 0, 0, 0,
   0, 1, 0, 0, 0, 0, 0, 0, 0, 0, 0, 1, 12, 0, 6, 0, 1, 0, 0, 0, 14, 0, 1, 1, 14, 0, 0, 0,
   0, 0, 2, 1, 15, 1, 0, 1, 0, 0, 0, 0, 2, 1, 9, 1, 5, 1, 2, 1, 0, 0, 5, 1, 5, 1, 10, 0,
   0, 0, 0, 0, 12, 0, 10, 0, 15, 1, 8, 0, 0, 0, 7, 1, 5, 1, 13, 0, 0, 0, 0, 0, 14, 0, 5, 1,
   5, 1, 8, 0, 0, 0, 1, 0, 13, 1, 5, 0, 3, 0, 0, 0, 10, 0, 5, 1, 5, 1, 10, 0, 0, 0, 2, 0,
   5, 0, 5, 1, 14, 0, 0, 0, 10, 0, 0, 0, 0, 0, 0, 0, 0, 0, 0, 1, 10, 0, 0, 0, 0, 0, 0, 0,
   4, 0, 10, 0, 1, 1, 0, 0, 0, 0, 10, 0, 10, 0, 10, 0, 0, 0, 0, 0, 1, 1, 10, 0, 4, 0, 0, 0,
   0, 0, 2, 0, 1, 0, 9, 1, 6, 0, 0, 0, 14, 0, 1, 0, 13, 0, 5, 1, 15, 0, 14, 1, 5, 0, 14, 1,
   0, 0, 0, 0, 15, 1, 5, 1, 10, 0, 0, 0, 0, 0, 14, 0, 1, 1, 1, 1, 10, 0, 0, 0, 15, 1, 1, 1,
   14, 0, 0, 0, 0, 0, 15, 1, 5, 1, 1, 1, 0, 0, 0, 0, 15, 1, 5, 0, 5, 0, 0, 0, 0, 0, 14, 0,
   1, 1, 9, 1, 10, 0, 0, 0, 15, 1, 4, 0, 4, 0, 15, 1, 0, 0, 1, 1, 15, 1, 1, 1, 0, 0, 0, 0,
   9, 0, 1, 1, 15, 0, 0, 0, 0, 0, 15, 1, 4, 0, 10, 0, 1, 1, 0, 0, 15, 1, 0, 1, 0, 1, 0, 0,
   0, 0, 15, 1, 2, 0, 4, 0, 2, 0, 15, 1, 15, 1, 2, 0, 4, 0, 8, 0, 15, 1, 14, 0, 1, 1, 1, 1,
   14, 0, 0, 0, 15, 1, 5, 0, 2, 0, 0, 0, 0, 0, 14, 0, 1, 1, 1, 1, 9, 0, 6, 1, 15, 1, 5, 0,
   10, 1, 0, 0, 0, 0, 2, 1, 5, 1, 5, 1, 9, 0, 0, 0, 1, 0, 15, 1, 1, 0, 0, 0, 0, 0, 15, 0,
   0, 1, 0, 1, 15, 0, 0, 0, 3, 0, 12, 0, 0, 1, 12, 0, 3, 0, 15, 0, 0, 1, 12, 0, 0, 1, 15, 0,
   11, 1, 4, 0, 11, 1, 0, 0, 0, 0, 3, 0, 12, 1, 3, 0, 0, 0, 0, 0, 9, 1, 5, 1, 5, 1, 3, 1,
   0, 0, 15, 1, 1, 1, 0, 0, 0, 0, 0, 0, 1, 0, 6, 0, 12, 0, 0, 1, 0, 0, 1, 1, 15, 1, 0, 0,
   0, 0, 0, 0, 2, 0, 1, 0, 2, 0, 0, 0, 0, 0, 0, 1, 0, 1, 0, 1, 0, 0, 0, 0]"

definition FONT_5X4_WIDTH :: "int list" where
  "FONT_5X4_WIDTH = [
   1, 1, 3, 5, 4, 5, 4, 1, 2, 2, 3, 5, 2, 3, 1, 4, 3, 3, 4, 3, 4, 3, 4, 4, 4, 4, 1, 2,
   3, 3, 3, 4, 5, 3, 3, 4, 3, 3, 3, 4, 4, 3, 3, 4, 3, 5, 5, 4, 3, 5, 3, 4, 3, 4, 5, 5,
   3, 3, 4, 2, 4, 2, 3, 3]"

definition FONT_5X4_HEIGHT :: int where
  "FONT_5X4_HEIGHT = 5"

definition FONT_5X4_STEP_GLYPH :: int where
  "FONT_5X4_STEP_GLYPH = 10"

definition FONT_8X4 :: "Int8U list" where
  "FONT_8X4 = [
   0, 0, 0, 0, 0, 0, 0, 0, 0, 0, 15, 13, 0, 0, 0, 0, 0, 0, 0, 0, 3, 0, 0, 0, 3, 0, 0, 0,
   0, 0, 10, 0, 15, 1, 10, 0, 15, 1, 10, 0, 0, 0, 0, 0, 0, 0, 0, 0, 0, 0, 3, 1, 11, 0, 4, 0,
   10, 1, 9, 1, 10, 0, 5, 1, 9, 1, 10, 1, 0, 0, 3, 0, 0, 0, 0, 0, 0, 0, 0, 0, 14, 0, 1, 1,
   0, 0, 0, 0, 0, 0, 1, 1, 14, 0, 0, 0, 0, 0, 0, 0, 5, 0, 2, 0, 5, 0, 0, 0, 0, 0, 4, 0,
   4, 0, 15, 1, 4, 0, 4, 0, 0, 1, 8, 0, 0, 0, 0, 0, 0, 0, 4, 0, 4, 0, 4, 0, 0, 0, 0, 0,
   0, 1, 0, 0, 0, 0, 0, 0, 0, 0, 0, 1, 12, 0, 6, 0, 1, 0, 0, 0, 14, 7, 1, 8, 14, 7, 0, 0,
   0, 0, 2, 8, 15, 15, 0, 8, 0, 0, 0, 0, 2, 14, 1, 9, 14, 8, 0, 0, 0, 0, 9, 8, 9, 8, 15, 15,
   0, 0, 0, 0, 15, 0, 8, 0, 15, 15, 0, 0, 0, 0, 15, 8, 9, 8, 9, 15, 0, 0, 0, 0, 15, 15, 9, 8,
   9, 15, 0, 0, 0, 0, 1, 15, 9, 0, 7, 0, 0, 0, 0, 0, 15, 15, 9, 8, 15, 15, 0, 0, 0, 0, 15, 8,
   9, 8, 15, 15, 0, 0, 0, 0, 4, 2, 0, 0, 0, 0, 0, 0, 0, 0, 0, 1, 10, 0, 0, 0, 0, 0, 0, 0,
   4, 0, 10, 0, 1, 1, 0, 0, 0, 0, 10, 0, 10, 0, 10, 0, 0, 0, 0, 0, 1, 1, 10, 0, 4, 0, 0, 0,
   0, 0, 2, 0, 1, 0, 9, 1, 6, 0, 0, 0, 14, 0, 1, 0, 13, 0, 5, 1, 15, 0, 15, 15, 9, 0, 9, 0,
   15, 15, 0, 0, 15, 15, 9, 8, 9, 8, 7, 15, 0, 0, 15, 15, 1, 8, 1, 8, 3, 12, 0, 0, 15, 15, 1, 8,
   1, 8, 14, 7, 0, 0, 15, 15, 9, 8, 9, 8, 1, 8, 0, 0, 15, 15, 9, 0, 9, 0, 1, 0, 0, 0, 15, 15,
   1, 8, 9, 8, 9, 15, 0, 0, 15, 15, 8, 0, 8, 0, 15, 15, 0, 0, 1, 8, 15, 15, 1, 8, 0, 0, 0, 0,
   1, 12, 1, 8, 1, 8, 15, 15, 0, 0, 15, 15, 8, 0, 4, 1, 3, 14, 0, 0, 15, 15, 0, 8, 0, 8, 0, 8,
   0, 0, 15, 15, 6, 0, 6, 0, 15, 15, 0, 0, 15, 15, 12, 0, 0, 3, 15, 15, 0, 0, 15, 15, 1, 8, 1, 8,
   15, 15, 0, 0, 15, 15, 9, 0, 9, 0, 15, 0, 0, 0, 15, 15, 1, 10, 1, 12, 15, 15, 0, 0, 15, 15, 9, 0,
   9, 1, 15, 14, 0, 0, 6, 8, 9, 8, 9, 8, 1, 7, 0, 0, 1, 0, 15, 15, 1, 0, 0, 0, 0, 0, 15, 15,
   0, 8, 0, 8, 15, 15, 0, 0, 15, 3, 0, 14, 0, 14, 15, 3, 0, 0, 15, 7, 0, 15, 0, 14, 15, 7, 0, 0,
   7, 14, 12, 3, 12, 3, 7, 14, 0, 0, 7, 0, 8, 15, 7, 0, 0, 0, 0, 0, 1, 12, 1, 11, 13, 8, 3, 8,
   0, 0, 15, 1, 1, 1, 0, 0, 0, 0, 0, 0, 1, 0, 6, 0, 12, 0, 0, 1, 0, 0, 1, 1, 15, 1, 0, 0,
   0, 0, 0, 0, 2, 0, 1, 0, 2, 0, 0, 0, 0, 0, 0, 1, 0, 1, 0, 1, 0, 0, 0, 0]"

definition FONT_8X4_WIDTH :: "int list" where
  "FONT_8X4_WIDTH = [
   1, 3, 3, 4, 4, 4, 4, 1, 3, 3, 4, 4, 2, 4, 2, 4, 4, 3, 4, 4, 4, 4, 4, 4, 4, 4, 1, 2,
   4, 4, 4, 4, 4, 4, 4, 4, 4, 4, 4, 4, 4, 3, 4, 4, 4, 4, 4, 4, 4, 4, 4, 4, 4, 4, 4, 4,
   4, 4, 4, 3, 4, 3, 4, 5]"

definition FONT_8X4_HEIGHT :: int where
  "FONT_8X4_HEIGHT = 8"

definition FONT_8X4_STEP_GLYPH :: int where
  "FONT_8X4_STEP_GLYPH = 10"

definition FONT_7X5 :: "Int8U list" where
  "FONT_7X5 = [
   0, 0, 0, 0, 0, 0, 0, 0, 0, 0, 0, 0, 0, 0, 15, 5, 0, 0, 0, 0, 0, 0, 0, 0, 7, 0, 0, 0,
   7, 0, 0, 0, 0, 0, 0, 0, 4, 1, 15, 7, 4, 1, 15, 7, 4, 1, 0, 0, 4, 2, 10, 2, 15, 7, 10, 2,
   2, 1, 0, 0, 3, 2, 3, 1, 8, 0, 4, 6, 2, 6, 0, 0, 6, 3, 9, 4, 5, 5, 2, 2, 0, 5, 0, 0,
   7, 0, 0, 0, 0, 0, 0, 0, 0, 0, 0, 0, 12, 1, 2, 2, 1, 4, 0, 0, 0, 0, 0, 0, 1, 4, 2, 2,
   12, 1, 0, 0, 0, 0, 0, 0, 4, 1, 8, 0, 14, 3, 8, 0, 4, 1, 0, 0, 8, 0, 8, 0, 14, 3, 8, 0,
   8, 0, 0, 0, 8, 5, 8, 3, 0, 0, 0, 0, 0, 0, 0, 0, 8, 0, 8, 0, 8, 0, 8, 0, 8, 0, 0, 0,
   0, 6, 0, 6, 0, 0, 0, 0, 0, 0, 0, 0, 0, 2, 0, 1, 8, 0, 4, 0, 2, 0, 0, 0, 14, 3, 1, 5,
   9, 4, 5, 4, 14, 3, 0, 0, 2, 4, 15, 7, 0, 4, 0, 0, 0, 0, 0, 0, 2, 6, 1, 5, 9, 4, 9, 4,
   6, 4, 0, 0, 2, 2, 1, 4, 9, 4, 9, 4, 6, 3, 0, 0, 8, 1, 4, 1, 2, 1, 15, 7, 0, 1, 0, 0,
   7, 2, 5, 4, 5, 4, 5, 4, 9, 3, 0, 0, 12, 3, 10, 4, 9, 4, 9, 4, 0, 3, 0, 0, 1, 0, 1, 7,
   9, 0, 5, 0, 3, 0, 0, 0, 6, 3, 9, 4, 9, 4, 9, 4, 6, 3, 0, 0, 6, 0, 9, 4, 9, 4, 9, 2,
   14, 1, 0, 0, 6, 3, 6, 3, 0, 0, 0, 0, 0, 0, 0, 0, 6, 5, 6, 3, 0, 0, 0, 0, 0, 0, 0, 0,
   8, 0, 4, 1, 2, 2, 1, 4, 0, 0, 0, 0, 4, 1, 4, 1, 4, 1, 4, 1, 4, 1, 0, 0, 1, 4, 2, 2,
   4, 1, 8, 0, 0, 0, 0, 0, 2, 0, 1, 0, 1, 5, 9, 0, 6, 0, 0, 0, 14, 3, 1, 4, 13, 5, 5, 5,
   14, 2, 0, 0, 12, 7, 2, 1, 1, 1, 2, 1, 12, 7, 0, 0, 15, 7, 9, 4, 9, 4, 9, 4, 6, 3, 0, 0,
   14, 3, 1, 4, 1, 4, 1, 4, 2, 2, 0, 0, 15, 7, 1, 4, 1, 4, 2, 2, 12, 1, 0, 0, 15, 7, 9, 4,
   9, 4, 9, 4, 1, 4, 0, 0, 15, 7, 9, 0, 9, 0, 9, 0, 1, 0, 0, 0, 14, 3, 1, 4, 9, 4, 9, 4,
   10, 7, 0, 0, 15, 7, 8, 0, 8, 0, 8, 0, 15, 7, 0, 0, 1, 4, 15, 7, 1, 4, 0, 0, 0, 0, 0, 0,
   0, 2, 0, 4, 1, 4, 15, 3, 1, 0, 0, 0, 15, 7, 8, 0, 4, 1, 2, 2, 1, 4, 0, 0, 15, 7, 0, 4,
   0, 4, 0, 4, 0, 4, 0, 0, 15, 7, 2, 0, 12, 0, 2, 0, 15, 7, 0, 0, 15, 7, 4, 0, 8, 0, 0, 1,
   15, 7, 0, 0, 14, 3, 1, 4, 1, 4, 1, 4, 14, 3, 0, 0, 15, 7, 9, 0, 9, 0, 9, 0, 6, 0, 0, 0,
   14, 7, 1, 4, 1, 5, 1, 2, 14, 5, 0, 0, 15, 7, 9, 0, 9, 1, 9, 2, 6, 4, 0, 0, 6, 2, 9, 4,
   9, 4, 9, 4, 2, 3, 0, 0, 1, 0, 1, 0, 15, 7, 1, 0, 1, 0, 0, 0, 15, 3, 0, 4, 0, 4, 0, 4,
   15, 3, 0, 0, 7, 0, 8, 1, 0, 6, 8, 1, 7, 0, 0, 0, 15, 3, 0, 4, 8, 3, 0, 4, 15, 3, 0, 0,
   3, 6, 4, 1, 8, 0, 4, 1, 3, 6, 0, 0, 7, 0, 8, 0, 0, 7, 8, 0, 7, 0, 0, 0, 1, 6, 1, 5,
   9, 4, 5, 4, 3, 4, 0, 0, 15, 7, 1, 4, 1, 4, 0, 0, 0, 0, 0, 0, 2, 0, 4, 0, 8, 0, 0, 1,
   0, 2, 0, 0, 1, 4, 1, 4, 15, 7, 0, 0, 0, 0, 0, 0, 4, 0, 2, 0, 1, 0, 2, 0, 4, 0, 0, 0,
   0, 4, 0, 4, 0, 4, 0, 4, 0, 4, 0, 0]"

definition FONT_7X5_WIDTH :: "int list" where
  "FONT_7X5_WIDTH = [
   1, 3, 3, 5, 5, 5, 5, 1, 3, 3, 5, 5, 2, 5, 2, 5, 5, 3, 5, 5, 5, 5, 5, 5, 5, 5, 2, 2,
   4, 5, 4, 5, 5, 5, 5, 5, 5, 5, 5, 5, 5, 3, 5, 5, 5, 5, 5, 5, 5, 5, 5, 5, 5, 5, 5, 5,
   5, 5, 5, 3, 5, 3, 5, 5]"

definition FONT_7X5_HEIGHT :: int where
  "FONT_7X5_HEIGHT = 7"

definition FONT_7X5_STEP_GLYPH :: int where
  "FONT_7X5_STEP_GLYPH = 12"

definition FONT_8X6 :: "Int8U list" where
  "FONT_8X6 = [
   0, 0, 0, 0, 0, 0, 0, 0, 0, 0, 0, 0, 0, 0, 15, 13, 15, 13, 0, 0, 0, 0, 0, 0, 11, 0, 7, 0,
   0, 0, 11, 0, 7, 0, 0, 0, 4, 1, 15, 7, 4, 1, 15, 7, 4, 1, 0, 0, 4, 2, 10, 2, 15, 7, 10, 2,
   2, 1, 0, 0, 3, 2, 3, 1, 8, 0, 4, 6, 2, 6, 0, 0, 6, 3, 9, 4, 5, 5, 2, 2, 0, 5, 0, 0,
   11, 0, 7, 0, 0, 0, 0, 0, 0, 0, 0, 0, 12, 3, 14, 7, 3, 12, 1, 8, 0, 0, 0, 0, 1, 8, 3, 12,
   14, 7, 12, 3, 0, 0, 0, 0, 4, 5, 8, 3, 14, 14, 8, 3, 4, 5, 0, 0, 0, 1, 8, 3, 0, 1, 2, 4,
   7, 14, 2, 4, 8, 5, 8, 3, 0, 0, 0, 0, 0, 0, 0, 0, 8, 1, 8, 1, 8, 1, 8, 1, 8, 1, 8, 1,
   0, 6, 0, 6, 0, 0, 0, 0, 0, 0, 0, 0, 0, 6, 0, 3, 8, 1, 12, 0, 6, 0, 3, 0, 14, 7, 15, 15,
   3, 13, 11, 12, 15, 15, 14, 7, 4, 0, 6, 0, 15, 15, 15, 15, 0, 0, 0, 0, 6, 12, 7, 14, 3, 15, 11, 13,
   15, 12, 6, 12, 6, 6, 7, 14, 3, 12, 11, 13, 15, 15, 6, 7, 8, 3, 12, 3, 6, 3, 15, 15, 15, 15, 0, 3,
   15, 6, 15, 14, 11, 12, 11, 13, 11, 15, 3, 7, 12, 7, 14, 15, 11, 12, 11, 12, 11, 15, 0, 7, 3, 0, 3, 0,
   3, 15, 11, 15, 15, 0, 7, 0, 6, 7, 15, 15, 11, 12, 11, 12, 15, 15, 6, 7, 14, 0, 15, 13, 11, 13, 11, 13,
   15, 15, 14, 7, 6, 3, 6, 3, 0, 0, 0, 0, 0, 0, 0, 0, 6, 11, 6, 7, 0, 0, 0, 0, 0, 0, 0, 0,
   8, 1, 12, 3, 6, 6, 3, 12, 1, 8, 0, 0, 6, 3, 6, 3, 6, 3, 6, 3, 6, 3, 6, 3, 1, 8, 3, 12,
   6, 6, 12, 3, 8, 1, 0, 0, 6, 0, 7, 0, 3, 11, 11, 11, 15, 0, 6, 0, 14, 3, 1, 4, 13, 5, 5, 5,
   14, 2, 0, 0, 14, 15, 15, 15, 3, 3, 3, 3, 15, 15, 14, 15, 15, 15, 15, 15, 11, 13, 11, 13, 15, 15, 6, 7,
   14, 7, 15, 15, 3, 12, 3, 12, 7, 14, 6, 6, 15, 15, 15, 15, 3, 12, 3, 12, 15, 15, 14, 7, 15, 15, 15, 15,
   11, 13, 11, 13, 11, 13, 3, 12, 15, 15, 15, 15, 11, 1, 11, 1, 11, 1, 3, 0, 14, 7, 15, 15, 3, 12, 11, 13,
   11, 15, 10, 7, 15, 15, 15, 15, 8, 1, 8, 1, 15, 15, 15, 15, 15, 15, 15, 15, 0, 0, 0, 0, 0, 0, 0, 0,
   0, 6, 0, 14, 0, 12, 15, 15, 15, 7, 0, 0, 15, 15, 15, 15, 8, 1, 12, 3, 7, 14, 3, 12, 15, 15, 15, 15,
   0, 12, 0, 12, 0, 12, 0, 0, 15, 15, 14, 15, 12, 0, 12, 0, 14, 15, 15, 15, 15, 15, 15, 15, 6, 0, 12, 0,
   15, 15, 15, 15, 14, 7, 15, 15, 3, 12, 3, 12, 15, 15, 14, 7, 15, 15, 15, 15, 3, 3, 3, 3, 15, 3, 14, 1,
   14, 7, 15, 15, 3, 12, 3, 14, 15, 7, 14, 11, 15, 15, 15, 15, 3, 3, 3, 3, 15, 15, 14, 14, 14, 12, 15, 13,
   11, 13, 11, 13, 11, 15, 3, 7, 3, 0, 3, 0, 15, 15, 15, 15, 3, 0, 3, 0, 15, 7, 15, 15, 0, 12, 0, 12,
   15, 15, 15, 7, 15, 3, 15, 7, 0, 12, 0, 12, 15, 7, 15, 3, 15, 15, 15, 7, 0, 3, 0, 3, 15, 7, 15, 15,
   7, 15, 7, 15, 8, 0, 8, 0, 7, 15, 7, 15, 15, 0, 15, 1, 0, 15, 0, 15, 15, 1, 15, 0, 3, 14, 3, 15,
   11, 13, 15, 12, 7, 12, 3, 12, 15, 15, 15, 15, 3, 12, 3, 12, 0, 0, 0, 0, 6, 0, 12, 0, 8, 1, 0, 3,
   0, 6, 0, 12, 3, 12, 3, 12, 15, 15, 15, 15, 0, 0, 0, 0, 0, 3, 12, 11, 15, 15, 12, 11, 0, 3, 0, 0,
   0, 12, 0, 12, 0, 12, 0, 12, 0, 12, 0, 0]"

definition FONT_8X6_WIDTH :: "int list" where
  "FONT_8X6_WIDTH = [
   2, 4, 5, 5, 5, 5, 5, 2, 4, 4, 5, 6, 2, 6, 2, 6, 6, 4, 6, 6, 6, 6, 6, 6, 6, 6, 2, 2,
   5, 6, 5, 6, 5, 6, 6, 6, 6, 6, 6, 6, 6, 2, 5, 6, 5, 6, 6, 6, 6, 6, 6, 6, 6, 6, 6, 6,
   6, 6, 6, 4, 6, 4, 6, 5]"

definition FONT_8X6_HEIGHT :: int where
  "FONT_8X6_HEIGHT = 8"

definition FONT_8X6_STEP_GLYPH :: int where
  "FONT_8X6_STEP_GLYPH = 12"

definition FONT_16X8 :: "Int8U list" where
  "FONT_16X8 = [
   0, 0, 0, 0, 0, 0, 0, 0, 0, 0, 0, 0, 0, 0, 0, 0, 0, 0, 0, 0, 0, 0, 0, 0, 0, 0, 0, 0,
   0, 0, 0, 0, 15, 15, 15, 14, 15, 15, 15, 14, 15, 15, 15, 14, 0, 0, 0, 0, 0, 0, 0, 0, 0, 0, 0, 0,
   0, 0, 0, 0, 0, 0, 0, 0, 8, 3, 0, 0, 8, 3, 0, 0, 0, 0, 0, 0, 8, 3, 0, 0, 8, 3, 0, 0,
   0, 0, 0, 0, 0, 0, 0, 0, 0, 0, 0, 0, 0, 6, 6, 0, 8, 15, 15, 1, 8, 15, 15, 1, 0, 6, 6, 0,
   0, 6, 6, 0, 8, 15, 15, 1, 8, 15, 15, 1, 0, 6, 6, 0, 8, 7, 12, 1, 12, 8, 8, 3, 12, 8, 1, 3,
   15, 15, 15, 15, 15, 15, 15, 15, 12, 8, 1, 3, 12, 1, 15, 3, 8, 3, 14, 1, 0, 14, 8, 1, 0, 10, 12, 1,
   0, 14, 14, 0, 0, 0, 7, 0, 0, 8, 11, 3, 0, 12, 9, 2, 0, 12, 8, 3, 0, 0, 0, 0, 12, 3, 14, 3,
   14, 15, 15, 7, 3, 8, 1, 12, 3, 0, 3, 12, 7, 0, 6, 14, 14, 0, 15, 7, 0, 0, 15, 3, 0, 0, 0, 2,
   12, 1, 0, 0, 12, 1, 0, 0, 0, 0, 0, 0, 0, 0, 0, 0, 0, 0, 0, 0, 0, 0, 0, 0, 0, 0, 0, 0,
   0, 0, 0, 0, 8, 15, 15, 1, 12, 15, 15, 3, 6, 0, 0, 6, 3, 0, 0, 12, 1, 0, 0, 8, 0, 0, 0, 0,
   0, 0, 0, 0, 0, 0, 0, 0, 1, 0, 0, 8, 3, 0, 0, 12, 6, 0, 0, 6, 12, 15, 15, 3, 8, 15, 15, 1,
   0, 0, 0, 0, 0, 0, 0, 0, 0, 0, 0, 0, 0, 9, 9, 0, 0, 10, 5, 0, 0, 12, 3, 0, 0, 15, 15, 0,
   0, 15, 15, 0, 0, 12, 3, 0, 0, 10, 5, 0, 0, 9, 9, 0, 0, 8, 1, 0, 0, 8, 1, 0, 0, 14, 7, 0,
   0, 14, 7, 0, 0, 8, 1, 0, 0, 8, 1, 0, 0, 0, 0, 0, 0, 0, 0, 0, 0, 0, 0, 8, 0, 0, 0, 7,
   0, 0, 0, 3, 0, 0, 0, 0, 0, 0, 0, 0, 0, 0, 0, 0, 0, 0, 0, 0, 0, 0, 0, 0, 0, 8, 1, 0,
   0, 8, 1, 0, 0, 8, 1, 0, 0, 8, 1, 0, 0, 8, 1, 0, 0, 8, 1, 0, 0, 0, 0, 0, 0, 0, 0, 0,
   0, 0, 0, 12, 0, 0, 0, 12, 0, 0, 0, 0, 0, 0, 0, 0, 0, 0, 0, 0, 0, 0, 0, 0, 0, 0, 0, 0,
   0, 0, 0, 0, 0, 0, 0, 6, 0, 0, 8, 7, 0, 0, 15, 1, 0, 12, 7, 0, 8, 15, 0, 0, 12, 3, 0, 0,
   7, 0, 0, 0, 3, 0, 0, 0, 12, 15, 15, 3, 14, 15, 15, 7, 3, 0, 6, 12, 3, 8, 3, 12, 3, 12, 1, 12,
   3, 6, 0, 12, 14, 15, 15, 7, 12, 15, 15, 3, 0, 1, 0, 8, 8, 1, 0, 12, 12, 1, 0, 12, 14, 15, 15, 15,
   15, 15, 15, 15, 0, 0, 0, 12, 0, 0, 0, 12, 0, 0, 0, 8, 12, 0, 0, 14, 6, 0, 0, 15, 3, 0, 12, 13,
   3, 0, 15, 12, 3, 12, 3, 12, 3, 15, 0, 12, 14, 3, 0, 12, 12, 0, 0, 12, 12, 0, 0, 3, 14, 0, 0, 7,
   3, 0, 0, 12, 3, 8, 1, 12, 3, 8, 1, 12, 3, 12, 3, 12, 14, 7, 14, 7, 12, 3, 12, 3, 15, 15, 0, 0,
   15, 15, 1, 0, 0, 8, 1, 0, 0, 8, 1, 0, 0, 8, 1, 0, 0, 8, 1, 0, 15, 15, 15, 15, 15, 15, 15, 15,
   15, 15, 0, 12, 15, 15, 0, 12, 3, 12, 0, 12, 3, 12, 0, 12, 3, 12, 0, 12, 3, 12, 0, 12, 3, 8, 15, 7,
   3, 0, 15, 3, 8, 15, 15, 3, 12, 15, 15, 7, 14, 8, 1, 12, 7, 8, 1, 12, 3, 8, 1, 12, 3, 8, 1, 12,
   3, 0, 15, 7, 3, 0, 14, 3, 3, 0, 0, 12, 3, 0, 0, 15, 3, 0, 12, 3, 3, 0, 15, 0, 3, 12, 3, 0,
   3, 15, 0, 0, 15, 3, 0, 0, 14, 0, 0, 0, 12, 3, 14, 3, 14, 7, 15, 7, 3, 12, 1, 12, 3, 12, 1, 12,
   3, 12, 1, 12, 3, 12, 1, 12, 14, 7, 15, 7, 12, 3, 14, 3, 12, 3, 0, 0, 14, 7, 0, 0, 3, 12, 0, 12,
   3, 12, 0, 15, 3, 12, 12, 3, 3, 12, 15, 0, 14, 15, 3, 0, 12, 15, 0, 0, 0, 3, 12, 0, 0, 3, 12, 0,
   0, 0, 0, 0, 0, 0, 0, 0, 0, 0, 0, 0, 0, 0, 0, 0, 0, 0, 0, 0, 0, 0, 0, 0, 0, 0, 0, 4,
   0, 3, 12, 6, 8, 7, 14, 3, 8, 7, 14, 1, 0, 3, 12, 0, 0, 0, 0, 0, 0, 0, 0, 0, 0, 0, 0, 0,
   0, 14, 0, 0, 0, 15, 1, 0, 8, 1, 3, 0, 12, 0, 6, 0, 6, 0, 12, 0, 3, 0, 8, 1, 0, 0, 0, 0,
   0, 0, 0, 0, 0, 8, 9, 1, 0, 8, 9, 1, 0, 8, 9, 1, 0, 8, 9, 1, 0, 8, 9, 1, 0, 8, 9, 1,
   0, 8, 9, 1, 0, 8, 9, 1, 3, 0, 8, 1, 6, 0, 12, 0, 12, 0, 6, 0, 8, 1, 3, 0, 0, 15, 1, 0,
   0, 14, 0, 0, 0, 0, 0, 0, 0, 0, 0, 0, 12, 1, 0, 0, 14, 3, 0, 0, 3, 0, 0, 0, 3, 0, 12, 13,
   3, 0, 14, 13, 15, 8, 3, 0, 14, 15, 1, 0, 0, 7, 0, 0, 0, 15, 15, 1, 8, 1, 0, 2, 12, 0, 6, 4,
   4, 0, 9, 8, 4, 0, 9, 8, 12, 0, 9, 8, 8, 1, 15, 4, 0, 14, 1, 0, 8, 15, 15, 15, 12, 15, 15, 15,
   6, 0, 3, 0, 3, 0, 3, 0, 3, 0, 3, 0, 6, 0, 3, 0, 12, 15, 15, 15, 8, 15, 15, 15, 15, 15, 15, 15,
   15, 15, 15, 15, 3, 12, 1, 12, 3, 12, 1, 12, 3, 12, 1, 12, 3, 12, 1, 12, 14, 7, 15, 15, 12, 3, 14, 7,
   12, 15, 15, 3, 14, 15, 15, 7, 3, 0, 0, 12, 3, 0, 0, 12, 3, 0, 0, 12, 3, 0, 0, 12, 6, 0, 0, 6,
   12, 0, 0, 3, 15, 15, 15, 15, 15, 15, 15, 15, 3, 0, 0, 12, 3, 0, 0, 12, 3, 0, 0, 12, 7, 0, 0, 14,
   14, 15, 15, 7, 12, 15, 15, 3, 15, 15, 15, 15, 15, 15, 15, 15, 3, 12, 0, 12, 3, 12, 0, 12, 3, 12, 0, 12,
   3, 12, 0, 12, 3, 0, 0, 12, 3, 0, 0, 12, 15, 15, 15, 15, 15, 15, 15, 15, 3, 12, 0, 0, 3, 12, 0, 0,
   3, 12, 0, 0, 3, 12, 0, 0, 3, 0, 0, 0, 3, 0, 0, 0, 12, 15, 15, 3, 14, 15, 15, 7, 3, 0, 0, 12,
   3, 0, 0, 12, 3, 0, 12, 12, 7, 0, 12, 12, 6, 0, 12, 7, 0, 0, 12, 3, 15, 15, 15, 15, 15, 15, 15, 15,
   0, 8, 1, 0, 0, 8, 1, 0, 0, 8, 1, 0, 0, 8, 1, 0, 15, 15, 15, 15, 15, 15, 15, 15, 3, 0, 0, 12,
   3, 0, 0, 12, 3, 0, 0, 12, 15, 15, 15, 15, 15, 15, 15, 15, 3, 0, 0, 12, 3, 0, 0, 12, 3, 0, 0, 12,
   3, 0, 0, 6, 3, 0, 0, 14, 3, 0, 0, 12, 15, 15, 15, 15, 15, 15, 15, 15, 3, 0, 0, 0, 3, 0, 0, 0,
   3, 0, 0, 0, 15, 15, 15, 15, 15, 15, 15, 15, 0, 12, 7, 0, 0, 6, 12, 0, 8, 3, 8, 1, 12, 0, 0, 3,
   6, 0, 0, 6, 3, 0, 0, 12, 15, 15, 15, 15, 15, 15, 15, 15, 0, 0, 0, 12, 0, 0, 0, 12, 0, 0, 0, 12,
   0, 0, 0, 12, 0, 0, 0, 12, 0, 0, 0, 12, 15, 15, 15, 15, 15, 15, 15, 15, 6, 0, 0, 0, 12, 0, 0, 0,
   12, 0, 0, 0, 6, 0, 0, 0, 15, 15, 15, 15, 15, 15, 15, 15, 15, 15, 15, 15, 15, 15, 15, 15, 0, 15, 0, 0,
   0, 12, 3, 0, 0, 0, 15, 0, 0, 0, 12, 3, 15, 15, 15, 15, 15, 15, 15, 15, 12, 15, 15, 7, 14, 15, 15, 15,
   7, 0, 0, 14, 3, 0, 0, 12, 3, 0, 0, 12, 7, 0, 0, 14, 14, 15, 15, 15, 12, 15, 15, 7, 15, 15, 15, 15,
   15, 15, 15, 15, 3, 8, 1, 0, 3, 8, 1, 0, 3, 8, 1, 0, 7, 12, 1, 0, 14, 15, 0, 0, 12, 7, 0, 0,
   12, 15, 15, 7, 14, 15, 15, 7, 7, 0, 0, 14, 3, 0, 0, 12, 3, 0, 0, 13, 7, 0, 0, 6, 14, 15, 15, 7,
   12, 15, 15, 8, 15, 15, 15, 15, 15, 15, 15, 15, 3, 12, 15, 0, 3, 12, 15, 1, 3, 12, 8, 3, 7, 14, 0, 7,
   14, 7, 0, 14, 12, 3, 0, 12, 12, 1, 0, 3, 6, 3, 0, 6, 3, 6, 0, 12, 3, 12, 0, 12, 3, 8, 1, 12,
   3, 0, 3, 12, 6, 0, 14, 7, 12, 0, 12, 3, 3, 0, 0, 0, 3, 0, 0, 0, 3, 0, 0, 0, 15, 15, 15, 15,
   15, 15, 15, 15, 3, 0, 0, 0, 3, 0, 0, 0, 3, 0, 0, 0, 15, 15, 15, 3, 15, 15, 15, 7, 0, 0, 0, 14,
   0, 0, 0, 12, 0, 0, 0, 12, 0, 0, 0, 14, 15, 15, 15, 7, 15, 15, 15, 3, 15, 15, 15, 1, 15, 15, 15, 3,
   0, 0, 14, 7, 0, 0, 0, 14, 0, 0, 0, 14, 0, 0, 14, 7, 15, 15, 15, 3, 15, 15, 15, 1, 15, 15, 15, 15,
   15, 15, 15, 15, 0, 0, 0, 6, 0, 12, 15, 3, 0, 12, 15, 3, 0, 0, 0, 6, 15, 15, 15, 15, 15, 15, 15, 15,
   15, 0, 0, 14, 15, 15, 12, 15, 0, 15, 12, 3, 0, 8, 7, 0, 0, 8, 7, 0, 0, 15, 12, 3, 15, 15, 12, 15,
   15, 0, 0, 14, 7, 0, 0, 0, 15, 1, 0, 0, 8, 7, 0, 0, 0, 14, 15, 15, 0, 14, 15, 15, 8, 7, 0, 0,
   15, 1, 0, 0, 7, 0, 0, 0, 3, 0, 0, 14, 3, 0, 0, 15, 3, 0, 12, 13, 3, 0, 15, 12, 3, 12, 3, 12,
   3, 15, 0, 12, 15, 3, 0, 12, 15, 0, 0, 12, 15, 15, 15, 15, 15, 15, 15, 15, 3, 0, 0, 12, 3, 0, 0, 12,
   3, 0, 0, 12, 0, 0, 0, 0, 0, 0, 0, 0, 0, 0, 0, 0, 3, 0, 0, 0, 7, 0, 0, 0, 12, 3, 0, 0,
   8, 15, 0, 0, 0, 12, 7, 0, 0, 0, 15, 1, 0, 0, 8, 7, 0, 0, 0, 6, 3, 0, 0, 12, 3, 0, 0, 12,
   3, 0, 0, 12, 15, 15, 15, 15, 15, 15, 15, 15, 0, 0, 0, 0, 0, 0, 0, 0, 0, 0, 0, 0, 8, 0, 0, 0,
   12, 0, 0, 0, 6, 0, 0, 0, 3, 0, 0, 0, 6, 0, 0, 0, 12, 0, 0, 0, 8, 0, 0, 0, 0, 0, 0, 0,
   0, 0, 0, 12, 0, 0, 0, 12, 0, 0, 0, 12, 0, 0, 0, 12, 0, 0, 0, 12, 0, 0, 0, 12, 0, 0, 0, 12,
   0, 0, 0, 12]"

definition FONT_16X8_WIDTH :: "int list" where
  "FONT_16X8_WIDTH = [
   8, 3, 5, 8, 8, 7, 8, 2, 5, 5, 8, 6, 3, 6, 2, 8, 8, 8, 8, 8, 8, 8, 8, 8, 8, 8, 2, 5,
   6, 8, 6, 8, 8, 8, 8, 8, 8, 8, 8, 8, 8, 8, 8, 8, 8, 8, 8, 8, 8, 8, 8, 8, 8, 8, 8, 8,
   8, 8, 8, 5, 8, 5, 7, 8]"

definition FONT_16X8_HEIGHT :: int where
  "FONT_16X8_HEIGHT = 16"

definition FONT_16X8_STEP_GLYPH :: int where
  "FONT_16X8_STEP_GLYPH = 32"

section \<open>Images\<close>

record ImgArtInfo =
  img :: "Int8U list"
  width :: int
  height :: int

definition IMG_MAIL :: "Int8U list" where
  "IMG_MAIL = [
   15, 15, 3, 8, 5, 8, 9, 8, 1, 9, 1, 10, 1, 10, 1, 9, 9, 8, 5, 8, 3, 8, 15, 15]"

definition IMG_MUSIC :: "Int8U list" where
  "IMG_MUSIC = [
   0, 4, 0, 14, 15, 7, 3, 0, 3, 0, 3, 2, 3, 7, 15, 3]"

definition IMG_MUSICNOTE :: "Int8U list" where
  "IMG_MUSICNOTE = [
   0, 2, 0, 7, 15, 3, 2, 0]"

definition IMG_HEART :: "Int8U list" where
  "IMG_HEART = [
   14, 0, 15, 1, 15, 3, 15, 7, 14, 15, 15, 7, 15, 3, 15, 1, 14, 0]"

definition IMG_SPEAKER_A :: "Int8U list" where
  "IMG_SPEAKER_A = [
   8, 1, 8, 1, 12, 3, 2, 4, 5, 10, 8, 1]"

definition IMG_SPEAKER_B :: "Int8U list" where
  "IMG_SPEAKER_B = [
   8, 1, 8, 1, 12, 3, 2, 4, 13, 11, 0, 0]"

definition IMG_SMILEY :: "Int8U list" where
  "IMG_SMILEY = [
   12, 15, 0, 2, 0, 1, 1, 4, 2, 13, 9, 2, 1, 8, 2, 13, 9, 2, 1, 4, 2, 2, 0, 1, 12, 15, 0]"

definition IMG_WINK :: "Int8U list" where
  "IMG_WINK = [
   12, 15, 0, 2, 0, 1, 1, 0, 2, 13, 1, 2, 1, 8, 2, 1, 1, 2, 1, 1, 2, 2, 0, 1, 12, 15, 0]"

definition IMG_BIG_HEART :: "Int8U list" where
  "IMG_BIG_HEART = [
   12, 1, 0, 14, 3, 0, 15, 7, 0, 15, 15, 0, 14, 15, 1, 15, 15, 0, 15, 7, 0, 14, 3, 0, 12, 1, 0]"

definition IMG_CAT :: "Int8U list" where
  "IMG_CAT = [
   15, 15, 0, 6, 0, 1, 2, 1, 2, 2, 8, 2, 2, 12, 2, 2, 8, 2, 2, 1, 2, 6, 0, 1, 15, 15, 0, 0,
   0, 0]"

definition IMG_OWLS :: "Int8U list" where
  "IMG_OWLS = [
   0, 12, 0, 15, 13, 0, 2, 14, 0, 10, 14, 0, 2, 14, 0, 15, 13, 0, 0, 12, 0, 15, 13, 0, 2, 14, 0, 10,
   14, 0, 2, 14, 0, 15, 13, 0, 0, 12, 0, 15, 13, 0, 2, 14, 0, 10, 14, 0, 2, 14, 0, 15, 13, 0, 0, 12,
   0]"

definition IMG_8X8 :: "Int8U list" where
  "IMG_8X8 = [
   15, 15, 15, 15, 15, 15, 15, 15, 15, 15, 15, 15, 15, 15, 15, 15]"

definition IMG_STICKMAN1 :: "Int8U list" where
  "IMG_STICKMAN1 = [
   0, 0, 0, 0, 0, 2, 0, 0, 0, 4, 0, 0, 0, 8, 0, 8, 14, 8, 0, 14, 5, 9, 0, 1, 1, 15, 15, 0,
   5, 9, 0, 1, 14, 0, 1, 14, 0, 0, 5, 8, 0, 0, 6, 0, 0, 0, 0, 0]"

definition IMG_STICKMAN2 :: "Int8U list" where
  "IMG_STICKMAN2 = [
   0, 4, 0, 0, 0, 8, 0, 0, 0, 8, 0, 0, 0, 8, 0, 8, 14, 8, 0, 14, 5, 9, 0, 1, 1, 15, 15, 0,
   5, 9, 0, 1, 14, 0, 1, 14, 0, 0, 1, 8, 0, 0, 2, 0, 0, 0, 6, 0]"

definition IMG_STICKMAN3 :: "Int8U list" where
  "IMG_STICKMAN3 = [
   0, 0, 0, 0, 0, 0, 6, 0, 0, 0, 5, 0, 0, 8, 0, 8, 14, 8, 0, 14, 5, 9, 0, 1, 1, 15, 15, 0,
   5, 9, 0, 15, 14, 0, 1, 8, 0, 0, 1, 0, 0, 8, 0, 0, 0, 4, 0, 0]"

definition IMG_STICKMAN4 :: "Int8U list" where
  "IMG_STICKMAN4 = [
   0, 0, 0, 0, 0, 0, 0, 0, 0, 0, 4, 0, 0, 0, 6, 0, 14, 8, 1, 8, 5, 9, 0, 15, 1, 15, 15, 0,
   5, 9, 0, 15, 14, 0, 1, 8, 0, 0, 1, 0, 0, 14, 0, 0, 0, 0, 0, 0]"

definition IMG_WAVE1 :: "Int8U list" where
  "IMG_WAVE1 = [
   0, 0, 4, 0, 0, 0, 2, 0, 14, 0, 1, 0, 1, 9, 8, 15, 1, 15, 7, 0, 1, 9, 8, 15, 14, 8, 0, 0,
   0, 8, 0, 0, 0, 8, 0, 0]"

definition IMG_WAVE2 :: "Int8U list" where
  "IMG_WAVE2 = [
   0, 0, 4, 0, 0, 0, 2, 0, 14, 0, 1, 0, 1, 9, 8, 15, 1, 15, 7, 0, 1, 9, 8, 15, 14, 8, 0, 0,
   0, 4, 0, 0, 0, 4, 0, 0]"

definition IMG_WAVE3 :: "Int8U list" where
  "IMG_WAVE3 = [
   0, 0, 4, 0, 0, 0, 2, 0, 14, 0, 1, 0, 1, 9, 8, 15, 1, 15, 7, 0, 1, 9, 8, 15, 14, 4, 0, 0,
   0, 4, 0, 0, 0, 2, 0, 0]"

definition IMG_WAVE4 :: "Int8U list" where
  "IMG_WAVE4 = [
   0, 0, 4, 0, 0, 0, 2, 0, 14, 0, 1, 0, 1, 9, 8, 15, 1, 15, 7, 0, 1, 9, 8, 15, 14, 4, 0, 0,
   0, 2, 0, 0, 0, 1, 0, 0]"

definition IMG_JUMP1 :: "Int8U list" where
  "IMG_JUMP1 = [
   0, 0, 4, 0, 0, 0, 2, 0, 14, 0, 1, 0, 1, 9, 8, 15, 1, 15, 7, 0, 1, 9, 8, 15, 14, 0, 1, 0,
   0, 0, 2, 0, 0, 0, 4, 0]"

definition IMG_JUMP2 :: "Int8U list" where
  "IMG_JUMP2 = [
   0, 0, 2, 0, 0, 0, 1, 0, 14, 8, 0, 14, 1, 9, 8, 1, 1, 15, 7, 0, 1, 9, 8, 1, 14, 8, 0, 14,
   0, 0, 1, 0, 0, 0, 2, 0]"

definition IMG_JUMP3 :: "Int8U list" where
  "IMG_JUMP3 = [
   0, 8, 0, 8, 0, 8, 0, 4, 14, 8, 0, 2, 1, 9, 8, 1, 1, 15, 7, 0, 1, 9, 8, 1, 14, 8, 0, 2,
   0, 8, 0, 4, 0, 8, 0, 8]"

definition IMG_JUMP4 :: "Int8U list" where
  "IMG_JUMP4 = [
   0, 1, 0, 0, 0, 2, 0, 1, 14, 4, 0, 2, 1, 9, 8, 3, 1, 15, 7, 0, 1, 9, 8, 3, 14, 4, 0, 2,
   0, 2, 0, 1, 0, 1, 0, 0]"

definition IMG_UP :: "Int8U list" where
  "IMG_UP = [
   4, 2, 1, 2, 4]"

definition IMG_DOWN :: "Int8U list" where
  "IMG_DOWN = [
   1, 2, 4, 2, 1]"

definition IMG_ARROW_UP1 :: "Int8U list" where
  "IMG_ARROW_UP1 = [
   1, 1, 8, 0, 4, 0, 2, 0, 4, 0, 8, 0, 1, 1]"

definition IMG_ARROW_UP2 :: "Int8U list" where
  "IMG_ARROW_UP2 = [
   8, 0, 4, 0, 2, 0, 1, 1, 2, 0, 4, 0, 8, 0]"

definition IMG_ARROW_UP3 :: "Int8U list" where
  "IMG_ARROW_UP3 = [
   4, 0, 2, 0, 1, 1, 8, 0, 1, 1, 2, 0, 4, 0]"

definition IMG_ARROW_UP4 :: "Int8U list" where
  "IMG_ARROW_UP4 = [
   2, 0, 1, 1, 8, 0, 4, 0, 8, 0, 1, 1, 2, 0]"

definition IMG_ARROW_DOWN1 :: "Int8U list" where
  "IMG_ARROW_DOWN1 = [
   1, 1, 2, 0, 4, 0, 8, 0, 4, 0, 2, 0, 1, 1]"

definition IMG_ARROW_DOWN2 :: "Int8U list" where
  "IMG_ARROW_DOWN2 = [
   2, 0, 4, 0, 8, 0, 1, 1, 8, 0, 4, 0, 2, 0]"

definition IMG_ARROW_DOWN3 :: "Int8U list" where
  "IMG_ARROW_DOWN3 = [
   4, 0, 8, 0, 1, 1, 2, 0, 1, 1, 8, 0, 4, 0]"

definition IMG_ARROW_DOWN4 :: "Int8U list" where
  "IMG_ARROW_DOWN4 = [
   8, 0, 1, 1, 2, 0, 4, 0, 2, 0, 1, 1, 8, 0]"

definition IMG_ARROW2_UP1 :: "Int8U list" where
  "IMG_ARROW2_UP1 = [
   1, 1, 8, 0, 4, 0, 8, 0, 1, 1]"

definition IMG_ARROW2_UP2 :: "Int8U list" where
  "IMG_ARROW2_UP2 = [
   8, 0, 4, 0, 2, 0, 4, 0, 8, 0]"

definition IMG_ARROW2_UP3 :: "Int8U list" where
  "IMG_ARROW2_UP3 = [
   4, 0, 2, 0, 1, 1, 2, 0, 4, 0]"

definition IMG_ARROW2_UP4 :: "Int8U list" where
  "IMG_ARROW2_UP4 = [
   2, 0, 1, 1, 8, 0, 1, 1, 2, 0]"

definition IMG_ARROW2_DOWN1 :: "Int8U list" where
  "IMG_ARROW2_DOWN1 = [
   1, 1, 2, 0, 4, 0, 2, 0, 1, 1]"

definition IMG_ARROW2_DOWN2 :: "Int8U list" where
  "IMG_ARROW2_DOWN2 = [
   2, 0, 4, 0, 8, 0, 4, 0, 2, 0]"

definition IMG_ARROW2_DOWN3 :: "Int8U list" where
  "IMG_ARROW2_DOWN3 = [
   4, 0, 8, 0, 1, 1, 8, 0, 4, 0]"

definition IMG_ARROW2_DOWN4 :: "Int8U list" where
  "IMG_ARROW2_DOWN4 = [
   8, 0, 1, 1, 2, 0, 1, 1, 8, 0]"

definition IMG_CAR1 :: "Int8U list" where
  "IMG_CAR1 = [
   0, 3, 8, 3, 8, 4, 12, 10, 10, 4, 9, 3, 9, 3, 15, 3, 9, 3, 9, 4, 9, 10, 11, 4, 14, 3, 0, 3]"

definition IMG_CAR2 :: "Int8U list" where
  "IMG_CAR2 = [
   0, 6, 0, 7, 0, 5, 8, 11, 4, 5, 2, 7, 2, 7, 14, 7, 2, 7, 2, 5, 2, 11, 6, 5, 12, 7, 0, 6]"

definition IMG_BLANK :: "Int8U list" where
  "IMG_BLANK = [
   0, 0, 0, 0, 0, 0, 0, 0, 0, 0, 0, 0, 0, 0, 0, 0, 0, 0, 0, 0, 0, 0, 0, 0, 0, 0, 0, 0,
   0, 0, 0, 0, 0, 0, 0, 0, 0, 0, 0, 0, 0, 0, 0, 0, 0, 0, 0, 0, 0, 0, 0, 0, 0, 0, 0, 0,
   0, 0, 0, 0, 0, 0, 0, 0]"

section \<open>Selection\<close>

type_synonym Font = Int32U

definition font5x4 :: Font where "font5x4 = 0"
definition font8x4 :: Font where "font8x4 = 1"
definition font7x5 :: Font where "font7x5 = 2"
definition font8x6 :: Font where "font8x6 = 3"
definition font16x8 :: Font where "font16x8 = 4"
definition fontLast :: Font where "fontLast = 5"

lemmas font_defs = font5x4_def font8x4_def font7x5_def font8x6_def font16x8_def fontLast_def

definition getFontData :: "Font \<Rightarrow> Int8U list" where
  "getFontData f =
     (if f = font5x4 then FONT_5X4 else if f = font8x4 then FONT_8X4
      else if f = font7x5 then FONT_7X5 else if f = font8x6 then FONT_8X6
      else if f = font16x8 then FONT_16X8 else FONT_5X4)"

definition getFontWidth :: "Font \<Rightarrow> int list" where
  "getFontWidth f =
     (if f = font5x4 then FONT_5X4_WIDTH else if f = font8x4 then FONT_8X4_WIDTH
      else if f = font7x5 then FONT_7X5_WIDTH else if f = font8x6 then FONT_8X6_WIDTH
      else if f = font16x8 then FONT_16X8_WIDTH else FONT_5X4_WIDTH)"

definition getFontHeight :: "Font \<Rightarrow> int" where
  "getFontHeight f =
     (if f = font5x4 then FONT_5X4_HEIGHT else if f = font8x4 then FONT_8X4_HEIGHT
      else if f = font7x5 then FONT_7X5_HEIGHT else if f = font8x6 then FONT_8X6_HEIGHT
      else if f = font16x8 then FONT_16X8_HEIGHT else FONT_5X4_HEIGHT)"

definition getFontGlyphStep :: "Font \<Rightarrow> int" where
  "getFontGlyphStep f =
     (if f = font5x4 then FONT_5X4_STEP_GLYPH else if f = font8x4 then FONT_8X4_STEP_GLYPH
      else if f = font7x5 then FONT_7X5_STEP_GLYPH else if f = font8x6 then FONT_8X6_STEP_GLYPH
      else if f = font16x8 then FONT_16X8_STEP_GLYPH else FONT_5X4_STEP_GLYPH)"

definition fontTable :: "Font \<Rightarrow> FontTable" where
  "fontTable f = \<lparr>fontData = getFontData f, fontWidth = getFontWidth f,
     fontHeight = getFontHeight f, fontGlyphStep = getFontGlyphStep f\<rparr>"

definition getNextFont :: "Font \<Rightarrow> Font" where
  "getNextFont f = (let nextFont = f + 1 in if fontLast \<le> nextFont then 0 else nextFont)"

definition getAdjustedTextY :: "Font \<Rightarrow> int \<Rightarrow> int" where
  "getAdjustedTextY f wantedY =
     (if wantedY < 0 then 0
      else if COM_SIZE \<le> getFontHeight f + wantedY then COM_SIZE - getFontHeight f
      else wantedY)"

type_synonym ImgArt = Int32U

definition artTable :: "ImgArtInfo list" where
  "artTable = [
   \<lparr>img = IMG_SMILEY, width = 9, height = 10\<rparr>,
   \<lparr>img = IMG_WINK, width = 9, height = 10\<rparr>,
   \<lparr>img = IMG_BIG_HEART, width = 9, height = 10\<rparr>,
   \<lparr>img = IMG_CAT, width = 9, height = 10\<rparr>,
   \<lparr>img = IMG_OWLS, width = 19, height = 9\<rparr>,
   \<lparr>img = IMG_MAIL, width = 12, height = 8\<rparr>,
   \<lparr>img = IMG_MUSIC, width = 8, height = 8\<rparr>,
   \<lparr>img = IMG_MUSICNOTE, width = 4, height = 7\<rparr>,
   \<lparr>img = IMG_HEART, width = 9, height = 8\<rparr>,
   \<lparr>img = IMG_SPEAKER_A, width = 6, height = 8\<rparr>,
   \<lparr>img = IMG_SPEAKER_B, width = 6, height = 8\<rparr>,
   \<lparr>img = IMG_8X8, width = 8, height = 8\<rparr>,
   \<lparr>img = IMG_STICKMAN1, width = 12, height = 16\<rparr>,
   \<lparr>img = IMG_STICKMAN2, width = 12, height = 16\<rparr>,
   \<lparr>img = IMG_STICKMAN3, width = 12, height = 16\<rparr>,
   \<lparr>img = IMG_STICKMAN4, width = 12, height = 16\<rparr>,
   \<lparr>img = IMG_WAVE1, width = 9, height = 16\<rparr>,
   \<lparr>img = IMG_WAVE2, width = 9, height = 16\<rparr>,
   \<lparr>img = IMG_WAVE3, width = 9, height = 16\<rparr>,
   \<lparr>img = IMG_WAVE4, width = 9, height = 16\<rparr>,
   \<lparr>img = IMG_JUMP1, width = 9, height = 16\<rparr>,
   \<lparr>img = IMG_JUMP2, width = 9, height = 16\<rparr>,
   \<lparr>img = IMG_JUMP3, width = 9, height = 16\<rparr>,
   \<lparr>img = IMG_JUMP4, width = 9, height = 16\<rparr>,
   \<lparr>img = IMG_UP, width = 5, height = 4\<rparr>,
   \<lparr>img = IMG_DOWN, width = 5, height = 4\<rparr>,
   \<lparr>img = IMG_ARROW_UP1, width = 7, height = 5\<rparr>,
   \<lparr>img = IMG_ARROW_UP2, width = 7, height = 5\<rparr>,
   \<lparr>img = IMG_ARROW_UP3, width = 7, height = 5\<rparr>,
   \<lparr>img = IMG_ARROW_UP4, width = 7, height = 5\<rparr>,
   \<lparr>img = IMG_ARROW_DOWN1, width = 7, height = 5\<rparr>,
   \<lparr>img = IMG_ARROW_DOWN2, width = 7, height = 5\<rparr>,
   \<lparr>img = IMG_ARROW_DOWN3, width = 7, height = 5\<rparr>,
   \<lparr>img = IMG_ARROW_DOWN4, width = 7, height = 5\<rparr>,
   \<lparr>img = IMG_ARROW2_UP1, width = 5, height = 5\<rparr>,
   \<lparr>img = IMG_ARROW2_UP2, width = 5, height = 5\<rparr>,
   \<lparr>img = IMG_ARROW2_UP3, width = 5, height = 5\<rparr>,
   \<lparr>img = IMG_ARROW2_UP4, width = 5, height = 5\<rparr>,
   \<lparr>img = IMG_ARROW2_DOWN1, width = 5, height = 5\<rparr>,
   \<lparr>img = IMG_ARROW2_DOWN2, width = 5, height = 5\<rparr>,
   \<lparr>img = IMG_ARROW2_DOWN3, width = 5, height = 5\<rparr>,
   \<lparr>img = IMG_ARROW2_DOWN4, width = 5, height = 5\<rparr>,
   \<lparr>img = IMG_CAR1, width = 14, height = 8\<rparr>,
   \<lparr>img = IMG_CAR2, width = 14, height = 8\<rparr>,
   \<lparr>img = IMG_BLANK, width = 16, height = 16\<rparr>]"

definition imgArtUp21 :: ImgArt where "imgArtUp21 = 34"
definition imgArtDown21 :: ImgArt where "imgArtDown21 = 38"
definition imgArtCar1 :: ImgArt where "imgArtCar1 = 42"
definition imgArtBlank :: ImgArt where "imgArtBlank = 44"
definition imgArtLast :: ImgArt where "imgArtLast = 45"

definition getImgArtInfo :: "ImgArt \<Rightarrow> ImgArtInfo" where
  "getImgArtInfo a = (if unat a < length artTable then artTable ! unat a else artTable ! 0)"

section \<open>Messages\<close>

type_synonym ModeMsgsIndex = Int32U

definition modeMessageMsgs :: "string list" where
  "modeMessageMsgs = [
   ''--Starting clock--'',
   ''When all else seems to fail, smile for today and just love someone'',
   ''When you look down, all you see is dirt, so keep looking up'',
   ''If you are afraid to shake the dice, you will never throw a six'',
   ''A single conversation with a wise man is better than ten years of study'',
   ''Happiness is often a rebound from hard work'',
   ''The world may be your oyster, but that doesn't mean you'll get it's pearl'',
   ''Do not follow where the path may lead. Go where there is no path...and leave a trail'',
   ''Do not fear what you don't know'',
   ''Try everything once, even the things you don't think you will like'',
   ''If you wish to know the mind of a man, listen to his words'',
   ''The most useless energy is trying to change what and who God so carefully created'',
   ''Do not be covered in sadness or be fooled in happiness they both must exist'',
   ''All progress occurs because people dare to be different'',
   ''Whenever possible, keep it simple'',
   ''Look right... Now look left... Now look forward (do this really fast) do you feel any different? good you should feel dizzy'',
   ''Bend the rod while it is still hot'',
   ''Use the force'',
   ''Nothing is as good or bad as it appears'',
   ''Don't worry, be happy'',
   ''Never quit!'',
   ''You can do anything, but not everything'',
   ''Perfection is achieved, not when there is nothing more to add, but when there is nothing left to take away'',
   ''The richest man is not he who has the most, but he who needs the least'',
   ''You miss 100 percent of the shots you never take'',
   ''Courage is not the absence of fear, but rather the judgement that something else is more important than fear'',
   ''You must be the change you wish to see in the world'',
   ''When hungry, eat your rice. When tired, close your eyes. Fools may laugh at me, but wise men will know what I mean'',
   ''The third-rate mind is only happy when it is thinking with the majority. The second-rate mind is only happy when it is thinking with the minority. The first-rate mind is only happy when it is thinking'',
   ''To the man who only has a hammer, everything he encounters begins to look like a nail'',
   ''We are what we repeatedly do -- excellence, then, is not an act but a habit'',
   ''A wise man gets more use from his enemies than a fool from his friends'',
   ''Do not seek to follow in the footsteps of the men of old -- seek what they sought'',
   ''Watch your thoughts -- they become words. Watch your words -- they become actions. Watch your actions -- they become habits. Watch your habits -- they become character. Watch your character -- it becomes your destiny'',
   ''Everyone is a genius at least once a year. The real geniuses simply have their bright ideas closer together'',
   ''What we think, or what we know, or what we believe is, in the end, of little consequence. The only consequence is what we do'',
   ''The real voyage of discovery consists not in seeking new lands but seeing with new eyes'',
   ''Work like you don't need money, love like you've never been hurt, and dance like no one's watching'',
   ''Try a thing you haven't done three times. Once, to get over the fear of doing it. Twice, to learn how to do it. And a third time, to figure out whether you like it or not'',
   ''Even if you're on the right track, you'll get run over if you just sit there'',
   ''People often say that motivation doesn't last. Well, neither does bathing -- that's why we recommend it daily'',
   ''The real meaning of enlightenment is to gaze with undimmed eyes on all undimmed'',
   ''A journey of 1,000 miles must begin with a single step'',
   ''Show your true face to the people who really matter'',
   ''Let reality be reality'',
   ''A good memory is fine, but the ability to forget is the one true test of greatness'',
   ''Joys are often the shadows cast by sorrows'',
   ''Good to begin well, better to end well'',
   ''A good sport cannot fail!'',
   ''Your mind can make your body rich'',
   ''The Buddha said there is no one thing that stays the same during this life'',
   ''A good time to keep your mouth shut is when you are in deep water'',
   ''If you really want something, you'll find a way -- if you don't, you'll find an excuse'',
   ''To break a bad habit, drop it'',
   ''If we did a better job of listening, history wouldn't have to repeat itself'',
   ''To get nowhere, follow the crowd'',
   ''A bank is a place that will lend you money, if you can prove that you don't need it'',
   ''Always keep your words soft and sweet, in case you have to eat them'',
   ''When everything is coming your way, you are in the wrong lane'',
   ''If you find yourself in a hole, stop digging'',
   ''Knowledge is knowing a tomato is a fruit, but wisdom is not putting it in a fruit salad'',
   ''Evening news is where they begin with 'Good Evening' and proceed to tell you why it isn't'',
   ''Change is inevitable, except from a vending machine'',
   ''Some mistakes are too much fun to make only once'',
   ''Always borrow money from a pessimist, he won't expect to get it back'']"

definition modeMsgsIndexBoot :: ModeMsgsIndex where "modeMsgsIndexBoot = 0"
definition modeMsgsIndexFortunate1 :: ModeMsgsIndex where "modeMsgsIndexFortunate1 = 1"
definition modeMsgsIndexLast :: ModeMsgsIndex where "modeMsgsIndexLast = 65"

end
