(* ===== verification/Matrix_Text.thy ===== *)
theory Matrix_Text
  imports Matrix_Data
begin

text \<open>
  What holds of the tables: every glyph and every image lies inside its table and is made of
  words of four pixels, whatever number selects the font or the image. With it the drawing of text
  stays inside the box that \<open>getTextWidth\<close> announces.
\<close>

section \<open>The tables are complete\<close>

definition words_ok :: "Int8U list \<Rightarrow> bool" where
  "words_ok = list_all (\<lambda>w. w < 16)"

definition glyphs_ok :: "FontTable \<Rightarrow> bool" where
  "glyphs_ok f \<longleftrightarrow> words_ok (fontData f) \<and> length (fontWidth f) = 64 \<and> 4 \<le> fontHeight f \<and>
     (fontHeight f + 3) div 4 \<le> int (length (fontData f)) \<and>
     0 \<le> fontGlyphStep f \<and>
     list_all (\<lambda>(g, w). 0 < w \<and>
       (fontHeight f + 3) div 4 * w + int g * fontGlyphStep f \<le> int (length (fontData f))) (enumerate 0 (fontWidth f))"

definition art_ok :: "ImgArtInfo \<Rightarrow> bool" where
  "art_ok a \<longleftrightarrow> words_ok (img a) \<and> 4 \<le> height a \<and> 0 < width a \<and> (height a + 3) div 4 * width a \<le> int (length (img a))"

lemma words_5X4: "words_ok FONT_5X4"
  by code_simp

lemma widths_5X4:
  "list_all (\<lambda>(g, w). 0 < w \<and> 2 * w + int g * 10 \<le> 640) (enumerate 0 FONT_5X4_WIDTH)"
  by code_simp

lemma glyphs_5X4: "glyphs_ok \<lparr>fontData = FONT_5X4, fontWidth = FONT_5X4_WIDTH,
    fontHeight = FONT_5X4_HEIGHT, fontGlyphStep = FONT_5X4_STEP_GLYPH\<rparr>"
proof -
  have "length FONT_5X4 = 640" "length FONT_5X4_WIDTH = 64"
    by (simp_all add: FONT_5X4_def FONT_5X4_WIDTH_def)
  then show ?thesis using words_5X4 widths_5X4
    by (simp add: glyphs_ok_def FONT_5X4_HEIGHT_def FONT_5X4_STEP_GLYPH_def)
qed

lemma words_8X4: "words_ok FONT_8X4"
  by code_simp

lemma widths_8X4:
  "list_all (\<lambda>(g, w). 0 < w \<and> 2 * w + int g * 10 \<le> 640) (enumerate 0 FONT_8X4_WIDTH)"
  by code_simp

lemma glyphs_8X4: "glyphs_ok \<lparr>fontData = FONT_8X4, fontWidth = FONT_8X4_WIDTH,
    fontHeight = FONT_8X4_HEIGHT, fontGlyphStep = FONT_8X4_STEP_GLYPH\<rparr>"
proof -
  have "length FONT_8X4 = 640" "length FONT_8X4_WIDTH = 64"
    by (simp_all add: FONT_8X4_def FONT_8X4_WIDTH_def)
  then show ?thesis using words_8X4 widths_8X4
    by (simp add: glyphs_ok_def FONT_8X4_HEIGHT_def FONT_8X4_STEP_GLYPH_def)
qed

lemma words_7X5: "words_ok FONT_7X5"
  by code_simp

lemma widths_7X5:
  "list_all (\<lambda>(g, w). 0 < w \<and> 2 * w + int g * 12 \<le> 768) (enumerate 0 FONT_7X5_WIDTH)"
  by code_simp

lemma glyphs_7X5: "glyphs_ok \<lparr>fontData = FONT_7X5, fontWidth = FONT_7X5_WIDTH,
    fontHeight = FONT_7X5_HEIGHT, fontGlyphStep = FONT_7X5_STEP_GLYPH\<rparr>"
proof -
  have "length FONT_7X5 = 768" "length FONT_7X5_WIDTH = 64"
    by (simp_all add: FONT_7X5_def FONT_7X5_WIDTH_def)
  then show ?thesis using words_7X5 widths_7X5
    by (simp add: glyphs_ok_def FONT_7X5_HEIGHT_def FONT_7X5_STEP_GLYPH_def)
qed

lemma words_8X6: "words_ok FONT_8X6"
  by code_simp

lemma widths_8X6:
  "list_all (\<lambda>(g, w). 0 < w \<and> 2 * w + int g * 12 \<le> 768) (enumerate 0 FONT_8X6_WIDTH)"
  by code_simp

lemma glyphs_8X6: "glyphs_ok \<lparr>fontData = FONT_8X6, fontWidth = FONT_8X6_WIDTH,
    fontHeight = FONT_8X6_HEIGHT, fontGlyphStep = FONT_8X6_STEP_GLYPH\<rparr>"
proof -
  have "length FONT_8X6 = 768" "length FONT_8X6_WIDTH = 64"
    by (simp_all add: FONT_8X6_def FONT_8X6_WIDTH_def)
  then show ?thesis using words_8X6 widths_8X6
    by (simp add: glyphs_ok_def FONT_8X6_HEIGHT_def FONT_8X6_STEP_GLYPH_def)
qed

lemma words_16X8: "words_ok FONT_16X8"
  by code_simp

lemma widths_16X8:
  "list_all (\<lambda>(g, w). 0 < w \<and> 4 * w + int g * 32 \<le> 2048) (enumerate 0 FONT_16X8_WIDTH)"
  by code_simp

lemma glyphs_16X8: "glyphs_ok \<lparr>fontData = FONT_16X8, fontWidth = FONT_16X8_WIDTH,
    fontHeight = FONT_16X8_HEIGHT, fontGlyphStep = FONT_16X8_STEP_GLYPH\<rparr>"
proof -
  have "length FONT_16X8 = 2048" "length FONT_16X8_WIDTH = 64"
    by (simp_all add: FONT_16X8_def FONT_16X8_WIDTH_def)
  then show ?thesis using words_16X8 widths_16X8
    by (simp add: glyphs_ok_def FONT_16X8_HEIGHT_def FONT_16X8_STEP_GLYPH_def)
qed

lemma fontTable_ok: "glyphs_ok (fontTable f)"
  using glyphs_5X4 glyphs_8X4 glyphs_7X5 glyphs_8X6 glyphs_16X8
  by (simp add: fontTable_def getFontData_def getFontWidth_def getFontHeight_def getFontGlyphStep_def)

lemma artTable_ok: "list_all art_ok artTable"
  by code_simp

lemma getImgArtInfo_ok: "art_ok (getImgArtInfo a)"
proof -
  have "0 < length artTable" by (simp add: artTable_def)
  then show ?thesis using artTable_ok by (auto simp: getImgArtInfo_def list_all_length)
qed

lemma words_range:
  assumes "words_ok ws" "k < length ws"
  shows "ws ! k < 16"
  using assms by (simp add: words_ok_def list_all_length)

section \<open>Text stays inside its box\<close>

lemma matrix_drawImage_frame [simp]:
  "target_ok (drawImage im w ht x y ofs h) = target_ok h"
  "tgtBuffer (drawImage im w ht x y ofs h) = tgtBuffer h"
  by (simp_all add: drawImage_def setTarget_def target_ok_def)

definition text_span :: "string \<Rightarrow> FontTable \<Rightarrow> int \<Rightarrow> int" where
  "text_span str f gutter = textWidth str f gutter 0 + gutter"

lemma textWidth_acc: "textWidth str f gutter wd = wd + textWidth str f gutter 0"
proof (induction str arbitrary: wd)
  case (Cons c str)
  show ?case
  proof (cases "glyphIndex c")
    case None
    then show ?thesis using Cons[of wd] by simp
  next
    case (Some g)
    then show ?thesis using Cons[of "wd + fontWidth f ! g + gutter"] Cons[of "fontWidth f ! g + gutter"] by simp
  qed
qed simp

lemma text_span_simps [simp]:
  "text_span [] f gutter = 0"
  "text_span (c # str) f gutter = (case glyphIndex c of None \<Rightarrow> text_span str f gutter
     | Some g \<Rightarrow> fontWidth f ! g + gutter + text_span str f gutter)"
proof -
  show "text_span [] f gutter = 0" by (simp add: text_span_def)
  show "text_span (c # str) f gutter = (case glyphIndex c of None \<Rightarrow> text_span str f gutter
     | Some g \<Rightarrow> fontWidth f ! g + gutter + text_span str f gutter)"
  proof (cases "glyphIndex c")
    case (Some g)
    then show ?thesis using textWidth_acc[of str f gutter "fontWidth f ! g + gutter"] by (simp add: text_span_def)
  qed (simp add: text_span_def)
qed

lemma glyphIndex_range: "glyphIndex c = Some g \<Longrightarrow> g < 64"
  by (auto simp: glyphIndex_def Let_def split: if_splits)

lemma glyph_fits:
  assumes "glyphs_ok f" "g < 64"
  shows "0 < fontWidth f ! g" "0 \<le> int g * fontGlyphStep f"
    "(fontHeight f + 3) div 4 * (fontWidth f ! g) + int g * fontGlyphStep f \<le> int (length (fontData f))"
proof -
  have "(g, fontWidth f ! g) \<in> set (enumerate 0 (fontWidth f))"
    using assms by (auto simp: in_set_enumerate_eq glyphs_ok_def)
  then show "0 < fontWidth f ! g" "0 \<le> int g * fontGlyphStep f"
    "(fontHeight f + 3) div 4 * (fontWidth f ! g) + int g * fontGlyphStep f \<le> int (length (fontData f))"
    using assms(1) by (auto simp: glyphs_ok_def list_all_iff)
qed

lemma text_span_nonneg: "glyphs_ok f \<Longrightarrow> 0 \<le> gutter \<Longrightarrow> 0 \<le> text_span str f gutter"
  by (induction str) (auto split: option.split dest: glyphIndex_range glyph_fits(1))

lemma drawImage_outside:
  assumes "target_ok h" "4 \<le> ht" "0 \<le> w" "0 \<le> ofs" "words_ok im" "(ht + 3) div 4 * w + ofs \<le> int (length im)"
    "on_matrix px py" "px < x \<or> x + w \<le> px \<or> py < y \<or> y + ceil4 ht \<le> py"
  shows "matrix_px (drawImage im w ht x y ofs h) (px, py) = matrix_px h (px, py)"
  using drawImage_px[of h ht w ofs im px py x y] assms by (auto simp: words_ok_def)

lemma gutter_outside:
  assumes "target_ok h" "glyphs_ok f" "on_matrix px py"
    "px < x \<or> x + int n \<le> px \<or> py < y \<or> y + ceil4 (fontHeight f) \<le> py"
  shows "matrix_px (fold (\<lambda>j h. drawImage (fontData f) 1 (fontHeight f) (x + int j) y 0 h) [0..<n] h) (px, py) =
      matrix_px h (px, py) \<and>
    target_ok (fold (\<lambda>j h. drawImage (fontData f) 1 (fontHeight f) (x + int j) y 0 h) [0..<n] h)"
  using assms(4)
proof (induction n)
  case (Suc n)
  then show ?case using assms(1-3) by (auto simp: glyphs_ok_def drawImage_outside)
qed (simp add: assms)

lemma drawGlyphs_outside:
  assumes f: "glyphs_ok f" "0 \<le> gutter" and on: "on_matrix px py"
  shows "target_ok h \<Longrightarrow> px < cx \<or> cx + text_span str f gutter \<le> px \<or> py < y \<or> y + ceil4 (fontHeight f) \<le> py \<Longrightarrow>
    matrix_px (drawGlyphs str cx y f gutter h) (px, py) = matrix_px h (px, py)"
proof (induction str arbitrary: cx h)
  case (Cons c str)
  show ?case
  proof (cases "glyphIndex c")
    case None
    then show ?thesis using Cons by simp
  next
    case (Some g)
    let ?w = "fontWidth f ! g" and ?s = "int g * fontGlyphStep f"
    note fits = glyph_fits[OF f(1) glyphIndex_range[OF Some]]
    have span: "0 \<le> text_span str f gutter" using f by (rule text_span_nonneg)
    have box: "px < cx \<or> cx + (?w + gutter + text_span str f gutter) \<le> px \<or> py < y \<or> y + ceil4 (fontHeight f) \<le> py"
      using Cons.prems(2) Some by simp
    let ?h1 = "drawImage (fontData f) ?w (fontHeight f) cx y ?s h"
    let ?h2 = "fold (\<lambda>j h. drawImage (fontData f) 1 (fontHeight f) (cx + ?w + int j) y 0 h) [0..<nat gutter] ?h1"
    have h1: "matrix_px ?h1 (px, py) = matrix_px h (px, py)"
      using Cons.prems(1) f fits on box span by (intro drawImage_outside) (auto simp: glyphs_ok_def)
    have h2: "matrix_px ?h2 (px, py) = matrix_px ?h1 (px, py) \<and> target_ok ?h2"
      using Cons.prems(1) f(1) on box span f(2) fits(1)
      by (intro gutter_outside) auto
    have nxt: "px < cx + ?w + gutter \<or> cx + ?w + gutter + text_span str f gutter \<le> px \<or> py < y \<or> y + ceil4 (fontHeight f) \<le> py"
      using box fits(1) f(2) by auto
    show ?thesis using Some Cons.IH[OF Cons.prems(1) nxt] Cons.IH[OF conjunct2[OF h2] nxt] h1 h2
      by (simp add: Let_def)
  qed
qed simp



end
