(* ===== verification/Dictionary.thy ===== *)
theory Dictionary
  imports Timer_Tick Common_Utils
begin

text \<open>
  \<^verbatim>\<open>src/dictionary.h\<close> and \<^verbatim>\<open>src/dictionary.cpp\<close>: the global
  key/value store. An entry may carry an expiration, counted by a one-shot timer service that
  the entry owns; an expired entry is dropped when it is next looked at. All operations hold
  \<^verbatim>\<open>instanceMutex\<close>.
\<close>

section \<open>State\<close>

record DictionaryData =
  dict_data :: string
  dict_service :: ServiceId

record DictionaryStatus =
  dict_ticks :: Int32U
  entriesAdded :: Int32U
  entriesRemoved :: Int32U
  entriesExpired :: Int32U

text \<open>The timer is shared with the rest of the program; \<open>dictAlloc\<close> is the next free
  address for a service object.\<close>

record Dictionary =
  dictionaryEntries :: "(string, DictionaryData) omap"
  dictionaryStatus :: DictionaryStatus
  dictTimer :: TimerTick
  dictAlloc :: ServiceId

datatype dict_error = DictTimer tick_error | DictInsert

definition noExpiration :: int where
  "noExpiration = -1"

definition noData :: string where
  "noData = ''''"

definition newDictionary :: "TimerTick \<Rightarrow> ServiceId \<Rightarrow> Dictionary" where
  "newDictionary w a = \<lparr>dictionaryEntries = [],
     dictionaryStatus = \<lparr>dict_ticks = 0, entriesAdded = 0, entriesRemoved = 0, entriesExpired = 0\<rparr>,
     dictTimer = w, dictAlloc = a\<rparr>"

abbreviation entry_service :: "Dictionary \<Rightarrow> DictionaryData \<Rightarrow> TimerTickService" where
  "entry_service d e \<equiv> services (dictTimer d) (dict_service e)"

section \<open>Entries\<close>

text \<open>The constructor of \<^verbatim>\<open>DictionaryData\<close>: a one-shot service, registered when
  the expiration is not negative.\<close>

definition newDictionaryData ::
  "string \<Rightarrow> int \<Rightarrow> Dictionary \<Rightarrow> (dict_error + DictionaryData) \<times> Dictionary" where
  "newDictionaryData s expirationInMilliseconds d =
     (let sid = dictAlloc d;
          w1 = update_service sid
                 (\<lambda>_. mkTimerTickService expirationInMilliseconds False (TimerTickServiceBool False))
                 (dictTimer d);
          d1 = d\<lparr>dictTimer := w1, dictAlloc := Suc sid\<rparr>;
          e = \<lparr>dict_data = s, dict_service = sid\<rparr>
      in if 0 \<le> expirationInMilliseconds then
           (case registerTimerTickService sid True w1 of
              (Inl err, w2) \<Rightarrow> (Inl (DictTimer err), d1\<lparr>dictTimer := w2\<rparr>)
            | (Inr _, w2) \<Rightarrow> (Inr e, d1\<lparr>dictTimer := w2\<rparr>))
         else (Inr e, d1))"

definition dataIsExpired :: "Dictionary \<Rightarrow> DictionaryData \<Rightarrow> bool" where
  "dataIsExpired d e =
     (if interval (entry_service d e) = noExpiration then False
      else getIsExpired (entry_service d e))"

text \<open>The destructor.\<close>

definition deleteDictionaryData :: "DictionaryData \<Rightarrow> Dictionary \<Rightarrow> Dictionary" where
  "deleteDictionaryData e d =
     d\<lparr>dictTimer := unregisterTimerTickService (cookie (entry_service d e)) (dictTimer d)\<rparr>"

section \<open>Operations\<close>

definition bumpStatus :: "(DictionaryStatus \<Rightarrow> DictionaryStatus) \<Rightarrow> Dictionary \<Rightarrow> Dictionary" where
  "bumpStatus f d = d\<lparr>dictionaryStatus := f (dictionaryStatus d)\<rparr>"

definition dict_empty :: "Dictionary \<Rightarrow> bool" where
  "dict_empty d \<longleftrightarrow> dictionaryEntries d = []"

definition dict_size :: "Dictionary \<Rightarrow> nat" where
  "dict_size d = length (dictionaryEntries d)"

text \<open>\<^verbatim>\<open>_remove(iter)\<close>: the iterator is given by its key and its data.\<close>

definition remove_iter :: "string \<Rightarrow> DictionaryData \<Rightarrow> Dictionary \<Rightarrow> Dictionary" where
  "remove_iter key e d =
     bumpStatus (\<lambda>s. s\<lparr>entriesRemoved := entriesRemoved s + 1\<rparr>)
       (deleteDictionaryData e (d\<lparr>dictionaryEntries := omap_erase key (dictionaryEntries d)\<rparr>))"

definition dict_get :: "string \<Rightarrow> Dictionary \<Rightarrow> string \<times> bool \<times> Dictionary" where
  "dict_get key d = (case omap_find (dictionaryEntries d) key of
     None \<Rightarrow> (noData, False, d)
   | Some e \<Rightarrow>
       if dataIsExpired d e then
         (noData, False,
          remove_iter key e (bumpStatus (\<lambda>s. s\<lparr>entriesExpired := entriesExpired s + 1\<rparr>) d))
       else (dict_data e, True, d))"

definition dict_add :: "string \<Rightarrow> string \<Rightarrow> int \<Rightarrow> Dictionary \<Rightarrow> (dict_error + bool) \<times> Dictionary" where
  "dict_add key s expirationInMilliseconds d =
     (if key = '''' then (Inr False, d)
      else case dict_get key d of
        (_, True, d1) \<Rightarrow> (Inr False, d1)
      | (_, False, d1) \<Rightarrow>
          (case newDictionaryData s expirationInMilliseconds d1 of
             (Inl err, d2) \<Rightarrow> (Inl err, d2)
           | (Inr e, d2) \<Rightarrow>
               if omap_find (dictionaryEntries d2) key \<noteq> None then (Inl DictInsert, d2)
               else (Inr True,
                 bumpStatus (\<lambda>st. st\<lparr>entriesAdded := entriesAdded st + 1\<rparr>)
                   (d2\<lparr>dictionaryEntries := omap_set key e (dictionaryEntries d2)\<rparr>))))"

definition dict_remove :: "string \<Rightarrow> Dictionary \<Rightarrow> bool \<times> Dictionary" where
  "dict_remove key d = (case omap_find (dictionaryEntries d) key of
     None \<Rightarrow> (False, d)
   | Some e \<Rightarrow> (True, remove_iter key e d))"

definition dict_clear :: "Dictionary \<Rightarrow> Dictionary" where
  "dict_clear d =
     bumpStatus (\<lambda>s. s\<lparr>entriesRemoved := entriesRemoved s + of_nat (length (dictionaryEntries d))\<rparr>)
       ((fold (\<lambda>kv. deleteDictionaryData (snd kv)) (dictionaryEntries d) d)\<lparr>dictionaryEntries := []\<rparr>)"

text \<open>
  \<^verbatim>\<open>getNext\<close> loops until it meets an entry that is not expired; each round
  that does not return has dropped one entry, so it ends.
\<close>

lemma length_erase_less:
  "omap_find m k = Some v \<Longrightarrow> length (omap_erase k m) < length m"
  using map_of_SomeD[of m k v] unfolding omap_erase_def by (intro length_filter_less) auto

lemma dict_get_miss_shorter:
  assumes "omap_find (dictionaryEntries d) k = Some v" "dict_get k d = (s, False, d')"
  shows "length (dictionaryEntries d') < length (dictionaryEntries d)"
  using assms length_erase_less[OF assms(1)]
  by (auto simp: dict_get_def remove_iter_def bumpStatus_def deleteDictionaryData_def
      split: if_splits)

lemma upper_bound_find:
  assumes "omap_upper_bound key m = e # es"
  shows "\<exists>v. omap_find m (fst e) = Some v"
proof -
  have "e \<in> set m"
    using assms by (metis omap_upper_bound_def list.set_intros(1) set_dropWhileD)
  then show ?thesis
    by (metis (no_types, lifting) map_of_eq_None_iff image_eqI option.exhaust)
qed

function getNext :: "string \<Rightarrow> Dictionary \<Rightarrow> string \<times> string \<times> bool \<times> Dictionary" where
  "getNext key d = (case omap_upper_bound key (dictionaryEntries d) of
     [] \<Rightarrow> (key, noData, False, d)
   | e # _ \<Rightarrow>
       (case dict_get (fst e) d of
          (result, True, d1) \<Rightarrow> (fst e, result, True, d1)
        | (_, False, d1) \<Rightarrow> getNext (fst e) d1))"
  by pat_completeness auto
termination
proof (relation "measure (\<lambda>(key, d). length (dictionaryEntries d))", goal_cases)
  case 1
  show ?case by simp
next
  case (2 key d e es x result y d1)
  obtain v where "omap_find (dictionaryEntries d) (fst e) = Some v"
    using upper_bound_find[OF 2(1)] by blast
  moreover have "dict_get (fst e) d = (x, False, d1)" using 2(2-4) by simp
  ultimately show ?case by (simp add: dict_get_miss_shorter)
qed

declare getNext.simps [simp del]

definition getFirst :: "Dictionary \<Rightarrow> string \<times> string \<times> bool \<times> Dictionary" where
  "getFirst d = getNext '''' d"

lemma dict_get_entries:
  "dictionaryEntries (snd (snd (dict_get k d))) = dictionaryEntries d \<or>
   dictionaryEntries (snd (snd (dict_get k d))) = omap_erase k (dictionaryEntries d)"
  by (simp add: dict_get_def remove_iter_def bumpStatus_def deleteDictionaryData_def
      split: option.splits)

lemma omap_upper_bound_hd_less: "omap_upper_bound key m = e # es \<Longrightarrow> key < fst e \<and> e \<in> set m"
  unfolding omap_upper_bound_def
  by (metis hd_dropWhile list.sel(1) list.set_intros(1) list.simps(3) not_le set_dropWhileD)

lemma getNext_progress:
  "getNext key d = (key', v, True, d') \<Longrightarrow>
   key < key' \<and> key' \<in> fst ` set (dictionaryEntries d) \<and>
   set (dictionaryEntries d') \<subseteq> set (dictionaryEntries d) \<and>
   (\<forall>P. length (filter P (dictionaryEntries d')) \<le> length (filter P (dictionaryEntries d)))"
proof (induction key d rule: getNext.induct)
  case (1 key d)
  show ?case
  proof (cases "omap_upper_bound key (dictionaryEntries d)")
    case Nil
    with 1(2) show ?thesis by (simp add: getNext.simps[of key d])
  next
    case (Cons e es)
    obtain r f d1 where g: "dict_get (fst e) d = (r, f, d1)" by (cases "dict_get (fst e) d")
    have ents: "dictionaryEntries d1 = dictionaryEntries d \<or>
        dictionaryEntries d1 = omap_erase (fst e) (dictionaryEntries d)"
      using dict_get_entries[of "fst e" d] g by simp
    have sub: "set (dictionaryEntries d1) \<subseteq> set (dictionaryEntries d)"
      using ents by (auto simp: omap_erase_def)
    have len: "length (filter P (dictionaryEntries d1)) \<le> length (filter P (dictionaryEntries d))" for P
      using ents length_filter_le[of "\<lambda>x. fst x \<noteq> fst e" "filter P (dictionaryEntries d)"]
      by (auto simp: omap_erase_def conj_commute)
    note lt = omap_upper_bound_hd_less[OF Cons]
    show ?thesis
    proof (cases f)
      case True
      then show ?thesis using 1(2) Cons g lt sub len by (auto simp: getNext.simps[of key d])
    next
      case False
      then have eq: "getNext (fst e) d1 = (key', v, True, d')"
        using 1(2) Cons g by (simp add: getNext.simps[of key d])
      have "fst e < key' \<and> key' \<in> fst ` set (dictionaryEntries d1) \<and>
          set (dictionaryEntries d') \<subseteq> set (dictionaryEntries d1) \<and>
          (\<forall>P. length (filter P (dictionaryEntries d')) \<le> length (filter P (dictionaryEntries d1)))"
        using 1(1)[OF Cons g[symmetric] refl _ eq] False by simp
      with lt sub len show ?thesis by (meson order_trans less_trans image_mono subsetD)
    qed
  qed
qed

text \<open>
  The visit of all entries, as the loop of \<^verbatim>\<open>purgeExpiredDictionaryEntries\<close> and the
  loop of \<^verbatim>\<open>gatherStatusSnapshot\<close> make it: \<^verbatim>\<open>getNext\<close> from the
  last key until nothing is found.
\<close>

function visitFrom :: "string \<Rightarrow> Dictionary \<Rightarrow> (string \<times> string) list \<times> Dictionary" where
  "visitFrom key d = (case getNext key d of
     (key', v, True, d1) \<Rightarrow> (case visitFrom key' d1 of (es, d2) \<Rightarrow> ((key', v) # es, d2))
   | (_, _, False, d1) \<Rightarrow> ([], d1))"
  by pat_completeness auto
termination
proof (relation "measure (\<lambda>(key, d). length (filter (\<lambda>e. key < fst e) (dictionaryEntries d)))", goal_cases)
  case 1
  show ?case by simp
next
  case (2 key d x t1 v t2 f d1)
  then have "getNext key d = (x, v, True, d1)" by simp
  note pr = getNext_progress[OF this]
  then obtain e where e: "e \<in> set (dictionaryEntries d)" "fst e = x" by auto
  let ?P = "\<lambda>e. x < fst e" and ?Q = "\<lambda>e. key < fst e"
  have "length (filter ?P (dictionaryEntries d1)) \<le> length (filter ?P (dictionaryEntries d))"
    using pr by blast
  also have "filter ?P (dictionaryEntries d) = filter ?P (filter ?Q (dictionaryEntries d))"
    using pr by (auto intro!: filter_cong dest: less_trans)
  also have "length \<dots> < length (filter ?Q (dictionaryEntries d))"
    using e pr by (intro length_filter_less[of e]) auto
  finally show ?case by simp
qed

declare visitFrom.simps [simp del]

definition purgeExpiredDictionaryEntries :: "Dictionary \<Rightarrow> Dictionary" where
  "purgeExpiredDictionaryEntries d = snd (visitFrom '''' d)"

section \<open>Requests and the thread\<close>

definition dictionaryParamOperation :: string where
  "dictionaryParamOperation = ''dictionaryOperation''"
definition dictionaryParamKey :: string where
  "dictionaryParamKey = ''dictionaryKey''"
definition dictionaryParamData :: string where
  "dictionaryParamData = ''dictionaryData''"
definition dictionaryParamTimeout :: string where
  "dictionaryParamTimeout = ''dictionaryTimeout''"

text \<open>The \<^verbatim>\<open>catch (...)\<close> around \<^verbatim>\<open>stoi\<close> and
  \<^verbatim>\<open>add\<close> turns every exception into \<^verbatim>\<open>false\<close>.\<close>

definition dict_parsePostRequest :: "StringMap \<Rightarrow> Dictionary \<Rightarrow> bool \<times> Dictionary" where
  "dict_parsePostRequest postValues d =
     (let intervalStr = snd (getParamValue postValues dictionaryParamTimeout (dec_int noExpiration));
          operation = snd (getParamValue postValues dictionaryParamOperation ''set'');
          (haveKey, key) = getParamValue postValues dictionaryParamKey '''';
          (haveData, s) = getParamValue postValues dictionaryParamData noData;
          removeAll = (operation = ''del'' \<and> key = '''')
      in if \<not> haveKey \<and> operation \<noteq> ''del'' then (False, d)
         else if \<not> haveData \<and> operation \<noteq> ''del'' then (False, d)
         else if operation \<noteq> ''del'' \<and> operation \<noteq> ''set'' \<and> operation \<noteq> ''add'' then (False, d)
         else
           let d1 = (if operation = ''del'' \<or> operation = ''set''
                     then (if removeAll then dict_clear d else snd (dict_remove key d)) else d)
           in if operation \<noteq> ''del'' then
                (case stoi intervalStr 10 of
                   None \<Rightarrow> (False, d1)
                 | Some ms \<Rightarrow>
                     (case dict_add key s ms d1 of
                        (Inl _, d2) \<Rightarrow> (False, d2)
                      | (Inr ok, d2) \<Rightarrow> (ok, d2)))
              else (True, d1))"

definition getDictionaryStatus :: "Dictionary \<Rightarrow> DictionaryStatus" where
  "getDictionaryStatus d = dictionaryStatus d"

text \<open>One round of \<^verbatim>\<open>runThreadLoop\<close> on a received message; the flag says
  whether the loop goes on.\<close>

definition dictionaryLoopStep :: "InboxMsg \<Rightarrow> Dictionary \<Rightarrow> bool \<times> Dictionary" where
  "dictionaryLoopStep msg d =
     (if inboxMsgType msg = inboxMsgTypeTerminate then (False, d)
      else if inboxMsgType msg = inboxMsgTypeTimerTickMessage then
        (True, bumpStatus (\<lambda>s. s\<lparr>dict_ticks := dict_ticks s + 1\<rparr>) (purgeExpiredDictionaryEntries d))
      else (True, d))"

text \<open>\<^verbatim>\<open>shutdown\<close> clears before it deletes, so the destructor's assertion
  holds.\<close>

definition dict_shutdown :: "Dictionary \<Rightarrow> TimerTick" where
  "dict_shutdown d = dictTimer (dict_clear d)"

text \<open>
  The whole loop on the messages that arrive; \<open>sid\<close> is the address of
  \<^verbatim>\<open>timerTickServiceDictionaryLoop\<close>. The result is \<open>None\<close> while the
  thread still waits, and an exception when the service cannot be registered.
\<close>

fun dictionaryLoop :: "InboxMsg list \<Rightarrow> Dictionary \<Rightarrow> Dictionary option" where
  "dictionaryLoop [] d = None"
| "dictionaryLoop (msg # arrivals) d =
     (case dictionaryLoopStep msg d of
        (True, d1) \<Rightarrow> dictionaryLoop arrivals d1
      | (False, d1) \<Rightarrow> Some d1)"

definition dict_runThreadLoop ::
  "ServiceId \<Rightarrow> InboxMsg list \<Rightarrow> Dictionary \<Rightarrow> dict_error + Dictionary option" where
  "dict_runThreadLoop sid arrivals d =
     (let w1 = update_service sid
                 (\<lambda>_. mkTimerTickService 12345 True (TimerTickServiceMessage threadIdDictionary None))
                 (dictTimer d)
      in case registerTimerTickService sid True w1 of
           (Inl err, _) \<Rightarrow> Inl (DictTimer err)
         | (Inr _, w2) \<Rightarrow>
             Inr (map_option (\<lambda>d1. d1\<lparr>dictTimer :=
                 (let w3 = unregisterTimerTickService (cookie (services (dictTimer d1) sid)) (dictTimer d1)
                  in w3\<lparr>tickInboxes := (tickInboxes w3)
                       (threadIdDictionary := map_option inbox_clear (tickInboxes w3 threadIdDictionary))\<rparr>)\<rparr>)
               (dictionaryLoop arrivals (d\<lparr>dictTimer := w2\<rparr>))))"

text \<open>The timer thread runs concurrently: its tick, seen by the dictionary.\<close>

definition dict_tick :: "Dictionary \<Rightarrow> Dictionary" where
  "dict_tick d = d\<lparr>dictTimer := timerTick (dictTimer d)\<rparr>"

section \<open>The invariant\<close>

definition entry_ok :: "Dictionary \<Rightarrow> string \<times> DictionaryData \<Rightarrow> bool" where
  "entry_ok d kv \<longleftrightarrow>
     fst kv \<noteq> '''' \<and> dict_service (snd kv) < dictAlloc d \<and>
     (0 \<le> interval (entry_service d (snd kv)) \<longrightarrow> registered (dictTimer d) (dict_service (snd kv)))
     \<and> \<not> periodic (entry_service d (snd kv))
     \<and> (interval (entry_service d (snd kv)) < 0 \<longrightarrow>
          \<not> registered (dictTimer d) (dict_service (snd kv)) \<and> ticksLeft (entry_service d (snd kv)) = 0)"

definition dict_inv :: "Dictionary \<Rightarrow> bool" where
  "dict_inv d \<longleftrightarrow>
     omap_inv (dictionaryEntries d) \<and> tick_inv (dictTimer d) \<and>
     distinct (map (dict_service \<circ> snd) (dictionaryEntries d)) \<and>
     (\<forall>kv \<in> set (dictionaryEntries d). entry_ok d kv) \<and>
     (\<forall>sid \<ge> dictAlloc d. \<not> registered (dictTimer d) sid) \<and>
     entriesAdded (dictionaryStatus d) =
       entriesRemoved (dictionaryStatus d) + of_nat (length (dictionaryEntries d))"

lemma bumpStatus_sel [simp]:
  "dictionaryEntries (bumpStatus f d) = dictionaryEntries d"
  "dictTimer (bumpStatus f d) = dictTimer d"
  "dictAlloc (bumpStatus f d) = dictAlloc d"
  "dictionaryStatus (bumpStatus f d) = f (dictionaryStatus d)"
  by (simp_all add: bumpStatus_def)

lemma deleteDictionaryData_sel [simp]:
  "dictionaryEntries (deleteDictionaryData e d) = dictionaryEntries d"
  "dictAlloc (deleteDictionaryData e d) = dictAlloc d"
  "dictionaryStatus (deleteDictionaryData e d) = dictionaryStatus d"
  by (simp_all add: deleteDictionaryData_def)

lemma deleteDictionaryData_timer:
  assumes "tick_inv (dictTimer d)"
  shows "tick_inv (dictTimer (deleteDictionaryData e d))"
    and "registered (dictTimer (deleteDictionaryData e d)) sid \<longleftrightarrow>
           registered (dictTimer d) sid \<and> sid \<noteq> dict_service e"
    and "sid \<noteq> dict_service e \<Longrightarrow>
           services (dictTimer (deleteDictionaryData e d)) sid = services (dictTimer d) sid"
    and "interval (services (dictTimer (deleteDictionaryData e d)) sid) =
           interval (services (dictTimer d) sid)"
proof -
  have "tick_inv (dictTimer (deleteDictionaryData e d)) \<and>
    (registered (dictTimer (deleteDictionaryData e d)) sid \<longleftrightarrow>
       registered (dictTimer d) sid \<and> sid \<noteq> dict_service e) \<and>
    (sid \<noteq> dict_service e \<longrightarrow>
       services (dictTimer (deleteDictionaryData e d)) sid = services (dictTimer d) sid) \<and>
    interval (services (dictTimer (deleteDictionaryData e d)) sid) =
      interval (services (dictTimer d) sid)"
  proof (cases "registered (dictTimer d) (dict_service e)")
    case True
    then show ?thesis
      using unregister_known[OF assms True] by (simp add: deleteDictionaryData_def)
  next
    case False
    then have "cookie (entry_service d e) = nullCookie"
      using assms by (simp add: tick_inv_def)
    with False assms show ?thesis by (auto simp: deleteDictionaryData_def)
  qed
  then show "tick_inv (dictTimer (deleteDictionaryData e d))"
    "registered (dictTimer (deleteDictionaryData e d)) sid \<longleftrightarrow>
       registered (dictTimer d) sid \<and> sid \<noteq> dict_service e"
    "sid \<noteq> dict_service e \<Longrightarrow>
       services (dictTimer (deleteDictionaryData e d)) sid = services (dictTimer d) sid"
    "interval (services (dictTimer (deleteDictionaryData e d)) sid) =
       interval (services (dictTimer d) sid)"
    by blast+
qed

lemma entry_ok_other:
  assumes "tick_inv (dictTimer d)" "dict_service (snd kv) \<noteq> dict_service e"
  shows "entry_ok (deleteDictionaryData e d) kv \<longleftrightarrow> entry_ok d kv"
  using deleteDictionaryData_timer[OF assms(1), where e = e] assms(2) by (simp add: entry_ok_def)

lemma entry_ok_cong:
  "dictTimer d' = dictTimer d \<Longrightarrow> dictAlloc d' = dictAlloc d \<Longrightarrow> entry_ok d' kv = entry_ok d kv"
  by (simp add: entry_ok_def)

lemma remove_iter_sel [simp]:
  "dictionaryEntries (remove_iter k e d) = omap_erase k (dictionaryEntries d)"
  "dictAlloc (remove_iter k e d) = dictAlloc d"
  "dictTimer (remove_iter k e d) = dictTimer (deleteDictionaryData e d)"
  "dictionaryStatus (remove_iter k e d) =
     (dictionaryStatus d)\<lparr>entriesRemoved := entriesRemoved (dictionaryStatus d) + 1\<rparr>"
  by (simp_all add: remove_iter_def deleteDictionaryData_def)

lemma distinct_map_erase: "distinct (map f m) \<Longrightarrow> distinct (map f (omap_erase k m))"
  by (simp add: omap_erase_def distinct_map_filter)

lemma entry_services_distinct:
  assumes "dict_inv d" "(k, e) \<in> set (dictionaryEntries d)" "(k', e') \<in> set (dictionaryEntries d)"
    and "k \<noteq> k'"
  shows "dict_service e \<noteq> dict_service e'"
proof -
  have "inj_on (dict_service \<circ> snd) (set (dictionaryEntries d))"
    using assms(1) by (simp add: dict_inv_def distinct_map)
  from inj_onD[OF this _ assms(2,3)] assms(4) show ?thesis by auto
qed

lemma dict_inv_remove_iter [inv_intros]:
  assumes inv: "dict_inv d" and find: "omap_find (dictionaryEntries d) k = Some e"
  shows "dict_inv (remove_iter k e d)"
proof -
  have t: "tick_inv (dictTimer d)" and om: "omap_inv (dictionaryEntries d)"
    using inv by (simp_all add: dict_inv_def)
  have mem: "(k, e) \<in> set (dictionaryEntries d)" using find by (rule map_of_SomeD)
  have "entry_ok (remove_iter k e d) kv" if "kv \<in> set (omap_erase k (dictionaryEntries d))" for kv
  proof -
    obtain k' e' where kv: "kv = (k', e')" by (cases kv)
    with that have m: "(k', e') \<in> set (dictionaryEntries d)" "k' \<noteq> k"
      by (auto simp: omap_erase_def)
    then have "dict_service (snd kv) \<noteq> dict_service e"
      using entry_services_distinct[OF inv mem m(1)] kv by auto
    moreover have "entry_ok d kv" using inv m kv by (auto simp: dict_inv_def)
    ultimately have "entry_ok (deleteDictionaryData e d) kv"
      using entry_ok_other[OF t] by blast
    then show ?thesis by (simp add: entry_ok_def)
  qed
  moreover have "length (dictionaryEntries d) = Suc (length (omap_erase k (dictionaryEntries d)))"
    using length_omap_erase[OF om find] by simp
  ultimately show ?thesis
    using inv deleteDictionaryData_timer[OF t, where e = e]
    by (auto simp: dict_inv_def distinct_map_erase algebra_simps)
qed

section \<open>The abstract dictionary\<close>

text \<open>
  What the dictionary promises: a finite map from keys to a value and its remaining life, in
  ticks, or \<open>None\<close> for an entry that does not expire.
\<close>

type_synonym dict_spec = "string \<Rightarrow> (string \<times> nat option) option"

definition entry_life :: "TimerTickService \<Rightarrow> nat option" where
  "entry_life s = (if interval s = noExpiration then None else Some (unat (ticksLeft s)))"

definition abs_dict :: "Dictionary \<Rightarrow> dict_spec" where
  "abs_dict d k = (case omap_find (dictionaryEntries d) k of
     None \<Rightarrow> None
   | Some e \<Rightarrow> if dataIsExpired d e then None
               else Some (dict_data e, entry_life (entry_service d e)))"

fun life_tick :: "string \<times> nat option \<Rightarrow> (string \<times> nat option) option" where
  "life_tick (v, None) = Some (v, None)"
| "life_tick (v, Some n) = (if n \<le> 1 then None else Some (v, Some (n - 1)))"

definition spec_tick :: "dict_spec \<Rightarrow> dict_spec" where
  "spec_tick m k = Option.bind (m k) life_tick"

text \<open>A life given in milliseconds: \<open>-1\<close> is for ever, a smaller number is over at once.\<close>

definition spec_put :: "string \<Rightarrow> string \<Rightarrow> int \<Rightarrow> dict_spec \<Rightarrow> dict_spec" where
  "spec_put k v ms m =
     (if ms = noExpiration then m(k \<mapsto> (v, None))
      else if ms < 0 then m
      else m(k \<mapsto> (v, Some (nat (1 + ms div millisPerTick)))))"

lemma dataIsExpired_cong:
  "services (dictTimer d') (dict_service e) = services (dictTimer d) (dict_service e) \<Longrightarrow>
   dataIsExpired d' e = dataIsExpired d e"
  by (simp add: dataIsExpired_def)

lemma abs_dict_bumpStatus [simp]: "abs_dict (bumpStatus f d) = abs_dict d"
  by (auto simp: abs_dict_def fun_eq_iff dataIsExpired_def split: option.splits)

lemma abs_dict_remove_iter:
  assumes inv: "dict_inv d" and find: "omap_find (dictionaryEntries d) k = Some e"
  shows "abs_dict (remove_iter k e d) = (abs_dict d)(k := None)"
proof
  fix k'
  have t: "tick_inv (dictTimer d)" using inv by (simp add: dict_inv_def)
  show "abs_dict (remove_iter k e d) k' = ((abs_dict d)(k := None)) k'"
  proof (cases "k' = k \<or> omap_find (dictionaryEntries d) k' = None")
    case True
    then show ?thesis by (auto simp: abs_dict_def)
  next
    case False
    then obtain e' where f: "omap_find (dictionaryEntries d) k' = Some e'" "k' \<noteq> k" by auto
    then have "dict_service e' \<noteq> dict_service e"
      using entry_services_distinct[OF inv map_of_SomeD[OF f(1)] map_of_SomeD[OF find]] by auto
    then have "services (dictTimer (remove_iter k e d)) (dict_service e') =
        services (dictTimer d) (dict_service e')"
      using deleteDictionaryData_timer(3)[OF t] by auto
    then show ?thesis using f by (simp add: abs_dict_def dataIsExpired_def)
  qed
qed

lemma dict_remove_correct:
  assumes "dict_inv d"
  shows "dict_inv (snd (dict_remove k d))"
    and "abs_dict (snd (dict_remove k d)) = (abs_dict d)(k := None)"
  using assms
  by (cases "omap_find (dictionaryEntries d) k";
      simp add: dict_remove_def dict_inv_remove_iter abs_dict_remove_iter;
      simp add: abs_dict_def fun_eq_iff)+

lemma dict_inv_bump [simp]:
  "dict_inv (bumpStatus (\<lambda>s. s\<lparr>entriesExpired := g s\<rparr>) d) = dict_inv d"
  "dict_inv (bumpStatus (\<lambda>s. s\<lparr>dict_ticks := g s\<rparr>) d) = dict_inv d"
  by (simp_all add: dict_inv_def entry_ok_def)

lemma dict_get_correct:
  assumes inv: "dict_inv d" and get: "dict_get k d = (v, found, d')"
  shows "dict_inv d'" and "abs_dict d' = abs_dict d"
    and "found \<longleftrightarrow> abs_dict d k \<noteq> None"
    and "v = (case abs_dict d k of None \<Rightarrow> noData | Some (s, _) \<Rightarrow> s)"
    and "\<not> found \<Longrightarrow> omap_find (dictionaryEntries d') k = None"
proof -
  have "dict_inv d' \<and> abs_dict d' = abs_dict d \<and> (found \<longleftrightarrow> abs_dict d k \<noteq> None) \<and>
    v = (case abs_dict d k of None \<Rightarrow> noData | Some (s, _) \<Rightarrow> s) \<and>
    (\<not> found \<longrightarrow> omap_find (dictionaryEntries d') k = None)"
  proof (cases "omap_find (dictionaryEntries d) k")
    case None
    with get inv show ?thesis by (auto simp: dict_get_def abs_dict_def)
  next
    case (Some e)
    let ?b = "bumpStatus (\<lambda>s. s\<lparr>entriesExpired := entriesExpired s + 1\<rparr>) d"
    show ?thesis
    proof (cases "dataIsExpired d e")
      case True
      have b: "dict_inv ?b" "omap_find (dictionaryEntries ?b) k = Some e" using inv Some by simp_all
      have "d' = remove_iter k e ?b" "v = noData" "found = False"
        using get Some True by (auto simp: dict_get_def)
      moreover have "abs_dict d k = None" using Some True by (simp add: abs_dict_def)
      ultimately show ?thesis
        using dict_inv_remove_iter[OF b] abs_dict_remove_iter[OF b] by (auto simp: fun_eq_iff)
    next
      case False
      with get inv Some show ?thesis by (auto simp: dict_get_def abs_dict_def)
    qed
  qed
  then show "dict_inv d'" "abs_dict d' = abs_dict d" "found \<longleftrightarrow> abs_dict d k \<noteq> None"
    "v = (case abs_dict d k of None \<Rightarrow> noData | Some (s, _) \<Rightarrow> s)"
    "\<not> found \<Longrightarrow> omap_find (dictionaryEntries d') k = None"
    by blast+
qed

text \<open>Ids remain for another registration.\<close>

definition timer_room :: "Dictionary \<Rightarrow> bool" where
  "timer_room d \<longleftrightarrow> nextTimerTickId (dictTimer d) \<noteq> 0 \<and> nextTimerTickId (dictTimer d) + 1 \<noteq> 0"

text \<open>A fresh entry: its service is new, holds the whole life, and disturbs no other.\<close>

definition fresh_entry :: "string \<Rightarrow> int \<Rightarrow> Dictionary \<Rightarrow> DictionaryData \<Rightarrow> Dictionary \<Rightarrow> bool" where
  "fresh_entry s ms d e d' \<longleftrightarrow>
     dict_service e = dictAlloc d \<and> dict_data e = s \<and>
     dictionaryEntries d' = dictionaryEntries d \<and> dictionaryStatus d' = dictionaryStatus d \<and>
     dictAlloc d' = Suc (dictAlloc d) \<and> tick_inv (dictTimer d') \<and>
     (\<forall>sid. registered (dictTimer d') sid \<longleftrightarrow>
        registered (dictTimer d) sid \<or> (0 \<le> ms \<and> sid = dictAlloc d)) \<and>
     (\<forall>sid. sid \<noteq> dictAlloc d \<longrightarrow> services (dictTimer d') sid = services (dictTimer d) sid) \<and>
     interval (entry_service d' e) = ms \<and> \<not> periodic (entry_service d' e) \<and>
     unat (ticksLeft (entry_service d' e)) =
       (if 0 \<le> ms then nat (1 + ms div millisPerTick) else 0)"

lemma newDictionaryData_correct:
  assumes inv: "dict_inv d" and room: "timer_room d" and rng: "ms < 2 ^ 31"
  shows "\<exists>e d'. newDictionaryData s ms d = (Inr e, d') \<and> fresh_entry s ms d e d'"
proof -
  let ?sid = "dictAlloc d"
  let ?s0 = "mkTimerTickService ms False (TimerTickServiceBool False)"
  let ?w = "update_service ?sid (\<lambda>_. ?s0) (dictTimer d)"
  have t: "tick_inv (dictTimer d)" "\<not> registered (dictTimer d) ?sid"
    using inv by (auto simp: dict_inv_def)
  have reg_w: "registered ?w = registered (dictTimer d)" by (simp add: registered_def fun_eq_iff)
  have tw: "tick_inv ?w"
    using t by (force simp: tick_inv_def registered_def mkTimerTickService_def)
  show ?thesis
  proof (cases "0 \<le> ms")
    case False
    with tw reg_w show ?thesis
      by (auto simp: newDictionaryData_def Let_def mkTimerTickService_def fresh_entry_def)
  next
    case True
    have rm: "nextTimerTickId ?w \<noteq> 0" "nextTimerTickId ?w + 1 \<noteq> 0"
      using room by (simp_all add: timer_room_def)
    have nr: "\<not> registered ?w ?sid" using t reg_w by simp
    let ?s1 = "?s0\<lparr>cookie := nextTimerTickId (dictTimer d)\<rparr>"
    obtain w2 where w2: "registerTimerTickService ?sid True ?w = (Inr (nextTimerTickId (dictTimer d)), w2)"
      "tick_inv w2" "registered w2 ?sid"
      "services w2 = (services ?w)(?sid := startTimerTickService2 ?s1)"
      using tick_inv_register[OF tw nr rm, of True] by auto
    have "snd (registerTimerTickService ?sid True ?w) = w2" using w2(1) by simp
    then have "timerTickServices w2 = (nextTimerTickId (dictTimer d), ?sid) # timerTickServices (dictTimer d)"
      using w2(1) by (auto simp: registerTimerTickService_def Let_def split: if_splits)
    then have regs: "registered w2 sid \<longleftrightarrow> registered (dictTimer d) sid \<or> sid = ?sid" for sid
      by (auto simp: registered_def)
    have "unat (ticksLeft (startTimerTickService2 ?s1)) = nat (1 + ms div millisPerTick)"
      using unat_ticksLeft_start[of ?s1] True rng
      by (simp add: interval_ok_def mkTimerTickService_def period_def)
    with True w2 regs show ?thesis
      by (auto simp: newDictionaryData_def Let_def mkTimerTickService_def fresh_entry_def)
  qed
qed

definition insert_entry :: "string \<Rightarrow> DictionaryData \<Rightarrow> Dictionary \<Rightarrow> Dictionary" where
  "insert_entry k e d =
     bumpStatus (\<lambda>st. st\<lparr>entriesAdded := entriesAdded st + 1\<rparr>)
       (d\<lparr>dictionaryEntries := omap_set k e (dictionaryEntries d)\<rparr>)"

lemma insert_entry_sel [simp]:
  "dictionaryEntries (insert_entry k e d) = omap_set k e (dictionaryEntries d)"
  "dictTimer (insert_entry k e d) = dictTimer d"
  "dictAlloc (insert_entry k e d) = dictAlloc d"
  by (simp_all add: insert_entry_def)

lemma fresh_entry_old:
  assumes "dict_inv d1" "fresh_entry v ms d1 e d2" "(k', e') \<in> set (dictionaryEntries d1)"
  shows "entry_service d2 e' = entry_service d1 e'" "dict_service e' \<noteq> dictAlloc d1"
    "entry_ok (insert_entry k e d2) (k', e')"
proof -
  have ok: "entry_ok d1 (k', e')" using assms(1,3) by (auto simp: dict_inv_def)
  then show ne: "dict_service e' \<noteq> dictAlloc d1" by (simp add: entry_ok_def)
  then show sv: "entry_service d2 e' = entry_service d1 e'"
    using assms(2) by (simp add: fresh_entry_def)
  show "entry_ok (insert_entry k e d2) (k', e')"
    using ok sv ne assms(2) by (auto simp: entry_ok_def fresh_entry_def)
qed

lemma dict_inv_insert_fresh:
  assumes inv: "dict_inv d1" and new: "fresh_entry v ms d1 e d2" and key: "k \<noteq> ''''"
    and nf: "omap_find (dictionaryEntries d1) k = None"
  shows "dict_inv (insert_entry k e d2)"
  unfolding dict_inv_def
proof (intro conjI ballI allI impI)
  let ?d = "insert_entry k e d2"
  have ents: "dictionaryEntries d2 = dictionaryEntries d1" using new by (simp add: fresh_entry_def)
  note old = fresh_entry_old[OF inv new]
  have unreg: "\<not> registered (dictTimer d1) sid" if "dictAlloc d1 \<le> sid" for sid
    using inv that by (auto simp: dict_inv_def)
  have nin: "(dict_service \<circ> snd) (k, e) \<notin> (dict_service \<circ> snd) ` set (dictionaryEntries d1)"
    using old(2) new by (force simp: fresh_entry_def)
  have dis: "distinct (map (dict_service \<circ> snd) (dictionaryEntries d1))"
    using inv by (simp add: dict_inv_def)
  show "distinct (map (dict_service \<circ> snd) (dictionaryEntries ?d))"
    unfolding insert_entry_sel ents by (rule distinct_map_omap_set[OF nf nin dis])
  show "omap_inv (dictionaryEntries ?d)" using inv ents by (simp add: dict_inv_def)
  show "tick_inv (dictTimer ?d)" using new by (simp add: fresh_entry_def)
  show "entry_ok ?d kv" if "kv \<in> set (dictionaryEntries ?d)" for kv
  proof (cases "kv = (k, e)")
    case True
    then show ?thesis
      using key new unreg[of "dictAlloc d1"]
      by (auto simp: entry_ok_def fresh_entry_def unat_eq_0)
  next
    case False
    then have "kv \<in> set (dictionaryEntries d1)"
      using that ents by (simp add: set_omap_set_new[OF nf])
    then show ?thesis using old(3)[of "fst kv" "snd kv" k] by simp
  qed
  show "\<not> registered (dictTimer ?d) sid" if "dictAlloc ?d \<le> sid" for sid
    using that new unreg[of sid] by (auto simp: fresh_entry_def)
  show "entriesAdded (dictionaryStatus ?d) =
      entriesRemoved (dictionaryStatus ?d) + of_nat (length (dictionaryEntries ?d))"
    using inv new ents
    by (simp add: dict_inv_def fresh_entry_def insert_entry_def length_omap_set_new[OF nf])
qed

lemma abs_dict_insert_fresh:
  assumes inv: "dict_inv d1" and new: "fresh_entry v ms d1 e d2"
    and nf: "omap_find (dictionaryEntries d1) k = None"
  shows "abs_dict (insert_entry k e d2) = spec_put k v ms (abs_dict d1)"
proof
  fix k'
  let ?d = "insert_entry k e d2"
  have om: "omap_inv (dictionaryEntries d1)" using inv by (simp add: dict_inv_def)
  have ents: "dictionaryEntries d2 = dictionaryEntries d1" using new by (simp add: fresh_entry_def)
  have "abs_dict ?d k' = (if k' = k then abs_dict ?d k else abs_dict d1 k')"
    using om ents fresh_entry_old(1)[OF inv new map_of_SomeD, of k']
    by (auto simp: abs_dict_def dataIsExpired_def split: option.splits)
  moreover have "abs_dict ?d k = spec_put k v ms (abs_dict d1) k"
  proof -
    let ?s = "entry_service d2 e"
    have s: "interval ?s = ms" "dict_data e = v"
      "unat (ticksLeft ?s) = (if 0 \<le> ms then nat (1 + ms div millisPerTick) else 0)"
      using new by (auto simp: fresh_entry_def)
    have f: "omap_find (omap_set k e (dictionaryEntries d2)) k = Some e" using om ents by simp
    have x: "getIsExpired ?s \<longleftrightarrow> ms < 0"
      using s(3) by (auto simp: getIsExpired_def unat_eq_0[symmetric] millisPerTick_def
          split: if_splits)
    have a: "abs_dict d1 k = None" using nf by (simp add: abs_dict_def)
    consider "ms = noExpiration" | "ms \<noteq> noExpiration" "ms < 0" | "0 \<le> ms" "ms \<noteq> noExpiration"
      by (cases "ms = noExpiration"; cases "ms < 0") (auto simp: noExpiration_def)
    then show ?thesis
      by cases (simp_all add: abs_dict_def dataIsExpired_def spec_put_def entry_life_def f s x
          a[unfolded abs_dict_def])
  qed
  ultimately show "abs_dict ?d k' = spec_put k v ms (abs_dict d1) k'"
    by (auto simp: spec_put_def)
qed

lemma dict_get_room: "dict_get k d = (r, f, d1) \<Longrightarrow> timer_room d1 = timer_room d"
  by (auto simp: timer_room_def dict_get_def deleteDictionaryData_def unregisterTimerTickService_def
      split: option.splits if_splits)

lemma dict_add_correct:
  assumes inv: "dict_inv d" and room: "timer_room d" and rng: "ms < 2 ^ 31" and key: "k \<noteq> ''''"
    and absent: "abs_dict d k = None"
  shows "\<exists>d'. dict_add k v ms d = (Inr True, d') \<and> dict_inv d' \<and>
           abs_dict d' = spec_put k v ms (abs_dict d)"
proof -
  obtain r f d1 where g: "dict_get k d = (r, f, d1)" by (cases "dict_get k d")
  note gc = dict_get_correct[OF inv g]
  have f: "\<not> f" using gc(3) absent by simp
  then have nf: "omap_find (dictionaryEntries d1) k = None" by (rule gc(5))
  have room1: "timer_room d1" using room dict_get_room[OF g] by simp
  obtain e d2 where n: "newDictionaryData v ms d1 = (Inr e, d2)" "fresh_entry v ms d1 e d2"
    using newDictionaryData_correct[OF gc(1) room1 rng, of v] by blast
  have "dict_add k v ms d = (Inr True, insert_entry k e d2)"
    using key g f n nf by (simp add: dict_add_def insert_entry_def fresh_entry_def)
  then show ?thesis
    using dict_inv_insert_fresh[OF gc(1) n(2) key nf] abs_dict_insert_fresh[OF gc(1) n(2) nf] gc(2)
    by simp
qed

lemma dict_add_refused:
  assumes inv: "dict_inv d" and "k = '''' \<or> abs_dict d k \<noteq> None"
  shows "\<exists>d'. dict_add k v ms d = (Inr False, d') \<and> dict_inv d' \<and> abs_dict d' = abs_dict d"
proof (cases "k = ''''")
  case True
  with inv show ?thesis by (simp add: dict_add_def)
next
  case False
  obtain r f d1 where g: "dict_get k d = (r, f, d1)" by (cases "dict_get k d")
  with False assms dict_get_correct[OF inv g] show ?thesis
    by (auto simp: dict_add_def)
qed

section \<open>Clearing, ticking and visiting\<close>

lemma delete_entries:
  assumes "tick_inv (dictTimer d)"
  shows "tick_inv (dictTimer (fold (\<lambda>kv. deleteDictionaryData (snd kv)) es d)) \<and>
    (registered (dictTimer (fold (\<lambda>kv. deleteDictionaryData (snd kv)) es d)) sid \<longrightarrow>
      registered (dictTimer d) sid) \<and>
    dictAlloc (fold (\<lambda>kv. deleteDictionaryData (snd kv)) es d) = dictAlloc d \<and>
    dictionaryStatus (fold (\<lambda>kv. deleteDictionaryData (snd kv)) es d) = dictionaryStatus d \<and>
    nextTimerTickId (dictTimer (fold (\<lambda>kv. deleteDictionaryData (snd kv)) es d)) =
      nextTimerTickId (dictTimer d)"
  using assms
proof (induction es arbitrary: d)
  case Nil
  then show ?case by simp
next
  case (Cons kv es)
  have "nextTimerTickId (dictTimer (deleteDictionaryData e d)) = nextTimerTickId (dictTimer d)" for e
    by (simp add: deleteDictionaryData_def unregisterTimerTickService_def split: option.splits)
  with Cons.IH[OF deleteDictionaryData_timer(1)[OF Cons.prems], of "snd kv"]
    deleteDictionaryData_timer(2)[OF Cons.prems, of "snd kv" sid]
  show ?case by auto
qed

lemma dict_clear_correct:
  assumes inv: "dict_inv d"
  shows "dict_inv (dict_clear d)" and "abs_dict (dict_clear d) = Map.empty"
proof -
  have t: "tick_inv (dictTimer d)" using inv by (simp add: dict_inv_def)
  note del = delete_entries[OF t, of "dictionaryEntries d"]
  show "dict_inv (dict_clear d)"
    using inv del unfolding dict_inv_def by (auto simp: dict_clear_def)
  show "abs_dict (dict_clear d) = Map.empty"
    by (simp add: abs_dict_def dict_clear_def fun_eq_iff)
qed

lemma dict_tick_sel [simp]:
  "dictionaryEntries (dict_tick d) = dictionaryEntries d"
  "dictAlloc (dict_tick d) = dictAlloc d"
  "dictionaryStatus (dict_tick d) = dictionaryStatus d"
  "dictTimer (dict_tick d) = timerTick (dictTimer d)"
  by (simp_all add: dict_tick_def)

lemma tickOnly_one_shot:
  assumes "\<not> periodic s"
  shows "unat (ticksLeft (tickOnly s)) = unat (ticksLeft s) - 1"
proof (cases "ticksLeft s = 0")
  case True
  then show ?thesis by (simp add: tickOnly_def tickService_def)
next
  case False
  then have "unat (ticksLeft s - 1) = unat (ticksLeft s) - 1" by (rule unat_minus_one_neq)
  moreover have "ticksLeft s - 1 = 0 \<longleftrightarrow> unat (ticksLeft s) - 1 = 0"
    by (metis calculation unat_eq_0)
  ultimately show ?thesis
    using False assms
    by (auto simp: tickOnly_def tickService_def Let_def split_beta word_gt_0)
qed

lemma dict_tick_correct:
  assumes inv: "dict_inv d"
  shows "dict_inv (dict_tick d)" and "abs_dict (dict_tick d) = spec_tick (abs_dict d)"
proof -
  have t: "tick_inv (dictTimer d)" using inv by (simp add: dict_inv_def)
  note sv = timerTick_services[OF t]
  show "dict_inv (dict_tick d)"
    using inv unfolding dict_inv_def by (auto simp: entry_ok_def sv tick_inv_timerTick)
  show "abs_dict (dict_tick d) = spec_tick (abs_dict d)"
  proof
    fix k
    show "abs_dict (dict_tick d) k = spec_tick (abs_dict d) k"
    proof (cases "omap_find (dictionaryEntries d) k")
      case None
      then show ?thesis by (simp add: abs_dict_def spec_tick_def)
    next
      case (Some e)
      let ?s = "entry_service d e"
      have ok: "entry_ok d (k, e)" using inv map_of_SomeD[OF Some] by (auto simp: dict_inv_def)
      show ?thesis
      proof (cases "0 \<le> interval ?s")
        case True
        with ok have "entry_service (dict_tick d) e = tickOnly ?s" "\<not> periodic ?s"
          by (auto simp: entry_ok_def sv)
        with True Some tickOnly_one_shot[of ?s] show ?thesis
          by (auto simp: abs_dict_def spec_tick_def dataIsExpired_def entry_life_def noExpiration_def
              getIsExpired_def simp flip: unat_eq_0)
      next
        case False
        with ok have "entry_service (dict_tick d) e = ?s" "ticksLeft ?s = 0"
          by (auto simp: entry_ok_def sv)
        with False Some show ?thesis
          by (auto simp: abs_dict_def spec_tick_def dataIsExpired_def entry_life_def getIsExpired_def)
      qed
    qed
  qed
qed

text \<open>\<^verbatim>\<open>getNext\<close> finds the next live key, and drops what it passes.\<close>

lemma upper_bound_Nil:
  "omap_inv m \<Longrightarrow> omap_upper_bound key m = [] \<Longrightarrow> key < k \<Longrightarrow> omap_find m k = None"
  by (force simp: omap_upper_bound_filter filter_empty_conv map_of_eq_None_iff)

lemma upper_bound_Cons:
  assumes "omap_inv m" "omap_upper_bound key m = e # es" "key < k" "k < fst e"
  shows "omap_find m k = None"
proof (rule ccontr)
  assume "omap_find m k \<noteq> None"
  then obtain v where "(k, v) \<in> set m" by (auto dest: map_of_SomeD)
  with assms have "(k, v) \<in> set (e # es)" by (metis (no_types, lifting) fst_conv
        mem_Collect_eq omap_upper_bound_filter set_filter)
  moreover have "omap_inv (e # es)" using assms(1,2) omap_upper_bound_inv by metis
  ultimately show False using assms(4) by (cases e) force
qed

lemma getNext_correct:
  assumes "dict_inv d" "getNext key d = (key', v, f, d')"
  shows "dict_inv d' \<and> abs_dict d' = abs_dict d \<and> timer_room d' = timer_room d \<and>
    nextTimerTickId (dictTimer d') = nextTimerTickId (dictTimer d) \<and>
    (\<forall>k. omap_find (dictionaryEntries d) k = None \<longrightarrow> omap_find (dictionaryEntries d') k = None) \<and>
    (f \<longrightarrow> key < key' \<and> map_option fst (abs_dict d key') = Some v) \<and>
    (\<forall>k. key < k \<and> (f \<longrightarrow> k < key') \<longrightarrow> omap_find (dictionaryEntries d') k = None)"
  using assms
proof (induction key d rule: getNext.induct)
  case (1 key d)
  have om: "omap_inv (dictionaryEntries d)" using 1(2) by (simp add: dict_inv_def)
  show ?case
  proof (cases "omap_upper_bound key (dictionaryEntries d)")
    case Nil
    with 1(2,3) upper_bound_Nil[OF om Nil] show ?thesis by (auto simp: getNext.simps[of key d])
  next
    case (Cons e es)
    obtain r g d1 where g: "dict_get (fst e) d = (r, g, d1)" by (cases "dict_get (fst e) d")
    note gc = dict_get_correct[OF 1(2) g] and gr = dict_get_room[OF g]
    note lt = omap_upper_bound_hd_less[OF Cons] and gap = upper_bound_Cons[OF om Cons]
    have mono: "omap_find (dictionaryEntries d1) k = None" if "omap_find (dictionaryEntries d) k = None" for k
      using dict_get_entries[of "fst e" d] g that by auto
    have nxt: "nextTimerTickId (dictTimer d1) = nextTimerTickId (dictTimer d)"
      using g by (auto simp: dict_get_def deleteDictionaryData_def unregisterTimerTickService_def
          split: option.splits if_splits)
    show ?thesis
    proof (cases g)
      case True
      then have "key' = fst e" "v = r" "f" "d' = d1"
        using 1(3) Cons g by (simp_all add: getNext.simps[of key d])
      with True gc gr lt gap mono nxt show ?thesis by (auto split: option.splits)
    next
      case False
      then have eq: "getNext (fst e) d1 = (key', v, f, d')"
        using 1(3) Cons g by (simp add: getNext.simps[of key d])
      have z: "omap_find (dictionaryEntries d1) (fst e) = None" using gc(5) False by simp
      note ih = 1(1)[OF Cons g[symmetric] refl _ gc(1) eq]
      have "omap_find (dictionaryEntries d') k = None" if "key < k" "f \<longrightarrow> k < key'" for k
        using ih False z gap[of k] mono[of k] that by (cases k "fst e" rule: linorder_cases) auto
      with ih False gc(2) gr lt mono nxt show ?thesis by auto
    qed
  qed
qed

lemma visitFrom_correct:
  assumes "dict_inv d" "visitFrom key d = (es, d')"
  shows "dict_inv d' \<and> abs_dict d' = abs_dict d \<and>
    nextTimerTickId (dictTimer d') = nextTimerTickId (dictTimer d) \<and>
    (\<forall>k. omap_find (dictionaryEntries d) k = None \<longrightarrow> omap_find (dictionaryEntries d') k = None) \<and>
    sorted_wrt (<) (map fst es) \<and>
    set es = {(k, v). key < k \<and> map_option fst (abs_dict d k) = Some v} \<and>
    (\<forall>k. key < k \<and> abs_dict d k = None \<longrightarrow> omap_find (dictionaryEntries d') k = None)"
  using assms
proof (induction key d arbitrary: es rule: visitFrom.induct)
  case (1 key d)
  obtain key' v f d1 where n: "getNext key d = (key', v, f, d1)" by (cases "getNext key d")
  note nc = getNext_correct[OF 1(2) n]
  have abs_none: "abs_dict d k = None" if "omap_find (dictionaryEntries d1) k = None" for k
  proof -
    have "abs_dict d1 k = None" using that by (simp add: abs_dict_def)
    then show ?thesis using nc by simp
  qed
  show ?case
  proof (cases f)
    case False
    then have "es = []" "d' = d1" using 1(3) n by (auto simp: visitFrom.simps[of key d])
    moreover have gone: "omap_find (dictionaryEntries d1) k = None" if "key < k" for k
      using nc False that by blast
    moreover have "{(k, v). key < k \<and> map_option fst (abs_dict d k) = Some v} = {}"
      by (simp add: abs_none[OF gone] cong: conj_cong)
    ultimately show ?thesis using nc by simp
  next
    case True
    obtain es' d2 where w: "visitFrom key' d1 = (es', d2)" by (cases "visitFrom key' d1")
    then have es: "es = (key', v) # es'" "d' = d2"
      using 1(3) n True by (auto simp: visitFrom.simps[of key d])
    have d1: "dict_inv d1" using nc by blast
    note ih = 1(1)[OF n[symmetric] refl refl iffD2[OF eq_True True] d1 w[folded es(2)]]
    have ih: "dict_inv d' \<and> abs_dict d' = abs_dict d \<and>
      nextTimerTickId (dictTimer d') = nextTimerTickId (dictTimer d1) \<and>
      (\<forall>k. omap_find (dictionaryEntries d1) k = None \<longrightarrow> omap_find (dictionaryEntries d') k = None) \<and>
      sorted_wrt (<) (map fst es') \<and>
      set es' = {(k, v). key' < k \<and> map_option fst (abs_dict d k) = Some v} \<and>
      (\<forall>k. key' < k \<and> abs_dict d k = None \<longrightarrow> omap_find (dictionaryEntries d') k = None)"
      using ih nc by simp
    have gap: "abs_dict d k = None \<and> omap_find (dictionaryEntries d') k = None" if "key < k" "k < key'" for k
      using nc True ih that abs_none by blast
    have kv: "key < key'" "map_option fst (abs_dict d key') = Some v" using nc True by auto
    have "set es = {(k, v). key < k \<and> map_option fst (abs_dict d k) = Some v}"
    proof -
      have "(k, x) \<in> set es \<longleftrightarrow> key < k \<and> map_option fst (abs_dict d k) = Some x" for k x
        using ih kv gap[of k] es by (cases k key' rule: linorder_cases) auto
      then show ?thesis by auto
    qed
    moreover have "omap_find (dictionaryEntries d') k = None" if "key < k" "abs_dict d k = None" for k
      using ih kv gap[of k] that by (cases k key' rule: linorder_cases) auto
    moreover have "sorted_wrt (<) (map fst es)" using ih es by auto
    ultimately show ?thesis using ih nc by auto
  qed
qed

section \<open>Refinement of the abstract dictionary\<close>

text \<open>Requests, ticks and purges in any order. \<^verbatim>\<open>remove\<close> answers whether a
  possibly expired entry was there; its callers drop the answer.\<close>

datatype dict_op =
    OpGet string | OpAdd string string int | OpRemove string | OpClear
  | OpPost StringMap | OpLoop InboxMsg | OpTick

datatype dict_out = OutValue "string option" | OutOk bool | OutDone

fun dict_step :: "dict_op \<Rightarrow> Dictionary \<Rightarrow> dict_out \<times> Dictionary" where
  "dict_step (OpGet k) d = (case dict_get k d of (v, f, d') \<Rightarrow> (OutValue (if f then Some v else None), d'))"
| "dict_step (OpAdd k v ms) d = (case dict_add k v ms d of (r, d') \<Rightarrow> (OutOk (r = Inr True), d'))"
| "dict_step (OpRemove k) d = (OutDone, snd (dict_remove k d))"
| "dict_step OpClear d = (OutDone, dict_clear d)"
| "dict_step (OpPost m) d = (case dict_parsePostRequest m d of (b, d') \<Rightarrow> (OutOk b, d'))"
| "dict_step (OpLoop msg) d = (case dictionaryLoopStep msg d of (b, d') \<Rightarrow> (OutOk b, d'))"
| "dict_step OpTick d = (OutDone, dict_tick d)"

definition spec_add :: "string \<Rightarrow> string \<Rightarrow> int \<Rightarrow> dict_spec \<Rightarrow> bool \<times> dict_spec" where
  "spec_add k v ms m =
     (if k = '''' \<or> m k \<noteq> None then (False, m) else (True, spec_put k v ms m))"

definition spec_post :: "StringMap \<Rightarrow> dict_spec \<Rightarrow> bool \<times> dict_spec" where
  "spec_post m s =
     (let op = snd (getParamValue m dictionaryParamOperation ''set'');
          (haveKey, key) = getParamValue m dictionaryParamKey '''';
          (haveData, v) = getParamValue m dictionaryParamData ''''
      in if op = ''del'' then (True, if key = '''' then Map.empty else s(key := None))
         else if haveKey \<and> haveData \<and> (op = ''set'' \<or> op = ''add'') then
           (let s1 = (if op = ''set'' then s(key := None) else s)
            in case stoi (snd (getParamValue m dictionaryParamTimeout ''-1'')) 10 of
                 None \<Rightarrow> (False, s1)
               | Some ms \<Rightarrow> spec_add key v ms s1)
         else (False, s))"

fun spec_step :: "dict_op \<Rightarrow> dict_spec \<Rightarrow> dict_out \<times> dict_spec" where
  "spec_step (OpGet k) m = (OutValue (map_option fst (m k)), m)"
| "spec_step (OpAdd k v ms) m = (case spec_add k v ms m of (b, m') \<Rightarrow> (OutOk b, m'))"
| "spec_step (OpRemove k) m = (OutDone, m(k := None))"
| "spec_step OpClear m = (OutDone, Map.empty)"
| "spec_step (OpPost p) m = (case spec_post p m of (b, m') \<Rightarrow> (OutOk b, m'))"
| "spec_step (OpLoop msg) m = (OutOk (inboxMsgType msg \<noteq> inboxMsgTypeTerminate), m)"
| "spec_step OpTick m = (OutDone, spec_tick m)"

fun run_ops :: "(dict_op \<Rightarrow> 's \<Rightarrow> dict_out \<times> 's) \<Rightarrow> dict_op list \<Rightarrow> 's \<Rightarrow> dict_out list \<times> 's" where
  "run_ops step [] s = ([], s)"
| "run_ops step (op # ops) s =
     (case step op s of (out, s') \<Rightarrow> (case run_ops step ops s' of (outs, s'') \<Rightarrow> (out # outs, s'')))"

text \<open>An operation uses at most one timer id; \<open>ids_left d n\<close> says that at least \<open>n\<close> remain.\<close>

definition ids_left :: "Dictionary \<Rightarrow> nat \<Rightarrow> bool" where
  "ids_left d n \<longleftrightarrow> nextTimerTickId (dictTimer d) \<noteq> 0 \<and> unat (nextTimerTickId (dictTimer d)) + n < 2 ^ 64"

abbreviation dict_ids :: "Dictionary \<Rightarrow> TimerTickId" where
  "dict_ids d \<equiv> nextTimerTickId (dictTimer d)"

definition op_ok :: "dict_op \<Rightarrow> bool" where
  "op_ok op \<longleftrightarrow> (case op of OpAdd _ _ ms \<Rightarrow> ms < 2 ^ 31 | _ \<Rightarrow> True)"

lemma ids_left_room: "ids_left d (Suc n) \<Longrightarrow> timer_room d"
proof -
  assume a: "ids_left d (Suc n)"
  then have "unat (dict_ids d + 1) = Suc (unat (dict_ids d))"
    by (simp add: ids_left_def unat_word_ariths)
  then have "dict_ids d + 1 \<noteq> 0" by (metis unat_0 nat.distinct(1))
  with a show ?thesis by (simp add: ids_left_def timer_room_def)
qed

lemma ids_left_step:
  assumes "ids_left d (Suc n)" "dict_ids d' = dict_ids d \<or> dict_ids d' = dict_ids d + 1"
  shows "ids_left d' n"
proof -
  have "dict_ids d + 1 \<noteq> 0" using ids_left_room[OF assms(1)] by (simp add: timer_room_def)
  then have "unat (dict_ids d + 1) = Suc (unat (dict_ids d))" by (rule unat_plus_one_neq)
  with assms show ?thesis by (auto simp: ids_left_def)
qed

lemma unregister_ids [simp]:
  "nextTimerTickId (unregisterTimerTickService c w) = nextTimerTickId w"
  by (simp add: unregisterTimerTickService_def split: option.splits)

lemma delete_ids [simp]: "dict_ids (deleteDictionaryData e d) = dict_ids d"
  by (simp add: deleteDictionaryData_def)

lemma remove_ids [simp]: "dict_ids (snd (dict_remove k d)) = dict_ids d"
  by (simp add: dict_remove_def split: option.splits)

lemma get_ids [simp]: "dict_ids (snd (snd (dict_get k d))) = dict_ids d"
  by (simp add: dict_get_def split: option.splits)

lemma clear_ids: "dict_inv d \<Longrightarrow> dict_ids (dict_clear d) = dict_ids d"
  using delete_entries[of d] by (auto simp: dict_clear_def dict_inv_def)

lemma tick_ids [simp]: "dict_ids (dict_tick d) = dict_ids d"
  by (simp add: timerTick_def tickEntries_frame)

lemma register_ids:
  "nextTimerTickId (snd (registerTimerTickService sid b w)) = nextTimerTickId w \<or>
   nextTimerTickId (snd (registerTimerTickService sid b w)) = nextTimerTickId w + 1"
  by (simp add: registerTimerTickService_def Let_def)

lemma new_ids: "dict_ids (snd (newDictionaryData s ms d)) = dict_ids d \<or>
   dict_ids (snd (newDictionaryData s ms d)) = dict_ids d + 1"
  using register_ids[of "dictAlloc d" True
      "update_service (dictAlloc d) (\<lambda>_. mkTimerTickService ms False (TimerTickServiceBool False)) (dictTimer d)"]
  by (auto simp: newDictionaryData_def Let_def split: prod.splits sum.splits)

lemma add_ids: "dict_ids (snd (dict_add k s ms d)) = dict_ids d \<or>
   dict_ids (snd (dict_add k s ms d)) = dict_ids d + 1"
proof -
  obtain v f d1 where g: "dict_get k d = (v, f, d1)" by (cases "dict_get k d")
  obtain r d2 where n: "newDictionaryData s ms d1 = (r, d2)" by (cases "newDictionaryData s ms d1")
  have "dict_ids d1 = dict_ids d" using get_ids[of k d] g by simp
  with new_ids[of s ms d1] g n show ?thesis
    by (cases f; cases r) (auto simp: dict_add_def)
qed

lemma stoi_range: "stoi s b = Some n \<Longrightarrow> n < 2 ^ 31"
  by (auto simp: stoi_def sto_signed_def signed_range_def split: option.splits if_splits prod.splits)

lemma dict_add_refines:
  assumes "dict_inv d" "timer_room d" "ms < 2 ^ 31" "dict_add k v ms d = (r, d')"
  shows "dict_inv d' \<and> (\<exists>b. r = Inr b \<and> spec_add k v ms (abs_dict d) = (b, abs_dict d'))"
proof (cases "k = '''' \<or> abs_dict d k \<noteq> None")
  case True
  then show ?thesis using dict_add_refused[OF assms(1) True, of v ms] assms(4) by (auto simp: spec_add_def)
next
  case False
  then have k: "k \<noteq> ''''" "abs_dict d k = None" by blast+
  show ?thesis using dict_add_correct[OF assms(1-3) k, of v] assms(4) k by (auto simp: spec_add_def)
qed

lemma dict_post_refines:
  assumes inv: "dict_inv d" and room: "timer_room d" and post: "dict_parsePostRequest m d = (b, d')"
  shows "dict_inv d' \<and> spec_post m (abs_dict d) = (b, abs_dict d') \<and>
    (dict_ids d' = dict_ids d \<or> dict_ids d' = dict_ids d + 1)"
proof -
  define op where "op = snd (getParamValue m dictionaryParamOperation ''set'')"
  define ts where "ts = snd (getParamValue m dictionaryParamTimeout ''-1'')"
  obtain hk k where k: "getParamValue m dictionaryParamKey '''' = (hk, k)" by fastforce
  obtain hd v where v: "getParamValue m dictionaryParamData '''' = (hd, v)" by fastforce
  let ?d1 = "snd (dict_remove k d)"
  note rem = dict_remove_correct[OF inv, of k]
  have dec: "dec_int noExpiration = ''-1''" by code_simp
  note defs = dict_parsePostRequest_def spec_post_def Let_def dec noData_def
    op_def[symmetric] ts_def[symmetric] k v
  consider (bad) "op \<noteq> ''del''" "\<not> (hk \<and> hd \<and> (op = ''set'' \<or> op = ''add''))"
    | (del) "op = ''del''" | (put) "op = ''set'' \<or> op = ''add''" "op \<noteq> ''del''" hk hd
    by blast
  then show ?thesis
  proof cases
    case bad
    then show ?thesis using post inv by (auto simp: defs split: if_splits)
  next
    case del
    then show ?thesis using post rem dict_clear_correct[OF inv] clear_ids[OF inv]
      by (auto simp: defs)
  next
    case put
    let ?d0 = "if op = ''set'' then ?d1 else d"
    have d0: "dict_inv ?d0" "timer_room ?d0" "dict_ids ?d0 = dict_ids d"
      "abs_dict ?d0 = (if op = ''set'' then (abs_dict d)(k := None) else abs_dict d)"
      using rem inv room by (auto simp: timer_room_def)
    show ?thesis
    proof (cases "stoi ts 10")
      case None
      then show ?thesis using put post d0 by (auto simp: defs)
    next
      case (Some ms)
      obtain r d2 where a: "dict_add k v ms ?d0 = (r, d2)" by fastforce
      note ref = dict_add_refines[OF d0(1,2) stoi_range[OF Some] a]
      have "dict_ids d2 = dict_ids d \<or> dict_ids d2 = dict_ids d + 1"
        using add_ids[of k v ms ?d0] a d0(3) by simp
      moreover have "(b, d') = (case r of Inl _ \<Rightarrow> (False, d2) | Inr ok \<Rightarrow> (ok, d2))"
        using put post Some a by (auto simp: defs split: if_splits)
      ultimately show ?thesis using put ref d0(4) Some by (auto simp: defs)
    qed
  qed
qed

lemma dict_loop_refines:
  assumes "dict_inv d" "dictionaryLoopStep msg d = (b, d')"
  shows "dict_inv d' \<and> abs_dict d' = abs_dict d \<and> dict_ids d' = dict_ids d \<and>
    (b \<longleftrightarrow> inboxMsgType msg \<noteq> inboxMsgTypeTerminate)"
proof -
  obtain es d1 where v: "visitFrom '''' d = (es, d1)" by fastforce
  show ?thesis
    using assms visitFrom_correct[OF assms(1) v] v
    by (auto simp: dictionaryLoopStep_def purgeExpiredDictionaryEntries_def split: if_splits)
qed

lemma dict_step_refines:
  assumes inv: "dict_inv d" and ids: "ids_left d (Suc n)" and ok: "op_ok op"
    and step: "dict_step op d = (out, d')"
  shows "dict_inv d' \<and> ids_left d' n \<and> spec_step op (abs_dict d) = (out, abs_dict d')"
proof -
  note room = ids_left_room[OF ids]
  have "dict_inv d' \<and> (dict_ids d' = dict_ids d \<or> dict_ids d' = dict_ids d + 1) \<and>
    spec_step op (abs_dict d) = (out, abs_dict d')"
  proof (cases op)
    case (OpGet k)
    obtain v f d1 where g: "dict_get k d = (v, f, d1)" by (cases "dict_get k d")
    then show ?thesis
      using step OpGet dict_get_correct[OF inv g] get_ids[of k d]
      by (auto split: option.splits)
  next
    case (OpAdd k v ms)
    obtain r d1 where a: "dict_add k v ms d = (r, d1)" by fastforce
    then show ?thesis
      using step OpAdd ok add_ids[of k v ms d] dict_add_refines[OF inv room _ a]
      by (auto simp: op_ok_def)
  next
    case (OpRemove k)
    then show ?thesis using step dict_remove_correct[OF inv] by auto
  next
    case OpClear
    then show ?thesis using step dict_clear_correct[OF inv] clear_ids[OF inv] by auto
  next
    case (OpPost m)
    then show ?thesis using step dict_post_refines[OF inv room] by (auto split: prod.splits)
  next
    case (OpLoop msg)
    then show ?thesis using step dict_loop_refines[OF inv] by (auto split: prod.splits)
  next
    case OpTick
    then show ?thesis using step dict_tick_correct[OF inv] tick_ids by auto
  qed
  then show ?thesis using ids_left_step[OF ids] by blast
qed

text \<open>
  C1. The dictionary refines its abstract specification: whatever sequence of lookups,
  additions, removals, POST requests, messages to its thread and timer ticks it goes through,
  it answers as a map from keys to values with a remaining life answers, as long as timer ids
  remain for the sequence; expired entries are never seen, although they are dropped late.
\<close>

theorem dictionary_refines_spec:
  assumes "dict_inv d" and "ids_left d (length ops)" and "list_all op_ok ops"
    and "run_ops dict_step ops d = (outs, d')"
  shows "dict_inv d' \<and> run_ops spec_step ops (abs_dict d) = (outs, abs_dict d')"
  using assms
proof (induction ops arbitrary: d outs)
  case Nil
  then show ?case by simp
next
  case (Cons op ops)
  obtain out d1 where s: "dict_step op d = (out, d1)" by fastforce
  obtain os d2 where r: "run_ops dict_step ops d1 = (os, d2)" by fastforce
  have "op_ok op" "list_all op_ok ops" "ids_left d (Suc (length ops))" using Cons.prems by simp_all
  with dict_step_refines[OF Cons.prems(1) _ _ s] Cons.IH[of d1 os] Cons.prems(4) s r
  show ?case by auto
qed

lemma dict_inv_new: "tick_inv w \<Longrightarrow> \<forall>sid \<ge> a. \<not> registered w sid \<Longrightarrow> dict_inv (newDictionary w a)"
  by (simp add: dict_inv_def newDictionary_def)

lemma abs_dict_new [simp]: "abs_dict (newDictionary w a) = Map.empty"
  by (simp add: abs_dict_def newDictionary_def fun_eq_iff)

definition sampleDict :: Dictionary where
  "sampleDict = newDictionary sampleTimer 0"

lemma sampleDict_ok [simp]: "dict_inv sampleDict" "abs_dict sampleDict = Map.empty"
  "n < 2 ^ 64 - 1 \<Longrightarrow> ids_left sampleDict n" "timer_room sampleDict"
  "omap_find (dictionaryEntries sampleDict) k = None"
  by (simp_all add: sampleDict_def dict_inv_new)
    (simp_all add: ids_left_def newDictionary_def timer_room_def)

theorem dictionary_refines_spec_witness:
  "fst (run_ops dict_step
     [OpAdd ''k'' ''v'' 24, OpAdd ''k'' ''w'' (-1), OpTick, OpTick, OpGet ''k'', OpTick, OpGet ''k'',
      OpPost [(''dictionaryData'', ''z''), (''dictionaryKey'', ''k'')], OpTick, OpGet ''k''] sampleDict)
   = [OutOk True, OutOk False, OutDone, OutDone, OutValue (Some ''v''), OutDone, OutValue None,
      OutOk True, OutDone, OutValue (Some ''z'')]"
proof -
  let ?ops = "[OpAdd ''k'' ''v'' 24, OpAdd ''k'' ''w'' (-1), OpTick, OpTick, OpGet ''k'', OpTick,
    OpGet ''k'', OpPost [(''dictionaryData'', ''z''), (''dictionaryKey'', ''k'')], OpTick, OpGet ''k'']"
  have m1: "stoi ''-1'' 10 = Some (-1)" by code_simp
  have "\<exists>m. run_ops spec_step ?ops Map.empty =
    ([OutOk True, OutOk False, OutDone, OutDone, OutValue (Some ''v''), OutDone, OutValue None,
      OutOk True, OutDone, OutValue (Some ''z'')], m)"
    by (simp add: spec_add_def spec_put_def spec_tick_def spec_post_def getParamValue_def m1
        dictionaryParamOperation_def dictionaryParamKey_def dictionaryParamData_def
        dictionaryParamTimeout_def noExpiration_def millisPerTick_def)
  moreover obtain outs d' where "run_ops dict_step ?ops sampleDict = (outs, d')" by fastforce
  ultimately show ?thesis
    using dictionary_refines_spec[of sampleDict ?ops outs d'] by (auto simp: op_ok_def)
qed

lemma spec_tick_live:
  "m k = Some (v, Some l) \<Longrightarrow> 0 < l \<Longrightarrow>
   (spec_tick ^^ n) m k = (if n < l then Some (v, Some (l - n)) else None)"
  by (induction n) (auto simp: spec_tick_def)

lemma spec_tick_forever: "m k = Some (v, None) \<Longrightarrow> (spec_tick ^^ n) m k = Some (v, None)"
  by (induction n) (auto simp: spec_tick_def)

lemma spec_tick_absent: "m k = None \<Longrightarrow> (spec_tick ^^ n) m k = None"
  by (induction n) (auto simp: spec_tick_def)

lemma dict_ticks_correct:
  "dict_inv d \<Longrightarrow> dict_inv ((dict_tick ^^ n) d) \<and> abs_dict ((dict_tick ^^ n) d) = (spec_tick ^^ n) (abs_dict d)"
  by (induction n) (auto simp: dict_tick_correct)

text \<open>
  C26. Life of an entry: an entry added with a life of \<open>ms\<close> milliseconds is found on
  lookup after \<open>n\<close> ticks if and only if \<open>n\<close> is at most \<open>ms\<close> divided by the
  length of a tick; one added with no expiration is found for ever; one added with any other
  negative life is accepted and never found.
\<close>

theorem dict_entry_life:
  assumes "dict_inv d" and "timer_room d" and "ms < 2 ^ 31" and "k \<noteq> ''''"
    and "\<not> fst (snd (dict_get k d))"
  shows "\<exists>d'. dict_add k v ms d = (Inr True, d') \<and>
    (\<forall>n. (case dict_get k ((dict_tick ^^ n) d') of (s, found, _) \<Rightarrow>
       (found \<longleftrightarrow> ms = noExpiration \<or> 0 \<le> ms \<and> int n \<le> ms div millisPerTick) \<and>
       s = (if found then v else noData)))"
proof -
  obtain s f d0 where g: "dict_get k d = (s, f, d0)" by (cases "dict_get k d")
  then have absent: "abs_dict d k = None"
    using dict_get_correct(3)[OF assms(1) g] assms(5) by (metis fst_conv snd_conv)
  obtain d' where d': "dict_add k v ms d = (Inr True, d')" "dict_inv d'"
    "abs_dict d' = spec_put k v ms (abs_dict d)"
    using dict_add_correct[OF assms(1-4) absent] by blast
  have "case dict_get k ((dict_tick ^^ n) d') of (s, found, _) \<Rightarrow>
       (found \<longleftrightarrow> ms = noExpiration \<or> 0 \<le> ms \<and> int n \<le> ms div millisPerTick) \<and>
       s = (if found then v else noData)" for n
  proof -
    let ?d = "(dict_tick ^^ n) d'"
    obtain s f d2 where g: "dict_get k ?d = (s, f, d2)" by (cases "dict_get k ?d")
    note tk = dict_ticks_correct[OF d'(2), of n]
    note gc = dict_get_correct[OF _ g]
    consider "ms = noExpiration" | "ms \<noteq> noExpiration" "ms < 0" | "ms \<noteq> noExpiration" "0 \<le> ms"
      by (cases "ms = noExpiration"; cases "ms < 0") auto
    then show ?thesis
    proof cases
      case 1
      then have "abs_dict ?d k = Some (v, None)"
        using tk d'(3) by (simp add: spec_put_def spec_tick_forever)
      then show ?thesis using 1 gc tk g by simp
    next
      case 2
      then have "abs_dict ?d k = None"
        using tk d'(3) absent by (simp add: spec_put_def spec_tick_absent)
      then show ?thesis using 2 gc tk g by simp
    next
      case 3
      let ?l = "nat (1 + ms div millisPerTick)"
      have l: "0 < ?l" "n < ?l \<longleftrightarrow> int n \<le> ms div millisPerTick"
        using 3 by (auto simp: millisPerTick_def)
      have "abs_dict ?d k = (if n < ?l then Some (v, Some (?l - n)) else None)"
        using tk d'(3) 3 l(1) by (simp add: spec_put_def spec_tick_live)
      then show ?thesis using 3 gc tk g l by auto
    qed
  qed
  with d' show ?thesis by blast
qed

theorem dict_entry_life_witness:
  "\<exists>d'. dict_add ''k'' ''v'' 1000 sampleDict = (Inr True, d') \<and>
    (\<forall>n. (case dict_get ''k'' ((dict_tick ^^ n) d') of (s, found, _) \<Rightarrow>
       (found \<longleftrightarrow> 1000 = noExpiration \<or> 0 \<le> (1000::int) \<and> int n \<le> 1000 div millisPerTick) \<and>
       s = (if found then ''v'' else noData)))"
  by (rule dict_entry_life) (simp_all add: dict_get_def)

text \<open>
  A visit of the dictionary with \<^verbatim>\<open>getFirst\<close> and \<^verbatim>\<open>getNext\<close>
  ends and gives every live entry once, in ascending order of the keys, and leaves exactly
  the live entries behind; the count of entries added, removed and held stays in balance.
\<close>

theorem visit_enumerates_live_entries:
  assumes "dict_inv d"
  shows "\<exists>es d'. visitFrom '''' d = (es, d') \<and> purgeExpiredDictionaryEntries d = d' \<and>
    sorted_wrt (<) (map fst es) \<and>
    (\<forall>k v. (k, v) \<in> set es \<longleftrightarrow> (\<exists>e. omap_find (dictionaryEntries d) k = Some e \<and>
        \<not> dataIsExpired d e \<and> dict_data e = v)) \<and>
    map fst (dictionaryEntries d') = map fst es \<and>
    entriesAdded (dictionaryStatus d') = entriesRemoved (dictionaryStatus d') + of_nat (length es)"
proof -
  obtain es d' where v: "visitFrom '''' d = (es, d')" by fastforce
  have ne: "'''' < k \<longleftrightarrow> k \<noteq> ''''" for k :: string by (cases k) simp_all
  have inv: "dict_inv d'" and abs: "abs_dict d' = abs_dict d"
    and sub: "omap_find (dictionaryEntries d) k = None \<Longrightarrow> omap_find (dictionaryEntries d') k = None"
    and sorted: "sorted_wrt (<) (map fst es)"
    and es: "(k, v) \<in> set es \<longleftrightarrow> k \<noteq> '''' \<and> map_option fst (abs_dict d k) = Some v"
    and gone: "k \<noteq> '''' \<Longrightarrow> abs_dict d k = None \<Longrightarrow> omap_find (dictionaryEntries d') k = None"
    for k v
    using visitFrom_correct[OF assms v] by (simp_all add: ne)
  have key: "k \<noteq> ''''" if "omap_find (dictionaryEntries d) k = Some e" for k e
    using assms map_of_SomeD[OF that] by (auto simp: dict_inv_def entry_ok_def)
  have mem: "(k, v) \<in> set es \<longleftrightarrow> (\<exists>e. omap_find (dictionaryEntries d) k = Some e \<and>
        \<not> dataIsExpired d e \<and> dict_data e = v)" for k v
    using key[of k] by (auto simp: es abs_dict_def split: option.splits if_splits)
  have live: "omap_find (dictionaryEntries d') k \<noteq> None \<longleftrightarrow> k \<in> fst ` set es" for k
  proof
    assume a: "omap_find (dictionaryEntries d') k \<noteq> None"
    then have k: "k \<noteq> ''''"
      using sub[of k] key[of k] by (cases "omap_find (dictionaryEntries d) k") auto
    with a gone obtain v l where "abs_dict d k = Some (v, l)" by fastforce
    with k have "(k, v) \<in> set es" by (simp add: es)
    then show "k \<in> fst ` set es" by force
  next
    assume "k \<in> fst ` set es"
    then obtain v where "(k, v) \<in> set es" by auto
    then have "abs_dict d' k \<noteq> None" by (auto simp: es abs)
    then show "omap_find (dictionaryEntries d') k \<noteq> None"
      by (auto simp: abs_dict_def split: option.splits)
  qed
  have "set (map fst (dictionaryEntries d')) = set (map fst es)"
    using live by (simp add: map_of_eq_None_iff set_eq_iff)
  moreover have "sorted_wrt (<) (map fst (dictionaryEntries d'))"
    using inv by (simp add: dict_inv_def omap_inv_def)
  ultimately have keys: "map fst (dictionaryEntries d') = map fst es"
    using sorted by (metis strict_sorted_equal)
  then have "length (dictionaryEntries d') = length es" by (metis length_map)
  with inv have "entriesAdded (dictionaryStatus d') =
      entriesRemoved (dictionaryStatus d') + of_nat (length es)" by (simp add: dict_inv_def)
  with v sorted mem keys show ?thesis by (auto simp: purgeExpiredDictionaryEntries_def)
qed

theorem visit_enumerates_live_entries_witness:
  "(''k'', ''v'') \<in> set (fst (visitFrom '''' (snd (dict_add ''k'' ''v'' 60 sampleDict)))) \<and>
   (''j'', ''v'') \<notin> set (fst (visitFrom '''' (snd (dict_add ''k'' ''v'' 60 sampleDict))))"
proof -
  let ?d = "snd (dict_add ''k'' ''v'' 60 sampleDict)"
  have "dict_inv ?d \<and> abs_dict ?d = spec_put ''k'' ''v'' 60 Map.empty"
    using dict_add_correct[of sampleDict 60 "''k''" "''v''"] by auto
  then have "dict_inv ?d" "\<exists>e. omap_find (dictionaryEntries ?d) ''k'' = Some e \<and>
        \<not> dataIsExpired ?d e \<and> dict_data e = ''v''"
      "\<not> (\<exists>e. omap_find (dictionaryEntries ?d) ''j'' = Some e \<and>
        \<not> dataIsExpired ?d e \<and> dict_data e = ''v'')"
    by (auto simp: abs_dict_def spec_put_def noExpiration_def fun_eq_iff split: option.splits if_splits)
  then show ?thesis using visit_enumerates_live_entries[of ?d] by auto
qed

text \<open>
  C33. A \<^verbatim>\<open>set\<close> request whose timeout is not a number fails, yet the entry that
  was there before it is gone: the removal is not undone.
\<close>

theorem failed_set_loses_entry:
  assumes "dict_inv d" and "timer_room d"
    and "getParamValue m dictionaryParamKey '''' = (True, k)"
    and "getParamValue m dictionaryParamData '''' = (True, v)"
    and "snd (getParamValue m dictionaryParamOperation ''set'') = ''set''"
    and "stoi (snd (getParamValue m dictionaryParamTimeout ''-1'')) 10 = None"
  shows "\<exists>d'. dict_parsePostRequest m d = (False, d') \<and> \<not> fst (snd (dict_get k d')) \<and>
           (\<forall>j. j \<noteq> k \<longrightarrow> fst (dict_get j d') = fst (dict_get j d))"
proof -
  obtain b d' where p: "dict_parsePostRequest m d = (b, d')" by fastforce
  note r = dict_post_refines[OF assms(1,2) p]
  have "spec_post m (abs_dict d) = (False, (abs_dict d)(k := None))"
    using assms(3-6) by (simp add: spec_post_def)
  with r have b: "b = False" "abs_dict d' = (abs_dict d)(k := None)" "dict_inv d'" by auto
  have "\<not> fst (snd (dict_get k d'))"
    using dict_get_correct(3)[OF b(3)] b(2) by (metis fun_upd_same prod.collapse)
  moreover have "fst (dict_get j d') = fst (dict_get j d)" if "j \<noteq> k" for j
    using dict_get_correct(4)[OF b(3), of j] dict_get_correct(4)[OF assms(1), of j] b(2) that
    by (metis fun_upd_other prod.collapse)
  ultimately show ?thesis using p b(1) by blast
qed

theorem failed_set_loses_entry_witness:
  "\<exists>d'. dict_parsePostRequest
      [(''dictionaryData'', ''w''), (''dictionaryKey'', ''k''), (''dictionaryTimeout'', ''soon'')]
      (snd (dict_add ''k'' ''v'' (-1) sampleDict)) = (False, d') \<and> \<not> fst (snd (dict_get ''k'' d')) \<and>
    (\<forall>j. j \<noteq> ''k'' \<longrightarrow> fst (dict_get j d') = fst (dict_get j (snd (dict_add ''k'' ''v'' (-1) sampleDict))))"
proof (rule failed_set_loses_entry)
  let ?d = "snd (dict_add ''k'' ''v'' (-1) sampleDict)"
  show "dict_inv ?d" using dict_add_correct[of sampleDict "-1" "''k''" "''v''"] by auto
  show "timer_room ?d"
    by (simp add: dict_add_def dict_get_def newDictionaryData_def Let_def bumpStatus_def timer_room_def
        sampleDict_def newDictionary_def)
  have "stoi ''soon'' 10 = None" by code_simp
  then show "stoi (snd (getParamValue
    [(''dictionaryData'', ''w''), (''dictionaryKey'', ''k''), (''dictionaryTimeout'', ''soon'')]
      dictionaryParamTimeout ''-1'')) 10 = None"
    by (simp add: getParamValue_def dictionaryParamTimeout_def)
qed (simp_all add: getParamValue_def dictionaryParamOperation_def dictionaryParamKey_def
    dictionaryParamData_def)

end
