(* ===== verification/Motion_Sensor.thy ===== *)
theory Motion_Sensor
  imports Timer_Tick Common_Utils Gpio_Lines
begin

text \<open>
  \<^verbatim>\<open>src/motionSensor.h\<close>, \<^verbatim>\<open>src/motionSensor.cpp\<close> and
  \<^verbatim>\<open>src/motionInput.cpp\<close>: once a second the sensor's pin is read; a change is
  broadcast to every other thread, and the time since the last change is counted.
\<close>

section \<open>Model\<close>



record MotionInfo =
  currMotionDetected :: bool
  lastChangedSec :: Int8U
  lastChangedMin :: Int8U
  lastChangedHour :: Int8U

record MotionSensor =
  motionInfo :: MotionInfo
  motionInboxes :: InboxRegistry

definition sensorGpioPin :: nat where
  "sensorGpioPin = 10"

definition newMotionSensor :: "InboxRegistry \<Rightarrow> MotionSensor" where
  "newMotionSensor r = \<lparr>motionInfo = \<lparr>currMotionDetected = False, lastChangedSec = 0,
     lastChangedMin = 0, lastChangedHour = 0\<rparr>, motionInboxes = r\<rparr>"

definition readMotionDetected :: "(nat \<Rightarrow> GpioValue) \<Rightarrow> nat \<Rightarrow> bool" where
  "readMotionDetected gpio pin \<longleftrightarrow> gpio pin = high"

text \<open>The bytes of the structure, as \<^verbatim>\<open>memcpy\<close> puts them at the front of the
  payload. They are four, so the size check cannot fail.\<close>

definition motionInfoBytes :: "MotionInfo \<Rightarrow> Int8U list" where
  "motionInfoBytes m = [if currMotionDetected m then 1 else 0,
     lastChangedSec m, lastChangedMin m, lastChangedHour m]"

definition notifyMotionSensorChange :: "MotionSensor \<Rightarrow> MotionSensor" where
  "notifyMotionSensorChange s =
     (let m = motionInfo s;
          msg0 = mkInboxMsg inboxMsgTypeNoop;
          msg = msg0\<lparr>inboxMsgType := (if currMotionDetected m then inboxMsgTypeMotionOn
                                     else inboxMsgTypeMotionOff),
                     payload := motionInfoBytes m @ drop 4 (payload msg0)\<rparr>
      in s\<lparr>motionInboxes := broadcast msg threadIdMotionSensor (motionInboxes s)\<rparr>)"

definition checkMotionSensor :: "(nat \<Rightarrow> GpioValue) \<Rightarrow> MotionSensor \<Rightarrow> bool \<times> MotionSensor" where
  "checkMotionSensor gpio s =
     (let now = readMotionDetected gpio sensorGpioPin; m = motionInfo s
      in if currMotionDetected m = now then
           (let m1 = m\<lparr>lastChangedSec := lastChangedSec m + 1\<rparr>;
                m2 = (if 59 < lastChangedSec m1 then
                        let m3 = m1\<lparr>lastChangedSec := 0, lastChangedMin := lastChangedMin m1 + 1\<rparr>
                        in if 59 < lastChangedMin m3 then
                             let m4 = m3\<lparr>lastChangedMin := 0\<rparr>
                             in if lastChangedHour m4 < 254
                                then m4\<lparr>lastChangedHour := lastChangedHour m4 + 1\<rparr> else m4
                           else m3
                      else m1)
            in (False, s\<lparr>motionInfo := m2\<rparr>))
         else
           let s1 = notifyMotionSensorChange (s\<lparr>motionInfo := m\<lparr>currMotionDetected := now\<rparr>\<rparr>)
           in (True, s1\<lparr>motionInfo := (motionInfo s1)\<lparr>lastChangedSec := 0, lastChangedMin := 0,
                        lastChangedHour := 0\<rparr>\<rparr>))"

definition getMotionValue :: "MotionSensor \<Rightarrow> bool \<times> MotionInfo" where
  "getMotionValue s = (currMotionDetected (motionInfo s), motionInfo s)"

text \<open>One round of \<^verbatim>\<open>runThreadLoop\<close>: the message found in the inbox, if any,
  then a check.\<close>

definition motionLoopStep ::
  "InboxMsg option \<Rightarrow> (nat \<Rightarrow> GpioValue) \<Rightarrow> MotionSensor \<Rightarrow> bool \<times> MotionSensor" where
  "motionLoopStep msg gpio s =
     (if map_option inboxMsgType msg = Some inboxMsgTypeTerminate then (False, s)
      else (True, snd (checkMotionSensor gpio s)))"

section \<open>The time since the last change\<close>

abbreviation checkWith :: "GpioValue \<Rightarrow> MotionSensor \<Rightarrow> MotionSensor" where
  "checkWith v s \<equiv> snd (checkMotionSensor (\<lambda>_. v) s)"

definition elapsed :: "nat \<Rightarrow> bool \<Rightarrow> MotionInfo" where
  "elapsed k b = \<lparr>currMotionDetected = b, lastChangedSec = of_nat (k mod 60),
     lastChangedMin = of_nat (k div 60 mod 60), lastChangedHour = of_nat (min 254 (k div 3600))\<rparr>"

lemma of_nat_less_59: "n < 60 \<Longrightarrow> (59 < (of_nat n + 1 :: Int8U)) \<longleftrightarrow> n = 59"
  by (simp add: word_less_nat_alt unat_word_ariths unat_of_nat) linarith

lemma of_nat_less_254: "n \<le> 254 \<Longrightarrow> ((of_nat n :: Int8U) < 254) \<longleftrightarrow> n < 254"
  by (simp add: word_less_nat_alt unat_of_nat)

lemma check_elapsed:
  assumes "motionInfo s = elapsed k (v = high)"
  shows "motionInfo (checkWith v s) = elapsed (Suc k) (v = high)"
    and "motionInboxes (checkWith v s) = motionInboxes s"
    and "fst (checkMotionSensor (\<lambda>_. v) s) = False"
proof -
  have s: "59 < (of_nat (k mod 60) + 1 :: Int8U) \<longleftrightarrow> k mod 60 = 59"
    and m: "59 < (of_nat (k div 60 mod 60) + 1 :: Int8U) \<longleftrightarrow> k div 60 mod 60 = 59"
    and h: "(of_nat (min 254 (k div 3600)) :: Int8U) < 254 \<longleftrightarrow> min 254 (k div 3600) < 254"
    by (simp_all add: of_nat_less_59 of_nat_less_254)
  have sec: "Suc k mod 60 = (if k mod 60 = 59 then 0 else k mod 60 + 1)" by (simp add: mod_Suc)
  have mi: "Suc k div 60 = (if k mod 60 = 59 then k div 60 + 1 else k div 60)" by (simp add: div_Suc mod_Suc)
  have mi2: "(k div 60 + 1) mod 60 = (if k div 60 mod 60 = 59 then 0 else k div 60 mod 60 + 1)"
    by (simp add: mod_Suc)
  have "n div 3600 = n div 60 div 60" for n :: nat by (simp add: div_mult2_eq[symmetric])
  then have ho: "Suc k div 3600 =
      (if k mod 60 = 59 \<and> k div 60 mod 60 = 59 then k div 3600 + 1 else k div 3600)"
    by (simp add: mi) (simp add: div_Suc mod_Suc)
  define S M H :: Int8U where "S = of_nat (k mod 60)" and "M = of_nat (k div 60 mod 60)"
    and "H = of_nat (min 254 (k div 3600))"
  have S': "of_nat (Suc k mod 60) = (if 59 < S + 1 then 0 else S + 1)"
    unfolding S_def s sec by simp
  have M': "of_nat (Suc k div 60 mod 60) =
      (if 59 < S + 1 then if 59 < M + 1 then 0 else M + 1 else M)"
    unfolding S_def M_def s m mi using mi2 by simp
  have H': "of_nat (min 254 (Suc k div 3600)) =
      (if 59 < S + 1 \<and> 59 < M + 1 \<and> H < 254 then H + 1 else H)"
    unfolding S_def M_def H_def s m h ho
    by (cases "k div 3600 = 253") (auto simp: min_def add.commute)
  have "elapsed k (v = high) = \<lparr>currMotionDetected = (v = high), lastChangedSec = S,
      lastChangedMin = M, lastChangedHour = H\<rparr>"
    by (simp add: elapsed_def S_def M_def H_def)
  then show "motionInfo (checkWith v s) = elapsed (Suc k) (v = high)"
    unfolding checkMotionSensor_def readMotionDetected_def assms Let_def elapsed_def S' M' H' by simp
  show "motionInboxes (checkWith v s) = motionInboxes s"
    by (simp add: checkMotionSensor_def readMotionDetected_def assms Let_def elapsed_def)
  show "fst (checkMotionSensor (\<lambda>_. v) s) = False"
    by (simp add: checkMotionSensor_def readMotionDetected_def assms Let_def elapsed_def)
qed

lemma checks_elapsed:
  "motionInfo s = elapsed k (v = high) \<Longrightarrow>
   motionInfo ((checkWith v ^^ n) s) = elapsed (k + n) (v = high) \<and>
   motionInboxes ((checkWith v ^^ n) s) = motionInboxes s"
  by (induction n) (simp_all add: check_elapsed)

lemma check_change:
  assumes "currMotionDetected (motionInfo s) \<noteq> (v = high)"
  shows "motionInfo (checkWith v s) = elapsed 0 (v = high)"
    and "fst (checkMotionSensor (\<lambda>_. v) s)"
    and "motionInboxes (checkWith v s) =
      motionInboxes (notifyMotionSensorChange
        (s\<lparr>motionInfo := (motionInfo s)\<lparr>currMotionDetected := (v = high)\<rparr>\<rparr>))"
  using assms
  by (simp_all add: checkMotionSensor_def readMotionDetected_def Let_def elapsed_def
      notifyMotionSensorChange_def)

text \<open>
  The counters tell the time since the last change: after a change, and \<open>n\<close> more
  seconds without one, they hold \<open>n\<close> as hours, minutes and seconds, with the hours held
  at 254, and nothing but the change was broadcast.
\<close>

theorem motion_counters_tell_elapsed_time:
  assumes "currMotionDetected (motionInfo s) \<noteq> (v = high)"
  shows "motionInfo ((checkWith v ^^ n) (checkWith v s)) =
      \<lparr>currMotionDetected = (v = high), lastChangedSec = of_nat (n mod 60),
       lastChangedMin = of_nat (n div 60 mod 60), lastChangedHour = of_nat (min 254 (n div 3600))\<rparr> \<and>
    motionInboxes ((checkWith v ^^ n) (checkWith v s)) = motionInboxes (checkWith v s)"
  using checks_elapsed[OF check_change(1)[OF assms], of n] by (simp add: elapsed_def)

theorem motion_counters_tell_elapsed_time_witness:
  "motionInfo ((checkWith high ^^ 3725) (checkWith high (newMotionSensor (\<lambda>_. None)))) =
     \<lparr>currMotionDetected = True, lastChangedSec = 5, lastChangedMin = 2, lastChangedHour = 1\<rparr>"
  using motion_counters_tell_elapsed_time[of "newMotionSensor (\<lambda>_. None)" high 3725]
  by (simp add: newMotionSensor_def)

text \<open>
  A change is reported to every inbox but the sensor's own with one message, whose type
  tells the new state and whose payload holds the new state and the time that the old state
  lasted, as it was before the counters are reset.
\<close>

theorem motion_change_is_broadcast:
  assumes "currMotionDetected (motionInfo s) \<noteq> (v = high)"
    and "motionInboxes s t = Some q"
  shows "\<exists>q'. motionInboxes (checkWith v s) t = Some q' \<and>
    (if t = threadIdMotionSensor then q' = q
     else \<exists>msg. msgs q' = msgs q @ [msg] \<and> length (payload msg) = maxPayloadSize \<and>
        inboxMsgType msg = (if v = high then inboxMsgTypeMotionOn else inboxMsgTypeMotionOff) \<and>
        take 4 (payload msg) = [if v = high then 1 else 0, lastChangedSec (motionInfo s),
          lastChangedMin (motionInfo s), lastChangedHour (motionInfo s)])"
  using assms(2)
  by (auto simp: check_change(3)[OF assms(1)] notifyMotionSensorChange_def Let_def broadcast_def
      addMessage_def mkInboxMsg_def initPayload_def motionInfoBytes_def maxPayloadSize_def)

theorem motion_change_is_broadcast_witness:
  "\<exists>q'. motionInboxes (checkWith high (newMotionSensor (\<lambda>_. Some newInbox))) threadIdDisplay = Some q' \<and>
    (if threadIdDisplay = threadIdMotionSensor then q' = newInbox
     else \<exists>msg. msgs q' = msgs newInbox @ [msg] \<and> length (payload msg) = maxPayloadSize \<and>
        inboxMsgType msg = (if high = high then inboxMsgTypeMotionOn else inboxMsgTypeMotionOff) \<and>
        take 4 (payload msg) = [if high = high then 1 else 0,
          lastChangedSec (motionInfo (newMotionSensor (\<lambda>_. Some newInbox))),
          lastChangedMin (motionInfo (newMotionSensor (\<lambda>_. Some newInbox))),
          lastChangedHour (motionInfo (newMotionSensor (\<lambda>_. Some newInbox)))])"
  by (rule motion_change_is_broadcast) (simp_all add: newMotionSensor_def)

end
