(* ===== verification/Light_Sensor.thy ===== *)
theory Light_Sensor
  imports Timer_Tick Common_Utils
begin

text \<open>
  \<^verbatim>\<open>src/lightSensor.h\<close> and \<^verbatim>\<open>src/lightSensor.cpp\<close>: a moving
  average over the last ten readings of the two analog channels. The analog input is a
  function from the channel to the reading.
\<close>

section \<open>Model\<close>

record LightSensor =
  lightValues :: "int list"

datatype light_error = FailedToReadAnalog

definition maxLightValuesSize :: nat where
  "maxLightValuesSize = 10"

definition darkRoomThresholdLowWaterMark :: Int32U where
  "darkRoomThresholdLowWaterMark = 460"

definition darkRoomThresholdHighWaterMark :: Int32U where
  "darkRoomThresholdHighWaterMark = 600"

definition newLightSensor :: LightSensor where
  "newLightSensor = \<lparr>lightValues = []\<rparr>"

text \<open>The loop \<^verbatim>\<open>while (size >= max) pop_front()\<close>.\<close>

function trimLightValues :: "int list \<Rightarrow> int list" where
  "trimLightValues vs =
     (if maxLightValuesSize \<le> length vs then trimLightValues (drop 1 vs) else vs)"
  by auto
termination
  by (relation "measure length") (auto simp: maxLightValuesSize_def)

declare trimLightValues.simps [simp del]

definition doSensorRead :: "(nat \<Rightarrow> int) \<Rightarrow> LightSensor \<Rightarrow> light_error + LightSensor" where
  "doSensorRead readAnalog s =
     (let currRead0 = readAnalog 0; currRead1 = readAnalog 1
      in if currRead0 < 0 \<or> currRead1 < 0 then Inl FailedToReadAnalog
         else Inr (s\<lparr>lightValues :=
                trimLightValues (lightValues s) @ [c_div (currRead0 + currRead1) 2]\<rparr>))"

definition getLightValue :: "LightSensor \<Rightarrow> Int32U" where
  "getLightValue s =
     (let (lightValueEntries, lightValueSum) =
            fold (\<lambda>v (n, t). (n + 1, t + v)) (lightValues s) (0, 0)
      in if lightValueEntries = 0 then 0 else word_of_int (c_div lightValueSum lightValueEntries))"

text \<open>One round of \<^verbatim>\<open>runThreadLoop\<close>: the message found in the inbox, if any,
  then a reading.\<close>

definition lightLoopStep ::
  "InboxMsg option \<Rightarrow> (nat \<Rightarrow> int) \<Rightarrow> LightSensor \<Rightarrow> light_error + bool \<times> LightSensor" where
  "lightLoopStep msg readAnalog s =
     (if map_option inboxMsgType msg = Some inboxMsgTypeTerminate then Inr (False, s)
      else case doSensorRead readAnalog s of
             Inl err \<Rightarrow> Inl err
           | Inr s1 \<Rightarrow> Inr (True, s1))"

section \<open>The window\<close>

lemma trimLightValues_drop:
  "trimLightValues vs = drop (length vs - (maxLightValuesSize - 1)) vs"
proof (induction vs rule: trimLightValues.induct)
  case (1 vs)
  show ?case
    using 1 by (subst trimLightValues.simps)
      (auto simp: maxLightValuesSize_def numeral_eq_Suc Suc_diff_Suc Suc_le_eq)
qed

fun sensorReads :: "(nat \<Rightarrow> int) list \<Rightarrow> LightSensor \<Rightarrow> light_error + LightSensor" where
  "sensorReads [] s = Inr s"
| "sensorReads (r # rs) s = (case doSensorRead r s of Inl err \<Rightarrow> Inl err | Inr s1 \<Rightarrow> sensorReads rs s1)"

definition sample :: "(nat \<Rightarrow> int) \<Rightarrow> int" where
  "sample r = (r 0 + r 1) div 2"

lemma drop_append_last:
  "n \<le> length ys \<Longrightarrow> drop (length (xs @ ys) - n) (xs @ ys) = drop (length ys - n) ys"
  by simp

lemma sensorReads_window:
  assumes "list_all (\<lambda>r. 0 \<le> r 0 \<and> 0 \<le> r 1) rs" "length vs \<le> maxLightValuesSize"
  shows "sensorReads rs \<lparr>lightValues = vs\<rparr> =
    Inr \<lparr>lightValues = drop (length (vs @ map sample rs) - maxLightValuesSize) (vs @ map sample rs)\<rparr>"
  using assms
proof (induction rs arbitrary: vs)
  case Nil
  then show ?case by simp
next
  case (Cons r rs)
  let ?vs = "trimLightValues vs @ [sample r]"
  have v: "?vs = drop (length vs - 9) vs @ [sample r]" "length ?vs \<le> maxLightValuesSize"
    using Cons.prems by (simp_all add: trimLightValues_drop maxLightValuesSize_def)
  have "doSensorRead r \<lparr>lightValues = vs\<rparr> = Inr \<lparr>lightValues = ?vs\<rparr>"
    using Cons.prems by (simp add: doSensorRead_def sample_def)
  moreover have "drop (length (?vs @ map sample rs) - maxLightValuesSize) (?vs @ map sample rs) =
      drop (length (vs @ map sample (r # rs)) - maxLightValuesSize) (vs @ map sample (r # rs))"
  proof -
    have "vs @ map sample (r # rs) = take (length vs - 9) vs @ (?vs @ map sample rs)"
      using v(1) by simp
    moreover have "length vs \<le> 9 \<or> maxLightValuesSize \<le> length (?vs @ map sample rs)"
      using Cons.prems(2) by (auto simp: v(1) maxLightValuesSize_def)
    ultimately show ?thesis by (metis append_Nil diff_is_0_eq' drop_append_last take0)
  qed
  ultimately show ?case using Cons.IH[OF _ v(2)] Cons.prems by simp
qed

lemma fold_count_sum:
  "fold (\<lambda>v (n, t). (n + 1, t + v)) vs (n0, t0) = (n0 + int (length vs), t0 + sum_list vs)"
  by (induction vs arbitrary: n0 t0) (simp_all add: ac_simps)

lemma sum_list_between:
  fixes vs :: "int list"
  shows "\<forall>v \<in> set vs. lo \<le> v \<and> v \<le> hi \<Longrightarrow>
    int (length vs) * lo \<le> sum_list vs \<and> sum_list vs \<le> int (length vs) * hi"
  by (induction vs) (auto simp: algebra_simps)

lemma getLightValue_between:
  assumes "lightValues s \<noteq> []" "\<forall>v \<in> set (lightValues s). lo \<le> v \<and> v \<le> hi" "0 \<le> lo" "hi < 2 ^ 32"
  shows "lo \<le> uint (getLightValue s) \<and> uint (getLightValue s) \<le> hi"
proof -
  let ?n = "int (length (lightValues s))" and ?t = "sum_list (lightValues s)"
  have n: "0 < ?n" using assms(1) by simp
  have b: "?n * lo \<le> ?t" "?t \<le> ?n * hi" using sum_list_between[OF assms(2)] by auto
  then have t: "0 \<le> ?t" using assms(3) n by (smt (verit) mult_nonneg_nonneg)
  have q: "lo \<le> ?t div ?n" "?t div ?n \<le> hi"
    using div_le_mono2 zdiv_mono1[OF b(1) n] zdiv_mono1[OF b(2) n] n by simp_all
  have "getLightValue s = word_of_int (?t div ?n)"
    using assms(1) t n by (simp add: getLightValue_def fold_count_sum Let_def)
  then have "uint (getLightValue s) = ?t div ?n"
    using q assms(3,4) by (simp add: unsigned_of_int take_bit_int_eq_self)
  with q show ?thesis by simp
qed

text \<open>
  After any readings of the two channels, none of them negative, the sensor holds exactly
  the last ten samples in the order they were taken, and the light value it reports lies
  between the smallest and the largest of those.
\<close>

theorem light_value_is_window_average:
  assumes "list_all (\<lambda>r. 0 \<le> r 0 \<and> 0 \<le> r 1) rs" and "rs \<noteq> []"
    and "\<forall>r \<in> set (drop (length rs - 10) rs). lo \<le> (r 0 + r 1) div 2 \<and> (r 0 + r 1) div 2 \<le> hi"
    and "0 \<le> lo" and "hi < 2 ^ 32"
  shows "\<exists>s. sensorReads rs newLightSensor = Inr s \<and>
           lightValues s = map (\<lambda>r. (r 0 + r 1) div 2) (drop (length rs - 10) rs) \<and>
           lo \<le> uint (getLightValue s) \<and> uint (getLightValue s) \<le> hi"
proof -
  let ?s = "\<lparr>lightValues = map sample (drop (length rs - 10) rs)\<rparr>"
  have "sensorReads rs newLightSensor = Inr ?s"
    using sensorReads_window[OF assms(1), of "[]"]
    by (simp add: newLightSensor_def maxLightValuesSize_def drop_map)
  moreover have "lo \<le> uint (getLightValue ?s) \<and> uint (getLightValue ?s) \<le> hi"
  proof (rule getLightValue_between)
    have "length rs - 10 < length rs" using assms(2) by simp
    then show "lightValues ?s \<noteq> []" by simp
  qed (use assms(3-5) in \<open>auto simp: sample_def\<close>)
  ultimately show ?thesis by (auto simp: sample_def)
qed

theorem light_value_is_window_average_witness:
  "\<exists>s. sensorReads (replicate 12 (\<lambda>c. 300 + 100 * int c)) newLightSensor = Inr s \<and>
     lightValues s = map (\<lambda>r. (r 0 + r 1) div 2) (drop 2 (replicate 12 (\<lambda>c. 300 + 100 * int c))) \<and>
     350 \<le> uint (getLightValue s) \<and> uint (getLightValue s) \<le> 350"
  using light_value_is_window_average[of "replicate 12 (\<lambda>c. 300 + 100 * int c)" 350 350]
  by (simp add: list_all_iff)

end
