(* ===== verification/Display_Internal.thy ===== *)
theory Display_Internal
  imports Matrix_Text Dictionary Motion_Sensor Light_Sensor
begin

text \<open>
  \<^verbatim>\<open>src/displayTypes.h\<close> and \<^verbatim>\<open>src/displayInternal.cpp\<close>: what the
  display thread shows. The static variables of the file and of its functions are fields of the
  state, next to the objects the class refers to. The inbox registry is the one the motion sensor
  holds. The wall clock is a stream of readings: each call of \<^verbatim>\<open>getTimeInfo\<close> takes
  the next one, as each random number takes the next draw. Signed counters are unbounded here;
  values that come from requests are cut to their width where the code cuts them.
\<close>

section \<open>Types and state\<close>

type_synonym DisplayColor = Int32U

definition displayColorGreen :: DisplayColor where "displayColorGreen = 0"
definition displayColorRed :: DisplayColor where "displayColorRed = 1"
definition displayColorYellow :: DisplayColor where "displayColorYellow = 2"
definition displayColorAlternate :: DisplayColor where "displayColorAlternate = 3"

lemmas color_defs = displayColorGreen_def displayColorRed_def displayColorYellow_def displayColorAlternate_def

type_synonym AnimationStep = Int32U

definition animationStepNone :: AnimationStep where "animationStepNone = 0"
definition animationStepFast :: AnimationStep where "animationStepFast = 1"
definition animationStep100ms :: AnimationStep where "animationStep100ms = 2"
definition animationStep250ms :: AnimationStep where "animationStep250ms = 3"
definition animationStep500ms :: AnimationStep where "animationStep500ms = 4"
definition animationStep1sec :: AnimationStep where "animationStep1sec = 5"
definition animationStep5sec :: AnimationStep where "animationStep5sec = 6"
definition animationStep10sec :: AnimationStep where "animationStep10sec = 7"

definition MESSAGE_MAX_SIZE :: nat where "MESSAGE_MAX_SIZE = 4096"
definition BACKGROUND_IMG_COUNT :: nat where "BACKGROUND_IMG_COUNT = 100"
definition BACKGROUND_MESSAGE_COUNT :: nat where "BACKGROUND_MESSAGE_COUNT = 100"
definition BACKGROUND_MESSAGE_MSG_SIZE :: nat where "BACKGROUND_MESSAGE_MSG_SIZE = 120"
definition INCREMENT_Y_SCALE :: int where "INCREMENT_Y_SCALE = 1000"
definition INCREMENT_Y_VALUE :: int where "INCREMENT_Y_VALUE = 800"

datatype DisplayMode = displayModeNothing | displayModeBasicClock | displayModeMessage

record Animation =
  animationStep :: AnimationStep
  animationStepPhase :: Int8U
  animationStepPhaseValue :: Int8U

record BackgroundMessage =
  bgm_enabled :: bool
  bgm_font :: Font
  bgm_displayColor :: DisplayColor
  bgm_msg :: string
  bgm_x :: int
  bgm_y :: int
  bgm_animation :: Animation

record BackgroundImg =
  bgi_enabled :: bool
  bgi_displayColor :: DisplayColor
  bgi_imgArt :: ImgArt
  bgi_x :: int
  bgi_y :: int
  bgi_animation :: Animation

text \<open>The only function ever stored as \<^verbatim>\<open>completedCallback\<close>; its parameter is always 0.\<close>

datatype completed_callback = CallChangeDisplayModeBasicClock

record ModeMessageData =
  mm_msg :: string
  modeMsgsIndex :: ModeMsgsIndex
  incrementX :: bool
  confetti :: int
  alternateFont :: bool
  mm_displayColor :: DisplayColor
  blink :: bool
  completedCallback :: "completed_callback option"
  completedCallbackParam :: "string option"
  incrementY :: int
  repeats :: int
  mm_timeout :: Int32U
  mm_font :: Font
  currX :: int
  currYFactor :: int
  blinkBlankInEffect :: bool
  wd :: int

record tm =
  tm_hour :: int
  tm_min :: int
  tm_sec :: int
  tm_wday :: int
  tm_mon :: int
  tm_mday :: int

record AnimationTickers =
  animationStepTickerFast :: Int8U
  animationStepTicker100ms :: Int8U
  animationStepTicker250ms :: Int8U
  animationStepTicker500ms :: Int8U
  animationStepTicker1sec :: Int8U
  animationStepTicker5sec :: Int8U
  animationStepTicker10sec :: Int8U

record DisplayInternalInfo =
  ht1632 :: HT1632Class
  dictionary :: Dictionary
  motionSensor :: MotionSensor
  lightSensor :: LightSensor
  backgroundMessage :: "BackgroundMessage list"
  backgroundImg :: "BackgroundImg list"
  modeMessageDataColorEffect :: int
  modeMessageData :: ModeMessageData
  displayModeIndex :: nat
  tickers :: AnimationTickers
  temperatureFrame :: nat
  humidityFrame :: nat
  carFrame :: nat
  carCounter :: int
  blinkerEffect :: Int32U
  nothingRow :: int
  nothingCol :: int
  nothingColor :: Int8U
  roomIsDark :: bool
  checkCount :: int
  displayRng :: rng
  clockReads :: "tm stream"

definition onHT :: "(HT1632Class \<Rightarrow> HT1632Class) \<Rightarrow> DisplayInternalInfo \<Rightarrow> DisplayInternalInfo" where
  "onHT f info = info\<lparr>ht1632 := f (ht1632 info)\<rparr>"

definition onMsg :: "(ModeMessageData \<Rightarrow> ModeMessageData) \<Rightarrow> DisplayInternalInfo \<Rightarrow> DisplayInternalInfo" where
  "onMsg f info = info\<lparr>modeMessageData := f (modeMessageData info)\<rparr>"

definition bumpColorEffect :: "DisplayInternalInfo \<Rightarrow> DisplayInternalInfo" where
  "bumpColorEffect info = info\<lparr>modeMessageDataColorEffect := modeMessageDataColorEffect info + 1\<rparr>"

definition display_broadcast :: "InboxMsgType \<Rightarrow> DisplayInternalInfo \<Rightarrow> DisplayInternalInfo" where
  "display_broadcast t info = info\<lparr>motionSensor := (motionSensor info)
     \<lparr>motionInboxes := broadcast (mkInboxMsg t) threadIdDisplay (motionInboxes (motionSensor info))\<rparr>\<rparr>"

definition display_get :: "string \<Rightarrow> DisplayInternalInfo \<Rightarrow> string \<times> bool \<times> DisplayInternalInfo" where
  "display_get key info = (case dict_get key (dictionary info) of
     (value, found, d) \<Rightarrow> (value, found, info\<lparr>dictionary := d\<rparr>))"

definition lookupDictValue :: "string \<Rightarrow> DisplayInternalInfo \<Rightarrow> string \<times> DisplayInternalInfo" where
  "lookupDictValue key info = (case display_get key info of (value, _, info1) \<Rightarrow> (value, info1))"

definition display_random :: "Int32U \<Rightarrow> DisplayInternalInfo \<Rightarrow> Int32U \<times> DisplayInternalInfo" where
  "display_random upperBound info = (case getRandomNumber upperBound (displayRng info) of
     (n, r) \<Rightarrow> (n, info\<lparr>displayRng := r\<rparr>))"

definition getTimeInfo :: "DisplayInternalInfo \<Rightarrow> tm \<times> DisplayInternalInfo" where
  "getTimeInfo info = (shd (clockReads info), info\<lparr>clockReads := stl (clockReads info)\<rparr>)"

text \<open>\<^verbatim>\<open>drawText\<close> with the default gutter, on a board.\<close>

definition display_drawText :: "string \<Rightarrow> int \<Rightarrow> int \<Rightarrow> Font \<Rightarrow> DisplayInternalInfo \<Rightarrow> DisplayInternalInfo" where
  "display_drawText str x y f = onHT (drawText str x y (fontTable f) 1)"

definition display_target :: "int \<Rightarrow> DisplayInternalInfo \<Rightarrow> DisplayInternalInfo" where
  "display_target board = onHT (drawTarget board)"

section \<open>Animations\<close>

definition willAnimate :: "AnimationTickers \<Rightarrow> Animation \<Rightarrow> bool" where
  "willAnimate t a =
     (let phase = animationStepPhase a; value = animationStepPhaseValue a; step = animationStep a
      in if phase = 0 then True
         else if step = animationStepNone then True
         else if step = animationStepFast then animationStepTickerFast t mod phase = value
         else if step = animationStep100ms then animationStepTicker100ms t mod phase = value
         else if step = animationStep250ms then animationStepTicker250ms t mod phase = value
         else if step = animationStep500ms then animationStepTicker500ms t mod phase = value
         else if step = animationStep1sec then animationStepTicker1sec t mod phase = value
         else if step = animationStep5sec then animationStepTicker5sec t mod phase = value
         else if step = animationStep10sec then animationStepTicker10sec t mod phase = value
         else True)"

section \<open>The clock\<close>

definition daysOfWeek :: "string list" where
  "daysOfWeek = [''Sunday'', ''Monday'', ''Tuesday'', ''Wednesday'', ''Thursday'', ''Friday'', ''Saturday'']"

definition months :: "string list" where
  "months = [''January'', ''February'', ''March'', ''April'', ''May'', ''June'', ''July'', ''August'',
     ''September'', ''October'', ''November'', ''December'']"

definition getDayOfMonthStr :: "int \<Rightarrow> string" where
  "getDayOfMonthStr day =
     (if day = 1 then ''1st'' else if day = 2 then ''2nd'' else if day = 3 then ''3rd''
      else if day = 21 then ''21st'' else if day = 22 then ''22nd'' else if day = 23 then ''23rd''
      else if day = 31 then ''31st'' else dec_int day @ ''th'')"

definition clockHour :: "int \<Rightarrow> int" where
  "clockHour h = (let hour = h - (if 12 < h then 12 else 0) in if hour = 0 then 12 else hour)"

definition clockText :: "tm \<Rightarrow> string" where
  "clockText t = pad_left (CHR '' '') 2 (dec_int (clockHour (tm_hour t))) @ '':'' @
     pad_left (CHR ''0'') 2 (dec_int (tm_min t))"

definition amPmText :: "tm \<Rightarrow> string" where
  "amPmText t = (if 11 < tm_hour t then ''pm'' else ''am'')"

definition weekDayText :: "tm \<Rightarrow> string" where
  "weekDayText t = (if 0 \<le> tm_wday t \<and> tm_wday t \<le> 6 then daysOfWeek ! nat (tm_wday t) else ''DDD'')"

definition dateText :: "tm \<Rightarrow> string" where
  "dateText t =
     snprintf_s 4 (if 0 \<le> tm_mon t \<and> tm_mon t \<le> 11 then months ! nat (tm_mon t) else ''MMM'') @
     '' '' @ getDayOfMonthStr (tm_mday t)"

definition dictionaryTopicTemperature :: string where
  "dictionaryTopicTemperature = ''/sensor/temperature_outside''"
definition dictionaryTopicTemperatureDir :: string where
  "dictionaryTopicTemperatureDir = ''/sensor/temperature_outside/direction''"
definition dictionaryTopicHumidity :: string where
  "dictionaryTopicHumidity = ''/garage/humidity''"
definition dictionaryTopicHumidityDir :: string where
  "dictionaryTopicHumidityDir = ''/garage/humidity/direction''"
definition dictionaryTopicGarageMotion1 :: string where
  "dictionaryTopicGarageMotion1 = ''/garage/oper_flag/motion''"
definition dictionaryTopicGarageMotion2 :: string where
  "dictionaryTopicGarageMotion2 = ''/garage_steps/oper_flag/motion''"
definition dictionaryTopicGarageMotion3 :: string where
  "dictionaryTopicGarageMotion3 = ''/kitchen_steps/oper_flag/motion''"
definition dictionaryTopicValueOn :: string where "dictionaryTopicValueOn = ''on''"
definition dictionaryTopicDirectionUp :: string where "dictionaryTopicDirectionUp = ''up''"
definition dictionaryTopicDirectionDown :: string where "dictionaryTopicDirectionDown = ''down''"

definition showReading :: "string \<Rightarrow> string \<Rightarrow> int \<Rightarrow> int \<Rightarrow> DisplayInternalInfo \<Rightarrow> DisplayInternalInfo" where
  "showReading topic unit board y info =
     (case display_get topic (display_target board info) of
        (value, valueFound, info1) \<Rightarrow>
          if valueFound then
            display_drawText (take (MESSAGE_MAX_SIZE - 1) (c_str value @ unit)) 109 y font5x4 info1
          else info1)"

definition modeBasicClockShowTemperature :: "DisplayInternalInfo \<Rightarrow> DisplayInternalInfo" where
  "modeBasicClockShowTemperature info =
     showReading dictionaryTopicHumidity '' %'' 1 6
       (showReading dictionaryTopicTemperature '' f'' 0 0 info)"

definition modeBasicClockSlow :: "DisplayInternalInfo \<Rightarrow> DisplayInternalInfo" where
  "modeBasicClockSlow info0 =
     (case getTimeInfo info0 of (t, info) \<Rightarrow>
       let part1 = display_drawText (amPmText t) 39 9 font5x4
                    (display_drawText (clockText t) 0 0 font16x8
                      (onHT matrix_clear (display_target 0 info)));
           part2 = display_drawText (weekDayText t) 49 0 font7x5
                    (onHT matrix_clear (display_target 1 part1));
           part3 = fold (\<lambda>i info. display_drawText (dateText t) 49 8 font8x4 (display_target (int i - 1) info))
                     [1..<3] part2
       in modeBasicClockShowTemperature part3)"

definition drawSeconds :: "tm \<Rightarrow> DisplayInternalInfo \<Rightarrow> DisplayInternalInfo" where
  "drawSeconds t info =
     display_drawText (take 9 (pad_left (CHR ''0'') 2 (dec_int (tm_sec t)) @ '' '')) 39 0 font5x4
       (display_target 0 info)"

definition modeBasicClockShowSeconds :: "DisplayInternalInfo \<Rightarrow> DisplayInternalInfo" where
  "modeBasicClockShowSeconds info0 =
     (case getTimeInfo info0 of (t, info) \<Rightarrow>
       let info1 = (if tm_sec t = 0 then modeBasicClockSlow info else info)
       in drawSeconds t info1)"

definition display_drawArt :: "ImgArtInfo \<Rightarrow> int \<Rightarrow> int \<Rightarrow> DisplayInternalInfo \<Rightarrow> DisplayInternalInfo" where
  "display_drawArt a x y = onHT (drawImage (img a) (width a) (height a) x y 0)"

definition isDirection :: "string \<Rightarrow> bool" where
  "isDirection value \<longleftrightarrow> \<not> (value \<noteq> dictionaryTopicDirectionUp \<and> value \<noteq> dictionaryTopicDirectionDown)"

definition arrowArt :: "string \<Rightarrow> nat \<Rightarrow> ImgArtInfo" where
  "arrowArt value frame =
     getImgArtInfo ((if value = dictionaryTopicDirectionUp then imgArtUp21 else imgArtDown21) + of_nat frame)"

definition modeBasicClockSDoUpDownAnimationTemperature :: "DisplayInternalInfo \<Rightarrow> DisplayInternalInfo" where
  "modeBasicClockSDoUpDownAnimationTemperature info0 =
     (case display_get dictionaryTopicTemperatureDir info0 of (value, valueFound, info) \<Rightarrow>
       if \<not> valueFound then info
       else if \<not> isDirection value then info
       else
         let art = arrowArt value (temperatureFrame info);
             info1 = info\<lparr>temperatureFrame := (temperatureFrame info + 1) mod 4\<rparr>
         in onHT matrix_render (display_drawArt art 103 0 (display_target 0 info1)))"

definition modeBasicClockSDoUpDownAnimationHumidity :: "DisplayInternalInfo \<Rightarrow> DisplayInternalInfo" where
  "modeBasicClockSDoUpDownAnimationHumidity info0 =
     (case display_get dictionaryTopicHumidityDir info0 of (value, valueFound, info) \<Rightarrow>
       if \<not> valueFound then info
       else if \<not> isDirection value then info
       else
         let art = arrowArt value (humidityFrame info);
             info1 = info\<lparr>humidityFrame := (humidityFrame info + 1) mod 4\<rparr>
         in onHT matrix_render (display_drawArt art 103 6 (display_target 1 info1)))"

definition animationsAfterOff :: int where "animationsAfterOff = 80"

definition restartCar :: "bool \<Rightarrow> string \<Rightarrow> DisplayInternalInfo \<Rightarrow> DisplayInternalInfo" where
  "restartCar found value info =
     (if found \<and> value = dictionaryTopicValueOn then info\<lparr>carCounter := 0\<rparr> else info)"

definition modeBasicClockSDoCarAnimation :: "DisplayInternalInfo \<Rightarrow> DisplayInternalInfo" where
  "modeBasicClockSDoCarAnimation info0 =
     (case display_get dictionaryTopicGarageMotion1 info0 of (value1, value1Found, info1) \<Rightarrow>
      case display_get dictionaryTopicGarageMotion2 info1 of (value2, value2Found, info2) \<Rightarrow>
      case display_get dictionaryTopicGarageMotion3 info2 of (value3, value3Found, info3) \<Rightarrow>
       if \<not> value1Found \<and> \<not> value2Found \<and> \<not> value3Found then info3
       else
         let info4 = restartCar value3Found value3 (restartCar value2Found value2 (restartCar value1Found value1 info3))
         in if animationsAfterOff \<le> carCounter info4 then info4
            else
              let info5 = info4\<lparr>carCounter := carCounter info4 + 1, blinkerEffect := blinkerEffect info4 + 1\<rparr>;
                  art = getImgArtInfo (imgArtCar1 + of_nat (carFrame info5));
                  (art1, info6) =
                    (if blinkerEffect info5 mod 10 < 6 then (art, info5\<lparr>carFrame := carFrame info5 XOR 1\<rparr>)
                     else (art\<lparr>img := img (getImgArtInfo imgArtBlank)\<rparr>, info5))
              in onHT matrix_render (display_drawArt art1 86 8 (display_target 0 info6)))"

definition modeBasicClockSDoUpDownAnimation :: "DisplayInternalInfo \<Rightarrow> DisplayInternalInfo" where
  "modeBasicClockSDoUpDownAnimation info =
     modeBasicClockSDoCarAnimation (modeBasicClockSDoUpDownAnimationHumidity
       (modeBasicClockSDoUpDownAnimationTemperature info))"

definition modeBasicClockInit :: "string option \<Rightarrow> DisplayInternalInfo \<Rightarrow> DisplayInternalInfo" where
  "modeBasicClockInit param info = modeBasicClockSlow info"

section \<open>Changing the mode\<close>

definition initModeMessageData ::
  "int \<Rightarrow> int \<Rightarrow> bool \<Rightarrow> bool \<Rightarrow> int \<Rightarrow> bool \<Rightarrow> Font \<Rightarrow> Int32U \<Rightarrow> DisplayInternalInfo \<Rightarrow> DisplayInternalInfo" where
  "initModeMessageData x y incX incY conf blk fnt tmo info =
     bumpColorEffect (onMsg (\<lambda>m. m\<lparr>mm_msg := '''', incrementX := incX, modeMsgsIndex := modeMsgsIndexLast,
       confetti := conf, alternateFont := False, mm_displayColor := displayColorAlternate, blink := blk,
       completedCallback := Some CallChangeDisplayModeBasicClock, completedCallbackParam := None,
       incrementY := (if incY then INCREMENT_Y_VALUE else 0), repeats := -1, mm_timeout := tmo, mm_font := fnt,
       currX := x, currYFactor := y * INCREMENT_Y_SCALE, blinkBlankInEffect := blk\<rparr>) info)"

definition messageWidth :: "ModeMessageData \<Rightarrow> int" where
  "messageWidth m = getTextWidth (mm_msg m) (fontTable (mm_font m)) 1"

definition modeMessageInit :: "string option \<Rightarrow> DisplayInternalInfo \<Rightarrow> DisplayInternalInfo" where
  "modeMessageInit param info =
     (let info1 = (case param of
            Some p \<Rightarrow> onMsg (\<lambda>m. m\<lparr>mm_msg := snprintf_s MESSAGE_MAX_SIZE p\<rparr>) info
          | None \<Rightarrow>
              (let index = modeMsgsIndex (modeMessageData info)
               in if 0 \<le> index \<and> index < modeMsgsIndexLast then
                    onMsg (\<lambda>m. m\<lparr>mm_msg := snprintf_s MESSAGE_MAX_SIZE (modeMessageMsgs ! unat index)\<rparr>) info
                  else info))
      in onMsg (\<lambda>m. m\<lparr>wd := messageWidth m\<rparr>) info1)"

definition modeNothingInit :: "string option \<Rightarrow> DisplayInternalInfo \<Rightarrow> DisplayInternalInfo" where
  "modeNothingInit param info = info"

text \<open>The rows of \<^verbatim>\<open>allModes\<close>: first what a change of mode needs, below the handlers.\<close>

record DisplayModeHead =
  displayMode :: DisplayMode
  displayModeStr :: string
  modeInboxMsgType :: InboxMsgType
  displayHandlerInit :: "(string option \<Rightarrow> DisplayInternalInfo \<Rightarrow> DisplayInternalInfo) option"

definition displayModeHeads :: "DisplayModeHead list" where
  "displayModeHeads =
     [\<lparr>displayMode = displayModeNothing, displayModeStr = ''nothing'',
        modeInboxMsgType = inboxMsgTypeDisplayModeNothing, displayHandlerInit = Some modeNothingInit\<rparr>,
      \<lparr>displayMode = displayModeBasicClock, displayModeStr = ''basicClock'',
        modeInboxMsgType = inboxMsgTypeDisplayModeBasicClock, displayHandlerInit = Some modeBasicClockInit\<rparr>,
      \<lparr>displayMode = displayModeMessage, displayModeStr = ''message'',
        modeInboxMsgType = inboxMsgTypeDisplayModeMessage, displayHandlerInit = Some modeMessageInit\<rparr>]"

definition getDisplayMode :: "DisplayInternalInfo \<Rightarrow> DisplayMode" where
  "getDisplayMode info = displayMode (displayModeHeads ! displayModeIndex info)"

text \<open>The loop stops at the first row whose mode is the wanted one.\<close>

fun changeDisplayModeFrom ::
  "nat \<Rightarrow> DisplayModeHead list \<Rightarrow> DisplayMode \<Rightarrow> string option \<Rightarrow> DisplayInternalInfo \<Rightarrow> DisplayInternalInfo" where
  "changeDisplayModeFrom i [] mode param info = info"
| "changeDisplayModeFrom i (h # hs) mode param info =
     (if displayMode h = mode then
        let info1 = onHT matrix_renderAll (onHT matrix_clearAll (info\<lparr>displayModeIndex := i\<rparr>));
            info2 = (case displayHandlerInit h of None \<Rightarrow> info1 | Some init \<Rightarrow> init param info1)
        in display_broadcast (modeInboxMsgType h) info2
      else changeDisplayModeFrom (Suc i) hs mode param info)"

definition changeDisplayMode :: "DisplayMode \<Rightarrow> string option \<Rightarrow> DisplayInternalInfo \<Rightarrow> DisplayInternalInfo" where
  "changeDisplayMode mode param info = changeDisplayModeFrom 0 displayModeHeads mode param info"

definition changeDisplayModeBasicClock :: "string option \<Rightarrow> DisplayInternalInfo \<Rightarrow> DisplayInternalInfo" where
  "changeDisplayModeBasicClock param info = changeDisplayMode displayModeBasicClock param info"

definition runCallback :: "completed_callback \<Rightarrow> string option \<Rightarrow> DisplayInternalInfo \<Rightarrow> DisplayInternalInfo" where
  "runCallback c param info = (case c of CallChangeDisplayModeBasicClock \<Rightarrow> changeDisplayModeBasicClock param info)"

section \<open>Backgrounds\<close>

definition initBackgroundMessage :: "int \<Rightarrow> DisplayInternalInfo \<Rightarrow> DisplayInternalInfo" where
  "initBackgroundMessage offset info =
     (if offset < 0 \<or> int BACKGROUND_MESSAGE_COUNT \<le> offset then info
      else info\<lparr>backgroundMessage := (backgroundMessage info)[nat offset :=
        (backgroundMessage info ! nat offset)\<lparr>bgm_enabled := False, bgm_font := font5x4,
          bgm_displayColor := displayColorYellow, bgm_msg := '''', bgm_x := 0, bgm_y := 0\<rparr>]\<rparr>)"

definition initBackgroundImg :: "int \<Rightarrow> DisplayInternalInfo \<Rightarrow> DisplayInternalInfo" where
  "initBackgroundImg offset info =
     (if offset < 0 \<or> int BACKGROUND_IMG_COUNT \<le> offset then info
      else info\<lparr>backgroundImg := (backgroundImg info)[nat offset :=
        (backgroundImg info ! nat offset)\<lparr>bgi_enabled := False, bgi_displayColor := displayColorYellow,
          bgi_imgArt := imgArtLast, bgi_x := 0, bgi_y := 0\<rparr>]\<rparr>)"

text \<open>The inner loop over the boards: a color other than yellow stops after its board.\<close>

fun drawOnBoards ::
  "nat list \<Rightarrow> DisplayColor \<Rightarrow> (DisplayInternalInfo \<Rightarrow> DisplayInternalInfo) \<Rightarrow> DisplayInternalInfo \<Rightarrow> DisplayInternalInfo" where
  "drawOnBoards [] color draw info = info"
| "drawOnBoards (j # js) color draw info =
     (let boardId = (if color = displayColorGreen then 0 else if color = displayColorRed then 1 else int j);
          info1 = draw (display_target boardId info)
      in if color \<noteq> displayColorYellow then info1 else drawOnBoards js color draw info1)"

definition drawBackgroundMessages :: "DisplayInternalInfo \<Rightarrow> DisplayInternalInfo" where
  "drawBackgroundMessages info =
     fold (\<lambda>i info.
       let b = backgroundMessage info ! i
       in if \<not> bgm_enabled b then info
          else if \<not> willAnimate (tickers info) (bgm_animation b) then info
          else drawOnBoards [0..<2] (bgm_displayColor b)
                 (display_drawText (bgm_msg b) (bgm_x b) (bgm_y b) (bgm_font b)) info)
       [0..<BACKGROUND_MESSAGE_COUNT] info"

definition drawBackgroundImgs :: "DisplayInternalInfo \<Rightarrow> DisplayInternalInfo" where
  "drawBackgroundImgs info =
     fold (\<lambda>i info.
       let b = backgroundImg info ! i
       in if \<not> bgi_enabled b then info
          else if \<not> willAnimate (tickers info) (bgi_animation b) then info
          else drawOnBoards [0..<2] (bgi_displayColor b)
                 (display_drawArt (getImgArtInfo (bgi_imgArt b)) (bgi_x b) (bgi_y b)) info)
       [0..<BACKGROUND_IMG_COUNT] info"

section \<open>The message mode\<close>

fun drawMessageBoards :: "nat list \<Rightarrow> int \<Rightarrow> DisplayInternalInfo \<Rightarrow> DisplayInternalInfo" where
  "drawMessageBoards [] currColorEffect info = info"
| "drawMessageBoards (i # is) currColorEffect info =
     (let m = modeMessageData info; color = mm_displayColor m
      in if blinkBlankInEffect m then info
         else
           let boardId = (if color = displayColorGreen then 0 else if color = displayColorRed then 1
                          else if color = displayColorYellow then int i
                          else if currColorEffect = 2 then int i else currColorEffect);
               wantedY = c_div (currYFactor m) INCREMENT_Y_SCALE;
               adjustedY = (if incrementY m \<noteq> 0 then getAdjustedTextY (mm_font m) wantedY else wantedY);
               info1 = display_drawText (mm_msg m) (if incrementX m then OUT_SIZE - currX m else currX m)
                         adjustedY (mm_font m) (display_target boardId info)
           in if color = displayColorAlternate \<and> currColorEffect = 2 then drawMessageBoards is currColorEffect info1
              else if color \<noteq> displayColorYellow then info1
              else drawMessageBoards is currColorEffect info1)"

text \<open>The two arguments of \<^verbatim>\<open>setPixel\<close> are drawn left to right.\<close>

definition confettiDot :: "DisplayInternalInfo \<Rightarrow> DisplayInternalInfo" where
  "confettiDot info =
     (case display_random 128 info of (a, info1) \<Rightarrow>
      case display_random 16 info1 of (b, info2) \<Rightarrow>
        onHT (matrix_setPixel (sint a) (sint b) True) info2)"

definition confettiBoard :: "nat \<Rightarrow> DisplayInternalInfo \<Rightarrow> DisplayInternalInfo" where
  "confettiBoard boardId info =
     (case display_random (word_of_int (confetti (modeMessageData info))) (display_target (int boardId) info) of
        (yy, info1) \<Rightarrow> (confettiDot ^^ nat (sint yy + 1)) info1)"

definition drawConfetti :: "DisplayInternalInfo \<Rightarrow> DisplayInternalInfo" where
  "drawConfetti info =
     (if 0 < confetti (modeMessageData info) then fold confettiBoard [0..<2] info else info)"

definition nextMessageFont :: "DisplayInternalInfo \<Rightarrow> DisplayInternalInfo" where
  "nextMessageFont info =
     (if alternateFont (modeMessageData info) then
        onMsg (\<lambda>m. m\<lparr>wd := messageWidth m\<rparr>) (onMsg (\<lambda>m. m\<lparr>mm_font := getNextFont (mm_font m)\<rparr>) info)
      else info)"

text \<open>\<^verbatim>\<open>True\<close>: the callback ran and the function returns.\<close>

definition messageRepeats :: "DisplayInternalInfo \<Rightarrow> bool \<times> DisplayInternalInfo" where
  "messageRepeats info =
     (let m = modeMessageData info
      in if repeats m = -1 then (False, info)
         else if repeats m - 1 < 0 then
           let info1 = onMsg (\<lambda>m. m\<lparr>repeats := -1\<rparr>) info
           in (case completedCallback (modeMessageData info1) of
                 None \<Rightarrow> (False, info1)
               | Some c \<Rightarrow> (True, runCallback c (completedCallbackParam (modeMessageData info1)) info1))
         else (False, onMsg (\<lambda>m. m\<lparr>repeats := repeats m - 1\<rparr>) info))"

definition messageWrap :: "DisplayInternalInfo \<Rightarrow> bool \<times> DisplayInternalInfo" where
  "messageWrap info =
     (if incrementX (modeMessageData info) then
        let info1 = onMsg (\<lambda>m. m\<lparr>currX := currX m + 1\<rparr>) info
        in if wd (modeMessageData info1) + OUT_SIZE \<le> currX (modeMessageData info1) then
             messageRepeats (nextMessageFont (bumpColorEffect (onMsg (\<lambda>m. m\<lparr>currX := 0\<rparr>) info1)))
           else (False, info1)
      else (False, info))"

definition messageBounce :: "DisplayInternalInfo \<Rightarrow> DisplayInternalInfo" where
  "messageBounce info =
     (if incrementY (modeMessageData info) \<noteq> 0 then
        let info1 = onMsg (\<lambda>m. m\<lparr>currYFactor := currYFactor m + incrementY m\<rparr>) info;
            m = modeMessageData info1;
            maxY = COM_SIZE - getFontHeight (mm_font m)
        in if incrementY m < 0 \<and> currYFactor m < 0 then onMsg (\<lambda>m. m\<lparr>incrementY := incrementY m * -1\<rparr>) info1
           else if 0 < incrementY m \<and> maxY * INCREMENT_Y_SCALE \<le> currYFactor m then
             let info2 = onMsg (\<lambda>m. m\<lparr>incrementY := incrementY m * -1\<rparr>) info1
             in if \<not> incrementX m then
                  let info3 = bumpColorEffect info2
                  in if alternateFont m then onMsg (\<lambda>m. m\<lparr>mm_font := getNextFont (mm_font m)\<rparr>) info3 else info3
                else info2
           else info1
      else info)"

definition drawMessage :: "DisplayInternalInfo \<Rightarrow> DisplayInternalInfo" where
  "drawMessage info =
     onHT matrix_renderAll (drawConfetti (drawBackgroundImgs (drawBackgroundMessages
       (drawMessageBoards [0..<2] (c_mod (modeMessageDataColorEffect info) 3) (onHT matrix_clearAll info)))))"

definition modeMessageFast :: "DisplayInternalInfo \<Rightarrow> DisplayInternalInfo" where
  "modeMessageFast info =
     (case messageWrap (drawMessage info) of
        (True, info1) \<Rightarrow> info1
      | (False, info1) \<Rightarrow> messageBounce info1)"

definition modeMessageCheckBlink :: "DisplayInternalInfo \<Rightarrow> DisplayInternalInfo" where
  "modeMessageCheckBlink info =
     (if blink (modeMessageData info)
      then onMsg (\<lambda>m. m\<lparr>blinkBlankInEffect := \<not> blinkBlankInEffect m\<rparr>) info else info)"

definition modeMessageCheckTimeout :: "DisplayInternalInfo \<Rightarrow> DisplayInternalInfo" where
  "modeMessageCheckTimeout info =
     (if mm_timeout (modeMessageData info) \<noteq> -1 then
        let info1 = onMsg (\<lambda>m. m\<lparr>mm_timeout := mm_timeout m - 1\<rparr>) info
        in if mm_timeout (modeMessageData info1) \<le> 0 then
             let info2 = onMsg (\<lambda>m. m\<lparr>mm_timeout := -1\<rparr>) info1
             in (case completedCallback (modeMessageData info2) of
                   None \<Rightarrow> info2
                 | Some c \<Rightarrow> runCallback c (completedCallbackParam (modeMessageData info2)) info2)
           else info1
      else info)"

section \<open>Motion and light\<close>

definition updateMotionDetectedPixel :: "bool \<Rightarrow> DisplayInternalInfo \<Rightarrow> DisplayInternalInfo" where
  "updateMotionDetectedPixel invokeRender info =
     (let motion = fst (getMotionValue (motionSensor info));
          info1 = fold (\<lambda>i info. onHT (matrix_setPixel (OUT_SIZE - 1) (COM_SIZE - 1) motion)
                     (display_target (int i - 1) info)) [1..<3] info
      in if invokeRender then onHT matrix_renderAll info1 else info1)"

definition modeBasicClockFast :: "DisplayInternalInfo \<Rightarrow> DisplayInternalInfo" where
  "modeBasicClockFast info =
     (let (motion, mi) = getMotionValue (motionSensor info)
      in if \<not> motion \<and> (15 < lastChangedMin mi \<or> 0 < lastChangedHour mi) then
           changeDisplayMode displayModeNothing None info
         else updateMotionDetectedPixel True (modeBasicClockShowSeconds info))"

definition nothingDot :: "nat \<Rightarrow> DisplayInternalInfo \<Rightarrow> DisplayInternalInfo" where
  "nothingDot boardId info =
     (if nothingColor info \<noteq> 2 \<and> nothingColor info \<noteq> of_nat boardId then info
      else onHT (matrix_setPixel (nothingRow info) (nothingCol info) True) (display_target (int boardId) info))"

definition nothingAdvance :: "DisplayInternalInfo \<Rightarrow> DisplayInternalInfo" where
  "nothingAdvance info =
     (let color = nothingColor info + 1
      in if 2 < color then
           let row = nothingRow info + 1
           in if OUT_SIZE \<le> row then
                let col = nothingCol info + 1
                in info\<lparr>nothingColor := 0, nothingRow := 0, nothingCol := (if COM_SIZE \<le> col then 0 else col)\<rparr>
              else info\<lparr>nothingColor := 0, nothingRow := row\<rparr>
         else info\<lparr>nothingColor := color\<rparr>)"

definition modeNothingCheckMotion :: "DisplayInternalInfo \<Rightarrow> DisplayInternalInfo" where
  "modeNothingCheckMotion info =
     (if fst (getMotionValue (motionSensor info)) then changeDisplayMode displayModeBasicClock None info
      else nothingAdvance (onHT matrix_renderAll (fold nothingDot [0..<2] (onHT matrix_clearAll info))))"

definition updateDim :: "DisplayInternalInfo \<Rightarrow> DisplayInternalInfo" where
  "updateDim info =
     (let lastRoomIsDark = roomIsDark info;
          lightValue = getLightValue (lightSensor info);
          currRoomIsDark = (if lastRoomIsDark then lightValue < darkRoomThresholdHighWaterMark
                            else lightValue < darkRoomThresholdLowWaterMark)
      in if lastRoomIsDark = currRoomIsDark then info
         else display_broadcast (if currRoomIsDark then inboxMsgTypeDisplayBrightLow else inboxMsgTypeDisplayBrightHigh)
                ((onHT (setBrightness (if currRoomIsDark then 1 else 16)) info)\<lparr>roomIsDark := currRoomIsDark\<rparr>))"

section \<open>Handlers and ticks\<close>

type_synonym displayHandler = "DisplayInternalInfo \<Rightarrow> DisplayInternalInfo"

record DisplayModeHandlers =
  displayTickFastHandler :: "displayHandler option"
  displayTick100msHandler :: "displayHandler option"
  displayTick250msHandler :: "displayHandler option"
  displayTick500msHandler :: "displayHandler option"
  displayTick1SecHandler :: "displayHandler option"
  displayTick5SecHandler :: "displayHandler option"
  displayTick10SecHandler :: "displayHandler option"
  displayTick25SecHandler :: "displayHandler option"
  displayTick1MinHandler :: "displayHandler option"

definition noHandlers :: DisplayModeHandlers where
  "noHandlers = \<lparr>displayTickFastHandler = None, displayTick100msHandler = None, displayTick250msHandler = None,
     displayTick500msHandler = None, displayTick1SecHandler = None, displayTick5SecHandler = None,
     displayTick10SecHandler = None, displayTick25SecHandler = None, displayTick1MinHandler = None\<rparr>"

definition modeNothingHandlers :: DisplayModeHandlers where
  "modeNothingHandlers = noHandlers\<lparr>displayTick1SecHandler := Some modeNothingCheckMotion\<rparr>"

text \<open>\<^verbatim>\<open>modeBasicClock1Sec\<close> and \<^verbatim>\<open>modeBasicClock5Sec\<close> have empty bodies.\<close>

definition modeBasicClock1Sec :: displayHandler where "modeBasicClock1Sec info = info"
definition modeBasicClock5Sec :: displayHandler where "modeBasicClock5Sec info = info"

definition modeBasicClockHandlers :: DisplayModeHandlers where
  "modeBasicClockHandlers = noHandlers\<lparr>displayTick250msHandler := Some modeBasicClockSDoUpDownAnimation,
     displayTick500msHandler := Some modeBasicClockFast, displayTick1SecHandler := Some modeBasicClock1Sec,
     displayTick5SecHandler := Some modeBasicClock5Sec, displayTick10SecHandler := Some modeBasicClockSlow\<rparr>"

definition modeMessageHandlers :: DisplayModeHandlers where
  "modeMessageHandlers = noHandlers\<lparr>displayTickFastHandler := Some modeMessageFast,
     displayTick250msHandler := Some modeMessageCheckBlink, displayTick1SecHandler := Some modeMessageCheckTimeout\<rparr>"

definition displayHandlers :: "DisplayModeHandlers list" where
  "displayHandlers = [modeNothingHandlers, modeBasicClockHandlers, modeMessageHandlers]"

definition callDisplayHandler ::
  "(DisplayModeHandlers \<Rightarrow> displayHandler option) \<Rightarrow> DisplayInternalInfo \<Rightarrow> DisplayInternalInfo" where
  "callDisplayHandler h info =
     (case h (displayHandlers ! displayModeIndex info) of None \<Rightarrow> info | Some f \<Rightarrow> f info)"

definition onTickers :: "(AnimationTickers \<Rightarrow> AnimationTickers) \<Rightarrow> DisplayInternalInfo \<Rightarrow> DisplayInternalInfo" where
  "onTickers f info = info\<lparr>tickers := f (tickers info)\<rparr>"

definition checkCountMax :: int where "checkCountMax = 13"

definition checkHT1632 :: "DisplayInternalInfo \<Rightarrow> DisplayInternalInfo" where
  "checkHT1632 info =
     (let info1 = info\<lparr>checkCount := checkCount info + 1\<rparr>
      in if checkCount info1 < checkCountMax \<and> getDisplayMode info1 \<noteq> displayModeMessage then info1
         else (onHT matrix_reinit info1)\<lparr>checkCount := 0\<rparr>)"

definition displayTickFast :: displayHandler where
  "displayTickFast info = callDisplayHandler displayTickFastHandler
     (onTickers (\<lambda>t. t\<lparr>animationStepTickerFast := animationStepTickerFast t + 1\<rparr>) info)"

definition displayTick100ms :: displayHandler where
  "displayTick100ms info = callDisplayHandler displayTick100msHandler
     (onTickers (\<lambda>t. t\<lparr>animationStepTicker100ms := animationStepTicker100ms t + 1\<rparr>) info)"

definition displayTick250ms :: displayHandler where
  "displayTick250ms info = callDisplayHandler displayTick250msHandler
     (onTickers (\<lambda>t. t\<lparr>animationStepTicker250ms := animationStepTicker250ms t + 1\<rparr>) info)"

definition displayTick500ms :: displayHandler where
  "displayTick500ms info = callDisplayHandler displayTick500msHandler
     (onTickers (\<lambda>t. t\<lparr>animationStepTicker500ms := animationStepTicker500ms t + 1\<rparr>) (checkHT1632 info))"

definition displayTick1sec :: displayHandler where
  "displayTick1sec info = updateDim (callDisplayHandler displayTick1SecHandler
     (onTickers (\<lambda>t. t\<lparr>animationStepTicker1sec := animationStepTicker1sec t + 1\<rparr>) info))"

definition displayTick5sec :: displayHandler where
  "displayTick5sec info = callDisplayHandler displayTick5SecHandler
     (onTickers (\<lambda>t. t\<lparr>animationStepTicker5sec := animationStepTicker5sec t + 1\<rparr>) info)"

definition displayTick10sec :: displayHandler where
  "displayTick10sec info = callDisplayHandler displayTick10SecHandler
     (onTickers (\<lambda>t. t\<lparr>animationStepTicker10sec := animationStepTicker10sec t + 1\<rparr>) info)"

definition displayTick25sec :: displayHandler where
  "displayTick25sec info = callDisplayHandler displayTick25SecHandler info"

definition displayTick1min :: displayHandler where
  "displayTick1min info = callDisplayHandler displayTick1MinHandler info"

definition getDisplayModeStr :: "DisplayInternalInfo \<Rightarrow> string" where
  "getDisplayModeStr info = displayModeStr (displayModeHeads ! displayModeIndex info)"

definition getDisplayDimmed :: "DisplayInternalInfo \<Rightarrow> bool" where
  "getDisplayDimmed info = roomIsDark info"

section \<open>Construction\<close>

definition initDisplay :: "DisplayInternalInfo \<Rightarrow> DisplayInternalInfo" where
  "initDisplay info =
     (let info1 = fold (\<lambda>i. initBackgroundMessage (int i)) [0..<BACKGROUND_MESSAGE_COUNT] info;
          info2 = fold (\<lambda>i. initBackgroundImg (int i)) [0..<BACKGROUND_IMG_COUNT] info1;
          info3 = initModeMessageData 1 5 False False 1 False font5x4 5 info2;
          info4 = onMsg (\<lambda>m. m\<lparr>modeMsgsIndex := modeMsgsIndexBoot, mm_displayColor := displayColorYellow\<rparr>) info3
      in changeDisplayMode displayModeMessage None info4)"

definition zeroAnimation :: Animation where
  "zeroAnimation = \<lparr>animationStep = 0, animationStepPhase = 0, animationStepPhaseValue = 0\<rparr>"

definition zeroBackgroundMessage :: BackgroundMessage where
  "zeroBackgroundMessage = \<lparr>bgm_enabled = False, bgm_font = 0, bgm_displayColor = 0, bgm_msg = '''',
     bgm_x = 0, bgm_y = 0, bgm_animation = zeroAnimation\<rparr>"

definition zeroBackgroundImg :: BackgroundImg where
  "zeroBackgroundImg = \<lparr>bgi_enabled = False, bgi_displayColor = 0, bgi_imgArt = 0, bgi_x = 0, bgi_y = 0,
     bgi_animation = zeroAnimation\<rparr>"

definition zeroModeMessageData :: ModeMessageData where
  "zeroModeMessageData = \<lparr>mm_msg = '''', modeMsgsIndex = 0, incrementX = False, confetti = 0,
     alternateFont = False, mm_displayColor = 0, blink = False, completedCallback = None,
     completedCallbackParam = None, incrementY = 0, repeats = 0, mm_timeout = 0, mm_font = 0, currX = 0,
     currYFactor = 0, blinkBlankInEffect = False, wd = 0\<rparr>"

text \<open>The static variables as the program starts with them, then the constructor.\<close>

definition displayStatics ::
  "HT1632Class \<Rightarrow> Dictionary \<Rightarrow> MotionSensor \<Rightarrow> LightSensor \<Rightarrow> rng \<Rightarrow> tm stream \<Rightarrow> DisplayInternalInfo" where
  "displayStatics h d m l r c = \<lparr>ht1632 = h, dictionary = d, motionSensor = m, lightSensor = l,
     backgroundMessage = replicate BACKGROUND_MESSAGE_COUNT zeroBackgroundMessage,
     backgroundImg = replicate BACKGROUND_IMG_COUNT zeroBackgroundImg,
     modeMessageDataColorEffect = 0, modeMessageData = zeroModeMessageData, displayModeIndex = 0,
     tickers = \<lparr>animationStepTickerFast = 0, animationStepTicker100ms = 0, animationStepTicker250ms = 0,
       animationStepTicker500ms = 0, animationStepTicker1sec = 0, animationStepTicker5sec = 0,
       animationStepTicker10sec = 0\<rparr>,
     temperatureFrame = 0, humidityFrame = 0, carFrame = 0, carCounter = animationsAfterOff,
     blinkerEffect = 0, nothingRow = 0, nothingCol = 0, nothingColor = 0, roomIsDark = False,
     checkCount = 0, displayRng = r, clockReads = c\<rparr>"

definition newDisplayInternal ::
  "HT1632Class \<Rightarrow> Dictionary \<Rightarrow> MotionSensor \<Rightarrow> LightSensor \<Rightarrow> rng \<Rightarrow> tm stream \<Rightarrow> DisplayInternalInfo" where
  "newDisplayInternal h d m l r c = initDisplay (displayStatics h d m l r c)"

definition deleteDisplayInternal :: displayHandler where
  "deleteDisplayInternal info = onHT matrix_blank (onHT matrix_renderAll (onHT matrix_clearAll info))"

section \<open>Requests\<close>

text \<open>The test of every key: the key, in any case, is a prefix of the name.\<close>

definition keyIs :: "string \<Rightarrow> string \<Rightarrow> bool" where
  "keyIs key name = strncasecmp_eq key name (length key)"

definition msgDictPrefix :: string where "msgDictPrefix = ''#dict_''"

definition strtoul_int :: "string \<Rightarrow> int" where
  "strtoul_int v = sint (strtoul v 10)"

definition isDictRef :: "string \<Rightarrow> bool" where
  "isDictRef value \<longleftrightarrow> strncasecmp_eq value msgDictPrefix (length msgDictPrefix) \<and>
     length msgDictPrefix < length value"

definition cookieIndex :: "string \<Rightarrow> DisplayInternalInfo \<Rightarrow> DisplayInternalInfo" where
  "cookieIndex value info =
     (let (index, info1) =
            (if length value = 7 then display_random modeMsgsIndexLast info
             else (strtoul (drop 7 value) 10, info));
          index1 = (if index = modeMsgsIndexBoot then modeMsgsIndexFortunate1 else index)
      in onMsg (\<lambda>m. m\<lparr>modeMsgsIndex := index1\<rparr>) info1)"

definition msgModeText :: "string \<Rightarrow> DisplayInternalInfo \<Rightarrow> DisplayInternalInfo" where
  "msgModeText value info =
     (if strncasecmp_eq value ''#cookie'' 7 then cookieIndex value info
      else if isDictRef value then
        (case lookupDictValue (drop (length msgDictPrefix) value) info of (dictValue, info1) \<Rightarrow>
           onMsg (\<lambda>m. m\<lparr>mm_msg := snprintf_s MESSAGE_MAX_SIZE dictValue\<rparr>) info1)
      else onMsg (\<lambda>m. m\<lparr>mm_msg := snprintf_s MESSAGE_MAX_SIZE value\<rparr>) info)"

definition msgModeParam :: "string \<times> string \<Rightarrow> DisplayInternalInfo \<Rightarrow> DisplayInternalInfo" where
  "msgModeParam kvp info =
     (let key = c_str (fst kvp); value = c_str (snd kvp)
      in if keyIs key ''msg'' then msgModeText value info
         else if keyIs key ''x'' then onMsg (\<lambda>m. m\<lparr>currX := strtoul_int value\<rparr>) info
         else if keyIs key ''y'' then onMsg (\<lambda>m. m\<lparr>currYFactor := sint (strtoul value 10 * word_of_int INCREMENT_Y_SCALE)\<rparr>) info
         else if keyIs key ''font'' then onMsg (\<lambda>m. m\<lparr>mm_font := strtoul value 10\<rparr>) info
         else if keyIs key ''alternateFont'' then onMsg (\<lambda>m. m\<lparr>alternateFont := parseBooleanValue (Some value)\<rparr>) info
         else if keyIs key ''confetti'' then onMsg (\<lambda>m. m\<lparr>confetti := strtoul_int value\<rparr>) info
         else if keyIs key ''bounce'' then
           onMsg (\<lambda>m. m\<lparr>incrementY := (if parseBooleanValue (Some value) then INCREMENT_Y_VALUE else 0)\<rparr>) info
         else if keyIs key ''noScroll'' then onMsg (\<lambda>m. m\<lparr>incrementX := \<not> parseBooleanValue (Some value)\<rparr>) info
         else if keyIs key ''blink'' then onMsg (\<lambda>m. m\<lparr>blink := parseBooleanValue (Some value)\<rparr>) info
         else if keyIs key ''color'' then onMsg (\<lambda>m. m\<lparr>mm_displayColor := strtoul value 10\<rparr>) info
         else if keyIs key ''repeats'' then onMsg (\<lambda>m. m\<lparr>repeats := strtoul_int value\<rparr>) info
         else if keyIs key ''timeout'' then onMsg (\<lambda>m. m\<lparr>mm_timeout := strtoul value 10\<rparr>) info
         else info)"

definition doHandleMsgModePost :: "StringMap \<Rightarrow> DisplayInternalInfo \<Rightarrow> DisplayInternalInfo" where
  "doHandleMsgModePost postValues info =
     changeDisplayMode displayModeMessage None
       (fold msgModeParam postValues (initModeMessageData 0 5 True False 0 False font5x4 60 info))"

definition requestIndex :: "nat \<Rightarrow> string \<Rightarrow> nat" where
  "requestIndex count value = (let i = strtoul_int value in if i < 0 \<or> int count \<le> i then 0 else nat i)"

definition animationParam :: "string \<Rightarrow> string \<Rightarrow> Animation \<Rightarrow> Animation" where
  "animationParam key value a =
     (if keyIs key ''animationStep'' then a\<lparr>animationStep := strtoul value 10\<rparr>
      else if keyIs key ''animationPhase'' then a\<lparr>animationStepPhase := ucast (strtoul value 10)\<rparr>
      else if keyIs key ''animationPhaseValue'' then a\<lparr>animationStepPhaseValue := ucast (strtoul value 10)\<rparr>
      else a)"

definition imgParam ::
  "string \<times> string \<Rightarrow> nat \<times> BackgroundImg \<times> DisplayInternalInfo \<Rightarrow> nat \<times> BackgroundImg \<times> DisplayInternalInfo" where
  "imgParam kvp st = (case st of (index, b, info) \<Rightarrow>
     let key = c_str (fst kvp); value = c_str (snd kvp)
     in if keyIs key ''index'' then (requestIndex BACKGROUND_IMG_COUNT value, b, info)
        else if keyIs key ''enabled'' then (index, b\<lparr>bgi_enabled := parseBooleanValue (Some value)\<rparr>, info)
        else if keyIs key ''clearAll'' then
          (index, b, if parseBooleanValue (Some value)
                     then fold (\<lambda>i. initBackgroundImg (int i)) [0..<BACKGROUND_IMG_COUNT] info else info)
        else if keyIs key ''imgArt'' then
          (let art = strtoul value 10 in (index, b\<lparr>bgi_imgArt := (if imgArtLast \<le> art then 0 else art)\<rparr>, info))
        else if keyIs key ''x'' then (index, b\<lparr>bgi_x := strtoul_int value\<rparr>, info)
        else if keyIs key ''y'' then (index, b\<lparr>bgi_y := strtoul_int value\<rparr>, info)
        else if keyIs key ''color'' then (index, b\<lparr>bgi_displayColor := strtoul value 10\<rparr>, info)
        else (index, b\<lparr>bgi_animation := animationParam key value (bgi_animation b)\<rparr>, info))"

definition doHandleImgBackgroundPost :: "StringMap \<Rightarrow> DisplayInternalInfo \<Rightarrow> DisplayInternalInfo" where
  "doHandleImgBackgroundPost postValues info =
     (case fold imgParam postValues (0, zeroBackgroundImg, info) of (index, b, info1) \<Rightarrow>
        info1\<lparr>backgroundImg := (backgroundImg info1)[index := b]\<rparr>)"

definition msgParam ::
  "string \<times> string \<Rightarrow> nat \<times> BackgroundMessage \<times> DisplayInternalInfo \<Rightarrow> nat \<times> BackgroundMessage \<times> DisplayInternalInfo" where
  "msgParam kvp st = (case st of (index, b, info) \<Rightarrow>
     let key = c_str (fst kvp); value = c_str (snd kvp)
     in if keyIs key ''index'' then (requestIndex BACKGROUND_MESSAGE_COUNT value, b, info)
        else if keyIs key ''msg'' then
          (if isDictRef value then
             (case lookupDictValue (drop (length msgDictPrefix) value) info of (dictValue, info1) \<Rightarrow>
                (index, b\<lparr>bgm_msg := snprintf_s BACKGROUND_MESSAGE_MSG_SIZE dictValue\<rparr>, info1))
           else (index, b\<lparr>bgm_msg := snprintf_s BACKGROUND_MESSAGE_MSG_SIZE value\<rparr>, info))
        else if keyIs key ''enabled'' then (index, b\<lparr>bgm_enabled := parseBooleanValue (Some value)\<rparr>, info)
        else if keyIs key ''clearAll'' then
          (index, b, if parseBooleanValue (Some value)
                     then fold (\<lambda>i. initBackgroundMessage (int i)) [0..<BACKGROUND_MESSAGE_COUNT] info else info)
        else if keyIs key ''font'' then (index, b\<lparr>bgm_font := strtoul value 10\<rparr>, info)
        else if keyIs key ''x'' then (index, b\<lparr>bgm_x := strtoul_int value\<rparr>, info)
        else if keyIs key ''y'' then (index, b\<lparr>bgm_y := strtoul_int value\<rparr>, info)
        else if keyIs key ''color'' then (index, b\<lparr>bgm_displayColor := strtoul value 10\<rparr>, info)
        else (index, b\<lparr>bgm_animation := animationParam key value (bgm_animation b)\<rparr>, info))"

definition doHandleMsgBackgroundPost :: "StringMap \<Rightarrow> DisplayInternalInfo \<Rightarrow> DisplayInternalInfo" where
  "doHandleMsgBackgroundPost postValues info =
     (case fold msgParam postValues (0, zeroBackgroundMessage, info) of (index, b, info1) \<Rightarrow>
        info1\<lparr>backgroundMessage := (backgroundMessage info1)[index := b]\<rparr>)"

end
