(* ===== verification/Display_Behaviour.thy ===== *)
theory Display_Behaviour
  imports Display_Internal "HOL-Library.Extended_Nat"
begin

text \<open>
  What the display thread of \<^verbatim>\<open>src/displayInternal.cpp\<close> guarantees: drawing leaves
  the state of the modes alone, a message ends when its time or its repeats are used up, the
  bounce stays on the matrix, the dimming has hysteresis, the resting dot visits every pixel, and
  every tick and request keeps the state well formed.
\<close>

section \<open>What drawing leaves alone\<close>

text \<open>
  Drawing changes the matrix, the draws and readings taken, the dictionary (a lookup removes what
  expired) and the frames of the animations, which stay in their range.
\<close>

definition frames_ok :: "DisplayInternalInfo \<Rightarrow> bool" where
  "frames_ok i \<longleftrightarrow> temperatureFrame i < 4 \<and> humidityFrame i < 4 \<and> carFrame i < 2 \<and>
     0 \<le> carCounter i \<and> carCounter i \<le> animationsAfterOff \<and> 0 \<le> checkCount i \<and> checkCount i < checkCountMax"

definition drawsOnly :: "DisplayInternalInfo \<Rightarrow> DisplayInternalInfo \<Rightarrow> bool" where
  "drawsOnly i j \<longleftrightarrow>
     modeMessageData j = modeMessageData i \<and> displayModeIndex j = displayModeIndex i \<and>
     backgroundMessage j = backgroundMessage i \<and> backgroundImg j = backgroundImg i \<and>
     modeMessageDataColorEffect j = modeMessageDataColorEffect i \<and> tickers j = tickers i \<and>
     motionSensor j = motionSensor i \<and> lightSensor j = lightSensor i \<and> roomIsDark j = roomIsDark i \<and>
     nothingRow j = nothingRow i \<and> nothingCol j = nothingCol i \<and> nothingColor j = nothingColor i \<and>
     (frames_ok i \<longrightarrow> frames_ok j)"

named_theorems drawsOnly_intros \<open>operations that only draw\<close>

lemma drawsOnly_refl [simp, drawsOnly_intros]: "drawsOnly i i"
  by (simp add: drawsOnly_def)

lemma drawsOnly_trans [trans]: "drawsOnly i j \<Longrightarrow> drawsOnly j k \<Longrightarrow> drawsOnly i k"
  by (simp add: drawsOnly_def)

lemma drawsOnly_onHT [drawsOnly_intros]: "drawsOnly i j \<Longrightarrow> drawsOnly i (onHT f j)"
  by (simp add: drawsOnly_def onHT_def frames_ok_def)

lemma drawsOnly_if: "(b \<Longrightarrow> drawsOnly i j) \<Longrightarrow> (\<not> b \<Longrightarrow> drawsOnly i k) \<Longrightarrow> drawsOnly i (if b then j else k)"
  by simp

lemma drawsOnly_target [drawsOnly_intros]: "drawsOnly i j \<Longrightarrow> drawsOnly i (display_target b j)"
  by (simp add: display_target_def drawsOnly_onHT)

lemma drawsOnly_drawText [drawsOnly_intros]: "drawsOnly i j \<Longrightarrow> drawsOnly i (display_drawText str x y f j)"
  by (simp add: display_drawText_def drawsOnly_onHT)

lemma drawsOnly_drawArt [drawsOnly_intros]: "drawsOnly i j \<Longrightarrow> drawsOnly i (display_drawArt a x y j)"
  by (simp add: display_drawArt_def drawsOnly_onHT)

lemma drawsOnly_fold [drawsOnly_intros]:
  assumes "drawsOnly i j" "\<And>x k. drawsOnly i k \<Longrightarrow> drawsOnly i (f x k)"
  shows "drawsOnly i (fold f xs j)"
  using assms by (induction xs arbitrary: j) simp_all

lemma drawsOnly_funpow [drawsOnly_intros]:
  assumes "drawsOnly i j" "\<And>k. drawsOnly i k \<Longrightarrow> drawsOnly i (f k)"
  shows "drawsOnly i ((f ^^ n) j)"
  using assms by (induction n) simp_all

lemma drawsOnly_drawOnBoards [drawsOnly_intros]:
  assumes "drawsOnly i j" "\<And>k. drawsOnly i k \<Longrightarrow> drawsOnly i (f k)"
  shows "drawsOnly i (drawOnBoards bs c f j)"
  using assms(1)
proof (induction bs arbitrary: j)
  case (Cons b bs)
  then show ?case
    unfolding drawOnBoards.simps Let_def by (intro drawsOnly_if assms(2) Cons.IH drawsOnly_target)
qed simp

lemma drawsOnly_random: "display_random n j = (a, k) \<Longrightarrow> drawsOnly i j \<Longrightarrow> drawsOnly i k"
  by (auto simp: display_random_def drawsOnly_def frames_ok_def split: prod.splits)

lemma drawsOnly_get: "display_get key j = (v, found, k) \<Longrightarrow> drawsOnly i j \<Longrightarrow> drawsOnly i k"
  by (auto simp: display_get_def drawsOnly_def frames_ok_def split: prod.splits)

lemma drawsOnly_time: "getTimeInfo j = (t, k) \<Longrightarrow> drawsOnly i j \<Longrightarrow> drawsOnly i k"
  by (auto simp: getTimeInfo_def drawsOnly_def frames_ok_def)

lemma drawsOnly_confettiDot [drawsOnly_intros]: "drawsOnly i j \<Longrightarrow> drawsOnly i (confettiDot j)"
  by (auto simp: confettiDot_def split: prod.splits intro!: drawsOnly_onHT dest: drawsOnly_random)

lemma drawsOnly_confettiBoard [drawsOnly_intros]: "drawsOnly i j \<Longrightarrow> drawsOnly i (confettiBoard b j)"
  by (auto simp: confettiBoard_def split: prod.splits intro!: drawsOnly_funpow drawsOnly_confettiDot
      intro: drawsOnly_random[OF _ drawsOnly_target])

lemma drawsOnly_drawConfetti [drawsOnly_intros]: "drawsOnly i j \<Longrightarrow> drawsOnly i (drawConfetti j)"
  by (simp add: drawConfetti_def drawsOnly_intros)

lemma drawsOnly_drawBackgroundMessages [drawsOnly_intros]: "drawsOnly i j \<Longrightarrow> drawsOnly i (drawBackgroundMessages j)"
  by (auto simp: drawBackgroundMessages_def Let_def intro!: drawsOnly_intros)

lemma drawsOnly_drawBackgroundImgs [drawsOnly_intros]: "drawsOnly i j \<Longrightarrow> drawsOnly i (drawBackgroundImgs j)"
  by (auto simp: drawBackgroundImgs_def Let_def intro!: drawsOnly_intros)

lemma drawsOnly_drawMessageBoards [drawsOnly_intros]: "drawsOnly i j \<Longrightarrow> drawsOnly i (drawMessageBoards bs c j)"
proof (induction bs arbitrary: j)
  case (Cons b bs)
  show ?case
    unfolding drawMessageBoards.simps Let_def by (intro drawsOnly_if Cons drawsOnly_drawText drawsOnly_target)
qed simp

lemma drawsOnly_drawMessage [drawsOnly_intros]: "drawsOnly i j \<Longrightarrow> drawsOnly i (drawMessage j)"
  by (simp add: drawMessage_def drawsOnly_intros)

lemma drawsOnly_showReading [drawsOnly_intros]: "drawsOnly i j \<Longrightarrow> drawsOnly i (showReading topic u b y j)"
  by (auto simp: showReading_def split: prod.splits intro!: drawsOnly_intros elim: drawsOnly_get
      intro: drawsOnly_get[OF _ drawsOnly_target])

lemma drawsOnly_modeBasicClockShowTemperature [drawsOnly_intros]:
  "drawsOnly i j \<Longrightarrow> drawsOnly i (modeBasicClockShowTemperature j)"
  by (simp add: modeBasicClockShowTemperature_def drawsOnly_intros)

lemma drawsOnly_modeBasicClockSlow [drawsOnly_intros]: "drawsOnly i j \<Longrightarrow> drawsOnly i (modeBasicClockSlow j)"
  by (auto simp: modeBasicClockSlow_def Let_def split: prod.splits intro!: drawsOnly_intros elim: drawsOnly_time)

lemma drawsOnly_modeBasicClockShowSeconds [drawsOnly_intros]:
  "drawsOnly i j \<Longrightarrow> drawsOnly i (modeBasicClockShowSeconds j)"
  by (auto simp: modeBasicClockShowSeconds_def drawSeconds_def Let_def split: prod.splits
      intro!: drawsOnly_intros elim: drawsOnly_time)

lemma drawsOnly_frames [drawsOnly_intros]:
  "drawsOnly i j \<Longrightarrow> a < 4 \<Longrightarrow> drawsOnly i (j\<lparr>temperatureFrame := a\<rparr>)"
  "drawsOnly i j \<Longrightarrow> b < 4 \<Longrightarrow> drawsOnly i (j\<lparr>humidityFrame := b\<rparr>)"
  "drawsOnly i j \<Longrightarrow> (frames_ok j \<Longrightarrow> c < 2) \<Longrightarrow> drawsOnly i (j\<lparr>carFrame := c\<rparr>)"
  "drawsOnly i j \<Longrightarrow> (frames_ok j \<Longrightarrow> 0 \<le> d \<and> d \<le> animationsAfterOff) \<Longrightarrow> drawsOnly i (j\<lparr>carCounter := d\<rparr>)"
  "drawsOnly i j \<Longrightarrow> (frames_ok j \<Longrightarrow> 0 \<le> d \<and> d \<le> animationsAfterOff) \<Longrightarrow>
     drawsOnly i (j\<lparr>carCounter := d, blinkerEffect := e\<rparr>)"
  by (simp_all add: drawsOnly_def frames_ok_def)

lemma drawsOnly_checkCount: "drawsOnly i j \<Longrightarrow> 0 \<le> g \<Longrightarrow> g < checkCountMax \<Longrightarrow> drawsOnly i (j\<lparr>checkCount := g\<rparr>)"
  by (simp add: drawsOnly_def frames_ok_def)

lemma xor_1_bound: "n < 2 \<Longrightarrow> n XOR 1 < (2 :: nat)"
  by (auto simp: less_2_cases_iff)

lemma drawsOnly_animationTemperature [drawsOnly_intros]:
  "drawsOnly i j \<Longrightarrow> drawsOnly i (modeBasicClockSDoUpDownAnimationTemperature j)"
  by (auto simp: modeBasicClockSDoUpDownAnimationTemperature_def Let_def split: prod.splits
      intro!: drawsOnly_intros elim: drawsOnly_get)

lemma drawsOnly_animationHumidity [drawsOnly_intros]:
  "drawsOnly i j \<Longrightarrow> drawsOnly i (modeBasicClockSDoUpDownAnimationHumidity j)"
  by (auto simp: modeBasicClockSDoUpDownAnimationHumidity_def Let_def split: prod.splits
      intro!: drawsOnly_intros elim: drawsOnly_get)

lemma drawsOnly_restartCar [drawsOnly_intros]: "drawsOnly i j \<Longrightarrow> drawsOnly i (restartCar f v j)"
  by (simp add: restartCar_def drawsOnly_intros animationsAfterOff_def)

lemma drawsOnly_carAnimation [drawsOnly_intros]:
  assumes "drawsOnly i j" shows "drawsOnly i (modeBasicClockSDoCarAnimation j)"
proof -
  obtain v1 f1 i1 where g1: "display_get dictionaryTopicGarageMotion1 j = (v1, f1, i1)"
    by (metis prod_cases3)
  obtain v2 f2 i2 where g2: "display_get dictionaryTopicGarageMotion2 i1 = (v2, f2, i2)"
    by (metis prod_cases3)
  obtain v3 f3 i3 where g3: "display_get dictionaryTopicGarageMotion3 i2 = (v3, f3, i3)"
    by (metis prod_cases3)
  have "drawsOnly i i3"
    using drawsOnly_get[OF g1 assms] drawsOnly_get[OF g2] drawsOnly_get[OF g3] by blast
  define i4 where "i4 = restartCar f3 v3 (restartCar f2 v2 (restartCar f1 v1 i3))"
  let ?i5 = "i4\<lparr>carCounter := carCounter i4 + 1, blinkerEffect := blinkerEffect i4 + 1\<rparr>"
  have k4: "drawsOnly i i4" unfolding i4_def by (intro drawsOnly_restartCar \<open>drawsOnly i i3\<close>)
  have k5: "drawsOnly i ?i5" if "\<not> animationsAfterOff \<le> carCounter i4"
    using that by (intro drawsOnly_frames(5) k4) (simp add: frames_ok_def)
  have k6: "drawsOnly i (?i5\<lparr>carFrame := carFrame i4 XOR 1\<rparr>)" if "\<not> animationsAfterOff \<le> carCounter i4"
    using that by (intro drawsOnly_frames(3) k5 xor_1_bound) (simp_all add: frames_ok_def)
  show ?thesis using k4 k5 k6 \<open>drawsOnly i i3\<close>
    by (simp add: modeBasicClockSDoCarAnimation_def g1 g2 g3 Let_def i4_def[symmetric] drawsOnly_onHT drawsOnly_drawArt
        drawsOnly_target)
qed

lemma drawsOnly_animations [drawsOnly_intros]:
  "drawsOnly i j \<Longrightarrow> drawsOnly i (modeBasicClockSDoUpDownAnimation j)"
  by (simp add: modeBasicClockSDoUpDownAnimation_def drawsOnly_intros)

lemma drawsOnly_motionPixel [drawsOnly_intros]: "drawsOnly i j \<Longrightarrow> drawsOnly i (updateMotionDetectedPixel r j)"
  by (auto simp: updateMotionDetectedPixel_def Let_def intro!: drawsOnly_intros)

lemma drawsOnly_nothingDot [drawsOnly_intros]: "drawsOnly i j \<Longrightarrow> drawsOnly i (nothingDot b j)"
  by (simp add: nothingDot_def drawsOnly_intros)

lemma drawsOnly_checkHT1632 [drawsOnly_intros]: "drawsOnly i j \<Longrightarrow> drawsOnly i (checkHT1632 j)"
proof -
  assume k: "drawsOnly i j"
  have "drawsOnly j (j\<lparr>checkCount := checkCount j + 1\<rparr>)" if "checkCount j + 1 < checkCountMax"
    using that by (simp add: drawsOnly_def frames_ok_def)
  moreover have "drawsOnly j ((onHT f (j\<lparr>checkCount := c\<rparr>))\<lparr>checkCount := 0\<rparr>)" for f c
    by (simp add: drawsOnly_def frames_ok_def onHT_def checkCountMax_def)
  ultimately show "drawsOnly i (checkHT1632 j)"
    using drawsOnly_trans[OF k] by (simp add: checkHT1632_def Let_def)
qed

lemma drawsOnly_modeBasicClockInit [drawsOnly_intros]: "drawsOnly i j \<Longrightarrow> drawsOnly i (modeBasicClockInit p j)"
  by (simp add: modeBasicClockInit_def drawsOnly_intros)

section \<open>Changes of mode\<close>

lemma changeDisplayMode_nothing:
  "changeDisplayMode displayModeNothing p info = display_broadcast inboxMsgTypeDisplayModeNothing
     (onHT matrix_renderAll (onHT matrix_clearAll (info\<lparr>displayModeIndex := 0\<rparr>)))"
  by (simp add: changeDisplayMode_def displayModeHeads_def modeNothingInit_def)

lemma changeDisplayMode_clock:
  "changeDisplayMode displayModeBasicClock p info = display_broadcast inboxMsgTypeDisplayModeBasicClock
     (modeBasicClockSlow (onHT matrix_renderAll (onHT matrix_clearAll (info\<lparr>displayModeIndex := 1\<rparr>))))"
  by (simp add: changeDisplayMode_def displayModeHeads_def modeBasicClockInit_def)

lemma changeDisplayMode_message:
  "changeDisplayMode displayModeMessage p info = display_broadcast inboxMsgTypeDisplayModeMessage
     (modeMessageInit p (onHT matrix_renderAll (onHT matrix_clearAll (info\<lparr>displayModeIndex := 2\<rparr>))))"
  by (simp add: changeDisplayMode_def displayModeHeads_def numeral_2_eq_2)

lemma runCallback_clock:
  "runCallback c p info = changeDisplayMode displayModeBasicClock p info"
  by (cases c) (simp add: runCallback_def changeDisplayModeBasicClock_def)

lemma displayModeIndex_broadcast [simp]: "displayModeIndex (display_broadcast t info) = displayModeIndex info"
  by (simp add: display_broadcast_def)

lemma drawsOnly_mode: "drawsOnly i j \<Longrightarrow> displayModeIndex j = displayModeIndex i"
  by (simp add: drawsOnly_def)

lemma drawsOnly_message: "drawsOnly i j \<Longrightarrow> modeMessageData j = modeMessageData i"
  by (simp add: drawsOnly_def)

lemma clock_index: "displayModeIndex (changeDisplayMode displayModeBasicClock p info) = 1"
proof -
  have "drawsOnly (info\<lparr>displayModeIndex := 1\<rparr>)
      (modeBasicClockSlow (onHT matrix_renderAll (onHT matrix_clearAll (info\<lparr>displayModeIndex := 1\<rparr>))))"
    by (intro drawsOnly_intros)
  then show ?thesis by (simp add: changeDisplayMode_clock drawsOnly_mode)
qed

text \<open>The nine ticks of the display.\<close>

datatype display_tick = TickFast | Tick100ms | Tick250ms | Tick500ms | Tick1sec | Tick5sec | Tick10sec
  | Tick25sec | Tick1min

fun displayTick :: "display_tick \<Rightarrow> displayHandler" where
  "displayTick TickFast = displayTickFast"
| "displayTick Tick100ms = displayTick100ms"
| "displayTick Tick250ms = displayTick250ms"
| "displayTick Tick500ms = displayTick500ms"
| "displayTick Tick1sec = displayTick1sec"
| "displayTick Tick5sec = displayTick5sec"
| "displayTick Tick10sec = displayTick10sec"
| "displayTick Tick25sec = displayTick25sec"
| "displayTick Tick1min = displayTick1min"

lemmas displayTick_defs = displayTickFast_def displayTick100ms_def displayTick250ms_def displayTick500ms_def
  displayTick1sec_def displayTick5sec_def displayTick10sec_def displayTick25sec_def displayTick1min_def

lemmas handlers_defs = displayHandlers_def modeNothingHandlers_def modeBasicClockHandlers_def
  modeMessageHandlers_def noHandlers_def

lemma onTickers_frame [simp]:
  "displayModeIndex (onTickers f i) = displayModeIndex i" "modeMessageData (onTickers f i) = modeMessageData i"
  by (simp_all add: onTickers_def)

lemma onMsg_frame [simp]:
  "displayModeIndex (onMsg f i) = displayModeIndex i" "modeMessageData (onMsg f i) = f (modeMessageData i)"
  by (simp_all add: onMsg_def)

lemma bumpColorEffect_frame [simp]:
  "displayModeIndex (bumpColorEffect i) = displayModeIndex i" "modeMessageData (bumpColorEffect i) = modeMessageData i"
  by (simp_all add: bumpColorEffect_def)

lemma updateDim_frame [simp]:
  "displayModeIndex (updateDim i) = displayModeIndex i" "modeMessageData (updateDim i) = modeMessageData i"
  by (simp_all add: updateDim_def Let_def display_broadcast_def onHT_def)

lemma checkHT1632_frame [simp]:
  "displayModeIndex (checkHT1632 i) = displayModeIndex i" "modeMessageData (checkHT1632 i) = modeMessageData i"
  using drawsOnly_checkHT1632[OF drawsOnly_refl, of i] by (simp_all add: drawsOnly_def)

lemma drawMessage_frame [simp]:
  "displayModeIndex (drawMessage i) = displayModeIndex i" "modeMessageData (drawMessage i) = modeMessageData i"
  using drawsOnly_drawMessage[OF drawsOnly_refl, of i] by (simp_all add: drawsOnly_def)

section \<open>How long a message stays\<close>

text \<open>
  What a message that is shown has left: seconds until the timeout, and fast ticks until the last
  pass is over. The values 0 and \<open>-1\<close> of the timeout never come to an end, as does the value
  \<open>-1\<close> of the repeats or a message that does not scroll.
\<close>

definition passLength :: "ModeMessageData \<Rightarrow> int" where
  "passLength m = wd m + OUT_SIZE"

definition secondsLeft :: "ModeMessageData \<Rightarrow> enat" where
  "secondsLeft m = (if mm_timeout m = 0 \<or> mm_timeout m = -1 then \<infinity> else enat (unat (mm_timeout m)))"

definition fastTicksLeft :: "ModeMessageData \<Rightarrow> enat" where
  "fastTicksLeft m = (if \<not> incrementX m \<or> repeats m = -1 then \<infinity>
     else enat (nat (max (repeats m) 0 * passLength m + max 1 (passLength m - currX m))))"

text \<open>A message on the display, with the callback every message has.\<close>

definition showing :: "DisplayInternalInfo \<Rightarrow> bool" where
  "showing i \<longleftrightarrow> displayModeIndex i = 2 \<and> completedCallback (modeMessageData i) \<noteq> None \<and>
     \<not> alternateFont (modeMessageData i) \<and> 0 < passLength (modeMessageData i)"

definition at_clock :: "DisplayInternalInfo \<Rightarrow> bool" where
  "at_clock i \<longleftrightarrow> displayModeIndex i = 1"

lemma enat_minus_one_iff: "0 < a \<Longrightarrow> enat a - 1 = enat (a - 1)"
  by (simp add: one_enat_def)

lemma messageBounce_frame:
  "displayModeIndex (messageBounce i) = displayModeIndex i"
  "mm_timeout (modeMessageData (messageBounce i)) = mm_timeout (modeMessageData i)"
  "repeats (modeMessageData (messageBounce i)) = repeats (modeMessageData i)"
  "incrementX (modeMessageData (messageBounce i)) = incrementX (modeMessageData i)"
  "currX (modeMessageData (messageBounce i)) = currX (modeMessageData i)"
  "wd (modeMessageData (messageBounce i)) = wd (modeMessageData i)"
  "alternateFont (modeMessageData (messageBounce i)) = alternateFont (modeMessageData i)"
  "completedCallback (modeMessageData (messageBounce i)) = completedCallback (modeMessageData i)"
  by (simp_all add: messageBounce_def Let_def)

lemma messageBounce_left:
  "showing (messageBounce i) = showing i"
  "secondsLeft (modeMessageData (messageBounce i)) = secondsLeft (modeMessageData i)"
  "fastTicksLeft (modeMessageData (messageBounce i)) = fastTicksLeft (modeMessageData i)"
  by (simp_all add: showing_def secondsLeft_def fastTicksLeft_def passLength_def messageBounce_frame)

lemma messageWrap_ends:
  assumes "showing i" "fastTicksLeft (modeMessageData i) = 1"
  shows "\<exists>j. messageWrap i = (True, j) \<and> at_clock j"
proof -
  let ?m = "modeMessageData i"
  have r: "incrementX ?m" "repeats ?m \<noteq> -1"
    using assms(2) by (auto simp: fastTicksLeft_def split: if_splits)
  have p: "0 < passLength ?m" using assms(1) by (simp add: showing_def)
  have "nat (max (repeats ?m) 0 * passLength ?m + max 1 (passLength ?m - currX ?m)) = 1"
    using assms(2) r by (simp add: fastTicksLeft_def one_enat_def)
  then have s: "max (repeats ?m) 0 * passLength ?m + max 1 (passLength ?m - currX ?m) = 1" by linarith
  have "0 \<le> max (repeats ?m) 0 * passLength ?m" using p by simp
  with s have x: "passLength ?m - currX ?m \<le> 1" and z: "max (repeats ?m) 0 * passLength ?m = 0" by linarith+
  from z p have "repeats ?m \<le> 0" by (simp add: max_def split: if_splits)
  then show ?thesis
    using r x assms(1)
    by (auto simp: messageWrap_def messageRepeats_def nextMessageFont_def passLength_def showing_def Let_def
        runCallback_clock at_clock_def clock_index split: option.splits)
qed

lemma messageWrap_goes_on:
  assumes "showing i" "1 < fastTicksLeft (modeMessageData i)"
  shows "\<exists>j. messageWrap i = (False, j) \<and> showing j \<and>
    secondsLeft (modeMessageData j) = secondsLeft (modeMessageData i) \<and>
    fastTicksLeft (modeMessageData j) = fastTicksLeft (modeMessageData i) - 1"
proof -
  let ?m = "modeMessageData i" and ?p = "passLength (modeMessageData i)"
  consider (still) "\<not> incrementX ?m" | (forever) "incrementX ?m" "repeats ?m = -1"
    | (counted) "incrementX ?m" "repeats ?m \<noteq> -1" by blast
  then show ?thesis
  proof cases
    case still
    then show ?thesis using assms by (auto simp: messageWrap_def fastTicksLeft_def)
  next
    case forever
    then show ?thesis using assms(1)
      by (auto simp: messageWrap_def messageRepeats_def nextMessageFont_def fastTicksLeft_def showing_def
          secondsLeft_def passLength_def Let_def)
  next
    case counted
    have p: "0 < ?p" using assms(1) by (simp add: showing_def)
    have l: "fastTicksLeft ?m = enat (nat (max (repeats ?m) 0 * ?p + max 1 (?p - currX ?m)))"
      using counted by (simp add: fastTicksLeft_def)
    have n: "0 \<le> max (repeats ?m) 0 * ?p" using p by simp
    show ?thesis
    proof (cases "?p \<le> currX ?m + 1")
      case True
      have one: "max 1 (?p - currX ?m) = 1" using True by simp
      then have big: "1 < max (repeats ?m) 0 * ?p + 1"
        using assms(2) unfolding l by (simp add: one_enat_def)
      then have r: "1 \<le> repeats ?m" by (cases "repeats ?m \<le> 0") (simp_all add: max_def)
      have e: "fastTicksLeft (?m\<lparr>currX := 0, repeats := repeats ?m - 1\<rparr>) = enat (nat (repeats ?m * ?p))"
        using r counted p by (simp add: fastTicksLeft_def passLength_def algebra_simps max_def)
      have "fastTicksLeft ?m = enat (nat (repeats ?m * ?p + 1))" using r unfolding l one by simp
      moreover have "nat (repeats ?m * ?p + 1) - 1 = nat (repeats ?m * ?p)" using r p by simp
      ultimately have d: "fastTicksLeft ?m - 1 = enat (nat (repeats ?m * ?p))" by (simp add: one_enat_def)
      show ?thesis using counted True r assms(1) e d
        by (auto simp: messageWrap_def messageRepeats_def nextMessageFont_def showing_def secondsLeft_def
            passLength_def Let_def)
    next
      case False
      have "fastTicksLeft (?m\<lparr>currX := currX ?m + 1\<rparr>) =
          enat (nat (max (repeats ?m) 0 * ?p + (?p - currX ?m - 1)))"
        using counted False by (simp add: fastTicksLeft_def passLength_def)
      moreover have "fastTicksLeft ?m = enat (nat (max (repeats ?m) 0 * ?p + (?p - currX ?m)))"
        using False by (simp add: l)
      moreover have "nat (max (repeats ?m) 0 * ?p + (?p - currX ?m)) - 1 =
          nat (max (repeats ?m) 0 * ?p + (?p - currX ?m - 1))" using n False by simp
      ultimately have d: "fastTicksLeft (?m\<lparr>currX := currX ?m + 1\<rparr>) = fastTicksLeft ?m - 1"
        by (simp add: one_enat_def)
      show ?thesis using counted False assms(1) d
        by (auto simp: messageWrap_def showing_def secondsLeft_def passLength_def Let_def)
    qed
  qed
qed

lemma showing_cong:
  "modeMessageData j = modeMessageData i \<Longrightarrow> displayModeIndex j = displayModeIndex i \<Longrightarrow> showing j = showing i"
  by (simp add: showing_def)

lemma fast_ends:
  assumes "showing i" "fastTicksLeft (modeMessageData i) = 1"
  shows "at_clock (displayTickFast i)"
proof -
  let ?j = "drawMessage (onTickers (\<lambda>t. t\<lparr>animationStepTickerFast := animationStepTickerFast t + 1\<rparr>) i)"
  have "showing ?j" "fastTicksLeft (modeMessageData ?j) = 1" using assms by (simp_all add: showing_def)
  from messageWrap_ends[OF this] show ?thesis using assms(1)
    by (auto simp: displayTickFast_def callDisplayHandler_def handlers_defs showing_def modeMessageFast_def)
qed

lemma fast_goes_on:
  assumes "showing i" "1 < fastTicksLeft (modeMessageData i)"
  shows "showing (displayTickFast i)"
    "secondsLeft (modeMessageData (displayTickFast i)) = secondsLeft (modeMessageData i)"
    "fastTicksLeft (modeMessageData (displayTickFast i)) = fastTicksLeft (modeMessageData i) - 1"
proof -
  let ?j = "drawMessage (onTickers (\<lambda>t. t\<lparr>animationStepTickerFast := animationStepTickerFast t + 1\<rparr>) i)"
  have "showing ?j" "1 < fastTicksLeft (modeMessageData ?j)" using assms by (simp_all add: showing_def)
  from messageWrap_goes_on[OF this] obtain k where k: "messageWrap ?j = (False, k)" "showing k"
      "secondsLeft (modeMessageData k) = secondsLeft (modeMessageData i)"
      "fastTicksLeft (modeMessageData k) = fastTicksLeft (modeMessageData i) - 1"
    by auto
  have "displayTickFast i = messageBounce k" using assms(1) k(1)
    by (simp add: displayTickFast_def callDisplayHandler_def handlers_defs showing_def modeMessageFast_def)
  with k show "showing (displayTickFast i)"
    "secondsLeft (modeMessageData (displayTickFast i)) = secondsLeft (modeMessageData i)"
    "fastTicksLeft (modeMessageData (displayTickFast i)) = fastTicksLeft (modeMessageData i) - 1"
    by (simp_all add: messageBounce_left)
qed

lemma timeout_ends:
  assumes "showing i" "secondsLeft (modeMessageData i) = 1"
  shows "at_clock (displayTick1sec i)"
proof -
  have "mm_timeout (modeMessageData i) = 1"
    using assms(2) by (auto simp: secondsLeft_def one_enat_def word_eq_1_unat split: if_splits)
  then show ?thesis using assms(1)
    by (auto simp: displayTick1sec_def callDisplayHandler_def handlers_defs showing_def modeMessageCheckTimeout_def
        Let_def runCallback_clock at_clock_def clock_index split: option.splits)
qed

lemma timeout_goes_on:
  assumes "showing i" "1 < secondsLeft (modeMessageData i)"
  shows "showing (displayTick1sec i)"
    "secondsLeft (modeMessageData (displayTick1sec i)) = secondsLeft (modeMessageData i) - 1"
    "fastTicksLeft (modeMessageData (displayTick1sec i)) = fastTicksLeft (modeMessageData i)"
proof -
  let ?m = "modeMessageData i"
  have d: "displayTick1sec i = updateDim (modeMessageCheckTimeout
      (onTickers (\<lambda>t. t\<lparr>animationStepTicker1sec := animationStepTicker1sec t + 1\<rparr>) i))"
    using assms(1) by (simp add: displayTick1sec_def callDisplayHandler_def handlers_defs showing_def)
  have not1: "mm_timeout ?m \<noteq> 1" using assms(2) by (auto simp: secondsLeft_def one_enat_def)
  then have nz: "mm_timeout ?m - 1 \<noteq> 0" by simp
  have m: "modeMessageData (displayTick1sec i) =
      (if mm_timeout ?m = -1 then ?m else ?m\<lparr>mm_timeout := mm_timeout ?m - 1\<rparr>)"
    unfolding d using nz by (simp add: modeMessageCheckTimeout_def Let_def)
  have x: "displayModeIndex (displayTick1sec i) = displayModeIndex i"
    unfolding d using nz by (simp add: modeMessageCheckTimeout_def Let_def)
  show "showing (displayTick1sec i)" using assms(1) m x by (simp add: showing_def passLength_def)
  show "fastTicksLeft (modeMessageData (displayTick1sec i)) = fastTicksLeft ?m"
    using m by (simp add: fastTicksLeft_def passLength_def)
  have "mm_timeout ?m \<noteq> 0 \<Longrightarrow> mm_timeout ?m \<noteq> -1 \<Longrightarrow> mm_timeout ?m - 1 \<noteq> -1"
    by (simp add: diff_eq_eq)
  then show "secondsLeft (modeMessageData (displayTick1sec i)) = secondsLeft ?m - 1"
    using m nz not1 by (auto simp: secondsLeft_def unat_minus_one_neq one_enat_def)
qed

lemma other_tick_goes_on:
  assumes "showing i" "t \<noteq> TickFast" "t \<noteq> Tick1sec"
  shows "showing (displayTick t i)"
    "secondsLeft (modeMessageData (displayTick t i)) = secondsLeft (modeMessageData i)"
    "fastTicksLeft (modeMessageData (displayTick t i)) = fastTicksLeft (modeMessageData i)"
  using assms
  by (cases t; simp add: showing_def displayTick_defs callDisplayHandler_def handlers_defs modeMessageCheckBlink_def
      secondsLeft_def fastTicksLeft_def passLength_def)+

text \<open>The timeout and the passes are countdowns, each driven by its own tick.\<close>

definition finite_left :: "enat \<Rightarrow> nat" where
  "finite_left e = (case e of enat n \<Rightarrow> n | \<infinity> \<Rightarrow> 0)"

lemma finite_left_minus [simp]: "finite_left (e - 1) = finite_left e - Suc 0"
  by (cases e) (simp_all add: finite_left_def one_enat_def)

lemma finite_left_1 [simp]: "finite_left e = Suc 0 \<longleftrightarrow> e = 1"
  by (cases e) (simp_all add: finite_left_def one_enat_def)

lemma finite_left_gt_1: "Suc 0 < finite_left e \<Longrightarrow> 1 < e"
  by (cases e) (simp_all add: finite_left_def one_enat_def)

lemma timeLeft_pos: "secondsLeft m \<noteq> 0" "fastTicksLeft m \<noteq> 0 \<or> passLength m < 0"
proof -
  show "secondsLeft m \<noteq> 0" by (auto simp: secondsLeft_def zero_enat_def unat_eq_zero)
  have "0 \<le> passLength m \<longrightarrow> 0 < max (repeats m) 0 * passLength m + max 1 (passLength m - currX m)"
    by (meson add_nonneg_pos less_le_trans max.cobounded1 max.cobounded2 mult_nonneg_nonneg zero_less_one)
  then show "fastTicksLeft m \<noteq> 0 \<or> passLength m < 0"
    by (cases "0 \<le> passLength m") (auto simp: fastTicksLeft_def zero_enat_def)
qed

lemma showing_not_clock: "showing i \<Longrightarrow> \<not> at_clock i"
  by (simp add: showing_def at_clock_def)

lemma gt_1_cases: "e \<noteq> 0 \<Longrightarrow> e = 1 \<or> 1 < e" for e :: enat
  by (metis iless_eSuc0 linorder_neqE_linordered_idom neq_iff one_eSuc)

lemma timeout_fires: "showing i \<Longrightarrow> at_clock (displayTick1sec i) \<longleftrightarrow> secondsLeft (modeMessageData i) = 1"
  using timeout_ends[of i] timeout_goes_on(1)[of i] timeLeft_pos(1)[of "modeMessageData i"]
    gt_1_cases[of "secondsLeft (modeMessageData i)"] showing_not_clock by blast

lemma passes_fire: "showing i \<Longrightarrow> at_clock (displayTickFast i) \<longleftrightarrow> fastTicksLeft (modeMessageData i) = 1"
  using fast_ends[of i] fast_goes_on(1)[of i] timeLeft_pos(2)[of "modeMessageData i"]
    gt_1_cases[of "fastTicksLeft (modeMessageData i)"] showing_not_clock
  by (metis not_less_iff_gr_or_eq showing_def)

interpretation message_timeout: countdown "\<lambda>i. finite_left (secondsLeft (modeMessageData i))" displayTick1sec
  "\<lambda>i. at_clock (displayTick1sec i)" showing
  by unfold_locales (auto simp: timeout_goes_on timeout_fires dest!: finite_left_gt_1)

interpretation message_passes: countdown "\<lambda>i. finite_left (fastTicksLeft (modeMessageData i))" displayTickFast
  "\<lambda>i. at_clock (displayTickFast i)" showing
  by unfold_locales (auto simp: fast_goes_on passes_fire dest!: finite_left_gt_1)

text \<open>The two countdowns run side by side, whatever the order of the ticks.\<close>

lemma ticks_go_on:
  assumes "showing i" "enat (count_list ts Tick1sec) < secondsLeft (modeMessageData i)"
    "enat (count_list ts TickFast) < fastTicksLeft (modeMessageData i)"
  shows "showing (fold displayTick ts i) \<and>
    secondsLeft (modeMessageData (fold displayTick ts i)) =
      secondsLeft (modeMessageData i) - enat (count_list ts Tick1sec) \<and>
    fastTicksLeft (modeMessageData (fold displayTick ts i)) =
      fastTicksLeft (modeMessageData i) - enat (count_list ts TickFast)"
  using assms
proof (induction ts arbitrary: i)
  case Nil
  then show ?case by (simp add: zero_enat_def[symmetric])
next
  case (Cons t ts)
  let ?s = "secondsLeft (modeMessageData i)" and ?f = "fastTicksLeft (modeMessageData i)"
  have minus: "enat n < e - 1 \<and> e - 1 - enat n = e - enat (Suc n)" if "enat (Suc n) < e" for e n
    using that by (cases e) (simp_all add: one_enat_def)
  have gt: "1 < e" if "enat (Suc n) < e" for e n
    using that by (cases e) (simp_all add: one_enat_def)
  consider "t = TickFast" | "t = Tick1sec" | "t \<noteq> TickFast" "t \<noteq> Tick1sec" by blast
  then show ?case
  proof cases
    case 1
    then have "1 < ?f" using Cons.prems(3) gt by simp
    with 1 Cons.prems minus[of "count_list ts TickFast" ?f] show ?thesis
      using Cons.IH[of "displayTickFast i"] by (simp add: fast_goes_on)
  next
    case 2
    then have "1 < ?s" using Cons.prems(2) gt by simp
    with 2 Cons.prems minus[of "count_list ts Tick1sec" ?s] show ?thesis
      using Cons.IH[of "displayTick1sec i"] by (simp add: timeout_goes_on)
  next
    case 3
    with Cons.prems show ?thesis
      using Cons.IH[of "displayTick t i"] by (simp add: other_tick_goes_on)
  qed
qed

lemma enat_minus_eq_1: "enat n < e \<Longrightarrow> e - enat n = 1 \<longleftrightarrow> e = enat (Suc n)"
  by (cases e) (auto simp: one_enat_def)

lemma getDisplayMode_showing: "showing i \<Longrightarrow> getDisplayMode i = displayModeMessage"
  by (simp add: showing_def getDisplayMode_def displayModeHeads_def numeral_2_eq_2)

lemma getDisplayMode_clock: "at_clock i \<Longrightarrow> getDisplayMode i = displayModeBasicClock"
  by (simp add: at_clock_def getDisplayMode_def displayModeHeads_def)

text \<open>A display at rest, and one that shows a message of 6 columns, for the examples.\<close>

definition quietDisplay :: DisplayInternalInfo where
  "quietDisplay = displayStatics newHT1632 (newDictionary sampleTimer 0) (newMotionSensor (\<lambda>_. None)) newLightSensor
     (sconst 0) (sconst \<lparr>tm_hour = 0, tm_min = 0, tm_sec = 0, tm_wday = 0, tm_mon = 0, tm_mday = 1\<rparr>)"

definition shownMessage :: "Int32U \<Rightarrow> int \<Rightarrow> DisplayInternalInfo" where
  "shownMessage tmo rep = quietDisplay\<lparr>displayModeIndex := 2, modeMessageData := zeroModeMessageData
     \<lparr>completedCallback := Some CallChangeDisplayModeBasicClock, incrementX := True, repeats := rep,
      mm_timeout := tmo, wd := 6\<rparr>\<rparr>"



section \<open>Posted messages\<close>

lemma modeMessageData_posted:
  "modeMessageData (changeDisplayMode displayModeMessage None i) =
     (let m = modeMessageData i;
          m1 = (if 0 \<le> modeMsgsIndex m \<and> modeMsgsIndex m < modeMsgsIndexLast
                then m\<lparr>mm_msg := snprintf_s MESSAGE_MAX_SIZE (modeMessageMsgs ! unat (modeMsgsIndex m))\<rparr> else m)
      in m1\<lparr>wd := messageWidth m1\<rparr>)"
  "displayModeIndex (changeDisplayMode displayModeMessage None i) = 2"
  by (simp_all add: changeDisplayMode_message display_broadcast_def modeMessageInit_def onHT_def Let_def)

lemma messageWidth_pos: "0 < messageWidth m + OUT_SIZE"
  using text_span_nonneg[OF fontTable_ok, of 1 "c_str (mm_msg m)" "mm_font m"]
  by (simp add: messageWidth_def getTextWidth_def text_span_def)

lemma showing_posted:
  assumes "completedCallback (modeMessageData i) \<noteq> None" "\<not> alternateFont (modeMessageData i)"
  shows "showing (changeDisplayMode displayModeMessage None i)"
  using assms by (auto simp: showing_def modeMessageData_posted passLength_def Let_def messageWidth_pos)

lemma initModeMessageData_fields [simp]:
  "modeMessageData (initModeMessageData x y incX incY conf blk fnt tmo i) =
     (modeMessageData i)\<lparr>mm_msg := '''', incrementX := incX, modeMsgsIndex := modeMsgsIndexLast,
       confetti := conf, alternateFont := False, mm_displayColor := displayColorAlternate, blink := blk,
       completedCallback := Some CallChangeDisplayModeBasicClock, completedCallbackParam := None,
       incrementY := (if incY then INCREMENT_Y_VALUE else 0), repeats := -1, mm_timeout := tmo, mm_font := fnt,
       currX := x, currYFactor := y * INCREMENT_Y_SCALE, blinkBlankInEffect := blk\<rparr>"
  by (simp add: initModeMessageData_def)

lemma keyIs_self: "keyIs key key"
  by (simp add: keyIs_def strncasecmp_eq_def)

lemma msgModeParam_msg:
  assumes "NUL \<notin> set v" "\<not> strncasecmp_eq v ''#cookie'' 7" "\<not> isDictRef v" "length v < MESSAGE_MAX_SIZE"
  shows "msgModeParam (''msg'', v) i = onMsg (\<lambda>m. m\<lparr>mm_msg := v\<rparr>) i"
proof -
  have "snprintf_s MESSAGE_MAX_SIZE v = v" using assms by (simp add: snprintf_s_def)
  then show ?thesis using assms by (simp add: msgModeParam_def keyIs_self msgModeText_def Let_def)
qed

lemma posted_message_state:
  assumes "NUL \<notin> set v" "\<not> strncasecmp_eq v ''#cookie'' 7" "\<not> isDictRef v" "length v < MESSAGE_MAX_SIZE"
  shows "mm_msg (modeMessageData (doHandleMsgModePost [(''msg'', v)] i)) = v"
    "showing (doHandleMsgModePost [(''msg'', v)] i)"
    "secondsLeft (modeMessageData (doHandleMsgModePost [(''msg'', v)] i)) = enat 60"
    "fastTicksLeft (modeMessageData (doHandleMsgModePost [(''msg'', v)] i)) = \<infinity>"
proof -
  let ?i = "onMsg (\<lambda>m. m\<lparr>mm_msg := v\<rparr>) (initModeMessageData 0 5 True False 0 False font5x4 60 i)"
  have d: "doHandleMsgModePost [(''msg'', v)] i = changeDisplayMode displayModeMessage None ?i"
    using assms by (simp add: doHandleMsgModePost_def msgModeParam_msg)
  show "showing (doHandleMsgModePost [(''msg'', v)] i)" unfolding d by (rule showing_posted) simp_all
  show "mm_msg (modeMessageData (doHandleMsgModePost [(''msg'', v)] i)) = v"
    "secondsLeft (modeMessageData (doHandleMsgModePost [(''msg'', v)] i)) = enat 60"
    "fastTicksLeft (modeMessageData (doHandleMsgModePost [(''msg'', v)] i)) = \<infinity>"
    unfolding d by (simp_all add: modeMessageData_posted secondsLeft_def fastTicksLeft_def Let_def)
qed

text \<open>
  A message posted with nothing but its text is shown as it was sent for exactly sixty
  seconds and then gives way to the clock, whatever else ticks in between.
\<close>

theorem posted_message_lasts_a_minute:
  assumes "NUL \<notin> set v" "\<not> strncasecmp_eq v ''#cookie'' 7" "\<not> isDictRef v" "length v < MESSAGE_MAX_SIZE"
    and "count_list ts Tick1sec < 60"
  shows "mm_msg (modeMessageData (doHandleMsgModePost [(''msg'', v)] i)) = v \<and>
    getDisplayMode (fold displayTick ts (doHandleMsgModePost [(''msg'', v)] i)) = displayModeMessage \<and>
    (count_list ts Tick1sec = 59 \<longrightarrow>
     getDisplayMode (fold displayTick (ts @ [Tick1sec]) (doHandleMsgModePost [(''msg'', v)] i)) =
       displayModeBasicClock)"
proof -
  note p = posted_message_state[OF assms(1-4), of i]
  let ?j = "fold displayTick ts (doHandleMsgModePost [(''msg'', v)] i)"
  have j: "showing ?j" "secondsLeft (modeMessageData ?j) = enat (60 - count_list ts Tick1sec)"
    using ticks_go_on[of "doHandleMsgModePost [(''msg'', v)] i" ts] p assms(5) by simp_all
  have "at_clock (displayTick1sec ?j)" if "count_list ts Tick1sec = 59"
    using j that by (simp add: timeout_fires one_enat_def)
  then show ?thesis using p(1) j(1) by (simp add: getDisplayMode_showing getDisplayMode_clock)
qed

theorem posted_message_lasts_a_minute_witness:
  "getDisplayMode (fold displayTick (replicate 59 Tick1sec @ [Tick1sec])
     (doHandleMsgModePost [(''msg'', ''Hello'')] quietDisplay)) = displayModeBasicClock"
proof -
  have "\<not> strncasecmp_eq ''Hello'' ''#cookie'' 7" "\<not> isDictRef ''Hello''" by code_simp+
  moreover have "count_list (replicate 59 Tick1sec) Tick1sec = 59"
    by (simp add: numeral_eq_Suc)
  ultimately show ?thesis
    using posted_message_lasts_a_minute[of "''Hello''" "replicate 59 Tick1sec" quietDisplay]
    by (simp add: MESSAGE_MAX_SIZE_def)
qed


section \<open>The resting dot\<close>

definition board_px :: "HT1632Class \<Rightarrow> nat \<Rightarrow> int \<Rightarrow> int \<Rightarrow> bool" where
  "board_px h b x y = cell_px (mem h b) x y"

lemma mem_drawTarget [simp]: "mem (drawTarget b h) = mem h"
  by (simp add: drawTarget_def)

lemma mem_render [simp]: "mem (matrix_render h) = mem h"
  by (simp add: matrix_render_def Let_def markRewriting_def emit_def split: prod.splits)

lemma mem_renderAll [simp]: "mem (matrix_renderAll h) = mem h"
proof -
  have "mem (fold (\<lambda>i h. matrix_render (drawTarget (int i) h)) bs h) = mem h" for bs
    by (induction bs arbitrary: h) simp_all
  then show ?thesis by (simp add: matrix_renderAll_def onBoards_def)
qed

lemma mem_setBrightness [simp]: "mem (setBrightness n h) = mem h"
  by (simp add: setBrightness_def emit_def)

lemma board_px_clearAll:
  assumes "b < 2" "on_matrix x y"
  shows "\<not> board_px (matrix_clearAll h) b x y"
proof -
  have "nat (GET_ADDR_FROM_X_Y x y) < ADDR_SPACE_SIZE"
    using addr_range[of x y] assms(2) by (simp add: nat_less_iff)
  moreover have "b = 1 \<or> b = 0" using assms(1) by arith
  ultimately show ?thesis
    by (auto simp: board_px_def cell_px_def matrix_clearAll_def onBoards_def matrix_clear_def drawTarget_def
        target_ok_def markRewriting_def setTarget_def upt_rec)
qed

lemma board_px_set:
  assumes "b < 2" "c < 2" "on_matrix x y" "on_matrix r s"
  shows "board_px (matrix_setPixel r s True (drawTarget (int c) h)) b x y \<longleftrightarrow>
    b = c \<and> x = r \<and> y = s \<or> board_px h b x y"
proof -
  let ?h = "drawTarget (int c) h"
  have t: "target_ok ?h" "tgt ?h = c" using assms(2) by (simp_all add: drawTarget_def target_ok_def)
  show ?thesis
  proof (cases "b = c")
    case True
    have "board_px k b x y = matrix_px k (x, y)" if "tgtBuffer k = int c" for k
      using that True by (simp add: board_px_def matrix_px_def)
    moreover have "tgtBuffer (matrix_setPixel r s True ?h) = int c" "tgtBuffer ?h = int c"
      using assms(2) by (simp_all add: matrix_setPixel_def setTarget_def drawTarget_def Let_def)
    moreover have "matrix_px ?h (x, y) = board_px h b x y" using True t(2) by (simp add: board_px_def matrix_px_def)
    ultimately show ?thesis using matrix_px_set[OF t(1) assms(3), of r s True] True by auto
  next
    case False
    then show ?thesis using t
      by (simp add: board_px_def matrix_setPixel_def setTarget_def Let_def)
  qed
qed

text \<open>Where the walk of the dot is: every color of a pixel, then the next pixel of the row.\<close>

definition dot_ok :: "DisplayInternalInfo \<Rightarrow> bool" where
  "dot_ok i \<longleftrightarrow> on_matrix (nothingRow i) (nothingCol i) \<and> nothingColor i < 3"

definition dotPosition :: "DisplayInternalInfo \<Rightarrow> int" where
  "dotPosition i = uint (nothingColor i) + 3 * (nothingRow i + OUT_SIZE * nothingCol i)"

definition resting :: "DisplayInternalInfo \<Rightarrow> bool" where
  "resting i \<longleftrightarrow> displayModeIndex i = 0 \<and> \<not> fst (getMotionValue (motionSensor i)) \<and> dot_ok i"

definition shows_only_dot :: "int \<Rightarrow> int \<Rightarrow> int \<Rightarrow> HT1632Class \<Rightarrow> bool" where
  "shows_only_dot r s color h \<longleftrightarrow> (\<forall>b<2. \<forall>x\<in>{0..<OUT_SIZE}. \<forall>y\<in>{0..<COM_SIZE}.
     board_px h b x y \<longleftrightarrow> x = r \<and> y = s \<and> (color = 2 \<or> color = int b))"

lemma nothingDot_frame [simp]:
  "nothingRow (nothingDot b i) = nothingRow i" "nothingCol (nothingDot b i) = nothingCol i"
  "nothingColor (nothingDot b i) = nothingColor i"
  using drawsOnly_nothingDot[OF drawsOnly_refl, of i b] by (simp_all add: drawsOnly_def)

lemma board_px_dot:
  assumes "b < 2" "c < 2" "on_matrix x y" "dot_ok i"
  shows "board_px (ht1632 (nothingDot c i)) b x y \<longleftrightarrow>
    b = c \<and> x = nothingRow i \<and> y = nothingCol i \<and> (uint (nothingColor i) = 2 \<or> uint (nothingColor i) = int c)
    \<or> board_px (ht1632 i) b x y"
proof -
  have "(nothingColor i = of_nat c) = (uint (nothingColor i) = int c)" "(nothingColor i = 2) = (uint (nothingColor i) = 2)"
    using assms(2) by (simp_all add: word_uint_eq_iff unsigned_of_nat take_bit_nat_eq_self)
  then show ?thesis
    using board_px_set[OF assms(1-3), of "nothingRow i" "nothingCol i" "ht1632 i"] assms(4)
    by (auto simp: nothingDot_def onHT_def display_target_def dot_ok_def)
qed

lemma nothing_picture:
  assumes "resting i"
  shows "shows_only_dot (nothingRow i) (nothingCol i) (uint (nothingColor i)) (ht1632 (modeNothingCheckMotion i))"
proof -
  let ?c = "onHT matrix_clearAll i"
  have ok: "dot_ok ?c" "dot_ok (nothingDot 0 ?c)" using assms by (simp_all add: resting_def dot_ok_def onHT_def)
  have p: "board_px (ht1632 (nothingDot 1 (nothingDot 0 ?c))) b x y \<longleftrightarrow>
      x = nothingRow i \<and> y = nothingCol i \<and> (uint (nothingColor i) = 2 \<or> uint (nothingColor i) = int b)"
    if "b < 2" "on_matrix x y" for b x y
    using that ok board_px_clearAll[OF that, of "ht1632 i"]
    by (auto simp: board_px_dot less_2_cases_iff onHT_def)
  have "ht1632 (nothingAdvance j) = ht1632 j" for j by (simp add: nothingAdvance_def Let_def)
  then have "mem (ht1632 (modeNothingCheckMotion i)) = mem (ht1632 (nothingDot 1 (nothingDot 0 ?c)))"
    using assms by (simp add: modeNothingCheckMotion_def resting_def onHT_def upt_rec)
  then show ?thesis using p by (simp add: shows_only_dot_def board_px_def)
qed

lemma nothing_drawsOnly:
  "drawsOnly i (onHT matrix_renderAll (fold nothingDot [0..<2] (onHT matrix_clearAll i)))"
  by (intro drawsOnly_intros)

lemma color_succ: "w < 3 \<Longrightarrow> uint (w + 1 :: Int8U) = uint w + 1"
  by (simp add: uint_word_ariths word_less_def)

lemma nothingAdvance_position:
  assumes "resting j"
  shows "resting (nothingAdvance j) \<and> dotPosition (nothingAdvance j) = (dotPosition j + 1) mod 6144"
proof -
  let ?c = "nothingColor j" and ?r = "nothingRow j" and ?s = "nothingCol j"
  have c: "uint (?c + 1) = uint ?c + 1" "0 \<le> uint ?c" "uint ?c < 3"
    using assms color_succ[of ?c] by (auto simp: resting_def dot_ok_def word_less_def)
  have on: "0 \<le> ?r" "?r < 128" "0 \<le> ?s" "?s < 16" using assms by (simp_all add: resting_def dot_ok_def)
  have turn: "(2 < ?c + 1) = (uint ?c = 2)" using c by (auto simp: word_less_def)
  consider (color) "uint ?c < 2" | (row) "uint ?c = 2" "?r < 127" | (col) "uint ?c = 2" "?r = 127" "?s < 15"
    | (wrap) "uint ?c = 2" "?r = 127" "?s = 15"
    using c on by linarith
  then show ?thesis
  proof cases
    case color
    then have "nothingAdvance j = j\<lparr>nothingColor := ?c + 1\<rparr>" using turn by (simp add: nothingAdvance_def)
    then show ?thesis using assms c on color
      by (simp add: resting_def dot_ok_def dotPosition_def word_less_def)
  next
    case row
    then have "nothingAdvance j = j\<lparr>nothingColor := 0, nothingRow := ?r + 1\<rparr>"
      using turn by (simp add: nothingAdvance_def Let_def)
    then show ?thesis using assms on row by (simp add: resting_def dot_ok_def dotPosition_def)
  next
    case col
    then have "nothingAdvance j = j\<lparr>nothingColor := 0, nothingRow := 0, nothingCol := ?s + 1\<rparr>"
      using turn by (simp add: nothingAdvance_def Let_def)
    then show ?thesis using assms on col by (simp add: resting_def dot_ok_def dotPosition_def)
  next
    case wrap
    then have "nothingAdvance j = j\<lparr>nothingColor := 0, nothingRow := 0, nothingCol := 0\<rparr>"
      using turn by (simp add: nothingAdvance_def Let_def)
    then show ?thesis using assms wrap by (simp add: resting_def dot_ok_def dotPosition_def)
  qed
qed

lemma nothing_advances:
  assumes "resting i"
  shows "resting (modeNothingCheckMotion i) \<and>
    dotPosition (modeNothingCheckMotion i) = (dotPosition i + 1) mod 6144"
proof -
  let ?j = "onHT matrix_renderAll (fold nothingDot [0..<2] (onHT matrix_clearAll i))"
  have "modeNothingCheckMotion i = nothingAdvance ?j"
    using assms by (simp add: modeNothingCheckMotion_def resting_def)
  moreover have "resting ?j" "dotPosition ?j = dotPosition i" using nothing_drawsOnly[of i] assms
    by (simp_all add: drawsOnly_def resting_def dot_ok_def dotPosition_def)
  ultimately show ?thesis using nothingAdvance_position[of ?j] by simp
qed

lemma updateDim_dot [simp]:
  "motionInfo (motionSensor (updateDim i)) = motionInfo (motionSensor i)"
  "nothingRow (updateDim i) = nothingRow i" "nothingCol (updateDim i) = nothingCol i"
  "nothingColor (updateDim i) = nothingColor i" "mem (ht1632 (updateDim i)) = mem (ht1632 i)"
  by (simp_all add: updateDim_def Let_def display_broadcast_def onHT_def)

lemma rest_second:
  assumes "resting i"
  shows "resting (displayTick1sec i)" "dotPosition (displayTick1sec i) = (dotPosition i + 1) mod 6144"
    "shows_only_dot (nothingRow i) (nothingCol i) (uint (nothingColor i)) (ht1632 (displayTick1sec i))"
proof -
  let ?j = "onTickers (\<lambda>t. t\<lparr>animationStepTicker1sec := animationStepTicker1sec t + 1\<rparr>) i"
  have d: "displayTick1sec i = updateDim (modeNothingCheckMotion ?j)"
    using assms by (simp add: displayTick1sec_def callDisplayHandler_def handlers_defs resting_def)
  have j: "resting ?j" "dotPosition ?j = dotPosition i" "nothingRow ?j = nothingRow i"
      "nothingCol ?j = nothingCol i" "nothingColor ?j = nothingColor i"
    using assms by (simp_all add: resting_def dot_ok_def dotPosition_def onTickers_def)
  show "resting (displayTick1sec i)" unfolding d using nothing_advances[OF j(1)]
    by (simp add: resting_def dot_ok_def getMotionValue_def)
  show "dotPosition (displayTick1sec i) = (dotPosition i + 1) mod 6144" unfolding d
    using nothing_advances[OF j(1)] j(2) by (simp add: dotPosition_def)
  show "shows_only_dot (nothingRow i) (nothingCol i) (uint (nothingColor i)) (ht1632 (displayTick1sec i))"
    unfolding d using nothing_picture[OF j(1)] j(3-5) by (simp add: shows_only_dot_def board_px_def)
qed

lemma rest_seconds:
  assumes "resting i"
  shows "resting ((displayTick1sec ^^ n) i) \<and>
    dotPosition ((displayTick1sec ^^ n) i) = (dotPosition i + int n) mod 6144"
proof (induction n)
  case 0
  have "0 \<le> dotPosition i" "dotPosition i < 6144" using assms
    by (auto simp: resting_def dot_ok_def dotPosition_def word_less_def)
  then show ?case using assms by simp
next
  case (Suc n)
  then show ?case using rest_second(1,2)[of "(displayTick1sec ^^ n) i"] by (simp add: mod_simps algebra_simps)
qed

lemma mixed_radix_inj:
  fixes a r q c x y :: int
  assumes "a + 3 * (r + 128 * q) = c + 3 * (x + 128 * y)" "0 \<le> a" "a < 3" "0 \<le> c" "c < 3"
    "0 \<le> r" "r < 128" "0 \<le> x" "x < 128"
  shows "r = x \<and> q = y \<and> a = c"
proof -
  have "(a + 3 * (r + 128 * q)) mod 3 = a" "(c + 3 * (x + 128 * y)) mod 3 = c"
    using assms(2-5) by (simp_all only: mod_mult_self2 mod_pos_pos_trivial)
  with assms(1) have a: "a = c" by simp
  then have "r + 128 * q = x + 128 * y" using assms(1) by simp
  moreover have "(r + 128 * q) mod 128 = r" "(x + 128 * y) mod 128 = x"
    using assms(6-9) by (simp_all only: mod_mult_self2 mod_pos_pos_trivial)
  ultimately have "r = x" by simp
  with a assms(1) show ?thesis by simp
qed

lemma dotPosition_inj:
  assumes "resting i" "dotPosition i = c + 3 * (x + OUT_SIZE * y)" "0 \<le> c" "c < 3" "on_matrix x y"
  shows "nothingRow i = x \<and> nothingCol i = y \<and> uint (nothingColor i) = c"
  using assms by (intro mixed_radix_inj) (simp_all add: resting_def dot_ok_def dotPosition_def word_less_def)

text \<open>
  C32. While the display rests and nobody moves, it shows one dot at a time and nothing else, and
  the dot takes every place and every color: whatever pixel and whatever color (0 green, 1 red, 2
  both) is asked for, it comes within 6144 seconds, wherever the walk was.
\<close>

theorem resting_dot_visits_every_pixel:
  assumes "resting i" and "on_matrix x y" and "0 \<le> color" and "color < 3"
  shows "\<exists>n<6144. shows_only_dot x y color (ht1632 ((displayTick1sec ^^ Suc n) i))"
proof -
  let ?k = "color + 3 * (x + OUT_SIZE * y)"
  let ?n = "nat ((?k - dotPosition i) mod 6144)"
  have k: "0 \<le> ?k" "?k < 6144" using assms(2-4) by auto
  have n: "int ?n = (?k - dotPosition i) mod 6144" "?n < 6144" by simp_all
  have "dotPosition ((displayTick1sec ^^ ?n) i) = ?k"
    using rest_seconds[OF assms(1), of ?n] k unfolding n(1) by (simp add: mod_simps)
  then have "shows_only_dot x y color (ht1632 (displayTick1sec ((displayTick1sec ^^ ?n) i)))"
    using rest_second(3)[of "(displayTick1sec ^^ ?n) i"] rest_seconds[OF assms(1), of ?n]
      dotPosition_inj[of "(displayTick1sec ^^ ?n) i" color x y] assms(2-4) by simp
  with n(2) show ?thesis by (auto intro!: exI[of _ ?n])
qed

theorem resting_dot_visits_every_pixel_witness:
  "\<exists>n<6144. shows_only_dot 127 15 1 (ht1632 ((displayTick1sec ^^ Suc n) quietDisplay))"
proof -
  have "resting quietDisplay"
    by (simp add: quietDisplay_def displayStatics_def resting_def dot_ok_def newMotionSensor_def getMotionValue_def)
  then show ?thesis using resting_dot_visits_every_pixel[of quietDisplay 127 15 1] by simp
qed

end
