(* ===== verification/Display_Clock.thy ===== *)
theory Display_Clock
  imports Display_Behaviour
begin

text \<open>
  The clock of the display: what its face says of the time, when the display dims, when it goes to
  rest and wakes up, and how a bouncing message moves.
\<close>

section \<open>The face of the clock\<close>

text \<open>The reference: how a person reads the face, \<open>12:05 am\<close> being five past midnight.\<close>

definition digitsOf :: "string \<Rightarrow> int" where
  "digitsOf s = int (digits_value 10 0 (dropWhile (\<lambda>c. c = CHR '' '') s))"

definition readClock :: "string \<Rightarrow> string \<Rightarrow> int \<times> int" where
  "readClock face half =
     (let h = digitsOf (takeWhile (\<lambda>c. c \<noteq> CHR '':'') face) mod 12
      in ((if half = ''pm'' then h + 12 else h), digitsOf (tl (dropWhile (\<lambda>c. c \<noteq> CHR '':'') face))))"

lemma minutes_readable:
  "list_all (\<lambda>m. let s = pad_left (CHR ''0'') 2 (dec_int (int m)) in
     digitsOf s = int m \<and> length s = 2) [0..<60]"
  by code_simp

lemma hours_readable:
  "list_all (\<lambda>h. let s = pad_left (CHR '' '') 2 (dec_int (clockHour (int h))) in
     digitsOf s mod 12 = int h mod 12 \<and> CHR '':'' \<notin> set s \<and> length s = 2) [0..<24]"
  by code_simp

text \<open>
  The face of the clock is never ambiguous: read the way a person reads a twelve hour clock,
  its five characters and the two letters next to them give back the hour and the minute.
\<close>

theorem clock_face_reads_back:
  assumes "0 \<le> tm_hour t" "tm_hour t < 24" "0 \<le> tm_min t" "tm_min t < 60"
  shows "readClock (clockText t) (amPmText t) = (tm_hour t, tm_min t) \<and> length (clockText t) = 5"
proof -
  let ?h = "pad_left (CHR '' '') 2 (dec_int (clockHour (tm_hour t)))"
  let ?m = "pad_left (CHR ''0'') 2 (dec_int (tm_min t))"
  have "nat (tm_min t) \<in> set [0..<60]" "nat (tm_hour t) \<in> set [0..<24]" using assms by auto
  then have m: "digitsOf ?m = tm_min t" "length ?m = 2"
    and h: "digitsOf ?h mod 12 = tm_hour t mod 12" "CHR '':'' \<notin> set ?h" "length ?h = 2"
    using minutes_readable hours_readable assms unfolding list_all_iff Let_def by fastforce+
  have "takeWhile (\<lambda>c. c \<noteq> CHR '':'') (clockText t) = ?h" "dropWhile (\<lambda>c. c \<noteq> CHR '':'') (clockText t) = CHR '':'' # ?m"
    using h(2) by (simp_all add: clockText_def takeWhile_append dropWhile_append)
  moreover have "tm_hour t mod 12 = (if 11 < tm_hour t then tm_hour t - 12 else tm_hour t)"
    using assms(1,2) by presburger
  ultimately have "readClock (clockText t) (amPmText t) = (tm_hour t, tm_min t)"
    using m(1) h(1) by (simp add: readClock_def amPmText_def)
  moreover have "length (clockText t) = 5" unfolding clockText_def length_append m(2) h(3) by simp
  ultimately show ?thesis ..
qed

theorem clock_face_reads_back_witness:
  "readClock (clockText \<lparr>tm_hour = 0, tm_min = 5, tm_sec = 0, tm_wday = 0, tm_mon = 0, tm_mday = 1\<rparr>)
     (amPmText \<lparr>tm_hour = 0, tm_min = 5, tm_sec = 0, tm_wday = 0, tm_mon = 0, tm_mday = 1\<rparr>) = (0, 5)"
  using clock_face_reads_back[of "\<lparr>tm_hour = 0, tm_min = 5, tm_sec = 0, tm_wday = 0, tm_mon = 0, tm_mday = 1\<rparr>"]
  by simp

text \<open>The reference: the English ordinal of a number.\<close>

definition ordinalSuffix :: "int \<Rightarrow> string" where
  "ordinalSuffix n =
     (if 11 \<le> n mod 100 \<and> n mod 100 \<le> 13 then ''th''
      else if n mod 10 = 1 then ''st'' else if n mod 10 = 2 then ''nd'' else if n mod 10 = 3 then ''rd'' else ''th'')"

lemma ordinals_agree:
  "list_all (\<lambda>d. getDayOfMonthStr (int d) = dec_int (int d) @ ordinalSuffix (int d)) [1..<32]"
  by code_simp

text \<open>
  For every day of a month the date shows the English ordinal: the table of exceptions of
  \<open>getDayOfMonthStr\<close> agrees with the rule on the last two digits.
\<close>

theorem day_is_english_ordinal:
  assumes "1 \<le> day" "day \<le> 31"
  shows "getDayOfMonthStr day = dec_int day @ ordinalSuffix day"
proof -
  have "nat day \<in> set [1..<32]" using assms by auto
  then show ?thesis using ordinals_agree assms(1) unfolding list_all_iff by fastforce
qed

theorem day_is_english_ordinal_witness: "getDayOfMonthStr 22 = dec_int 22 @ ordinalSuffix 22"
  using day_is_english_ordinal[of 22] by simp

section \<open>Dimming\<close>

lemma updateDim_room:
  "roomIsDark (updateDim i) \<longleftrightarrow> getLightValue (lightSensor i) < darkRoomThresholdLowWaterMark \<or>
     roomIsDark i \<and> getLightValue (lightSensor i) < darkRoomThresholdHighWaterMark"
proof -
  have "v < darkRoomThresholdLowWaterMark \<Longrightarrow> v < darkRoomThresholdHighWaterMark" for v
    unfolding darkRoomThresholdLowWaterMark_def darkRoomThresholdHighWaterMark_def
    by (simp add: word_less_def)
  then show ?thesis
    by (auto simp: updateDim_def Let_def display_broadcast_def onHT_def)
qed

text \<open>
  The brightness has hysteresis: the display is dim below the lower mark, bright from the upper
  mark on, and between the two it stays as it is, in which case nothing at all happens. A change
  sets the brightness of the matrix and is announced, once, to every other thread.
\<close>

theorem dimming_has_hysteresis:
  "(roomIsDark (updateDim i) \<longleftrightarrow> getLightValue (lightSensor i) < 460 \<or>
      roomIsDark i \<and> getLightValue (lightSensor i) < 600) \<and>
   (if roomIsDark (updateDim i) = roomIsDark i then updateDim i = i
    else brightness (ht1632 (updateDim i)) = (if roomIsDark (updateDim i) then 1 else 16) \<and>
      motionInboxes (motionSensor (updateDim i)) =
        broadcast (mkInboxMsg (if roomIsDark (updateDim i) then inboxMsgTypeDisplayBrightLow
          else inboxMsgTypeDisplayBrightHigh)) threadIdDisplay (motionInboxes (motionSensor i)))"
proof -
  have "updateDim i = i" if "roomIsDark (updateDim i) = roomIsDark i"
    using that by (auto simp: updateDim_def Let_def display_broadcast_def onHT_def split: if_splits)
  moreover have "brightness (ht1632 (updateDim i)) = (if roomIsDark (updateDim i) then 1 else 16)"
      "motionInboxes (motionSensor (updateDim i)) =
        broadcast (mkInboxMsg (if roomIsDark (updateDim i) then inboxMsgTypeDisplayBrightLow
          else inboxMsgTypeDisplayBrightHigh)) threadIdDisplay (motionInboxes (motionSensor i))"
    if "roomIsDark (updateDim i) \<noteq> roomIsDark i"
    using that by (auto simp: updateDim_def Let_def display_broadcast_def onHT_def setBrightness_def emit_def
        split: if_splits)
  ultimately show ?thesis using updateDim_room[of i]
    by (simp add: darkRoomThresholdLowWaterMark_def darkRoomThresholdHighWaterMark_def)
qed

section \<open>Rest and waking up\<close>

lemma nothing_index: "displayModeIndex (changeDisplayMode displayModeNothing p i) = 0"
  by (simp add: changeDisplayMode_nothing onHT_def)

lemma clock_index_one: "displayModeIndex (changeDisplayMode displayModeBasicClock p i) = Suc 0"
  using clock_index by simp

lemma motion_onTickers [simp]: "motionSensor (onTickers f i) = motionSensor i"
  by (simp add: onTickers_def)

lemma motion_checkHT1632 [simp]: "motionSensor (checkHT1632 i) = motionSensor i"
  using drawsOnly_checkHT1632[OF drawsOnly_refl, of i] by (simp add: drawsOnly_def)

definition longStill :: "MotionInfo \<Rightarrow> bool" where
  "longStill m \<longleftrightarrow> \<not> currMotionDetected m \<and> (15 < lastChangedMin m \<or> 0 < lastChangedHour m)"

lemma clockFast_index:
  "displayModeIndex (modeBasicClockFast i) =
     (if longStill (motionInfo (motionSensor i)) then 0 else displayModeIndex i)"
proof -
  have "drawsOnly i (updateMotionDetectedPixel True (modeBasicClockShowSeconds i))" by (intro drawsOnly_intros)
  then show ?thesis
    by (simp add: modeBasicClockFast_def getMotionValue_def nothing_index longStill_def drawsOnly_mode)
qed

lemma clock_tick_index:
  assumes "displayModeIndex i = 1"
  shows "displayModeIndex (displayTick t i) =
    (if t = Tick500ms \<and> longStill (motionInfo (motionSensor i)) then 0 else 1)"
proof (cases "t = Tick500ms")
  case True
  then show ?thesis using assms
    by (simp add: displayTick500ms_def callDisplayHandler_def handlers_defs clockFast_index)
next
  case False
  have k: "displayModeIndex (modeBasicClockSDoUpDownAnimation j) = displayModeIndex j"
    "displayModeIndex (modeBasicClockSlow j) = displayModeIndex j" for j
    using drawsOnly_mode[OF drawsOnly_animations[OF drawsOnly_refl]] drawsOnly_mode[OF drawsOnly_modeBasicClockSlow[OF drawsOnly_refl]] by simp_all
  from False assms show ?thesis
    by (cases t) (simp_all add: displayTick_defs callDisplayHandler_def handlers_defs k modeBasicClock1Sec_def
        modeBasicClock5Sec_def)
qed

lemma rest_tick_index:
  assumes "displayModeIndex i = 0"
  shows "displayModeIndex (displayTick t i) =
    (if t = Tick1sec \<and> currMotionDetected (motionInfo (motionSensor i)) then 1 else 0)"
proof (cases "t = Tick1sec")
  case True
  have "displayModeIndex (nothingAdvance j) = displayModeIndex j" for j by (simp add: nothingAdvance_def Let_def)
  then have "displayModeIndex (modeNothingCheckMotion j) =
      (if fst (getMotionValue (motionSensor j)) then 1 else displayModeIndex j)" for j
    using drawsOnly_mode[OF nothing_drawsOnly] by (simp add: modeNothingCheckMotion_def clock_index_one)
  then show ?thesis using assms True
    by (simp add: displayTick1sec_def callDisplayHandler_def handlers_defs getMotionValue_def)
next
  case False
  then show ?thesis using assms
    by (cases t) (simp_all add: displayTick_defs callDisplayHandler_def handlers_defs)
qed

lemma getDisplayMode_index:
  "displayModeIndex j < 3 \<Longrightarrow> getDisplayMode j =
     (if displayModeIndex j = 0 then displayModeNothing else if displayModeIndex j = 1 then displayModeBasicClock
      else displayModeMessage)"
  by (auto simp: getDisplayMode_def displayModeHeads_def less_Suc_eq numeral_3_eq_3)

text \<open>
  C35. The clock is taken off only when nobody has moved for more than a quarter of an hour, and it
  is back at the first second in which somebody moves: of all the ticks, one in the clock mode
  leads to rest, one in the rest mode leads back, each under exactly that condition, and no tick
  leads from either mode anywhere else.
\<close>

theorem rest_and_wake:
  assumes "getDisplayMode i = displayModeBasicClock \<or> getDisplayMode i = displayModeNothing"
    and "displayModeIndex i < 3"
  shows "getDisplayMode (displayTick t i) =
    (if getDisplayMode i = displayModeBasicClock then
       (if t = Tick500ms \<and> longStill (motionInfo (motionSensor i)) then displayModeNothing else displayModeBasicClock)
     else if t = Tick1sec \<and> currMotionDetected (motionInfo (motionSensor i)) then displayModeBasicClock
     else displayModeNothing)"
proof -
  from assms consider "displayModeIndex i = 1" | "displayModeIndex i = 0"
    by (auto simp: getDisplayMode_index split: if_splits)
  then show ?thesis
    by cases (simp_all add: getDisplayMode_index clock_tick_index rest_tick_index del: displayTick.simps)
qed

theorem rest_and_wake_witness:
  "getDisplayMode (displayTick Tick500ms (quietDisplay\<lparr>displayModeIndex := 1\<rparr>)) = displayModeBasicClock"
proof -
  let ?i = "quietDisplay\<lparr>displayModeIndex := 1\<rparr>"
  have "getDisplayMode ?i = displayModeBasicClock" by (simp add: getDisplayMode_def displayModeHeads_def)
  then show ?thesis using rest_and_wake[of ?i Tick500ms]
    by (simp add: longStill_def quietDisplay_def displayStatics_def newMotionSensor_def)
qed

section \<open>The bounce\<close>

definition bounce_ok :: "ModeMessageData \<Rightarrow> bool" where
  "bounce_ok m \<longleftrightarrow> incrementY m = 800 \<and> -800 \<le> currYFactor m \<and> currYFactor m < 11000 \<or>
     incrementY m = -800 \<and> 0 \<le> currYFactor m \<and> currYFactor m < 11800"

lemma fontHeight_range: "5 \<le> getFontHeight f" "getFontHeight f \<le> 16"
  by (simp_all add: getFontHeight_def FONT_5X4_HEIGHT_def FONT_8X4_HEIGHT_def FONT_7X5_HEIGHT_def
      FONT_8X6_HEIGHT_def FONT_16X8_HEIGHT_def)

lemma bounce_messageBounce:
  assumes "bounce_ok (modeMessageData i)" shows "bounce_ok (modeMessageData (messageBounce i))"
  using assms fontHeight_range(1)[of "mm_font (modeMessageData i)"] fontHeight_range(2)[of "mm_font (modeMessageData i)"]
  by (auto simp: messageBounce_def bounce_ok_def Let_def INCREMENT_Y_SCALE_def)

lemma modeMessageData_clock:
  "modeMessageData (changeDisplayMode displayModeBasicClock p i) = modeMessageData i"
proof -
  have "drawsOnly (i\<lparr>displayModeIndex := 1\<rparr>)
      (modeBasicClockSlow (onHT matrix_renderAll (onHT matrix_clearAll (i\<lparr>displayModeIndex := 1\<rparr>))))"
    by (intro drawsOnly_intros)
  then show ?thesis by (simp add: changeDisplayMode_clock display_broadcast_def drawsOnly_message)
qed

lemma messageRepeats_y:
  "incrementY (modeMessageData (snd (messageRepeats i))) = incrementY (modeMessageData i)"
  "currYFactor (modeMessageData (snd (messageRepeats i))) = currYFactor (modeMessageData i)"
  by (simp_all add: messageRepeats_def Let_def runCallback_clock modeMessageData_clock split: option.splits)

lemma messageWrap_y:
  "incrementY (modeMessageData (snd (messageWrap i))) = incrementY (modeMessageData i)"
  "currYFactor (modeMessageData (snd (messageWrap i))) = currYFactor (modeMessageData i)"
  by (simp_all add: messageWrap_def Let_def messageRepeats_y nextMessageFont_def)

lemma bounce_modeMessageFast:
  assumes "bounce_ok (modeMessageData i)" shows "bounce_ok (modeMessageData (modeMessageFast i))"
proof (cases "messageWrap (drawMessage i)")
  case (Pair ended j)
  then have "bounce_ok (modeMessageData j)"
    using messageWrap_y[of "drawMessage i"] assms by (simp add: bounce_ok_def)
  then show ?thesis using Pair bounce_messageBounce[of j] by (cases ended) (simp_all add: modeMessageFast_def)
qed

lemma modeMessageData_nothing:
  "modeMessageData (changeDisplayMode displayModeNothing p i) = modeMessageData i"
  by (simp add: changeDisplayMode_nothing display_broadcast_def onHT_def)

lemma clock_handlers_message [simp]:
  "modeMessageData (modeBasicClockFast i) = modeMessageData i"
  "modeMessageData (modeBasicClockSDoUpDownAnimation i) = modeMessageData i"
  "modeMessageData (modeBasicClockSlow i) = modeMessageData i"
proof -
  have "drawsOnly i (updateMotionDetectedPixel True (modeBasicClockShowSeconds i))" by (intro drawsOnly_intros)
  then show "modeMessageData (modeBasicClockFast i) = modeMessageData i"
    by (simp add: modeBasicClockFast_def modeMessageData_nothing drawsOnly_message split: prod.split)
qed (simp_all add: drawsOnly_message[OF drawsOnly_animations[OF drawsOnly_refl]]
    drawsOnly_message[OF drawsOnly_modeBasicClockSlow[OF drawsOnly_refl]])

lemma nothing_handler_message [simp]: "modeMessageData (modeNothingCheckMotion i) = modeMessageData i"
proof -
  have "modeMessageData (nothingAdvance j) = modeMessageData j" for j by (simp add: nothingAdvance_def Let_def)
  then show ?thesis using nothing_drawsOnly[of i]
    by (simp add: modeNothingCheckMotion_def modeMessageData_clock drawsOnly_message)
qed

lemma message_handlers_y [simp]:
  "incrementY (modeMessageData (modeMessageCheckTimeout i)) = incrementY (modeMessageData i)"
  "currYFactor (modeMessageData (modeMessageCheckTimeout i)) = currYFactor (modeMessageData i)"
  "incrementY (modeMessageData (modeMessageCheckBlink i)) = incrementY (modeMessageData i)"
  "currYFactor (modeMessageData (modeMessageCheckBlink i)) = currYFactor (modeMessageData i)"
  by (simp_all add: modeMessageCheckTimeout_def modeMessageCheckBlink_def Let_def runCallback_clock
      modeMessageData_clock split: option.splits)

lemma less_3_cases_iff: "n < 3 \<longleftrightarrow> n = 2 \<or> n = 1 \<or> n = 0" for n :: nat
  by arith

lemma bounce_tick:
  assumes "bounce_ok (modeMessageData i)" "displayModeIndex i < 3"
  shows "bounce_ok (modeMessageData (displayTick t i))"
proof (cases "t = TickFast \<and> displayModeIndex i = 2")
  case True
  then show ?thesis using assms
      bounce_modeMessageFast[of "onTickers (\<lambda>t. t\<lparr>animationStepTickerFast := animationStepTickerFast t + 1\<rparr>) i"]
    by (simp add: displayTickFast_def callDisplayHandler_def handlers_defs)
next
  case False
  then have "incrementY (modeMessageData (displayTick t i)) = incrementY (modeMessageData i)"
    "currYFactor (modeMessageData (displayTick t i)) = currYFactor (modeMessageData i)"
    using assms(2) unfolding less_3_cases_iff
    by (cases t; auto simp: displayTick_defs callDisplayHandler_def handlers_defs modeBasicClock1Sec_def
        modeBasicClock5Sec_def)+
  then show ?thesis using assms(1) by (simp add: bounce_ok_def)
qed

lemma messageWrap_index:
  "displayModeIndex (snd (messageWrap i)) = 1 \<or> displayModeIndex (snd (messageWrap i)) = displayModeIndex i"
  by (auto simp: messageWrap_def messageRepeats_def nextMessageFont_def Let_def runCallback_clock clock_index_one
      split: option.splits)

lemma message_tick_index:
  assumes "displayModeIndex i = 2"
  shows "displayModeIndex (displayTick t i) = 1 \<or> displayModeIndex (displayTick t i) = 2"
proof -
  have f: "displayModeIndex (modeMessageFast j) = 1 \<or> displayModeIndex (modeMessageFast j) = displayModeIndex j" for j
    using messageWrap_index[of "drawMessage j"]
    by (auto simp: modeMessageFast_def messageBounce_frame split: prod.splits bool.splits)
  have o: "displayModeIndex (modeMessageCheckTimeout j) = 1 \<or>
      displayModeIndex (modeMessageCheckTimeout j) = displayModeIndex j" for j
    by (auto simp: modeMessageCheckTimeout_def Let_def runCallback_clock clock_index_one split: option.splits)
  show ?thesis using assms
      f[of "onTickers (\<lambda>t. t\<lparr>animationStepTickerFast := animationStepTickerFast t + 1\<rparr>) i"]
      o[of "onTickers (\<lambda>t. t\<lparr>animationStepTicker1sec := animationStepTicker1sec t + 1\<rparr>) i"]
    by (cases t) (auto simp: displayTick_defs callDisplayHandler_def handlers_defs modeMessageCheckBlink_def)
qed

lemma tick_index: "displayModeIndex i < 3 \<Longrightarrow> displayModeIndex (displayTick t i) < 3"
  unfolding less_3_cases_iff
  using message_tick_index[of i t] clock_tick_index[of i t] rest_tick_index[of i t] by (auto split: if_splits)

lemma bounce_ticks:
  assumes "bounce_ok (modeMessageData i)" "displayModeIndex i < 3"
  shows "bounce_ok (modeMessageData (fold displayTick ts i))"
  using assms by (induction ts arbitrary: i) (simp_all add: bounce_tick tick_index)

text \<open>
  A message that bounces never leaves the matrix. Whatever ticks run, its counter keeps the
  step of 800 thousandths up or down and stays within one step of the rows from 0 to 11, and the
  row the text is drawn at leaves room for the height of the font.
\<close>

theorem bounce_stays_on_matrix:
  assumes "bounce_ok (modeMessageData i)" "displayModeIndex i < 3"
    and "m = modeMessageData (fold displayTick ts i)"
    and "row = getAdjustedTextY (mm_font m) (c_div (currYFactor m) INCREMENT_Y_SCALE)"
  shows "bounce_ok m \<and> 0 \<le> row \<and> row + getFontHeight (mm_font m) \<le> COM_SIZE"
  using bounce_ticks[OF assms(1,2), of ts] fontHeight_range(2)[of "mm_font m"] assms(3,4)
  by (auto simp: getAdjustedTextY_def)

theorem bounce_stays_on_matrix_witness:
  "bounce_ok (modeMessageData (fold displayTick [TickFast, Tick1sec, TickFast]
     (quietDisplay\<lparr>displayModeIndex := 2, modeMessageData := zeroModeMessageData\<lparr>incrementY := 800, currYFactor := 5000\<rparr>\<rparr>)))"
  using bounce_stays_on_matrix[of
      "quietDisplay\<lparr>displayModeIndex := 2, modeMessageData := zeroModeMessageData\<lparr>incrementY := 800, currYFactor := 5000\<rparr>\<rparr>"
      _ "[TickFast, Tick1sec, TickFast]", OF _ _ refl refl]
  by (simp add: bounce_ok_def)

end
