(* ===== verification/Display_Safety.thy ===== *)
theory Display_Safety
  imports Display_Clock
begin

text \<open>
  The state of the display stays well formed, whatever ticks and requests come and whatever the
  other threads do to the dictionary and the sensors: the tables keep their size, the texts fit
  their buffers, and the indices and frames that select among tables stay in range.
\<close>

section \<open>Well-formed states\<close>

definition message_ok :: "ModeMessageData \<Rightarrow> bool" where
  "message_ok m \<longleftrightarrow> length (mm_msg m) < MESSAGE_MAX_SIZE \<and> completedCallback m \<noteq> None"

definition backgrounds_ok :: "DisplayInternalInfo \<Rightarrow> bool" where
  "backgrounds_ok i \<longleftrightarrow>
     length (backgroundMessage i) = BACKGROUND_MESSAGE_COUNT \<and> length (backgroundImg i) = BACKGROUND_IMG_COUNT \<and>
     list_all (\<lambda>b. length (bgm_msg b) < BACKGROUND_MESSAGE_MSG_SIZE) (backgroundMessage i) \<and>
     list_all (\<lambda>b. bgi_imgArt b \<le> imgArtLast) (backgroundImg i)"

definition display_ok :: "DisplayInternalInfo \<Rightarrow> bool" where
  "display_ok i \<longleftrightarrow> displayModeIndex i < 3 \<and> message_ok (modeMessageData i) \<and> backgrounds_ok i \<and>
     dot_ok i \<and> frames_ok i"

lemma display_ok_drawsOnly: "drawsOnly i j \<Longrightarrow> display_ok i \<Longrightarrow> display_ok j"
  by (simp add: drawsOnly_def display_ok_def backgrounds_ok_def dot_ok_def)

lemma display_ok_broadcast [simp]: "display_ok (display_broadcast t i) = display_ok i"
  by (simp add: display_broadcast_def display_ok_def backgrounds_ok_def dot_ok_def frames_ok_def)

lemma display_ok_onHT [simp]: "display_ok (onHT f i) = display_ok i"
  by (simp add: onHT_def display_ok_def backgrounds_ok_def dot_ok_def frames_ok_def)

lemma display_ok_index: "display_ok i \<Longrightarrow> n < 3 \<Longrightarrow> display_ok (i\<lparr>displayModeIndex := n\<rparr>)"
  by (simp add: display_ok_def backgrounds_ok_def dot_ok_def frames_ok_def)

lemma display_ok_onMsg:
  "display_ok i \<Longrightarrow> message_ok (f (modeMessageData i)) \<Longrightarrow> display_ok (onMsg f i)"
  by (simp add: onMsg_def display_ok_def backgrounds_ok_def dot_ok_def frames_ok_def)

lemma display_ok_bump [simp]: "display_ok (bumpColorEffect i) = display_ok i"
  by (simp add: bumpColorEffect_def display_ok_def backgrounds_ok_def dot_ok_def frames_ok_def)

lemma display_ok_onTickers [simp]: "display_ok (onTickers f i) = display_ok i"
  by (simp add: onTickers_def display_ok_def backgrounds_ok_def dot_ok_def frames_ok_def)

lemma display_ok_message: "display_ok i \<Longrightarrow> message_ok (modeMessageData i)"
  by (simp add: display_ok_def)

lemma snprintf_s_less: "0 < n \<Longrightarrow> length (snprintf_s n s) < n"
  by (simp add: snprintf_s_def)

lemma message_text_less: "length (snprintf_s MESSAGE_MAX_SIZE s) < MESSAGE_MAX_SIZE"
  by (simp add: snprintf_s_less MESSAGE_MAX_SIZE_def)

section \<open>Changes of mode and ticks\<close>

lemma display_ok_clock: "display_ok i \<Longrightarrow> display_ok (changeDisplayMode displayModeBasicClock p i)"
proof -
  assume "display_ok i"
  then have "display_ok (i\<lparr>displayModeIndex := 1\<rparr>)" by (simp add: display_ok_index)
  moreover have "drawsOnly (i\<lparr>displayModeIndex := 1\<rparr>)
      (modeBasicClockSlow (onHT matrix_renderAll (onHT matrix_clearAll (i\<lparr>displayModeIndex := 1\<rparr>))))"
    by (intro drawsOnly_intros)
  ultimately show ?thesis by (simp add: changeDisplayMode_clock display_ok_drawsOnly)
qed

lemma display_ok_nothing: "display_ok i \<Longrightarrow> display_ok (changeDisplayMode displayModeNothing p i)"
  by (simp add: changeDisplayMode_nothing display_ok_index)

lemma display_ok_messageInit: "display_ok i \<Longrightarrow> display_ok (modeMessageInit p i)"
proof -
  assume i: "display_ok i"
  show ?thesis using i display_ok_message[OF i] message_text_less
    by (auto simp: modeMessageInit_def Let_def message_ok_def split: option.split intro!: display_ok_onMsg)
qed

lemma display_ok_toMessage: "display_ok i \<Longrightarrow> display_ok (changeDisplayMode displayModeMessage p i)"
  by (simp add: changeDisplayMode_message display_ok_messageInit display_ok_index)

lemma display_ok_messageBounce: "display_ok i \<Longrightarrow> display_ok (messageBounce i)"
  using display_ok_message[of i]
  by (auto simp: messageBounce_def Let_def message_ok_def intro!: display_ok_onMsg)

lemma display_ok_messageRepeats: "display_ok i \<Longrightarrow> display_ok (snd (messageRepeats i))"
  using display_ok_message[of i]
  by (auto simp: messageRepeats_def Let_def message_ok_def runCallback_clock split: option.split
      intro!: display_ok_onMsg display_ok_clock)

lemma display_ok_nextMessageFont: "display_ok i \<Longrightarrow> display_ok (nextMessageFont i)"
  using display_ok_message[of i]
  by (auto simp: nextMessageFont_def message_ok_def intro!: display_ok_onMsg)

lemma display_ok_messageWrap: "display_ok i \<Longrightarrow> display_ok (snd (messageWrap i))"
  using display_ok_message[of i]
  by (auto simp: messageWrap_def Let_def message_ok_def
      intro!: display_ok_onMsg display_ok_messageRepeats display_ok_nextMessageFont)

lemma display_ok_fast: "display_ok i \<Longrightarrow> display_ok (modeMessageFast i)"
proof (cases "messageWrap (drawMessage i)")
  case (Pair ended j)
  assume "display_ok i"
  then have "display_ok j"
    using display_ok_messageWrap[of "drawMessage i"] display_ok_drawsOnly[OF drawsOnly_drawMessage[OF drawsOnly_refl]] Pair by simp
  then show ?thesis using Pair by (cases ended) (simp_all add: modeMessageFast_def display_ok_messageBounce)
qed

lemma display_ok_timeout: "display_ok i \<Longrightarrow> display_ok (modeMessageCheckTimeout i)"
  using display_ok_message[of i]
  by (auto simp: modeMessageCheckTimeout_def Let_def message_ok_def runCallback_clock split: option.split
      intro!: display_ok_onMsg display_ok_clock)

lemma display_ok_blink: "display_ok i \<Longrightarrow> display_ok (modeMessageCheckBlink i)"
  using display_ok_message[of i] by (auto simp: modeMessageCheckBlink_def message_ok_def intro!: display_ok_onMsg)

lemma display_ok_clockFast: "display_ok i \<Longrightarrow> display_ok (modeBasicClockFast i)"
proof -
  assume "display_ok i"
  moreover have "drawsOnly i (updateMotionDetectedPixel True (modeBasicClockShowSeconds i))" by (intro drawsOnly_intros)
  ultimately show ?thesis
    by (simp add: modeBasicClockFast_def display_ok_nothing display_ok_drawsOnly split: prod.split)
qed

lemma dot_ok_advance: "dot_ok i \<Longrightarrow> dot_ok (nothingAdvance i)"
  using color_succ[of "nothingColor i"]
  by (auto simp: dot_ok_def nothingAdvance_def Let_def word_less_def)

lemma display_ok_rest: "display_ok i \<Longrightarrow> display_ok (modeNothingCheckMotion i)"
proof -
  assume i: "display_ok i"
  have "display_ok (nothingAdvance j)" if "display_ok j" for j
    using that dot_ok_advance[of j]
    by (simp add: display_ok_def) (simp add: nothingAdvance_def Let_def backgrounds_ok_def frames_ok_def)
  then show ?thesis using i display_ok_drawsOnly[OF nothing_drawsOnly i]
    by (simp add: modeNothingCheckMotion_def display_ok_clock)
qed

lemma display_ok_updateDim: "display_ok i \<Longrightarrow> display_ok (updateDim i)"
proof -
  assume i: "display_ok i"
  have "display_ok (j\<lparr>roomIsDark := b\<rparr>)" if "display_ok j" for j b
    using that by (simp add: display_ok_def backgrounds_ok_def dot_ok_def frames_ok_def)
  with i show ?thesis by (simp add: updateDim_def Let_def)
qed

lemma display_ok_tick: "display_ok i \<Longrightarrow> display_ok (displayTick t i)"
proof -
  assume i: "display_ok i"
  then have "displayModeIndex i < 3" by (simp add: display_ok_def)
  note cases = this[unfolded less_3_cases_iff]
  note draws = display_ok_drawsOnly[OF drawsOnly_animations[OF drawsOnly_refl]]
    display_ok_drawsOnly[OF drawsOnly_modeBasicClockSlow[OF drawsOnly_refl]] display_ok_drawsOnly[OF drawsOnly_checkHT1632[OF drawsOnly_refl]]
  note handlers = display_ok_fast display_ok_timeout display_ok_blink display_ok_clockFast display_ok_rest
    display_ok_updateDim
  show ?thesis using i cases
    by (cases t) (auto simp: displayTick_defs callDisplayHandler_def handlers_defs modeBasicClock1Sec_def
        modeBasicClock5Sec_def draws intro!: handlers)
qed

section \<open>Requests\<close>

lemma display_ok_get: "display_get key i = (v, found, j) \<Longrightarrow> display_ok i \<Longrightarrow> display_ok j"
  using display_ok_drawsOnly[OF drawsOnly_get[OF _ drawsOnly_refl]] .

lemma display_ok_lookup: "lookupDictValue key i = (v, j) \<Longrightarrow> display_ok i \<Longrightarrow> display_ok j"
  by (auto simp: lookupDictValue_def split: prod.splits dest: display_ok_get)

lemma display_ok_random: "display_random n i = (v, j) \<Longrightarrow> display_ok i \<Longrightarrow> display_ok j"
  using display_ok_drawsOnly[OF drawsOnly_random[OF _ drawsOnly_refl]] .

lemma display_ok_cookie: "display_ok i \<Longrightarrow> display_ok (cookieIndex v i)"
proof -
  assume i: "display_ok i"
  obtain n j where n: "(if length v = 7 then display_random modeMsgsIndexLast i else (strtoul (drop 7 v) 10, i)) = (n, j)"
    by (cases "if length v = 7 then display_random modeMsgsIndexLast i else (strtoul (drop 7 v) 10, i)")
  then have j: "display_ok j" using i by (auto split: if_splits dest: display_ok_random)
  then show ?thesis using display_ok_message[OF j]
    by (auto simp: cookieIndex_def n message_ok_def intro!: display_ok_onMsg)
qed

lemma display_ok_msgModeText: "display_ok i \<Longrightarrow> display_ok (msgModeText v i)"
  using display_ok_message[of i] message_text_less
  by (auto simp: msgModeText_def message_ok_def display_ok_cookie split: prod.splits
      intro!: display_ok_onMsg dest: display_ok_lookup display_ok_message[OF display_ok_lookup])

lemma display_ok_if: "display_ok j \<Longrightarrow> display_ok k \<Longrightarrow> display_ok (if b then j else k)"
  by simp

lemma display_ok_msgModeParam: "display_ok i \<Longrightarrow> display_ok (msgModeParam kvp i)"
proof -
  assume i: "display_ok i"
  show ?thesis unfolding msgModeParam_def Let_def
    by (intro display_ok_if display_ok_onMsg display_ok_msgModeText i)
      (use display_ok_message[OF i] in \<open>simp_all add: message_ok_def\<close>)
qed

lemma display_ok_initMessage:
  "display_ok i \<Longrightarrow> display_ok (initModeMessageData x y incX incY conf blk fnt tmo i)"
  by (auto simp: initModeMessageData_def message_ok_def MESSAGE_MAX_SIZE_def intro!: display_ok_onMsg)

lemma display_ok_msgModePost: "display_ok i \<Longrightarrow> display_ok (doHandleMsgModePost ps i)"
proof -
  have "display_ok j \<Longrightarrow> display_ok (fold msgModeParam ps j)" for j
    by (induction ps arbitrary: j) (simp_all add: display_ok_msgModeParam)
  then show "display_ok i \<Longrightarrow> ?thesis"
    by (simp add: doHandleMsgModePost_def display_ok_toMessage display_ok_initMessage)
qed

lemma display_ok_backgrounds:
  "display_ok i \<Longrightarrow> length xs = BACKGROUND_MESSAGE_COUNT \<Longrightarrow>
     list_all (\<lambda>b. length (bgm_msg b) < BACKGROUND_MESSAGE_MSG_SIZE) xs \<Longrightarrow> display_ok (i\<lparr>backgroundMessage := xs\<rparr>)"
  "display_ok i \<Longrightarrow> length ys = BACKGROUND_IMG_COUNT \<Longrightarrow>
     list_all (\<lambda>b. bgi_imgArt b \<le> imgArtLast) ys \<Longrightarrow> display_ok (i\<lparr>backgroundImg := ys\<rparr>)"
  by (simp_all add: display_ok_def backgrounds_ok_def dot_ok_def frames_ok_def)

lemma list_all_update: "list_all P xs \<Longrightarrow> P x \<Longrightarrow> list_all P (xs[n := x])"
  by (auto simp: list_all_iff dest: set_update_subset_insert[THEN subsetD])

lemma display_ok_background_fields:
  "display_ok i \<Longrightarrow> length (backgroundMessage i) = BACKGROUND_MESSAGE_COUNT"
  "display_ok i \<Longrightarrow> length (backgroundImg i) = BACKGROUND_IMG_COUNT"
  "display_ok i \<Longrightarrow> list_all (\<lambda>b. length (bgm_msg b) < BACKGROUND_MESSAGE_MSG_SIZE) (backgroundMessage i)"
  "display_ok i \<Longrightarrow> list_all (\<lambda>b. bgi_imgArt b \<le> imgArtLast) (backgroundImg i)"
  by (simp_all add: display_ok_def backgrounds_ok_def)

lemma background_size_pos: "0 < BACKGROUND_MESSAGE_MSG_SIZE"
  by (simp add: BACKGROUND_MESSAGE_MSG_SIZE_def)

lemma display_ok_initBackgroundMessage: "display_ok i \<Longrightarrow> display_ok (initBackgroundMessage n i)"
  by (simp add: initBackgroundMessage_def display_ok_backgrounds display_ok_background_fields list_all_update
      background_size_pos)

lemma display_ok_initBackgroundImg: "display_ok i \<Longrightarrow> display_ok (initBackgroundImg n i)"
  by (simp add: initBackgroundImg_def display_ok_backgrounds display_ok_background_fields list_all_update)

lemma fold_preserves: "P j \<Longrightarrow> (\<And>x k. P k \<Longrightarrow> P (f x k)) \<Longrightarrow> P (fold f xs j)"
  by (induction xs arbitrary: j) simp_all

lemma display_ok_imgParam:
  assumes "display_ok i" "bgi_imgArt b \<le> imgArtLast"
  shows "case imgParam kvp (n, b, i) of (n', b', i') \<Rightarrow> display_ok i' \<and> bgi_imgArt b' \<le> imgArtLast"
  using assms fold_preserves[of display_ok i "\<lambda>k. initBackgroundImg (int k)" "[0..<BACKGROUND_IMG_COUNT]"]
  unfolding imgParam_def Let_def prod.case
  by (simp add: display_ok_initBackgroundImg not_le less_imp_le)

lemma display_ok_imgPost: "display_ok i \<Longrightarrow> display_ok (doHandleImgBackgroundPost ps i)"
proof -
  assume i: "display_ok i"
  have "case fold imgParam ps (n, b, j) of (n', b', i') \<Rightarrow> display_ok i' \<and> bgi_imgArt b' \<le> imgArtLast"
    if "display_ok j" "bgi_imgArt b \<le> imgArtLast" for n b j
    using that
  proof (induction ps arbitrary: n b j)
    case (Cons p ps)
    then show ?case using display_ok_imgParam[of j b p n] by (cases "imgParam p (n, b, j)") simp
  qed simp
  from this[OF i, of zeroBackgroundImg 0] show ?thesis
    by (auto simp: doHandleImgBackgroundPost_def zeroBackgroundImg_def split: prod.splits
        intro!: display_ok_backgrounds list_all_update dest: display_ok_background_fields)
qed

lemma background_text_less: "length (snprintf_s BACKGROUND_MESSAGE_MSG_SIZE s) < BACKGROUND_MESSAGE_MSG_SIZE"
  by (simp add: snprintf_s_less BACKGROUND_MESSAGE_MSG_SIZE_def)

lemma display_ok_msgParam:
  assumes "display_ok i" "length (bgm_msg b) < BACKGROUND_MESSAGE_MSG_SIZE"
  shows "case msgParam kvp (n, b, i) of (n', b', i') \<Rightarrow>
    display_ok i' \<and> length (bgm_msg b') < BACKGROUND_MESSAGE_MSG_SIZE"
proof -
  obtain v j where l: "lookupDictValue (drop (length msgDictPrefix) (c_str (snd kvp))) i = (v, j)"
    by fastforce
  show ?thesis
    using assms display_ok_lookup[OF l] background_text_less l
      fold_preserves[of display_ok i "\<lambda>k. initBackgroundMessage (int k)" "[0..<BACKGROUND_MESSAGE_COUNT]"]
    unfolding msgParam_def Let_def prod.case
    by (simp add: display_ok_initBackgroundMessage)
qed

lemma display_ok_msgPost: "display_ok i \<Longrightarrow> display_ok (doHandleMsgBackgroundPost ps i)"
proof -
  assume i: "display_ok i"
  have "case fold msgParam ps (n, b, j) of (n', b', i') \<Rightarrow>
      display_ok i' \<and> length (bgm_msg b') < BACKGROUND_MESSAGE_MSG_SIZE"
    if "display_ok j" "length (bgm_msg b) < BACKGROUND_MESSAGE_MSG_SIZE" for n b j
    using that
  proof (induction ps arbitrary: n b j)
    case (Cons p ps)
    then show ?case using display_ok_msgParam[of j b p n] by (cases "msgParam p (n, b, j)") simp
  qed simp
  from this[OF i, of zeroBackgroundMessage 0] show ?thesis
    by (auto simp: doHandleMsgBackgroundPost_def zeroBackgroundMessage_def background_size_pos
        split: prod.splits intro!: display_ok_backgrounds list_all_update
        dest: display_ok_background_fields)
qed

section \<open>Every reachable state\<close>

lemma statics_backgrounds: "backgrounds_ok (displayStatics h d m l r c)"
  by (simp add: backgrounds_ok_def displayStatics_def zeroBackgroundMessage_def zeroBackgroundImg_def
      list_all_length background_size_pos)

lemma fold_commutes: "(\<And>x k. f x (g k) = g (f x k)) \<Longrightarrow> fold f xs (g j) = g (fold f xs j)"
  by (induction xs arbitrary: j) simp_all

lemma initBackground_onMsg:
  "initBackgroundMessage n (onMsg f i) = onMsg f (initBackgroundMessage n i)"
  "initBackgroundImg n (onMsg f i) = onMsg f (initBackgroundImg n i)"
  by (simp_all add: initBackgroundMessage_def initBackgroundImg_def onMsg_def)

text \<open>The constructor sets the callback before anything reads it.\<close>

lemma initDisplay_callback: "initDisplay (onMsg (\<lambda>m. m\<lparr>completedCallback := q\<rparr>) i) = initDisplay i"
proof -
  have "initModeMessageData x y a b e f u t (onMsg (\<lambda>m. m\<lparr>completedCallback := q\<rparr>) j) =
      initModeMessageData x y a b e f u t j" for x y a b e f u t j
    by (simp add: initModeMessageData_def onMsg_def bumpColorEffect_def)
  then show ?thesis
    by (simp add: initDisplay_def Let_def fold_commutes[where g = "onMsg (\<lambda>m. m\<lparr>completedCallback := q\<rparr>)"]
        initBackground_onMsg)
qed

lemma display_ok_initDisplay: "display_ok i \<Longrightarrow> display_ok (initDisplay i)"
proof -
  assume i: "display_ok i"
  note messages = fold_preserves[where P = display_ok and f = "\<lambda>n. initBackgroundMessage (int n)",
      OF i display_ok_initBackgroundMessage]
  note imgs = fold_preserves[where P = display_ok and f = "\<lambda>n. initBackgroundImg (int n)",
      OF messages display_ok_initBackgroundImg]
  show ?thesis unfolding initDisplay_def Let_def
    by (intro display_ok_toMessage display_ok_onMsg display_ok_initMessage imgs)
      (simp_all add: message_ok_def MESSAGE_MAX_SIZE_def)
qed

lemma display_ok_new: "display_ok (newDisplayInternal h d m l r c)"
proof -
  let ?s = "displayStatics h d m l r c"
  let ?i = "onMsg (\<lambda>m. m\<lparr>completedCallback := Some CallChangeDisplayModeBasicClock\<rparr>) ?s"
  have "display_ok ?i"
    using statics_backgrounds[of h d m l r c]
    by (simp add: display_ok_def message_ok_def backgrounds_ok_def dot_ok_def frames_ok_def displayStatics_def
        zeroModeMessageData_def MESSAGE_MAX_SIZE_def animationsAfterOff_def checkCountMax_def onMsg_def)
  then show ?thesis using display_ok_initDisplay[of ?i] by (simp add: newDisplayInternal_def initDisplay_callback)
qed

text \<open>
  What can happen to the display: it is set up, its thread runs a tick or handles a request, and
  the other threads change the dictionary, the motion sensor (with the inboxes) or the light sensor.
\<close>

inductive display_reachable :: "DisplayInternalInfo \<Rightarrow> bool" where
  setUp: "display_reachable (newDisplayInternal h d m l r c)"
| ticks: "display_reachable i \<Longrightarrow> display_reachable (displayTick t i)"
| msgMode: "display_reachable i \<Longrightarrow> display_reachable (doHandleMsgModePost ps i)"
| imgBackground: "display_reachable i \<Longrightarrow> display_reachable (doHandleImgBackgroundPost ps i)"
| msgBackground: "display_reachable i \<Longrightarrow> display_reachable (doHandleMsgBackgroundPost ps i)"
| others: "display_reachable i \<Longrightarrow> display_reachable (i\<lparr>dictionary := d, motionSensor := m, lightSensor := l\<rparr>)"



end
