(* ===== verification/Display.thy ===== *)
theory Display
  imports Display_Safety
begin

text \<open>
  \<^verbatim>\<open>src/display.h\<close> and \<^verbatim>\<open>src/display.cpp\<close>: the thread of the display. Other
  threads queue requests; each round of the loop waits for the fast tick, handles at most one
  request and runs the ticks whose timer service has expired. Every access holds
  \<^verbatim>\<open>instanceMutex\<close>. The nine timer services are objects of the shared timer, at
  addresses that follow each other.
\<close>

section \<open>Model\<close>

datatype DisplayTodo =
    displayTodoTypeHandleMsgModePost StringMap
  | displayTodoTypeHandleImgBackgroundPost StringMap
  | displayTodoTypeHandleMsgBackgroundPost StringMap

record Display =
  displayTodos :: "DisplayTodo list"
  display_internal :: "DisplayInternalInfo option"
  displayTimer :: TimerTick

datatype display_error = EnqueueNullptr | DisplayTimerError tick_error

definition display_pinCS :: int where "display_pinCS = 6"
definition display_pinWR :: int where "display_pinWR = 13"
definition display_pinDATA :: int where "display_pinDATA = 19"
definition display_pinCLK :: int where "display_pinCLK = 26"

definition displayPins :: "MatrixPin \<Rightarrow> int" where
  "displayPins p = (case p of pinCS \<Rightarrow> display_pinCS | pinWR \<Rightarrow> display_pinWR | pinDATA \<Rightarrow> display_pinDATA
     | pinCLK \<Rightarrow> display_pinCLK)"

definition newDisplay :: "TimerTick \<Rightarrow> Display" where
  "newDisplay w = \<lparr>displayTodos = [], display_internal = None, displayTimer = w\<rparr>"

text \<open>\<^verbatim>\<open>bind\<close> and \<^verbatim>\<open>shutdown\<close> of the singleton; \<open>None\<close> is the null pointer.\<close>

definition display_bind :: "TimerTick \<Rightarrow> Display option \<Rightarrow> Display" where
  "display_bind w inst = (case inst of None \<Rightarrow> newDisplay w | Some s \<Rightarrow> s)"

definition display_shutdown :: "Display option \<Rightarrow> Display option" where
  "display_shutdown inst = None"

definition enqueueDisplayTodo :: "DisplayTodo option \<Rightarrow> Display \<Rightarrow> display_error + Display" where
  "enqueueDisplayTodo displayTodo s = (case displayTodo of
     None \<Rightarrow> Inl EnqueueNullptr
   | Some t \<Rightarrow> Inr (s\<lparr>displayTodos := displayTodos s @ [t]\<rparr>))"

definition display_enqueueMsgModePost :: "StringMap \<Rightarrow> Display \<Rightarrow> display_error + Display" where
  "display_enqueueMsgModePost ps = enqueueDisplayTodo (Some (displayTodoTypeHandleMsgModePost ps))"

definition display_enqueueImgBackgroundPost :: "StringMap \<Rightarrow> Display \<Rightarrow> display_error + Display" where
  "display_enqueueImgBackgroundPost ps = enqueueDisplayTodo (Some (displayTodoTypeHandleImgBackgroundPost ps))"

definition display_enqueueMsgBackgroundPost :: "StringMap \<Rightarrow> Display \<Rightarrow> display_error + Display" where
  "display_enqueueMsgBackgroundPost ps = enqueueDisplayTodo (Some (displayTodoTypeHandleMsgBackgroundPost ps))"

definition getInternalDisplayMode :: "Display \<Rightarrow> string" where
  "getInternalDisplayMode s =
     (case display_internal s of None \<Rightarrow> ''starting'' | Some i \<Rightarrow> getDisplayModeStr i)"

definition getInternalDisplayDimmed :: "Display \<Rightarrow> bool" where
  "getInternalDisplayDimmed s = (case display_internal s of None \<Rightarrow> False | Some i \<Rightarrow> getDisplayDimmed i)"

definition dequeueDisplayTodo :: "Display \<Rightarrow> DisplayTodo option \<times> Display" where
  "dequeueDisplayTodo s = (case displayTodos s of
     [] \<Rightarrow> (None, s)
   | t # ts \<Rightarrow> (Some t, s\<lparr>displayTodos := ts\<rparr>))"

definition handleDisplayTodo :: "DisplayTodo \<Rightarrow> DisplayInternalInfo \<Rightarrow> DisplayInternalInfo" where
  "handleDisplayTodo t = (case t of
     displayTodoTypeHandleMsgModePost ps \<Rightarrow> doHandleMsgModePost ps
   | displayTodoTypeHandleImgBackgroundPost ps \<Rightarrow> doHandleImgBackgroundPost ps
   | displayTodoTypeHandleMsgBackgroundPost ps \<Rightarrow> doHandleMsgBackgroundPost ps)"

definition display_checkTodoList :: "Display \<Rightarrow> Display" where
  "display_checkTodoList s = (case dequeueDisplayTodo s of
     (None, s1) \<Rightarrow> s1
   | (Some t, s1) \<Rightarrow> s1\<lparr>display_internal := map_option (handleDisplayTodo t) (display_internal s1)\<rparr>)"

section \<open>The thread\<close>

text \<open>The ticks in the order of the loop, with the interval of each service in milliseconds.\<close>

definition displayTickIntervals :: "(display_tick \<times> int) list" where
  "displayTickIntervals = [(TickFast, millisPerTick), (Tick100ms, 100), (Tick250ms, 250), (Tick500ms, 500),
     (Tick1sec, 1000), (Tick5sec, 5000), (Tick10sec, 10000), (Tick25sec, 25000), (Tick1min, 60000)]"

definition displayService :: "ServiceId \<Rightarrow> nat \<Rightarrow> ServiceId" where
  "displayService base n = base + n"

text \<open>The local variables: the first has a condition variable, the others a flag.\<close>

definition constructService :: "ServiceId \<Rightarrow> nat \<times> display_tick \<times> int \<Rightarrow> TimerTick \<Rightarrow> TimerTick" where
  "constructService base e w = (case e of (n, t, ms) \<Rightarrow>
     update_service (displayService base n) (\<lambda>_. mkTimerTickService ms True
       (if t = TickFast then TimerTickServiceCv False else TimerTickServiceBool False)) w)"

fun registerServices :: "ServiceId list \<Rightarrow> TimerTick \<Rightarrow> (tick_error + unit) \<times> TimerTick" where
  "registerServices [] w = (Inr (), w)"
| "registerServices (sid # sids) w = (case registerTimerTickService sid True w of
     (Inl e, w1) \<Rightarrow> (Inl e, w1)
   | (Inr _, w1) \<Rightarrow> registerServices sids w1)"

definition displayServiceIds :: "ServiceId \<Rightarrow> ServiceId list" where
  "displayServiceIds base = map (displayService base) [0..<length displayTickIntervals]"

definition display_setup ::
  "ServiceId \<Rightarrow> (MatrixPin \<Rightarrow> Int32U) option \<Rightarrow> (nat \<Rightarrow> nat \<Rightarrow> Int8U) \<Rightarrow>
   (HT1632Class \<Rightarrow> DisplayInternalInfo) \<Rightarrow> Display \<Rightarrow> display_error + Display" where
  "display_setup base burst fresh newInternal s =
     (let w1 = fold (constructService base) (List.enumerate 0 displayTickIntervals) (displayTimer s)
      in case registerServices (displayServiceIds base) w1 of
           (Inl e, _) \<Rightarrow> Inl (DisplayTimerError e)
         | (Inr _, w2) \<Rightarrow>
             Inr (s\<lparr>displayTimer := w2, display_internal := Some (newInternal (matrix_begin displayPins burst fresh newHT1632))\<rparr>))"

text \<open>\<^verbatim>\<open>if (tick.getAndResetExpired()) internal->displayTick()\<close>.\<close>

definition display_onTick :: "ServiceId \<Rightarrow> nat \<times> display_tick \<times> int \<Rightarrow> Display \<Rightarrow> Display" where
  "display_onTick base e s = (case e of (n, t, _) \<Rightarrow>
     case getAndResetExpired (services (displayTimer s) (displayService base n)) of (expired, svc) \<Rightarrow>
       let s1 = s\<lparr>displayTimer := update_service (displayService base n) (\<lambda>_. svc) (displayTimer s)\<rparr>
       in if expired then s1\<lparr>display_internal := map_option (displayTick t) (display_internal s1)\<rparr> else s1)"

definition display_ticks :: "ServiceId \<Rightarrow> Display \<Rightarrow> Display" where
  "display_ticks base s =
     fold (display_onTick base) (tl (List.enumerate 0 displayTickIntervals))
       (s\<lparr>display_internal := map_option displayTickFast (display_internal s)\<rparr>)"

text \<open>
  A round: the flag says whether the loop goes on, and \<open>None\<close> that the thread is blocked until
  the timer signals the fast tick.
\<close>

definition displayLoopStep :: "ServiceId \<Rightarrow> InboxMsg option \<Rightarrow> Display \<Rightarrow> (bool \<times> Display) option" where
  "displayLoopStep base msg s =
     (if map_option inboxMsgType msg = Some inboxMsgTypeTerminate then Some (False, s)
      else case cvWait (services (displayTimer s) (displayService base 0)) of
        None \<Rightarrow> None
      | Some svc \<Rightarrow>
          let s1 = s\<lparr>displayTimer := update_service (displayService base 0) (\<lambda>_. svc) (displayTimer s)\<rparr>
          in Some (True, display_ticks base (display_checkTodoList s1)))"

text \<open>The end: the internals are deleted, which blanks the matrix, then the services go.\<close>

definition display_teardown :: "ServiceId \<Rightarrow> Display \<Rightarrow> Display \<times> DisplayInternalInfo option" where
  "display_teardown base s =
     (s\<lparr>display_internal := None,
        displayTimer := fold (\<lambda>sid w. unregisterTimerTickService (cookie (services w sid)) w)
          (displayServiceIds base) (displayTimer s)\<rparr>,
      map_option deleteDisplayInternal (display_internal s))"

section \<open>Requests\<close>

interpretation display_todo: fifo
  "\<lambda>t s. s\<lparr>displayTodos := displayTodos s @ [t]\<rparr>" dequeueDisplayTodo displayTodos "\<lambda>_. True"
  by unfold_locales (simp_all add: dequeueDisplayTodo_def split: list.splits)

text \<open>The ticks that a round runs, given the services it finds.\<close>

definition isDue :: "ServiceId \<Rightarrow> TimerTick \<Rightarrow> nat \<times> display_tick \<times> int \<Rightarrow> bool" where
  "isDue base w e = fst (getAndResetExpired (services w (displayService base (fst e))))"

definition dueTicks :: "ServiceId \<Rightarrow> TimerTick \<Rightarrow> display_tick list" where
  "dueTicks base w = TickFast # map (fst \<circ> snd) (filter (isDue base w) (tl (List.enumerate 0 displayTickIntervals)))"

definition fastDue :: "ServiceId \<Rightarrow> TimerTick \<Rightarrow> bool" where
  "fastDue base w \<longleftrightarrow> cvWait (services w (displayService base 0)) \<noteq> None"

lemma onTicks_internal:
  assumes "distinct (map fst es)"
  shows "display_internal (fold (display_onTick base) es s) =
      map_option (fold displayTick (map (fst \<circ> snd) (filter (isDue base (displayTimer s)) es))) (display_internal s) \<and>
    displayTodos (fold (display_onTick base) es s) = displayTodos s"
  using assms
proof (induction es arbitrary: s)
  case Nil
  then show ?case by (simp add: option.map_ident)
next
  case (Cons e es)
  obtain n t ms where e: "e = (n, t, ms)" by (cases e)
  let ?s = "display_onTick base e s"
  have n: "isDue base (displayTimer ?s) e' = isDue base (displayTimer s) e'" if "e' \<in> set es" for e'
    using that Cons.prems e
    by (auto simp: isDue_def display_onTick_def update_service_def displayService_def Let_def rev_image_eqI
        split: prod.splits)
  have "filter (isDue base (displayTimer ?s)) es = filter (isDue base (displayTimer s)) es"
    using n by (rule filter_cong[OF refl])
  moreover have "display_internal ?s =
      (if isDue base (displayTimer s) e then map_option (displayTick t) (display_internal s) else display_internal s)"
    "displayTodos ?s = displayTodos s"
    by (simp_all add: e display_onTick_def isDue_def Let_def split: prod.splits)
  ultimately show ?case using Cons.IH[of ?s] Cons.prems e
    by (simp add: option.map_comp comp_def)
qed

lemma display_ticks_internal:
  "display_internal (display_ticks base s) = map_option (fold displayTick (dueTicks base (displayTimer s))) (display_internal s)"
  "displayTodos (display_ticks base s) = displayTodos s"
proof -
  have d: "distinct (map fst (tl (List.enumerate 0 displayTickIntervals)))"
    by (simp add: displayTickIntervals_def)
  let ?s = "s\<lparr>display_internal := map_option displayTickFast (display_internal s)\<rparr>"
  show "display_internal (display_ticks base s) =
      map_option (fold displayTick (dueTicks base (displayTimer s))) (display_internal s)"
    using onTicks_internal[OF d, of base ?s]
    by (simp add: display_ticks_def dueTicks_def option.map_comp comp_def)
  show "displayTodos (display_ticks base s) = displayTodos s"
    using onTicks_internal[OF d, of base ?s] by (simp add: display_ticks_def)
qed

text \<open>Rounds of the loop; between two of them the timer thread leaves the services as given.\<close>

fun display_rounds :: "ServiceId \<Rightarrow> TimerTick list \<Rightarrow> Display \<Rightarrow> Display option" where
  "display_rounds base [] s = Some s"
| "display_rounds base (w # ws) s = (case displayLoopStep base None (s\<lparr>displayTimer := w\<rparr>) of
     None \<Rightarrow> None
   | Some (_, s1) \<Rightarrow> display_rounds base ws s1)"

fun enqueueAll :: "DisplayTodo list \<Rightarrow> Display \<Rightarrow> display_error + Display" where
  "enqueueAll [] s = Inr s"
| "enqueueAll (t # ts) s = (case enqueueDisplayTodo (Some t) s of Inl e \<Rightarrow> Inl e | Inr s1 \<Rightarrow> enqueueAll ts s1)"

lemma isDue_cv: "e \<in> set (tl (List.enumerate 0 displayTickIntervals)) \<Longrightarrow>
  isDue base (update_service (displayService base 0) f w) e = isDue base w e"
  by (auto simp: displayTickIntervals_def isDue_def update_service_def displayService_def)

lemma dueTicks_cv: "dueTicks base (update_service (displayService base 0) f w) = dueTicks base w"
  using isDue_cv by (simp add: dueTicks_def cong: filter_cong)

lemma display_round:
  assumes "displayTodos s = t # ts" "display_internal s = Some i" "fastDue base (displayTimer s)"
  shows "\<exists>s1. displayLoopStep base None s = Some (True, s1) \<and> displayTodos s1 = ts \<and>
    display_internal s1 = Some (fold displayTick (dueTicks base (displayTimer s)) (handleDisplayTodo t i))"
proof -
  obtain svc where "cvWait (services (displayTimer s) (displayService base 0)) = Some svc"
    using assms(3) by (auto simp: fastDue_def)
  then show ?thesis using assms(1,2)
    by (simp add: displayLoopStep_def display_checkTodoList_def dequeueDisplayTodo_def display_ticks_internal
        dueTicks_cv Let_def)
qed

text \<open>
  C30. Requests to the display are handled in the order in which they were queued, one in each
  round that the timer lets run and before the ticks of that round, and none is lost. As many
  rounds as there are requests empty the queue and leave the display as if each request had been
  handled in turn, followed by the fast tick and exactly the ticks whose service had expired.
\<close>

theorem display_requests_in_order:
  assumes "display_internal s = Some i" and "displayTodos s = []" and "length ws = length qs"
    and "list_all (fastDue base) ws"
  shows "\<exists>q s'. enqueueAll qs s = Inr q \<and> display_rounds base ws q = Some s' \<and> displayTodos s' = [] \<and>
    display_internal s' =
      Some (fold (\<lambda>(w, t) i. fold displayTick (dueTicks base w) (handleDisplayTodo t i)) (zip ws qs) i)"
proof -
  have q: "enqueueAll qs s = Inr (s\<lparr>displayTodos := displayTodos s @ qs\<rparr>)" for s
    by (induction qs arbitrary: s) (simp_all add: enqueueDisplayTodo_def)
  have "\<exists>s'. display_rounds base ws r = Some s' \<and> displayTodos s' = [] \<and> display_internal s' =
      Some (fold (\<lambda>(w, t) i. fold displayTick (dueTicks base w) (handleDisplayTodo t i)) (zip ws qs) i)"
    if "display_internal r = Some i" "displayTodos r = qs" for r
    using assms(3,4) that
  proof (induction ws qs arbitrary: r i rule: list_induct2)
    case (Cons w ws t ts)
    obtain s1 where "displayLoopStep base None (r\<lparr>displayTimer := w\<rparr>) = Some (True, s1)" "displayTodos s1 = ts"
        "display_internal s1 = Some (fold displayTick (dueTicks base w) (handleDisplayTodo t i))"
      using display_round[of "r\<lparr>displayTimer := w\<rparr>" t ts i base] Cons.prems by auto
    then show ?case using Cons.IH[of s1] Cons.prems(1) by simp
  qed simp
  from this[of "s\<lparr>displayTodos := qs\<rparr>"] show ?thesis using assms(1,2) by (simp add: q)
qed

theorem display_requests_in_order_witness:
  "\<exists>q s'. enqueueAll [displayTodoTypeHandleMsgModePost [(''msg'', ''Hi'')], displayTodoTypeHandleImgBackgroundPost []]
       \<lparr>displayTodos = [], display_internal = Some quietDisplay, displayTimer = sampleTimer\<rparr> = Inr q \<and>
     display_rounds 0 (replicate 2 (newTimerTick (\<lambda>_. mkTimerTickService 12 True (TimerTickServiceCv True)) (\<lambda>_. None))) q =
       Some s' \<and> displayTodos s' = []"
proof -
  let ?w = "newTimerTick (\<lambda>_. mkTimerTickService 12 True (TimerTickServiceCv True)) (\<lambda>_. None)"
  let ?s = "\<lparr>displayTodos = [], display_internal = Some quietDisplay, displayTimer = sampleTimer\<rparr>"
  let ?qs = "[displayTodoTypeHandleMsgModePost [(''msg'', ''Hi'')], displayTodoTypeHandleImgBackgroundPost []]"
  have "list_all (fastDue 0) (replicate 2 ?w)"
    by (simp add: fastDue_def newTimerTick_def mkTimerTickService_def cvWait_def list_all_iff)
  then show ?thesis
    using display_requests_in_order[of ?s quietDisplay "replicate 2 ?w" ?qs 0] by auto
qed

end
