(* ===== verification/Web_Post.thy ===== *)
theory Web_Post
  imports Common_Utils
begin

text \<open>
  \<^verbatim>\<open>src/webHandlerInternal.cpp\<close>, the parts that every web handler uses: the
  replies, the output of a request and \<^verbatim>\<open>WebHandler::parsePost\<close>, the reader of
  form bodies. libevent is a parameter: a body is its content, the calls that set headers and add
  text to the reply are kept in order, and whether a header is already there is the argument
  \<open>found\<close>.
\<close>

section \<open>Replies\<close>

record HandleRequestReply =
  replyCode :: int
  replyReason :: string

definition HTTP_OK :: int where "HTTP_OK = 200"
definition HTTP_NOCONTENT :: int where "HTTP_NOCONTENT = 204"
definition HTTP_NOTFOUND :: int where "HTTP_NOTFOUND = 404"
definition HTTP_INTERNAL :: int where "HTTP_INTERNAL = 500"
definition HTTP_SERVUNAVAIL :: int where "HTTP_SERVUNAVAIL = 503"

definition replyOk :: HandleRequestReply where
  "replyOk = \<lparr>replyCode = HTTP_OK, replyReason = ''OK''\<rparr>"
definition replyNoContent :: HandleRequestReply where
  "replyNoContent = \<lparr>replyCode = HTTP_NOCONTENT, replyReason = ''No Content''\<rparr>"
definition replyInternalError :: HandleRequestReply where
  "replyInternalError = \<lparr>replyCode = HTTP_INTERNAL, replyReason = ''Internal Error''\<rparr>"
definition replyNotFound :: HandleRequestReply where
  "replyNotFound = \<lparr>replyCode = HTTP_NOTFOUND, replyReason = ''Page not found''\<rparr>"
definition replyServerUnavail :: HandleRequestReply where
  "replyServerUnavail = \<lparr>replyCode = HTTP_SERVUNAVAIL, replyReason = ''Server is not available''\<rparr>"

lemmas reply_defs = replyOk_def replyNoContent_def replyInternalError_def replyNotFound_def
  replyServerUnavail_def HTTP_OK_def HTTP_NOCONTENT_def HTTP_NOTFOUND_def HTTP_INTERNAL_def HTTP_SERVUNAVAIL_def

datatype header_call = RemoveHeader string | AddHeader string string

record RequestOutput =
  replyHeaders :: "header_call list"
  replyBody :: "string list"

type_synonym header_finder = "header_call list \<Rightarrow> string \<Rightarrow> bool"

definition setHeader :: "header_finder \<Rightarrow> string \<Rightarrow> string \<Rightarrow> RequestOutput \<Rightarrow> RequestOutput" where
  "setHeader found header v out =
     out\<lparr>replyHeaders := replyHeaders out @
       (if found (replyHeaders out) header then [RemoveHeader header] else []) @ [AddHeader header v]\<rparr>"

definition setHeaderContentType :: "header_finder \<Rightarrow> string \<Rightarrow> RequestOutput \<Rightarrow> RequestOutput" where
  "setHeaderContentType found contentType = setHeader found ''Content-Type'' contentType"

definition setHeaderContentTypeText :: "header_finder \<Rightarrow> RequestOutput \<Rightarrow> RequestOutput" where
  "setHeaderContentTypeText found = setHeaderContentType found ''text/plain''"

definition addBody :: "string \<Rightarrow> RequestOutput \<Rightarrow> RequestOutput" where
  "addBody buffer out = (if buffer \<noteq> '''' then out\<lparr>replyBody := replyBody out @ [c_str buffer]\<rparr> else out)"

text \<open>The macro \<^verbatim>\<open>RETURN_ERROR\<close>, with the line it is used on.\<close>

definition returnError :: "header_finder \<Rightarrow> int \<Rightarrow> string \<Rightarrow> RequestOutput \<Rightarrow> HandleRequestReply \<times> RequestOutput" where
  "returnError found line text out =
     (replyInternalError, setHeaderContentTypeText found
        (addBody (''Error in '' @ dec_int line @ '': '' @ text) out))"

definition MAX_POST_BODY_LEN :: nat where "MAX_POST_BODY_LEN = 4096"

section \<open>The reader of a form\<close>

text \<open>
  The buffer \<^verbatim>\<open>tmpBuffer\<close> is one longer than the body. The key starts at its first
  character, \<open>currValue\<close> is the place the value starts at, \<open>None\<close> the literal
  \<^verbatim>\<open>""\<close>. An access outside an array is the outcome \<open>PostOutOfBounds\<close>.
\<close>

record post_state =
  tmpBuffer :: string
  tmpBufferOffset :: nat
  currValue :: "nat option"
  gettingValuePortion :: bool
  postValues :: StringMap

datatype post_outcome = PostScanned post_state | PostBadEncoding post_state | PostOutOfBounds

definition pokeChar :: "nat \<Rightarrow> char \<Rightarrow> post_state \<Rightarrow> post_state option" where
  "pokeChar n c s = (if n < length (tmpBuffer s) then Some (s\<lparr>tmpBuffer := (tmpBuffer s)[n := c]\<rparr>) else None)"

definition peekString :: "nat \<Rightarrow> post_state \<Rightarrow> string option" where
  "peekString n s = (if NUL \<in> set (drop n (tmpBuffer s)) then Some (c_str (drop n (tmpBuffer s))) else None)"

definition startValue :: "post_state \<Rightarrow> post_state option" where
  "startValue s = (case pokeChar (tmpBufferOffset s) NUL s of
     None \<Rightarrow> None
   | Some s1 \<Rightarrow>
       let s2 = s1\<lparr>tmpBufferOffset := tmpBufferOffset s1 + 1, currValue := Some (tmpBufferOffset s1 + 1)\<rparr>
       in map_option (\<lambda>s3. s3\<lparr>gettingValuePortion := True\<rparr>) (pokeChar (tmpBufferOffset s2) NUL s2))"

definition addKeyValue :: "post_state \<Rightarrow> post_state option" where
  "addKeyValue s =
     (if gettingValuePortion s then
        case tmpBuffer s of
          [] \<Rightarrow> None
        | c # _ \<Rightarrow>
            if c = NUL then Some s
            else case pokeChar (tmpBufferOffset s) NUL s of
              None \<Rightarrow> None
            | Some s1 \<Rightarrow>
                (case (peekString 0 s1, case currValue s1 of None \<Rightarrow> Some '''' | Some p \<Rightarrow> peekString p s1) of
                   (Some k, Some v) \<Rightarrow> Some (s1\<lparr>postValues := omap_set k v (postValues s1)\<rparr>)
                 | _ \<Rightarrow> None)
      else Some s)"

definition endValue :: "post_state \<Rightarrow> post_state option" where
  "endValue s = (case addKeyValue s of
     None \<Rightarrow> None
   | Some s1 \<Rightarrow>
       map_option (\<lambda>s2. s2\<lparr>gettingValuePortion := False\<rparr>)
         (pokeChar 0 NUL (s1\<lparr>currValue := None, tmpBufferOffset := 0\<rparr>)))"

definition appendChar :: "char \<Rightarrow> post_state \<Rightarrow> post_state option" where
  "appendChar c s = map_option (\<lambda>s1. s1\<lparr>tmpBufferOffset := tmpBufferOffset s1 + 1\<rparr>)
     (pokeChar (tmpBufferOffset s) c s)"

definition hexChar :: "char \<Rightarrow> char \<Rightarrow> char" where
  "hexChar a b = char_of (unat (strtoul [a, b] 16) mod 256)"

definition continueWith :: "post_state option \<Rightarrow> (post_state \<Rightarrow> post_outcome) \<Rightarrow> post_outcome" where
  "continueWith r f = (case r of None \<Rightarrow> PostOutOfBounds | Some s \<Rightarrow> f s)"

lemma continueWith_simps [simp]:
  "continueWith None f = PostOutOfBounds" "continueWith (Some s) f = f s"
  by (simp_all add: continueWith_def)

lemma continueWith_cong [fundef_cong]:
  "r = r' \<Longrightarrow> (\<And>s. r' = Some s \<Longrightarrow> f s = g s) \<Longrightarrow> continueWith r f = continueWith r' g"
  by (cases r') auto

function parsePostLoop :: "string \<Rightarrow> nat \<Rightarrow> post_state \<Rightarrow> post_outcome" where
  "parsePostLoop body i s =
     (if i < length body then
        let ch = (if body ! i = CHR ''+'' then CHR '' '' else body ! i)
        in if ch = CHR ''='' then continueWith (startValue s) (parsePostLoop body (i + 1))
           else if ch = CHR ''&'' then continueWith (endValue s) (parsePostLoop body (i + 1))
           else if ch = CHR 0x25 then
             (if int (length body) - 2 \<le> int i
              then continueWith (pokeChar (tmpBufferOffset s) NUL s) PostScanned
              else if \<not> i + 2 \<le> length body then PostOutOfBounds
              else if \<not> isxdigit (body ! (i + 1)) \<or> \<not> isxdigit (body ! (i + 2)) then PostBadEncoding s
              else continueWith (appendChar (hexChar (body ! (i + 1)) (body ! (i + 2))) s)
                     (parsePostLoop body (i + 3)))
           else continueWith (appendChar ch s) (parsePostLoop body (i + 1))
      else PostScanned s)"
  by pat_completeness auto
termination by (relation "measure (\<lambda>(body, i, s). length body - i)") auto

declare parsePostLoop.simps [simp del]

definition newPostState :: "nat \<Rightarrow> post_state" where
  "newPostState bodyLen = \<lparr>tmpBuffer = replicate (bodyLen + 1) NUL, tmpBufferOffset = 0, currValue = None,
     gettingValuePortion = False, postValues = []\<rparr>"

definition badBodyText :: "nat \<Rightarrow> string" where
  "badBodyText bodyLen = ''body len in post is bad (got:'' @ dec_int (sint (of_nat bodyLen :: Int32U)) @
     '' max:'' @ dec_int (int MAX_POST_BODY_LEN) @ '')''"

text \<open>\<open>None\<close> is an access outside an array.\<close>

definition parsePost ::
  "header_finder \<Rightarrow> string option \<Rightarrow> RequestOutput \<Rightarrow> (HandleRequestReply \<times> RequestOutput \<times> StringMap) option" where
  "parsePost found requestBody out =
     (let failed = (\<lambda>line text m. case returnError found line text out of (reply, out1) \<Rightarrow> Some (reply, out1, m))
      in case requestBody of
           None \<Rightarrow> failed 560 ''no body in post request'' []
         | Some body \<Rightarrow>
             if MAX_POST_BODY_LEN \<le> length body \<or> length body < 1 then
               failed 566 (badBodyText (length body)) []
             else case parsePostLoop body 0 (newPostState (length body)) of
               PostOutOfBounds \<Rightarrow> None
             | PostBadEncoding s \<Rightarrow> failed 625 ''invalid percent encoding'' (postValues s)
             | PostScanned s \<Rightarrow> map_option (\<lambda>s1. (replyOk, out, postValues s1)) (addKeyValue s))"

section \<open>The reference: forms read field by field\<close>

text \<open>
  What a body means: the key and, after an equals sign, the value of the field that is being read,
  and the fields so far. A further equals sign starts the value anew.
\<close>

type_synonym form_state = "string \<times> string option \<times> StringMap"

fun form_put :: "char \<Rightarrow> form_state \<Rightarrow> form_state" where
  "form_put c (k, None, m) = (k @ [c], None, m)"
| "form_put c (k, Some v, m) = (k, Some (v @ [c]), m)"

fun form_store :: "form_state \<Rightarrow> StringMap" where
  "form_store (k, None, m) = m"
| "form_store (k, Some v, m) = (if c_str k = '''' then m else omap_set (c_str k) (c_str v) m)"

definition form_equals :: "form_state \<Rightarrow> form_state" where
  "form_equals st = (fst st, Some '''', snd (snd st))"

definition form_next :: "form_state \<Rightarrow> form_state" where
  "form_next st = ('''', None, form_store st)"

definition hex_value :: "char \<Rightarrow> char \<Rightarrow> char" where
  "hex_value a b = char_of (the (digit_val a) * 16 + the (digit_val b) :: nat)"

fun form_scan :: "string \<Rightarrow> form_state \<Rightarrow> bool \<times> form_state" where
  "form_scan [] st = (True, st)"
| "form_scan (c # cs) st =
     (if c = CHR ''='' then form_scan cs (form_equals st)
      else if c = CHR ''&'' then form_scan cs (form_next st)
      else if c = CHR 0x25 then
        (case cs of
           a # b # rest \<Rightarrow>
             if isxdigit a \<and> isxdigit b then form_scan rest (form_put (hex_value a b) st) else (False, st)
         | _ \<Rightarrow> (True, st))
      else form_scan cs (form_put (if c = CHR ''+'' then CHR '' '' else c) st))"

definition form_fields :: "string \<Rightarrow> StringMap option" where
  "form_fields body = (case form_scan body ('''', None, []) of
     (ok, st) \<Rightarrow> if ok then Some (form_store st) else None)"

lemma hex_digit: "isxdigit c \<Longrightarrow> \<exists>d. digit_val c = Some d \<and> d < 16"
  by (simp add: isxdigit_def is_base_digit_def split: option.splits)

lemma digit_not_special:
  "digit_val c = Some d \<Longrightarrow> c \<noteq> NUL \<and> \<not> isspace c \<and> c \<noteq> CHR ''-'' \<and> c \<noteq> CHR ''+''"
  by (auto simp: digit_val_def isspace_def Let_def split: if_splits)

lemma hexChar_value:
  assumes "isxdigit a" "isxdigit b" shows "hexChar a b = hex_value a b"
proof -
  obtain x y where d: "digit_val a = Some x" "x < 16" "digit_val b = Some y" "y < 16"
    using assms hex_digit by blast
  note n = digit_not_special[OF d(1)] digit_not_special[OF d(3)]
  have "scan_int 16 [a, b] = Some (False, x * 16 + y, [])"
    using n d by (simp add: scan_int_def c_str_def split_sign_def split_base_def has_hex_prefix_def is_base_digit_def)
  moreover have le: "x * 16 + y < 256" using d by simp
  ultimately have "strtoul [a, b] 16 = of_nat (x * 16 + y)"
    by (simp add: strtoul_def)
  then have "unat (strtoul [a, b] 16) = x * 16 + y"
    using le unat_of_nat_id[of "x * 16 + y", where 'a = 32] by simp
  then show ?thesis using le d by (simp add: hexChar_def hex_value_def)
qed

text \<open>The buffer after \<open>n\<close> characters of the body holds the field that is being read.\<close>

definition post_rel :: "nat \<Rightarrow> nat \<Rightarrow> post_state \<Rightarrow> form_state \<Rightarrow> bool" where
  "post_rel len n s st \<longleftrightarrow> (case st of (k, v, m) \<Rightarrow>
     length (tmpBuffer s) = len + 1 \<and> tmpBufferOffset s \<le> n \<and> n \<le> len \<and> postValues s = m \<and>
     (case v of
        None \<Rightarrow> \<not> gettingValuePortion s \<and> take (tmpBufferOffset s) (tmpBuffer s) = k
      | Some x \<Rightarrow> gettingValuePortion s \<and>
          (\<exists>junk. take (tmpBufferOffset s) (tmpBuffer s) = k @ NUL # junk @ x \<and>
             currValue s = Some (length k + 1 + length junk))))"

lemma take_update_last: "n < length xs \<Longrightarrow> take (Suc n) (xs[n := c]) = take n xs @ [c]"
  by (simp add: take_Suc_conv_app_nth)

lemma take_eq_length: "take n xs = ys \<Longrightarrow> n < length xs \<Longrightarrow> n = length ys"
  by auto

lemma c_str_append: "c_str (xs @ NUL # ys) = c_str xs"
  by (induction xs) (auto simp: c_str_def)

lemma form_put_rel:
  assumes "post_rel len n s st" "n < m" "m \<le> len"
  shows "\<exists>t. appendChar c s = Some t \<and> post_rel len m t (form_put c st)"
proof -
  obtain k v mm where st: "st = (k, v, mm)" by (cases st)
  have l: "tmpBufferOffset s < length (tmpBuffer s)" using assms by (auto simp: post_rel_def st)
  then have "appendChar c s = Some (s\<lparr>tmpBuffer := (tmpBuffer s)[tmpBufferOffset s := c],
      tmpBufferOffset := tmpBufferOffset s + 1\<rparr>)"
    by (simp add: appendChar_def pokeChar_def)
  then show ?thesis using assms l
    by (cases v) (auto simp: post_rel_def st take_update_last)
qed

lemma form_equals_rel:
  assumes "post_rel len n s st" "n < len"
  shows "\<exists>t. startValue s = Some t \<and> post_rel len (n + 1) t (form_equals st)"
proof -
  obtain k v mm where st: "st = (k, v, mm)" by (cases st)
  let ?o = "tmpBufferOffset s" and ?b = "tmpBuffer s"
  let ?b' = "?b[?o := NUL, ?o + 1 := NUL]"
  have l: "?o + 1 < length ?b" "?o \<le> n" using assms by (auto simp: post_rel_def st)
  then have sv: "startValue s = Some (s\<lparr>tmpBuffer := ?b', tmpBufferOffset := ?o + 1,
      currValue := Some (?o + 1), gettingValuePortion := True\<rparr>)"
    by (simp add: startValue_def pokeChar_def Let_def)
  have tk: "take (?o + 1) ?b' = take ?o ?b @ [NUL]"
    using l by (simp add: take_update_last)
  show ?thesis
  proof (cases v)
    case None
    then have "take (?o + 1) ?b' = k @ [NUL]" "length k = ?o"
      using tk assms l by (auto simp: post_rel_def st)
    then show ?thesis using sv assms l None
      by (auto simp: post_rel_def st form_equals_def intro!: exI[of _ "[]"])
  next
    case (Some x)
    then obtain junk where j: "take ?o ?b = k @ NUL # junk @ x" using assms by (auto simp: post_rel_def st)
    then have len: "?o = length k + 1 + length junk + length x"
      using l take_eq_length[OF j] by simp
    have "take (?o + 1) ?b' = k @ NUL # (junk @ x @ [NUL])" using tk j by simp
    then show ?thesis using sv assms l Some len
      by (auto simp: post_rel_def st form_equals_def intro!: exI[of _ "junk @ x @ [NUL]"])
  qed
qed

lemma addKeyValue_rel:
  assumes "post_rel len n s st"
  shows "\<exists>t. addKeyValue s = Some t \<and> postValues t = form_store st \<and> length (tmpBuffer t) = len + 1"
proof -
  obtain k v mm where st: "st = (k, v, mm)" by (cases st)
  show ?thesis
  proof (cases v)
    case None
    then show ?thesis using assms by (simp add: post_rel_def st addKeyValue_def)
  next
    case (Some x)
    let ?o = "tmpBufferOffset s" and ?b = "tmpBuffer s"
    obtain junk where j: "take ?o ?b = k @ NUL # junk @ x" "currValue s = Some (length k + 1 + length junk)"
      and r: "gettingValuePortion s" "?o < length ?b" "postValues s = mm" "length ?b = len + 1"
      using assms Some by (auto simp: post_rel_def st)
    have len: "?o = length k + 1 + length junk + length x" using r take_eq_length[OF j(1)] by simp
    let ?b' = "?b[?o := NUL]"
    have b': "?b' = k @ NUL # junk @ x @ NUL # drop (Suc ?o) ?b"
      using upd_conv_take_nth_drop[OF r(2), of NUL] j(1) by simp
    have b: "?b = k @ NUL # junk @ x @ drop ?o ?b" using append_take_drop_id[of ?o ?b] j(1) by simp
    obtain c cs where cs: "?b = c # cs" using r(4) by (cases ?b) auto
    have c: "c = NUL \<longleftrightarrow> c_str k = ''''" using b cs by (cases k) (auto simp: c_str_def)
    have d: "drop (length k + 1 + length junk) ?b' = x @ NUL # drop (Suc ?o) ?b" by (subst b') simp
    have p0: "peekString 0 (s\<lparr>tmpBuffer := ?b'\<rparr>) = Some (c_str k)"
      unfolding peekString_def by (simp add: b' c_str_append)
    have p1: "peekString (length k + 1 + length junk) (s\<lparr>tmpBuffer := ?b'\<rparr>) = Some (c_str x)"
      unfolding peekString_def by (simp add: d[simplified] c_str_append)
    show ?thesis
    proof (cases "c = NUL")
      case True
      then show ?thesis using r cs c by (simp add: addKeyValue_def st Some)
    next
      case False
      have pk: "pokeChar ?o NUL s = Some (s\<lparr>tmpBuffer := ?b'\<rparr>)" using r by (simp add: pokeChar_def)
      have "addKeyValue s = Some (s\<lparr>tmpBuffer := ?b', postValues := omap_set (c_str k) (c_str x) (postValues s)\<rparr>)"
        unfolding addKeyValue_def using r(1) False pk p0 p1 j(2) by (simp add: cs)
      then show ?thesis using r False c by (simp add: st Some)
    qed
  qed
qed

lemma form_next_rel:
  assumes "post_rel len n s st" "n < len"
  shows "\<exists>t. endValue s = Some t \<and> post_rel len (n + 1) t (form_next st)"
proof -
  obtain t where t: "addKeyValue s = Some t" "postValues t = form_store st" "length (tmpBuffer t) = len + 1"
    using addKeyValue_rel[OF assms(1)] by blast
  then show ?thesis using assms(2) by (simp add: endValue_def pokeChar_def post_rel_def form_next_def)
qed

lemma drop_two: "i + 2 < length xs \<Longrightarrow> drop (Suc i) xs = xs ! (i + 1) # xs ! (i + 2) # drop (i + 3) xs"
  by (metis Cons_nth_drop_Suc Suc_eq_plus1 add_2_eq_Suc' add_Suc_right Suc_lessD numeral_3_eq_3 add_0_right)

lemma drop_short: "i < length xs \<Longrightarrow> \<not> i + 2 < length xs \<Longrightarrow> drop (Suc i) xs = [] \<or> (\<exists>a. drop (Suc i) xs = [a])"
  by (cases "drop (Suc i) xs" rule: remdups_adj.cases) (auto dest: arg_cong[of _ _ length])

lemma break_rel:
  assumes "post_rel len n s st" "n < len"
  shows "\<exists>t. pokeChar (tmpBufferOffset s) NUL s = Some t \<and> post_rel len n t st"
proof -
  obtain k v mm where st: "st = (k, v, mm)" by (cases st)
  have "tmpBufferOffset s < length (tmpBuffer s)" using assms by (auto simp: post_rel_def st)
  then show ?thesis using assms by (cases v) (auto simp: post_rel_def st pokeChar_def)
qed

definition loop_rel :: "nat \<Rightarrow> post_outcome \<Rightarrow> bool \<times> form_state \<Rightarrow> bool" where
  "loop_rel len outcome r \<longleftrightarrow> (case r of
     (True, st) \<Rightarrow> (\<exists>t n. outcome = PostScanned t \<and> post_rel len n t st)
   | (False, st) \<Rightarrow> (\<exists>t. outcome = PostBadEncoding t))"

lemma parsePostLoop_rel:
  assumes "post_rel (length body) i s st"
  shows "loop_rel (length body) (parsePostLoop body i s) (form_scan (drop i body) st)"
  using assms
proof (induction body i s arbitrary: st rule: parsePostLoop.induct)
  case (1 body i s)
  let ?l = "length body"
  have le: "i \<le> ?l" using "1.prems" by (auto simp: post_rel_def)
  show ?case
  proof (cases "i < ?l")
    case False
    have "parsePostLoop body i s = PostScanned s" using False by (subst parsePostLoop.simps) simp
    moreover have "drop i body = []" using False by simp
    ultimately show ?thesis using "1.prems" by (auto simp: loop_rel_def)
  next
    case True
    let ?c = "body ! i"
    have d: "drop i body = ?c # drop (Suc i) body" using True by (simp add: Cons_nth_drop_Suc)
    have one: "i < i + 1" "i + 1 \<le> ?l" using True by simp_all
    consider (eq) "?c = CHR ''=''" | (amp) "?c = CHR ''&''" | (pct) "?c = CHR 0x25"
      | (other) "?c \<noteq> CHR ''=''" "?c \<noteq> CHR ''&''" "?c \<noteq> CHR 0x25" by blast
    then show ?thesis
    proof cases
      case eq
      obtain t where t: "startValue s = Some t" "post_rel ?l (i + 1) t (form_equals st)"
        using form_equals_rel[OF "1.prems" True] by blast
      have "parsePostLoop body i s = parsePostLoop body (i + 1) t"
        using True eq t(1) by (subst parsePostLoop.simps) simp
      then show ?thesis using "1.IH"(1)[OF True refl _ t] eq by (simp add: d)
    next
      case amp
      obtain t where t: "endValue s = Some t" "post_rel ?l (i + 1) t (form_next st)"
        using form_next_rel[OF "1.prems" True] by blast
      have "parsePostLoop body i s = parsePostLoop body (i + 1) t"
        using True amp t(1) by (subst parsePostLoop.simps) simp
      then show ?thesis using "1.IH"(2)[OF True refl _ _ t] amp by (simp add: d)
    next
      case pct
      show ?thesis
      proof (cases "i + 2 < ?l")
        case False
        obtain t where t: "pokeChar (tmpBufferOffset s) NUL s = Some t" "post_rel ?l i t st"
          using break_rel[OF "1.prems" True] by blast
        have "parsePostLoop body i s = PostScanned t"
          using True pct t(1) False by (subst parsePostLoop.simps) simp
        moreover have "form_scan (drop i body) st = (True, st)"
          using drop_short[OF True False] pct by (auto simp: d)
        ultimately show ?thesis using t(2) by (auto simp: loop_rel_def)
      next
        case two: True
        note d2 = drop_two[OF two]
        show ?thesis
        proof (cases "isxdigit (body ! (i + 1)) \<and> isxdigit (body ! (i + 2))")
          case False
          have "parsePostLoop body i s = PostBadEncoding s"
            using True pct False two by (subst parsePostLoop.simps) auto
          moreover have "form_scan (drop i body) st = (False, st)" using False pct by (auto simp: d d2)
          ultimately show ?thesis by (simp add: loop_rel_def)
        next
          case hex: True
          have three: "i < i + 3" "i + 3 \<le> ?l" using two by simp_all
          obtain t where t: "appendChar (hex_value (body ! (i + 1)) (body ! (i + 2))) s = Some t"
              "post_rel ?l (i + 3) t (form_put (hex_value (body ! (i + 1)) (body ! (i + 2))) st)"
            using form_put_rel[OF "1.prems" three] by blast
          have h: "hexChar (body ! (i + 1)) (body ! (i + 2)) = hex_value (body ! (i + 1)) (body ! (i + 2))"
            using hex by (simp add: hexChar_value)
          have "parsePostLoop body i s = parsePostLoop body (i + 3) t"
            using True pct hex two t(1) h by (subst parsePostLoop.simps) simp
          moreover have "loop_rel ?l (parsePostLoop body (i + 3) t)
              (form_scan (drop (i + 3) body) (form_put (hex_value (body ! (i + 1)) (body ! (i + 2))) st))"
            by (rule "1.IH"(3)[OF True refl]) (use pct two hex t h in auto)
          ultimately show ?thesis using pct hex by (simp add: d d2)
        qed
      qed
    next
      case other
      let ?ch = "if ?c = CHR ''+'' then CHR '' '' else ?c"
      obtain t where t: "appendChar ?ch s = Some t" "post_rel ?l (i + 1) t (form_put ?ch st)"
        using form_put_rel[OF "1.prems" one] by blast
      have "parsePostLoop body i s = parsePostLoop body (i + 1) t"
        using True other t(1) by (subst parsePostLoop.simps) (simp split: if_splits)
      moreover have "loop_rel ?l (parsePostLoop body (i + 1) t) (form_scan (drop (i + 1) body) (form_put ?ch st))"
        by (rule "1.IH"(4)[OF True refl]) (use other t in auto)
      ultimately show ?thesis using other by (simp add: d)
    qed
  qed
qed

lemma addKeyValue_scanned:
  "post_rel len n s st \<Longrightarrow> \<exists>t. addKeyValue s = Some t \<and> postValues t = form_store st"
  using addKeyValue_rel by blast

lemma post_rel_new: "post_rel n 0 (newPostState n) ('''', None, [])"
  by (simp add: post_rel_def newPostState_def)

lemma parsePost_fields:
  assumes "1 \<le> length body" "length body < MAX_POST_BODY_LEN"
  shows "case form_fields body of
       Some m \<Rightarrow> parsePost found (Some body) out = Some (replyOk, out, m)
     | None \<Rightarrow> \<exists>m. parsePost found (Some body) out = Some (fst (returnError found 625 ''invalid percent encoding'' out),
         snd (returnError found 625 ''invalid percent encoding'' out), m)"
proof -
  let ?o = "parsePostLoop body 0 (newPostState (length body))"
  have r: "loop_rel (length body) ?o (form_scan body ('''', None, []))"
    using parsePostLoop_rel[OF post_rel_new[of "length body"]] by simp
  obtain ok st where f: "form_scan body ('''', None, []) = (ok, st)" by (cases "form_scan body ('''', None, [])")
  show ?thesis
  proof (cases ok)
    case True
    then obtain t n where t: "?o = PostScanned t" "post_rel (length body) n t st"
      using r f by (auto simp: loop_rel_def)
    obtain u where "addKeyValue t = Some u" "postValues u = form_store st" using addKeyValue_scanned[OF t(2)] by blast
    then show ?thesis using assms t(1) f True by (auto simp: parsePost_def form_fields_def)
  next
    case False
    then obtain t where "?o = PostBadEncoding t" using r f by (auto simp: loop_rel_def)
    then show ?thesis using assms f False by (auto simp: parsePost_def form_fields_def split: prod.split)
  qed
qed

section \<open>Encoded forms are read back\<close>

text \<open>The reference: \<^verbatim>\<open>application/x-www-form-urlencoded\<close> as a browser writes it.\<close>

definition url_plain :: "char \<Rightarrow> bool" where
  "url_plain c \<longleftrightarrow> (let n = (of_char c :: nat) in
     48 \<le> n \<and> n \<le> 57 \<or> 65 \<le> n \<and> n \<le> 90 \<or> 97 \<le> n \<and> n \<le> 122 \<or> c \<in> set ''*-._'')"

definition hex_upper :: "nat \<Rightarrow> char" where
  "hex_upper d = (if d < 10 then char_of (48 + d) else char_of (55 + d))"

definition url_char :: "char \<Rightarrow> string" where
  "url_char c = (if url_plain c then [c] else if c = CHR '' '' then ''+''
     else [CHR 0x25, hex_upper (of_char c div 16), hex_upper (of_char c mod 16)])"

definition url_text :: "string \<Rightarrow> string" where
  "url_text s = concat (map url_char s)"

fun form_encode :: "(string \<times> string) list \<Rightarrow> string" where
  "form_encode [] = ''''"
| "form_encode [(k, v)] = url_text k @ CHR ''='' # url_text v"
| "form_encode ((k, v) # f # fs) = url_text k @ CHR ''='' # url_text v @ CHR ''&'' # form_encode (f # fs)"

lemma digit_val_hex_upper: "d < 16 \<Longrightarrow> digit_val (hex_upper d) = Some d"
  by (simp add: digit_val_def hex_upper_def Let_def)

lemma isxdigit_hex_upper: "d < 16 \<Longrightarrow> isxdigit (hex_upper d)"
  by (simp add: isxdigit_def is_base_digit_def digit_val_hex_upper)

lemma div_16_less: "n < 256 \<Longrightarrow> n div 16 < 16" for n :: nat
  by (simp add: less_mult_imp_div_less)

lemma hex_value_upper: "hex_value (hex_upper (of_char c div 16)) (hex_upper (of_char c mod 16)) = c"
proof -
  have "(of_char c :: nat) < 256" by simp
  then have "(of_char c :: nat) div 16 < 16" by (rule div_16_less)
  then show ?thesis by (simp add: hex_value_def digit_val_hex_upper)
qed

lemma form_scan_plain: "url_plain c \<Longrightarrow> form_scan (c # rest) st = form_scan rest (form_put c st)"
  by (auto simp: url_plain_def Let_def)

lemma form_scan_hex:
  "d < 16 \<Longrightarrow> e < 16 \<Longrightarrow> form_scan (CHR 0x25 # hex_upper d # hex_upper e # rest) st =
     form_scan rest (form_put (hex_value (hex_upper d) (hex_upper e)) st)"
  by (simp add: isxdigit_hex_upper)

lemma form_scan_url_char: "form_scan (url_char c @ rest) st = form_scan rest (form_put c st)"
proof -
  have "(of_char c :: nat) < 256" by simp
  then have d: "(of_char c :: nat) div 16 < 16" by (rule div_16_less)
  consider (plain) "url_plain c" | (space) "\<not> url_plain c" "c = CHR '' ''"
    | (hex) "\<not> url_plain c" "c \<noteq> CHR '' ''" by blast
  then show ?thesis
  proof cases
    case plain
    then show ?thesis using form_scan_plain[OF plain] by (simp add: url_char_def del: form_scan.simps)
  next
    case hex
    then show ?thesis using form_scan_hex[OF d, of "of_char c mod 16" rest st]
      by (simp add: url_char_def hex_value_upper del: form_scan.simps)
  qed (simp add: url_char_def)
qed

lemma form_scan_url_text: "form_scan (url_text s @ rest) st = form_scan rest (fold form_put s st)"
  by (induction s arbitrary: st) (simp_all add: url_text_def form_scan_url_char)

lemma fold_form_put_key: "fold form_put s (k, None, m) = (k @ s, None, m)"
  by (induction s arbitrary: k) simp_all

lemma fold_form_put_value: "fold form_put s (k, Some v, m) = (k, Some (v @ s), m)"
  by (induction s arbitrary: v) simp_all

definition plain_field :: "string \<times> string \<Rightarrow> bool" where
  "plain_field f \<longleftrightarrow> fst f \<noteq> '''' \<and> NUL \<notin> set (fst f) \<and> NUL \<notin> set (snd f)"

lemma form_scan_encode:
  assumes "fs \<noteq> []" "list_all plain_field fs"
  shows "\<exists>st. form_scan (form_encode fs) ('''', None, m) = (True, st) \<and>
    form_store st = fold (\<lambda>(k, v). omap_set k v) fs m"
  using assms
proof (induction fs arbitrary: m rule: form_encode.induct)
  case (2 k v)
  then show ?case using form_scan_url_text[of v "''''"]
    by (simp add: form_scan_url_text fold_form_put_key fold_form_put_value form_equals_def plain_field_def)
next
  case (3 k v f fs)
  then show ?case
    by (simp add: form_scan_url_text fold_form_put_key fold_form_put_value form_equals_def form_next_def plain_field_def)
qed simp

lemma url_text_not_empty: "form_encode fs \<noteq> [] \<longleftrightarrow> fs \<noteq> []"
  by (induction fs rule: form_encode.induct) simp_all

lemma form_fields_encode:
  "fs \<noteq> [] \<Longrightarrow> list_all plain_field fs \<Longrightarrow>
   form_fields (form_encode fs) = Some (fold (\<lambda>(k, v). omap_set k v) fs [])"
  using form_scan_encode[of fs "[]"] by (auto simp: form_fields_def)

lemma parsePost_defined: "parsePost found body out \<noteq> None"
proof (cases "\<exists>b. body = Some b \<and> 1 \<le> length b \<and> length b < MAX_POST_BODY_LEN")
  case True
  then obtain b where b: "body = Some b" "1 \<le> length b" "length b < MAX_POST_BODY_LEN" by blast
  then show ?thesis using parsePost_fields[OF b(2,3), of found out] by (cases "form_fields b") auto
next
  case False
  then show ?thesis by (cases body) (auto simp: parsePost_def Suc_le_eq split: prod.split)
qed

text \<open>
  C6. A posted form is read back. For fields whose keys are not empty and whose texts hold no NUL,
  the reader recovers from the form a browser encodes exactly these keys with their values, a
  repeated key with its last value, whatever characters they hold: signs that delimit or
  encode, and bytes above 127, are data again. The buffer of the reader is as long as the body and
  one more, and suffices.
\<close>

theorem posted_form_reads_back:
  assumes "fs \<noteq> []" "list_all plain_field fs" "length (form_encode fs) < MAX_POST_BODY_LEN"
  shows "parsePost found (Some (form_encode fs)) out = Some (replyOk, out, fold (\<lambda>(k, v). omap_set k v) fs [])"
  using parsePost_fields[of "form_encode fs" found out] form_fields_encode[OF assms(1,2)] assms
    url_text_not_empty[of fs] by (simp add: Suc_le_eq)

theorem posted_form_reads_back_witness:
  "parsePost (\<lambda>_ _. False) (Some ''msg=50%25+%26+more&x=9'') \<lparr>replyHeaders = [], replyBody = []\<rparr> =
     Some (replyOk, \<lparr>replyHeaders = [], replyBody = []\<rparr>, [(''msg'', ''50% & more''), (''x'', ''9'')])"
proof -
  have e: "form_encode [(''msg'', ''50% & more''), (''x'', ''9'')] = ''msg=50%25+%26+more&x=9''" by code_simp
  have m: "fold (\<lambda>(k, v). omap_set k v) [(''msg'', ''50% & more''), (''x'', ''9'')] [] =
      [(''msg'', ''50% & more''), (''x'', ''9'')]" by code_simp
  show ?thesis
    using posted_form_reads_back[of "[(''msg'', ''50% & more''), (''x'', ''9'')]" "\<lambda>_ _. False"] unfolding e m
    by (simp add: plain_field_def MAX_POST_BODY_LEN_def)
qed

lemma returnError_reply:
  "\<exists>out1. returnError found line text out = (replyInternalError, out1) \<and> out1 \<noteq> out"
  by (auto simp: returnError_def setHeaderContentTypeText_def setHeaderContentType_def setHeader_def
      addBody_def dest!: arg_cong[of _ _ replyHeaders])

text \<open>
  The reader stays inside its arrays on every body: it always gives a reply, which is the error
  reply when the body is missing, empty, 4096 bytes or longer, or has a percent sign that no two
  hexadecimal digits follow; else the fields are those that the reference reads.
\<close>

theorem any_body_gets_a_reply:
  "\<exists>reply out1 m. parsePost found body out = Some (reply, out1, m) \<and>
     (reply = replyOk \<and> out1 = out \<and> (\<exists>b. body = Some b \<and> form_fields b = Some m) \<or>
      reply = replyInternalError \<and> out1 \<noteq> out \<and>
        (body = None \<or> (\<exists>b. body = Some b \<and>
           (length b = 0 \<or> MAX_POST_BODY_LEN \<le> length b \<or> form_fields b = None))))"
proof (cases body)
  case None
  then show ?thesis
    using returnError_reply[of found 560 "''no body in post request''" out] by (auto simp: parsePost_def)
next
  case (Some b)
  show ?thesis
  proof (cases "1 \<le> length b \<and> length b < MAX_POST_BODY_LEN")
    case False
    obtain out1 where "returnError found 566 (badBodyText (length b)) out = (replyInternalError, out1)" "out1 \<noteq> out"
      using returnError_reply by blast
    then have "parsePost found body out = Some (replyInternalError, out1, [])" "out1 \<noteq> out"
      using False Some by (auto simp: parsePost_def Suc_le_eq)
    then show ?thesis using False Some by (auto simp: Suc_le_eq)
  next
    case True
    obtain out1 where "returnError found 625 ''invalid percent encoding'' out = (replyInternalError, out1)" "out1 \<noteq> out"
      using returnError_reply by blast
    then show ?thesis using parsePost_fields[of b found out] True Some
      by (cases "form_fields b") auto
  qed
qed

end
