(* ===== verification/Status_Report.thy ===== *)
theory Status_Report
  imports Motion_Sensor Dictionary
begin

text \<open>
  \<^verbatim>\<open>src/statusReport.h\<close> and \<^verbatim>\<open>src/statusReport.cpp\<close>: the status of the
  clock as a text page and as a JSON document, both pure functions of a snapshot, and the reading
  of \<^verbatim>\<open>/proc/loadavg\<close> and \<^verbatim>\<open>/proc/meminfo\<close>. A file is its content, or
  \<open>None\<close> when it cannot be opened. The record of the MQTT client
  (\<^verbatim>\<open>src/mqttClient.h\<close>) is here because the snapshot holds a copy of it.
\<close>

section \<open>The snapshot\<close>

record MqttClientInfo =
  mqttBrokerIp :: "string option"
  mqttBrokerPort :: int
  mqttKeepAlive :: int
  mqttBrokerConnected :: bool
  last_loop_rc :: int
  connectAttempts :: Int32U
  connects :: Int32U
  disconnects :: Int32U
  publishes :: Int32U
  publishedMotions :: Int32U
  publishesDropped :: Int32U
  publishCallbacks :: Int32U
  messages :: Int32U
  mqtt_ticks :: Int32U

record SystemStatus =
  loadValid :: bool
  loadAvg1Hundredths :: Int32U
  loadAvg5Hundredths :: Int32U
  loadAvg15Hundredths :: Int32U
  memValid :: bool
  memFreeKb :: Int64U
  memAvailableKb :: Int64U
  memTotalKb :: Int64U

record StatusSnapshot =
  webHandlerAvailable :: bool
  handlerHits :: "(string \<times> Int32U) list"
  snap_motion :: MotionInfo
  snap_lightValue :: Int32U
  snap_displayMode :: string
  snap_displayDimmed :: bool
  snap_ledStripMode :: string
  snap_mqtt :: MqttClientInfo
  snap_mqttBrokerIp :: string
  mqttLastLoopRcStr :: string
  snap_dictionaryStatus :: DictionaryStatus
  dictionarySize :: nat
  snap_dictionaryEntries :: "(string \<times> string) list"
  snap_system :: SystemStatus

definition statusJsonVersion :: int where "statusJsonVersion = 1"

section \<open>Text of numbers and strings\<close>

text \<open>\<^verbatim>\<open>"%d"\<close> of an \<^verbatim>\<open>(int)\<close> cast of an unsigned counter, and of a byte.\<close>

definition appendInt :: "int \<Rightarrow> string" where
  "appendInt n = dec_int n"

definition countText :: "Int32U \<Rightarrow> string" where
  "countText w = appendInt (sint w)"

definition byteText :: "Int8U \<Rightarrow> string" where
  "byteText w = appendInt (uint w)"

definition appendUInt64 :: "Int64U \<Rightarrow> string" where
  "appendUInt64 v = dec_nat (unat v)"

definition appendLoad :: "Int32U \<Rightarrow> string" where
  "appendLoad hundredths = dec_nat (unat (hundredths div 100)) @ ''.'' @
     pad_left (CHR ''0'') 2 (dec_nat (unat (hundredths mod 100)))"

definition nl :: string where "nl = [CHR 0x0A]"
definition dquote :: char where "dquote = CHR 0x22"
definition backslash :: char where "backslash = CHR 0x5C"

definition hex_char :: "nat \<Rightarrow> char" where
  "hex_char d = (if d < 10 then char_of (48 + d) else char_of (87 + d))"

definition jsonEscapeChar :: "char \<Rightarrow> string" where
  "jsonEscapeChar c =
     (if c = dquote then [backslash, dquote]
      else if c = backslash then [backslash, backslash]
      else if c = CHR 0x08 then [backslash, CHR ''b'']
      else if c = CHR 0x0C then [backslash, CHR ''f'']
      else if c = CHR 0x0A then [backslash, CHR ''n'']
      else if c = CHR 0x0D then [backslash, CHR ''r'']
      else if c = CHR 0x09 then [backslash, CHR ''t'']
      else if (of_char c :: nat) < 32 then
        backslash # ''u00'' @ [hex_char (of_char c div 16), hex_char (of_char c mod 16)]
      else [c])"

definition jsonEscape :: "string \<Rightarrow> string" where
  "jsonEscape value = concat (map jsonEscapeChar value)"

definition appendJsonString :: "string \<Rightarrow> string" where
  "appendJsonString value = dquote # jsonEscape value @ [dquote]"

definition appendJsonBool :: "bool \<Rightarrow> string" where
  "appendJsonBool b = (if b then ''true'' else ''false'')"

section \<open>Reading the system\<close>

text \<open>The two loops of \<^verbatim>\<open>parseHundredths\<close>: the value so far and the rest of the token.\<close>

definition is_digit :: "char \<Rightarrow> bool" where
  "is_digit c \<longleftrightarrow> 48 \<le> (of_char c :: nat) \<and> (of_char c :: nat) \<le> 57"

definition digit_of :: "char \<Rightarrow> Int32U" where
  "digit_of c = of_nat (of_char c - 48)"

definition maxWhole :: Int32U where "maxWhole = 42949671"

fun parseWhole :: "Int32U \<Rightarrow> string \<Rightarrow> (Int32U \<times> string) option" where
  "parseWhole whole [] = Some (whole, [])"
| "parseWhole whole (c # cs) =
     (if is_digit c then
        if (maxWhole - digit_of c) div 10 < whole then None else parseWhole (whole * 10 + digit_of c) cs
      else Some (whole, c # cs))"

fun parseFraction :: "Int32U \<Rightarrow> nat \<Rightarrow> string \<Rightarrow> (Int32U \<times> nat \<times> string) option" where
  "parseFraction fraction n [] = Some (fraction, n, [])"
| "parseFraction fraction n (c # cs) =
     (if is_digit c then
        if 2 < n + 1 then None else parseFraction (fraction * 10 + digit_of c) (n + 1) cs
      else Some (fraction, n, c # cs))"

definition parseHundredths :: "string \<Rightarrow> Int32U option" where
  "parseHundredths token =
     (if token = [] then None
      else case parseWhole 0 token of
        None \<Rightarrow> None
      | Some (whole, rest) \<Rightarrow>
          if length rest = length token then None
          else if rest = [] then Some (whole * 100 + 0)
          else if hd rest \<noteq> CHR ''.'' then None
          else case parseFraction 0 0 (tl rest) of
            None \<Rightarrow> None
          | Some (fraction, n, junk) \<Rightarrow>
              if n = 0 then None
              else
                let f = (if n = 1 then fraction * 10 else fraction)
                in if junk \<noteq> [] then None else Some (whole * 100 + f))"

text \<open>\<^verbatim>\<open>std::getline\<close>: the lines of a file, a last one without line end included.\<close>

function getlines :: "string \<Rightarrow> string list" where
  "getlines s =
     (if s = [] then []
      else takeWhile (\<lambda>c. c \<noteq> CHR 0x0A) s # getlines (drop 1 (dropWhile (\<lambda>c. c \<noteq> CHR 0x0A) s)))"
  by auto
termination
proof (relation "measure length")
  fix s :: string
  assume "s \<noteq> []"
  moreover have "length (dropWhile (\<lambda>c. c \<noteq> CHR 0x0A) s) \<le> length s" by (rule length_dropWhile_le)
  ultimately show "(drop 1 (dropWhile (\<lambda>c. c \<noteq> CHR 0x0A) s), s) \<in> measure length"
    by (cases s) auto
qed simp

declare getlines.simps [simp del]

text \<open>\<^verbatim>\<open>stream >> string\<close>: the next word; and of an unsigned 64-bit number.\<close>

definition nextToken :: "string \<Rightarrow> string \<times> string" where
  "nextToken s = (let s1 = dropWhile isspace s in (takeWhile (\<lambda>c. \<not> isspace c) s1, dropWhile (\<lambda>c. \<not> isspace c) s1))"

definition streamUInt64 :: "string \<Rightarrow> Int64U option" where
  "streamUInt64 s = (case scan_int 10 s of
     None \<Rightarrow> None
   | Some (neg, n, _) \<Rightarrow> if 2 ^ 64 \<le> n then None else Some (if neg then - of_nat n else of_nat n))"

text \<open>A failure leaves what was stored before it.\<close>

definition readLoadAverages :: "string option \<Rightarrow> SystemStatus \<Rightarrow> bool \<times> SystemStatus" where
  "readLoadAverages file s = (case file of
     None \<Rightarrow> (False, s)
   | Some content \<Rightarrow> (case getlines content of
       [] \<Rightarrow> (False, s)
     | line # _ \<Rightarrow>
         let (one, r1) = nextToken line; (five, r5) = nextToken r1; (fifteen, _) = nextToken r5
         in if one = [] \<or> five = [] \<or> fifteen = [] then (False, s)
            else case parseHundredths one of
              None \<Rightarrow> (False, s)
            | Some a \<Rightarrow>
                let s1 = s\<lparr>loadAvg1Hundredths := a\<rparr>
                in case parseHundredths five of
                  None \<Rightarrow> (False, s1)
                | Some b \<Rightarrow>
                    let s2 = s1\<lparr>loadAvg5Hundredths := b\<rparr>
                    in case parseHundredths fifteen of
                      None \<Rightarrow> (False, s2)
                    | Some c \<Rightarrow> (True, s2\<lparr>loadAvg15Hundredths := c\<rparr>)))"

definition parseMeminfoLine :: "string \<Rightarrow> string \<Rightarrow> Int64U option" where
  "parseMeminfoLine line name =
     (if CHR '':'' \<notin> set line then None
      else if takeWhile (\<lambda>c. c \<noteq> CHR '':'') line \<noteq> name then None
      else streamUInt64 (drop 1 (dropWhile (\<lambda>c. c \<noteq> CHR '':'') line)))"

record mem_found =
  haveFree :: bool
  haveAvailable :: bool
  haveTotal :: bool

definition memLine :: "string \<Rightarrow> mem_found \<times> SystemStatus \<Rightarrow> mem_found \<times> SystemStatus" where
  "memLine line st = (case st of (f, s) \<Rightarrow>
     (case (if haveTotal f then None else parseMeminfoLine line ''MemTotal'') of
        Some v \<Rightarrow> (f\<lparr>haveTotal := True\<rparr>, s\<lparr>memTotalKb := v\<rparr>)
      | None \<Rightarrow>
     (case (if haveFree f then None else parseMeminfoLine line ''MemFree'') of
        Some v \<Rightarrow> (f\<lparr>haveFree := True\<rparr>, s\<lparr>memFreeKb := v\<rparr>)
      | None \<Rightarrow>
     (case (if haveAvailable f then None else parseMeminfoLine line ''MemAvailable'') of
        Some v \<Rightarrow> (f\<lparr>haveAvailable := True\<rparr>, s\<lparr>memAvailableKb := v\<rparr>)
      | None \<Rightarrow> (f, s)))))"

definition readMemInfo :: "string option \<Rightarrow> SystemStatus \<Rightarrow> bool \<times> SystemStatus" where
  "readMemInfo file s = (case file of
     None \<Rightarrow> (False, s)
   | Some content \<Rightarrow>
       let (f, s1) = fold memLine (getlines content) (\<lparr>haveFree = False, haveAvailable = False, haveTotal = False\<rparr>, s)
       in (haveFree f \<and> haveTotal f, s1))"

definition zeroSystemStatus :: SystemStatus where
  "zeroSystemStatus = \<lparr>loadValid = False, loadAvg1Hundredths = 0, loadAvg5Hundredths = 0, loadAvg15Hundredths = 0,
     memValid = False, memFreeKb = 0, memAvailableKb = 0, memTotalKb = 0\<rparr>"

definition readSystemStatus :: "string option \<Rightarrow> string option \<Rightarrow> bool \<times> SystemStatus" where
  "readSystemStatus loadavg meminfo =
     (let (lv, s1) = readLoadAverages loadavg zeroSystemStatus;
          s2 = s1\<lparr>loadValid := lv\<rparr>;
          (mv, s3) = readMemInfo meminfo s2;
          s4 = s3\<lparr>memValid := mv\<rparr>;
          s5 = (if \<not> loadValid s4
                then s4\<lparr>loadAvg1Hundredths := 0, loadAvg5Hundredths := 0, loadAvg15Hundredths := 0\<rparr> else s4);
          s6 = (if \<not> memValid s5 then s5\<lparr>memFreeKb := 0, memAvailableKb := 0, memTotalKb := 0\<rparr> else s5)
      in (loadValid s6 \<and> memValid s6, s6))"

section \<open>The text page\<close>

definition renderTextSystem :: "SystemStatus \<Rightarrow> string" where
  "renderTextSystem s =
     (let mem = (\<lambda>(name, value). name @ '': '' @ (if memValid s then appendUInt64 value else ''unavailable'') @ nl)
      in ''cpu_load: '' @
         (if loadValid s then appendLoad (loadAvg1Hundredths s) @ '' '' @ appendLoad (loadAvg5Hundredths s) @ '' '' @
            appendLoad (loadAvg15Hundredths s) else ''unavailable'') @ nl @
         concat (map mem [(''mem_free_kb'', memFreeKb s), (''mem_available_kb'', memAvailableKb s),
           (''mem_total_kb'', memTotalKb s)]))"

definition textLine :: "string \<Rightarrow> string \<Rightarrow> string" where
  "textLine name value = name @ '': '' @ value @ nl"

definition yesNo :: "bool \<Rightarrow> string" where
  "yesNo b = (if b then ''yes'' else ''no'')"

text \<open>\<^verbatim>\<open>std::to_string\<close> of a hit count is unsigned, unlike the other counters.\<close>

definition renderTextHits :: "StatusSnapshot \<Rightarrow> string" where
  "renderTextHits s =
     (if webHandlerAvailable s then
        concat (map (\<lambda>(k, n). ''hitCount: '' @ k @ '' = '' @ dec_nat (unat n) @ nl) (handlerHits s)) @ nl
      else '''')"

definition renderTextMotion :: "StatusSnapshot \<Rightarrow> string" where
  "renderTextMotion s =
     textLine ''motion'' (if currMotionDetected (snap_motion s) then ''y'' else ''n'') @
     textLine ''motion_last_change'' (byteText (lastChangedHour (snap_motion s)) @ '':'' @
       byteText (lastChangedMin (snap_motion s)) @ '':'' @ byteText (lastChangedSec (snap_motion s)))"

definition renderTextMqtt :: "StatusSnapshot \<Rightarrow> string" where
  "renderTextMqtt s =
     (let m = snap_mqtt s
      in textLine ''mqttBrokerConnected'' (yesNo (mqttBrokerConnected m)) @
         textLine ''mqttLastLoopRc'' (appendInt (last_loop_rc m) @ '' ('' @ mqttLastLoopRcStr s @ '')'') @
         textLine ''mqttBrokerIp'' (snap_mqttBrokerIp s) @
         textLine ''mqttBrokerPort'' (appendInt (mqttBrokerPort m)) @
         textLine ''mqttKeepAlive (secs)'' (appendInt (mqttKeepAlive m)) @
         textLine ''mqttConnectAttempts'' (countText (connectAttempts m)) @
         textLine ''mqttConnects'' (countText (connects m)) @
         textLine ''mqttDisconnects'' (countText (disconnects m)) @
         textLine ''mqttPublishes'' (countText (publishes m)) @
         textLine ''mqttPublishedMotions'' (countText (publishedMotions m)) @
         textLine ''mqttPublishesDropped'' (countText (publishesDropped m)) @
         textLine ''mqttPublishCallbacks'' (countText (publishCallbacks m)) @
         textLine ''mqttMessages'' (countText (messages m)) @
         textLine ''mqttTicks'' (countText (mqtt_ticks m)))"

text \<open>\<^verbatim>\<open>(int)\<close> of a size: the low 32 bits.\<close>

definition sizeText :: "nat \<Rightarrow> string" where
  "sizeText n = countText (of_nat n)"

definition renderTextDictionary :: "StatusSnapshot \<Rightarrow> string" where
  "renderTextDictionary s =
     (let d = snap_dictionaryStatus s
      in textLine ''dictSize'' (sizeText (dictionarySize s)) @
         textLine ''dictTicks'' (countText (dict_ticks d)) @
         textLine ''dictAdds'' (countText (entriesAdded d)) @
         textLine ''dictRemoves'' (countText (entriesRemoved d)) @
         textLine ''dictExpires'' (countText (entriesExpired d)) @
         (if snap_dictionaryEntries s \<noteq> [] then
            nl @ concat (map (\<lambda>(k, v). ''dict: '' @ k @ '' => '' @ v @ nl) (snap_dictionaryEntries s))
          else ''''))"

definition renderStatusText :: "StatusSnapshot \<Rightarrow> string" where
  "renderStatusText s =
     ''Stats and status'' @ nl @ nl @ renderTextHits s @ renderTextMotion s @
     textLine ''light_sensor'' (countText (snap_lightValue s)) @
     textLine ''display_mode'' (snap_displayMode s) @
     textLine ''display_dimmed'' (yesNo (snap_displayDimmed s)) @
     textLine ''led_strip_mode'' (snap_ledStripMode s) @
     nl @ renderTextSystem (snap_system s) @ nl @ renderTextMqtt s @ nl @ renderTextDictionary s"

section \<open>The JSON document\<close>

text \<open>A name with its colon, after so many spaces.\<close>

definition jsonName :: "nat \<Rightarrow> string \<Rightarrow> string" where
  "jsonName indent name = replicate indent (CHR '' '') @ dquote # name @ dquote # '': ''"

definition commaNl :: string where "commaNl = '','' @ nl"

text \<open>The separator after the elements of a list: a comma after all but the last.\<close>

fun commaSeparated :: "string list \<Rightarrow> string" where
  "commaSeparated [] = ''''"
| "commaSeparated [x] = x @ nl"
| "commaSeparated (x # y # xs) = x @ commaNl @ commaSeparated (y # xs)"

definition renderJsonSystem :: "SystemStatus \<Rightarrow> string" where
  "renderJsonSystem s =
     jsonName 2 ''system'' @ ''{'' @ nl @
     jsonName 4 ''cpu_load'' @
     (if loadValid s then
        ''{'' @ jsonName 0 ''1min'' @ appendLoad (loadAvg1Hundredths s) @ '', '' @
        jsonName 0 ''5min'' @ appendLoad (loadAvg5Hundredths s) @ '', '' @
        jsonName 0 ''15min'' @ appendLoad (loadAvg15Hundredths s) @ ''}''
      else ''null'') @ commaNl @
     commaSeparated (map (\<lambda>(name, value). jsonName 4 name @ (if memValid s then appendUInt64 value else ''null''))
       [(''mem_free_kb'', memFreeKb s), (''mem_available_kb'', memAvailableKb s), (''mem_total_kb'', memTotalKb s)]) @
     ''  }'' @ commaNl"

definition renderJsonMqtt :: "StatusSnapshot \<Rightarrow> string" where
  "renderJsonMqtt s =
     (let m = snap_mqtt s
      in jsonName 2 ''mqtt'' @ ''{'' @ nl @
         jsonName 4 ''broker_connected'' @ appendJsonBool (mqttBrokerConnected m) @ commaNl @
         jsonName 4 ''broker_ip'' @ appendJsonString (snap_mqttBrokerIp s) @ commaNl @
         jsonName 4 ''broker_port'' @ appendInt (mqttBrokerPort m) @ commaNl @
         jsonName 4 ''keep_alive_secs'' @ appendInt (mqttKeepAlive m) @ commaNl @
         jsonName 4 ''last_loop_rc'' @ appendInt (last_loop_rc m) @ commaNl @
         jsonName 4 ''last_loop_rc_str'' @ appendJsonString (mqttLastLoopRcStr s) @
         concat (map (\<lambda>(name, value). commaNl @ jsonName 4 name @ countText value)
           [(''connect_attempts'', connectAttempts m), (''connects'', connects m), (''disconnects'', disconnects m),
            (''publishes'', publishes m), (''published_motions'', publishedMotions m),
            (''publishes_dropped'', publishesDropped m), (''publish_callbacks'', publishCallbacks m),
            (''messages'', messages m), (''ticks'', mqtt_ticks m)]) @
         nl @ ''  }'' @ commaNl)"

definition renderJsonPairs :: "(string \<times> string) list \<Rightarrow> string \<Rightarrow> string" where
  "renderJsonPairs entries indent =
     commaSeparated (map (\<lambda>(k, v). indent @ appendJsonString k @ '': '' @ appendJsonString v) entries)"

definition renderJsonMotion :: "StatusSnapshot \<Rightarrow> string" where
  "renderJsonMotion s =
     jsonName 2 ''motion'' @ ''{'' @ nl @
     jsonName 4 ''detected'' @ appendJsonBool (currMotionDetected (snap_motion s)) @ commaNl @
     jsonName 4 ''last_change_hour'' @ byteText (lastChangedHour (snap_motion s)) @ commaNl @
     jsonName 4 ''last_change_min'' @ byteText (lastChangedMin (snap_motion s)) @ commaNl @
     jsonName 4 ''last_change_sec'' @ byteText (lastChangedSec (snap_motion s)) @ nl @ ''  }'' @ commaNl"

definition renderJsonDictionary :: "StatusSnapshot \<Rightarrow> string" where
  "renderJsonDictionary s =
     (let d = snap_dictionaryStatus s
      in jsonName 2 ''dictionary'' @ ''{'' @ nl @
         jsonName 4 ''size'' @ sizeText (dictionarySize s) @ commaNl @
         jsonName 4 ''ticks'' @ countText (dict_ticks d) @ commaNl @
         jsonName 4 ''adds'' @ countText (entriesAdded d) @ commaNl @
         jsonName 4 ''removes'' @ countText (entriesRemoved d) @ commaNl @
         jsonName 4 ''expires'' @ countText (entriesExpired d) @ commaNl @
         jsonName 4 ''entries'' @ ''{'' @
         (if snap_dictionaryEntries s = [] then ''}'' @ nl
          else nl @ renderJsonPairs (snap_dictionaryEntries s) ''      '' @ ''    }'' @ nl) @
         ''  }'' @ commaNl)"

definition renderJsonHandlers :: "StatusSnapshot \<Rightarrow> string" where
  "renderJsonHandlers s =
     jsonName 2 ''handlers'' @ ''{'' @ jsonName 0 ''hits'' @ ''{'' @
     (if \<not> webHandlerAvailable s \<or> handlerHits s = [] then ''}}'' @ nl
      else nl @ commaSeparated (map (\<lambda>(k, n). ''    '' @ appendJsonString k @ '': '' @ countText n) (handlerHits s)) @
        ''  }}'' @ nl)"

definition renderStatusJson :: "StatusSnapshot \<Rightarrow> string" where
  "renderStatusJson s =
     ''{'' @ nl @ jsonName 2 ''version'' @ appendInt statusJsonVersion @ commaNl @
     renderJsonSystem (snap_system s) @ renderJsonMotion s @
     jsonName 2 ''light_sensor'' @ countText (snap_lightValue s) @ commaNl @
     jsonName 2 ''display'' @ ''{'' @ jsonName 0 ''mode'' @ appendJsonString (snap_displayMode s) @ '', '' @
       jsonName 0 ''dimmed'' @ appendJsonBool (snap_displayDimmed s) @ ''}'' @ commaNl @
     jsonName 2 ''led_strip'' @ ''{'' @ jsonName 0 ''mode'' @ appendJsonString (snap_ledStripMode s) @ ''}'' @ commaNl @
     renderJsonMqtt s @ renderJsonDictionary s @ renderJsonHandlers s @ ''}'' @ nl"

section \<open>The JSON string is what it stands for\<close>

text \<open>The reference: a JSON reader inside a string literal, up to the closing quote.\<close>

fun jsonReadChar :: "string \<Rightarrow> (char option \<times> string) option" where
  "jsonReadChar [] = None"
| "jsonReadChar (c # cs) =
     (if c = dquote then Some (None, cs)
      else if (of_char c :: nat) < 32 then None
      else if c \<noteq> backslash then Some (Some c, cs)
      else case cs of
        [] \<Rightarrow> None
      | e # es \<Rightarrow>
          if e = dquote \<or> e = backslash then Some (Some e, es)
          else if e = CHR ''b'' then Some (Some (CHR 0x08), es)
          else if e = CHR ''f'' then Some (Some (CHR 0x0C), es)
          else if e = CHR ''n'' then Some (Some (CHR 0x0A), es)
          else if e = CHR ''r'' then Some (Some (CHR 0x0D), es)
          else if e = CHR ''t'' then Some (Some (CHR 0x09), es)
          else if e = CHR ''u'' then
            (case es of
               a # b # x # y # rest \<Rightarrow>
                 (if a = CHR ''0'' \<and> b = CHR ''0'' \<and> isxdigit x \<and> isxdigit y
                  then Some (Some (char_of (the (digit_val x) * 16 + the (digit_val y) :: nat)), rest) else None)
             | _ \<Rightarrow> None)
          else None)"

lemma jsonReadChar_shorter: "jsonReadChar s = Some (oc, rest) \<Longrightarrow> length rest < length s"
  by (induction s rule: jsonReadChar.induct) (auto split: if_splits list.splits)

function jsonReadString :: "string \<Rightarrow> (string \<times> string) option" where
  "jsonReadString s = (case jsonReadChar s of
     None \<Rightarrow> None
   | Some (None, rest) \<Rightarrow> Some ('''', rest)
   | Some (Some c, rest) \<Rightarrow> (case jsonReadString rest of None \<Rightarrow> None | Some (t, r) \<Rightarrow> Some (c # t, r)))"
  by auto
termination by (relation "measure length") (auto dest: jsonReadChar_shorter)

declare jsonReadString.simps [simp del]

definition control_ok :: "nat \<Rightarrow> bool" where
  "control_ok n \<longleftrightarrow> (let x = hex_char (n div 16); y = hex_char (n mod 16) in
     isxdigit x \<and> isxdigit y \<and> the (digit_val x) * 16 + the (digit_val y) = n \<and>
     32 \<le> (of_char x :: nat) \<and> 32 \<le> (of_char y :: nat))"

lemma control_hex: "n < 32 \<Longrightarrow> control_ok n"
proof -
  have "list_all control_ok [0..<32]" by code_simp
  then show "n < 32 \<Longrightarrow> control_ok n" by (simp add: list_all_iff)
qed

lemma jsonReadChar_escaped: "jsonReadChar (jsonEscapeChar c @ t) = Some (Some c, t)"
proof (cases "(of_char c :: nat) < 32")
  case True
  have "control_ok (of_char c)" using True by (rule control_hex)
  then have h: "isxdigit (hex_char (of_char c div 16))" "isxdigit (hex_char (of_char c mod 16))"
      "char_of (the (digit_val (hex_char (of_char c div 16))) * 16 + the (digit_val (hex_char (of_char c mod 16))) :: nat) = c"
    by (simp_all add: control_ok_def Let_def)
  show ?thesis using True h by (simp add: jsonEscapeChar_def dquote_def backslash_def)
next
  case False
  then show ?thesis by (auto simp: jsonEscapeChar_def dquote_def backslash_def)
qed

text \<open>
  Whatever bytes a string of the snapshot holds, quotes, backslashes and control characters
  included, a JSON reader gets back exactly that string from its literal and goes on right behind
  it: no value that a request stored in the dictionary can end its literal early.
\<close>

theorem json_string_reads_back:
  "jsonReadString (tl (appendJsonString s) @ rest) = Some (s, rest)"
proof -
  have "jsonReadString (jsonEscape s @ dquote # rest) = Some (s, rest)"
  proof (induction s)
    case Nil
    then show ?case by (subst jsonReadString.simps) (simp add: jsonEscape_def)
  next
    case (Cons c s)
    have "jsonEscape (c # s) @ dquote # rest = jsonEscapeChar c @ (jsonEscape s @ dquote # rest)"
      by (simp add: jsonEscape_def)
    then show ?case
      using Cons by (subst jsonReadString.simps) (simp add: jsonReadChar_escaped)
  qed
  then show ?thesis by (simp add: appendJsonString_def)
qed

section \<open>The document has no control characters\<close>

definition printable :: "string \<Rightarrow> bool" where
  "printable s \<longleftrightarrow> list_all (\<lambda>c. c = CHR 0x0A \<or> 32 \<le> (of_char c :: nat)) s"

lemma printable_append [simp]: "printable (xs @ ys) \<longleftrightarrow> printable xs \<and> printable ys"
  by (simp add: printable_def)

lemma printable_Nil [simp]: "printable []"
  by (simp add: printable_def)

lemma printable_Cons: "printable (c # cs) \<longleftrightarrow> (c = CHR 0x0A \<or> 32 \<le> (of_char c :: nat)) \<and> printable cs"
  by (simp add: printable_def)

lemma printable_concat [simp]: "printable (concat xss) \<longleftrightarrow> list_all printable xss"
  by (induction xss) simp_all

lemma printable_pieces [simp]:
  "printable nl" "printable commaNl" "printable (replicate n (CHR '' ''))"
  by (simp_all add: nl_def commaNl_def printable_Cons) (simp add: printable_def list_all_iff)

lemma printable_dec_nat [simp]: "printable (dec_nat n)"
  using dec_nat_digits[of n] by (fastforce simp: printable_def list_all_iff)

lemma printable_numbers [simp]:
  "printable (appendInt n)" "printable (countText w)" "printable (byteText b)" "printable (appendUInt64 v)"
  "printable (appendLoad h)" "printable (sizeText k)" "printable (appendJsonBool t)"
  by (simp_all add: appendInt_def countText_def byteText_def appendUInt64_def appendLoad_def sizeText_def
      appendJsonBool_def dec_int_def pad_left_def printable_Cons) (simp_all add: printable_def list_all_length)

lemma printable_escaped [simp]: "printable (appendJsonString s)"
proof -
  have "printable (jsonEscapeChar c)" for c
    using control_hex[of "of_char c"]
    by (auto simp: jsonEscapeChar_def printable_Cons dquote_def backslash_def control_ok_def Let_def)
  then show ?thesis by (simp add: appendJsonString_def jsonEscape_def printable_Cons dquote_def list_all_iff)
qed

lemma printable_jsonName [simp]: "printable (jsonName k name) \<longleftrightarrow> printable name"
  by (simp add: jsonName_def printable_Cons dquote_def)

lemma printable_commaSeparated [simp]: "list_all printable xs \<Longrightarrow> printable (commaSeparated xs)"
  by (induction xs rule: commaSeparated.induct) simp_all

lemmas render_json_defs = renderStatusJson_def renderJsonSystem_def renderJsonMotion_def renderJsonMqtt_def
  renderJsonDictionary_def renderJsonPairs_def renderJsonHandlers_def

lemma renderJson_printable:
  "printable (renderJsonSystem y)" "printable (renderJsonMotion s)" "printable (renderJsonMqtt s)"
  "printable (renderJsonDictionary s)" "printable (renderJsonHandlers s)"
  by (simp_all add: render_json_defs Let_def printable_Cons list_all_length split: prod.split)

lemma printable_no_NUL: "printable s \<Longrightarrow> NUL \<notin> set s"
  by (induction s) (auto simp: printable_Cons)

text \<open>
  The JSON document holds no control character but its line ends, whatever strings the snapshot
  holds, so it holds no NUL and the C functions that it is handed to see all of it.
\<close>

theorem status_json_is_printable:
  "list_all (\<lambda>c. c = CHR 0x0A \<or> 32 \<le> (of_char c :: nat)) (renderStatusJson s) \<and>
   c_str (renderStatusJson s) = renderStatusJson s"
proof -
  have p: "printable (renderStatusJson s)"
    by (simp add: renderStatusJson_def renderJson_printable printable_Cons)
  then have "NUL \<notin> set (renderStatusJson s)" by (rule printable_no_NUL)
  with p show ?thesis by (simp add: printable_def)
qed

section \<open>Load averages\<close>

lemma is_digit_base: "is_digit c \<longleftrightarrow> is_base_digit 10 c"
  by (auto simp: is_digit_def is_base_digit_def digit_val_def Let_def)

lemma digit_of_val: "is_digit c \<Longrightarrow> unat (digit_of c) = the (digit_val c) \<and> the (digit_val c) < 10"
proof -
  assume d: "is_digit c"
  then have "unat (of_nat (of_char c - 48) :: Int32U) = of_char c - 48"
    by (intro unat_of_nat_id) (auto simp: is_digit_def)
  then show ?thesis using d by (auto simp: is_digit_def digit_of_def digit_val_def Let_def)
qed

lemma digits_value_ge: "list_all is_digit ds \<Longrightarrow> acc \<le> digits_value 10 acc ds"
proof (induction ds arbitrary: acc)
  case (Cons d ds)
  then have "acc * 10 + the (digit_val d) \<le> digits_value 10 acc (d # ds)" by (simp add: is_digit_base)
  then show ?case by linarith
qed simp

lemma parseWhole_digits:
  assumes "list_all is_digit ds" "digits_value 10 (unat w) ds \<le> unat maxWhole" "rest = [] \<or> \<not> is_digit (hd rest)"
  shows "parseWhole w (ds @ rest) = Some (of_nat (digits_value 10 (unat w) ds), rest)"
  using assms(1,2)
proof (induction ds arbitrary: w)
  case Nil
  then show ?case using assms(3) by (cases rest) simp_all
next
  case (Cons d ds)
  have d: "unat (digit_of d) = the (digit_val d)" "the (digit_val d) < 10" "is_digit d"
    using Cons.prems(1) digit_of_val[of d] by auto
  let ?n = "unat w * 10 + the (digit_val d)"
  have v: "digits_value 10 (unat w) (d # ds) = digits_value 10 ?n ds" using d(3) by (simp add: is_digit_base)
  have n: "?n \<le> 42949671" using digits_value_ge[of ds ?n] Cons.prems v by (simp add: maxWhole_def)
  have u: "unat (w * 10 + digit_of d) = ?n"
    using n d(1) by (simp add: unat_word_ariths)
  have le: "digit_of d \<le> maxWhole" using d by (simp add: word_le_nat_alt maxWhole_def)
  have "\<not> (maxWhole - digit_of d) div 10 < w"
    using n d(1) le by (simp add: word_less_nat_alt unat_div unat_sub maxWhole_def)
  moreover have "parseWhole (w * 10 + digit_of d) (ds @ rest) =
      Some (of_nat (digits_value 10 (unat (w * 10 + digit_of d)) ds), rest)"
    using Cons.IH[of "w * 10 + digit_of d"] Cons.prems v unfolding u by simp
  ultimately show ?case using d(3) v unfolding u by simp
qed

lemma dec_nat_is_digit: "list_all is_digit (dec_nat n)"
  using dec_nat_digits[of n] by (simp add: list_all_iff is_digit_base)

lemma fraction_reads:
  "n < 100 \<Longrightarrow> parseFraction 0 0 (pad_left (CHR ''0'') 2 (dec_nat n)) = Some (of_nat n, 2, [])"
proof -
  have "list_all (\<lambda>n. parseFraction 0 0 (pad_left (CHR ''0'') 2 (dec_nat n)) = Some (of_nat n, 2, [])) [0..<100]"
    by code_simp
  then show "n < 100 \<Longrightarrow> ?thesis" by (simp add: list_all_iff)
qed

lemma some_digits:
  "digit_char 2 = CHR ''2''" "digit_char 4 = CHR ''4''" "digit_char 6 = CHR ''6''" "digit_char 7 = CHR ''7''"
  "digit_char 9 = CHR ''9''"
  by code_simp+

text \<open>
  A load average survives the trip through the page: the text that \<open>appendLoad\<close> writes
  for a number of hundredths is the one that \<open>parseHundredths\<close> reads back, for every number
  whose whole part the parser lets in; the few numbers above that are refused, and never read as
  something else.
\<close>

theorem load_reads_back:
  "parseHundredths (appendLoad h) = (if h div 100 \<le> maxWhole then Some h else None)"
proof -
  let ?w = "h div 100" and ?f = "h mod 100"
  let ?rest = "CHR ''.'' # pad_left (CHR ''0'') 2 (dec_nat (unat ?f))"
  have t: "appendLoad h = dec_nat (unat ?w) @ ?rest" by (simp add: appendLoad_def)
  have f: "unat ?f < 100" by (simp add: unat_mod)
  have h: "?w * 100 + ?f = h" by (metis word_mod_div_equality)
  show ?thesis
  proof (cases "?w \<le> maxWhole")
    case True
    then have "parseWhole 0 (dec_nat (unat ?w) @ ?rest) = Some (?w, ?rest)"
      using parseWhole_digits[OF dec_nat_is_digit, of 0 "unat ?w" ?rest]
      by (simp add: digits_value_dec_nat word_le_nat_alt is_digit_def)
    then show ?thesis using True h f
      by (simp add: parseHundredths_def t fraction_reads)
  next
    case False
    have "unat h < 2 ^ 32" using unsigned_less[of h, where 'a = nat] by simp
    then have "unat ?w = 42949672"
      using False by (simp add: word_le_nat_alt maxWhole_def unat_div)
    moreover have "dec_nat 42949672 = ''42949672''" 
    using some_digits by (simp add: dec_nat.simps)
    moreover have "parseWhole 0 (''42949672'' @ ?rest) = None"
      by (simp add: is_digit_def digit_of_def maxWhole_def)
    ultimately show ?thesis using False by (simp add: parseHundredths_def t)
  qed
qed

end
