(* ===== verification/Mqtt_Client.thy ===== *)
theory Mqtt_Client
  imports Status_Report Light_Sensor
begin

text \<open>
  \<^verbatim>\<open>src/mqttClient.h\<close> and \<^verbatim>\<open>src/mqttClient.cpp\<close>: the client that
  reports to the MQTT broker. The mosquitto library is a parameter: what its loop, its connect and
  its publish return in a round, and the callbacks that its loop makes, are the \<open>mosq_round\<close>
  the round is given. Its calls to publish are kept, in their order, in the state.
\<close>

section \<open>State\<close>

definition topicPrefix :: string where "topicPrefix = ''/officeClock/''"
definition topicLightSensor :: string where "topicLightSensor = topicPrefix @ ''light''"
definition topicDisplayIntensity :: string where "topicDisplayIntensity = topicPrefix @ ''display_intensity''"
definition topicDisplayMode :: string where "topicDisplayMode = topicPrefix @ ''display_mode''"
definition topicMotion :: string where "topicMotion = topicPrefix @ ''motion''"
definition topicMotionDetected :: string where "topicMotionDetected = topicPrefix @ ''last_motion''"
definition topicStatus :: string where "topicStatus = topicPrefix @ ''status''"

lemmas topic_defs = topicPrefix_def topicLightSensor_def topicDisplayIntensity_def topicDisplayMode_def
  topicMotion_def topicMotionDetected_def topicStatus_def

definition MQTT_BROKER_DEFAULT_IP :: string where "MQTT_BROKER_DEFAULT_IP = ''192.168.10.238''"
definition MQTT_BROKER_DEFAULT_PORT :: int where "MQTT_BROKER_DEFAULT_PORT = 1883"
definition MQTT_BROKER_DEFAULT_KA :: int where "MQTT_BROKER_DEFAULT_KA = 182"

text \<open>The return codes of mosquitto that the code names.\<close>

definition MOSQ_ERR_SUCCESS :: int where "MOSQ_ERR_SUCCESS = 0"
definition MOSQ_ERR_NO_CONN :: int where "MOSQ_ERR_NO_CONN = 4"

record MqttClient =
  mqttClientInfo :: MqttClientInfo
  mqttTimer :: TimerTick
  publishedMotionOn :: bool
  mqttSent :: "(string \<times> string \<times> bool) list"

datatype mqtt_callback = OnConnect int | OnDisconnect int | OnPublish int | OnMessage

record mosq_round =
  loopRc :: int
  loopCallbacks :: "mqtt_callback list"
  connectRc :: int
  publishRc :: "string \<Rightarrow> int"
  reportLight :: Int32U
  reportSnapshot :: StatusSnapshot
  asctimeText :: string

definition onInfo :: "(MqttClientInfo \<Rightarrow> MqttClientInfo) \<Rightarrow> MqttClient \<Rightarrow> MqttClient" where
  "onInfo f s = s\<lparr>mqttClientInfo := f (mqttClientInfo s)\<rparr>"

definition newMqttClientInfo :: MqttClientInfo where
  "newMqttClientInfo = \<lparr>mqttBrokerIp = Some MQTT_BROKER_DEFAULT_IP, mqttBrokerPort = MQTT_BROKER_DEFAULT_PORT,
     mqttKeepAlive = MQTT_BROKER_DEFAULT_KA, mqttBrokerConnected = False, last_loop_rc = 0, connectAttempts = 0,
     connects = 0, disconnects = 0, publishes = 0, publishedMotions = 0, publishesDropped = 0,
     publishCallbacks = 0, messages = 0, mqtt_ticks = 0\<rparr>"

definition newMqttClient :: "TimerTick \<Rightarrow> MqttClient" where
  "newMqttClient w = \<lparr>mqttClientInfo = newMqttClientInfo,
     mqttTimer = w\<lparr>tickInboxes := snd (getInbox threadIdMqttClient (tickInboxes w))\<rparr>,
     publishedMotionOn = False, mqttSent = []\<rparr>"

definition getMqttClientInfo :: "MqttClient \<Rightarrow> bool \<times> MqttClientInfo" where
  "getMqttClientInfo s = (mqttBrokerConnected (mqttClientInfo s), mqttClientInfo s)"

section \<open>Callbacks\<close>

definition mqtt_on_connect :: "int \<Rightarrow> MqttClient \<Rightarrow> MqttClient" where
  "mqtt_on_connect rc = onInfo (\<lambda>i. i\<lparr>connects := connects i + 1, mqttBrokerConnected := (rc = 0)\<rparr>)"

definition mqtt_on_disconnect :: "int \<Rightarrow> MqttClient \<Rightarrow> MqttClient" where
  "mqtt_on_disconnect rc = onInfo (\<lambda>i. i\<lparr>disconnects := disconnects i + 1, mqttBrokerConnected := False\<rparr>)"

definition mqtt_on_publish :: "int \<Rightarrow> MqttClient \<Rightarrow> MqttClient" where
  "mqtt_on_publish message_id = onInfo (\<lambda>i. i\<lparr>publishCallbacks := publishCallbacks i + 1\<rparr>)"

definition mqtt_on_message :: "MqttClient \<Rightarrow> MqttClient" where
  "mqtt_on_message = onInfo (\<lambda>i. i\<lparr>messages := messages i + 1\<rparr>)"

fun mqtt_callback_run :: "mqtt_callback \<Rightarrow> MqttClient \<Rightarrow> MqttClient" where
  "mqtt_callback_run (OnConnect rc) = mqtt_on_connect rc"
| "mqtt_callback_run (OnDisconnect rc) = mqtt_on_disconnect rc"
| "mqtt_callback_run (OnPublish mid) = mqtt_on_publish mid"
| "mqtt_callback_run OnMessage = mqtt_on_message"

section \<open>Publishing\<close>

text \<open>The payload is measured with \<^verbatim>\<open>strlen\<close>.\<close>

definition doPublish :: "(string \<Rightarrow> int) \<Rightarrow> string \<Rightarrow> string \<Rightarrow> bool \<Rightarrow> MqttClient \<Rightarrow> MqttClient" where
  "doPublish rc topic text retain s =
     onInfo (\<lambda>i. i\<lparr>publishesDropped := (if rc topic \<noteq> MOSQ_ERR_SUCCESS then publishesDropped i + 1
         else publishesDropped i), publishes := publishes i + 1\<rparr>)
       (s\<lparr>mqttSent := mqttSent s @ [(topic, c_str text, retain)]\<rparr>)"

definition doPeriodicReport :: "mosq_round \<Rightarrow> MqttClient \<Rightarrow> MqttClient" where
  "doPeriodicReport e s =
     doPublish (publishRc e) topicStatus (c_str (renderStatusJson (reportSnapshot e))) False
       (doPublish (publishRc e) topicLightSensor (take 5 (dec_int (sint (reportLight e)))) False s)"

section \<open>Services\<close>

definition mqttLoopService :: "ServiceId \<Rightarrow> ServiceId" where "mqttLoopService base = base"
definition periodicReportService :: "ServiceId \<Rightarrow> ServiceId" where "periodicReportService base = base + 1"
definition reconnectDamperService :: "ServiceId \<Rightarrow> ServiceId" where "reconnectDamperService base = base + 2"
definition motionDamperService :: "ServiceId \<Rightarrow> ServiceId" where "motionDamperService base = base + 3"

lemmas mqtt_service_defs = mqttLoopService_def periodicReportService_def reconnectDamperService_def
  motionDamperService_def

definition mqttLoopInterval :: int where "mqttLoopInterval = 445"
definition periodicReportInterval :: int where "periodicReportInterval = (5 * 60 + 13) * 1000"
definition reconnectDamperInterval :: int where "reconnectDamperInterval = 7 * 1000"
definition motionDamperInterval :: int where "motionDamperInterval = 10 * 60 * 1000"

definition onTimer :: "(TimerTick \<Rightarrow> TimerTick) \<Rightarrow> MqttClient \<Rightarrow> MqttClient" where
  "onTimer f s = s\<lparr>mqttTimer := f (mqttTimer s)\<rparr>"

text \<open>The flag that the condition function of the loop service reads.\<close>

definition readyForTimerTickServiceMessage :: "ServiceId \<Rightarrow> bool \<Rightarrow> MqttClient \<Rightarrow> MqttClient" where
  "readyForTimerTickServiceMessage base b = onTimer (update_service (mqttLoopService base)
     (\<lambda>v. v\<lparr>trigger := TimerTickServiceMessage threadIdMqttClient (Some b)\<rparr>))"

definition testAndReset :: "ServiceId \<Rightarrow> MqttClient \<Rightarrow> bool \<times> MqttClient" where
  "testAndReset sid s = (case getAndResetExpired (services (mqttTimer s) sid) of
     (b, v) \<Rightarrow> (b, onTimer (update_service sid (\<lambda>_. v)) s))"

text \<open>The services as the thread constructs them, then registers them, the last without starting it.\<close>

definition mqtt_constructServices :: "ServiceId \<Rightarrow> TimerTick \<Rightarrow> TimerTick" where
  "mqtt_constructServices base w =
     update_service (motionDamperService base)
       (\<lambda>_. mkTimerTickService motionDamperInterval False (TimerTickServiceBool True))
    (update_service (reconnectDamperService base)
       (\<lambda>_. mkTimerTickService reconnectDamperInterval True (TimerTickServiceBool True))
    (update_service (periodicReportService base)
       (\<lambda>_. mkTimerTickService periodicReportInterval True (TimerTickServiceBool False))
    (update_service (mqttLoopService base)
       (\<lambda>_. mkTimerTickService mqttLoopInterval True (TimerTickServiceMessage threadIdMqttClient (Some False))) w)))"

fun mqtt_register :: "(ServiceId \<times> bool) list \<Rightarrow> TimerTick \<Rightarrow> (tick_error + unit) \<times> TimerTick" where
  "mqtt_register [] w = (Inr (), w)"
| "mqtt_register ((sid, start) # rest) w = (case registerTimerTickService sid start w of
     (Inl e, w1) \<Rightarrow> (Inl e, w1)
   | (Inr _, w1) \<Rightarrow> mqtt_register rest w1)"

definition mqtt_setup :: "ServiceId \<Rightarrow> MqttClient \<Rightarrow> tick_error + MqttClient" where
  "mqtt_setup base s =
     (case mqtt_register [(mqttLoopService base, True), (periodicReportService base, True),
             (reconnectDamperService base, True), (motionDamperService base, False)]
             (mqtt_constructServices base (mqttTimer s)) of
        (Inl e, _) \<Rightarrow> Inl e
      | (Inr _, w) \<Rightarrow> Inr (s\<lparr>mqttTimer := w\<rparr>))"

section \<open>The loop\<close>

definition mqtt_tickMessage :: "ServiceId \<Rightarrow> mosq_round \<Rightarrow> MqttClient \<Rightarrow> MqttClient" where
  "mqtt_tickMessage base e s0 =
     (let s1 = fold mqtt_callback_run (loopCallbacks e) (readyForTimerTickServiceMessage base False s0);
          s2 = onInfo (\<lambda>i. i\<lparr>mqtt_ticks := mqtt_ticks i + 1\<rparr>) s1;
          (report, s3) = (if loopRc e = MOSQ_ERR_SUCCESS then testAndReset (periodicReportService base) s2 else (False, s2));
          (rc, s4) =
            (if report then (loopRc e, doPeriodicReport e s3)
             else
               let (reconnect, s5) =
                     (if loopRc e = MOSQ_ERR_NO_CONN \<or> \<not> mqttBrokerConnected (mqttClientInfo s3)
                      then testAndReset (reconnectDamperService base) s3 else (False, s3))
               in if reconnect then (connectRc e, onInfo (\<lambda>i. i\<lparr>connectAttempts := connectAttempts i + 1\<rparr>) s5)
                  else (loopRc e, s5))
      in if rc \<noteq> last_loop_rc (mqttClientInfo s4) then onInfo (\<lambda>i. i\<lparr>last_loop_rc := rc\<rparr>) s4 else s4)"

definition mqtt_motionOff :: "mosq_round \<Rightarrow> MqttClient \<Rightarrow> MqttClient" where
  "mqtt_motionOff e s =
     (if publishedMotionOn s then (doPublish (publishRc e) topicMotion ''off'' True s)\<lparr>publishedMotionOn := False\<rparr>
      else s)"

definition mqtt_motionOn :: "ServiceId \<Rightarrow> mosq_round \<Rightarrow> MqttClient \<Rightarrow> MqttClient" where
  "mqtt_motionOn base e s0 = (case testAndReset (motionDamperService base) s0 of
     (False, s) \<Rightarrow> s
   | (True, s) \<Rightarrow>
       let s1 = (doPublish (publishRc e) topicMotion ''on'' True s)\<lparr>publishedMotionOn := True\<rparr>;
           s2 = doPublish (publishRc e) topicMotionDetected (currTimestamp (asctimeText e)) True s1;
           s3 = onTimer (\<lambda>w. snd (startTimerTickService (cookie (services w (motionDamperService base))) w)) s2
       in onInfo (\<lambda>i. i\<lparr>publishedMotions := publishedMotions i + 1\<rparr>) s3)"

definition mqtt_handle :: "ServiceId \<Rightarrow> mosq_round \<Rightarrow> InboxMsgType \<Rightarrow> MqttClient \<Rightarrow> MqttClient" where
  "mqtt_handle base e t s = (case t of
     inboxMsgTypeTimerTickMessage \<Rightarrow> mqtt_tickMessage base e s
   | inboxMsgTypeMotionOff \<Rightarrow> mqtt_motionOff e s
   | inboxMsgTypeMotionOn \<Rightarrow> mqtt_motionOn base e s
   | inboxMsgTypeDisplayBrightHigh \<Rightarrow> doPublish (publishRc e) topicDisplayIntensity ''high'' True s
   | inboxMsgTypeDisplayBrightLow \<Rightarrow> doPublish (publishRc e) topicDisplayIntensity ''low'' True s
   | inboxMsgTypeDisplayModeNothing \<Rightarrow> doPublish (publishRc e) topicDisplayMode ''screen_saver'' True s
   | inboxMsgTypeDisplayModeBasicClock \<Rightarrow> doPublish (publishRc e) topicDisplayMode ''clock'' True s
   | inboxMsgTypeDisplayModeMessage \<Rightarrow> doPublish (publishRc e) topicDisplayMode ''message'' True s
   | _ \<Rightarrow> s)"

text \<open>
  A round: \<open>None\<close> while the thread waits for a message, and the flag says whether the loop
  goes on.
\<close>

definition mqttLoopStep :: "ServiceId \<Rightarrow> mosq_round \<Rightarrow> MqttClient \<Rightarrow> (bool \<times> MqttClient) option" where
  "mqttLoopStep base e s0 =
     (let s = readyForTimerTickServiceMessage base True s0
      in case tickInboxes (mqttTimer s) threadIdMqttClient of
           None \<Rightarrow> None
         | Some q \<Rightarrow> (case waitForMessage q of
             None \<Rightarrow> None
           | Some (msg, q1) \<Rightarrow>
               let s1 = onTimer (\<lambda>w. w\<lparr>tickInboxes := (tickInboxes w)(threadIdMqttClient \<mapsto> q1)\<rparr>) s
               in if inboxMsgType msg = inboxMsgTypeTerminate then Some (False, s1)
                  else Some (True, mqtt_handle base e (inboxMsgType msg) s1)))"

definition mqtt_teardown :: "ServiceId \<Rightarrow> MqttClient \<Rightarrow> MqttClient" where
  "mqtt_teardown base = onTimer (\<lambda>w.
     let w1 = fold (\<lambda>sid w. unregisterTimerTickService (cookie (services w sid)) w)
           [motionDamperService base, reconnectDamperService base, periodicReportService base, mqttLoopService base] w
     in w1\<lparr>tickInboxes := (tickInboxes w1)(threadIdMqttClient := map_option inbox_clear (tickInboxes w1 threadIdMqttClient))\<rparr>)"

text \<open>
  The options of the command line as \<^verbatim>\<open>getopt\<close> delivers them; \<^verbatim>\<open>atoi\<close> is
  the saturating \<^verbatim>\<open>strtol\<close>.
\<close>

definition atoi :: "string \<Rightarrow> int" where
  "atoi v = (case scan_int 10 v of
     None \<Rightarrow> 0
   | Some (neg, n, _) \<Rightarrow> max (- (2 ^ 31)) (min (2 ^ 31 - 1) (if neg then - int n else int n)))"

definition mqtt_parseOption :: "char \<times> string \<Rightarrow> MqttClientInfo \<Rightarrow> MqttClientInfo" where
  "mqtt_parseOption opt i = (case opt of (c, optarg) \<Rightarrow>
     if c = CHR ''M'' then i\<lparr>mqttBrokerIp := Some optarg\<rparr>
     else if c = CHR ''P'' then i\<lparr>mqttBrokerPort := atoi optarg\<rparr>
     else if c = CHR ''K'' then i\<lparr>mqttKeepAlive := atoi optarg\<rparr>
     else i)"

definition mqtt_parseParams :: "(char \<times> string) list \<Rightarrow> MqttClient \<Rightarrow> MqttClient" where
  "mqtt_parseParams opts = onInfo (fold mqtt_parseOption opts)"

section \<open>Announcing motion\<close>

text \<open>What can happen between two looks at the client: a tick of the timer, a round, a message.\<close>

datatype mqtt_event = TimerTicked | MqttRound mosq_round | Posted InboxMsg

fun mqtt_event_run :: "ServiceId \<Rightarrow> mqtt_event \<Rightarrow> MqttClient \<Rightarrow> MqttClient" where
  "mqtt_event_run base TimerTicked s = onTimer timerTick s"
| "mqtt_event_run base (MqttRound e) s = (case mqttLoopStep base e s of None \<Rightarrow> s | Some (_, s1) \<Rightarrow> s1)"
| "mqtt_event_run base (Posted m) s = onTimer (\<lambda>w. w\<lparr>tickInboxes := broadcast m threadIdIgnore (tickInboxes w)\<rparr>) s"

definition motionOnCount :: "MqttClient \<Rightarrow> nat" where
  "motionOnCount s = length (filter (\<lambda>(topic, text, _). topic = topicMotion \<and> text = ''on'') (mqttSent s))"

definition damper :: "ServiceId \<Rightarrow> MqttClient \<Rightarrow> TimerTickService" where
  "damper base s = services (mqttTimer s) (motionDamperService base)"

definition mqtt_ok :: "ServiceId \<Rightarrow> MqttClient \<Rightarrow> bool" where
  "mqtt_ok base s \<longleftrightarrow> tick_inv (mqttTimer s) \<and> registered (mqttTimer s) (motionDamperService base) \<and>
     interval (damper base s) = motionDamperInterval \<and> \<not> periodic (damper base s) \<and>
     (\<exists>b. trigger (damper base s) = TimerTickServiceBool b)"

text \<open>The damper runs, with so many ticks of the timer to go.\<close>

definition damping :: "ServiceId \<Rightarrow> nat \<Rightarrow> MqttClient \<Rightarrow> bool" where
  "damping base n s \<longleftrightarrow> mqtt_ok base s \<and> trigger (damper base s) = TimerTickServiceBool False \<and>
     unat (ticksLeft (damper base s)) = n \<and> 0 < n"

lemma onInfo_frame [simp]:
  "mqttTimer (onInfo f s) = mqttTimer s" "mqttSent (onInfo f s) = mqttSent s"
  "publishedMotionOn (onInfo f s) = publishedMotionOn s" "mqttClientInfo (onInfo f s) = f (mqttClientInfo s)"
  by (simp_all add: onInfo_def)

lemma onTimer_frame [simp]:
  "mqttTimer (onTimer g s) = g (mqttTimer s)" "mqttSent (onTimer g s) = mqttSent s"
  "publishedMotionOn (onTimer g s) = publishedMotionOn s" "mqttClientInfo (onTimer g s) = mqttClientInfo s"
  by (simp_all add: onTimer_def)

lemma doPublish_frame [simp]:
  "mqttTimer (doPublish rc topic text r s) = mqttTimer s"
  "mqttSent (doPublish rc topic text r s) = mqttSent s @ [(topic, c_str text, r)]"
  by (simp_all add: doPublish_def)

text \<open>Two states that the damper does not tell apart, with no new announcement.\<close>

definition same_damper :: "ServiceId \<Rightarrow> MqttClient \<Rightarrow> MqttClient \<Rightarrow> bool" where
  "same_damper base s t \<longleftrightarrow> damper base t = damper base s \<and>
     (tick_inv (mqttTimer s) \<longrightarrow> tick_inv (mqttTimer t)) \<and>
     registered (mqttTimer t) = registered (mqttTimer s) \<and> motionOnCount t = motionOnCount s"

lemma same_damper_refl [simp]: "same_damper base s s"
  by (simp add: same_damper_def)

lemma same_damper_trans [trans]: "same_damper base s t \<Longrightarrow> same_damper base t u \<Longrightarrow> same_damper base s u"
  by (simp add: same_damper_def)

lemma damping_same: "same_damper base s t \<Longrightarrow> damping base n s \<Longrightarrow> damping base n t"
  by (auto simp: same_damper_def damping_def mqtt_ok_def)

lemma same_damper_onInfo [simp]: "same_damper base s (onInfo f t) = same_damper base s t"
  by (simp add: same_damper_def damper_def motionOnCount_def)

lemma tick_inv_update:
  assumes "tick_inv w" "\<And>v. cookie (f v) = cookie v"
  shows "tick_inv (update_service sid f w)"
  using assms by (auto simp: tick_inv_def registered_def split: prod.splits)

lemma registered_update [simp]: "registered (update_service sid f w) = registered w"
  by (auto simp: registered_def)

lemma same_damper_update:
  assumes "same_damper base s t" "sid \<noteq> motionDamperService base" "\<And>v. cookie (f v) = cookie v"
  shows "same_damper base s (onTimer (update_service sid f) t)"
  using assms by (simp add: same_damper_def damper_def motionOnCount_def tick_inv_update)

lemma tick_inv_inboxes [simp]: "tick_inv (w\<lparr>tickInboxes := r\<rparr>) = tick_inv w"
  "registered (w\<lparr>tickInboxes := r\<rparr>) = registered w"
  by (simp_all add: tick_inv_def registered_def fun_eq_iff)

lemma same_damper_inboxes: "same_damper base s t \<Longrightarrow> same_damper base s (onTimer (\<lambda>w. w\<lparr>tickInboxes := g w\<rparr>) t)"
  by (simp add: same_damper_def damper_def motionOnCount_def)

lemma same_damper_publish:
  "same_damper base s t \<Longrightarrow> topic \<noteq> topicMotion \<or> c_str text \<noteq> ''on'' \<Longrightarrow>
   same_damper base s (doPublish rc topic text r t)"
  by (auto simp: same_damper_def damper_def motionOnCount_def)

lemma same_damper_ready: "same_damper base s t \<Longrightarrow> same_damper base s (readyForTimerTickServiceMessage base b t)"
  unfolding readyForTimerTickServiceMessage_def
  by (rule same_damper_update) (simp_all add: mqtt_service_defs)

lemma cookie_getAndReset: "getAndResetExpired v = (b, v') \<Longrightarrow> cookie v' = cookie v"
  by (auto simp: getAndResetExpired_def split: TickTrigger.splits)

lemma update_const: "update_service sid (\<lambda>_. g (services w sid)) w = update_service sid g w"
  by (simp add: update_service_def)

lemma testAndReset_form:
  "testAndReset sid s = (fst (getAndResetExpired (services (mqttTimer s) sid)),
     onTimer (update_service sid (\<lambda>v. snd (getAndResetExpired v))) s)"
  by (simp add: testAndReset_def onTimer_def update_service_def split: prod.splits)

lemma same_damper_test:
  assumes "same_damper base s t" "sid \<noteq> motionDamperService base"
  shows "same_damper base s (snd (testAndReset sid t))"
proof -
  have "cookie (snd (getAndResetExpired v)) = cookie v" for v
    by (cases "getAndResetExpired v") (simp add: cookie_getAndReset)
  then show ?thesis using same_damper_update[OF assms] by (simp add: testAndReset_form)
qed

lemma same_damper_callbacks: "same_damper base s t \<Longrightarrow> same_damper base s (fold mqtt_callback_run cs t)"
proof (induction cs arbitrary: t)
  case (Cons c cs)
  have "same_damper base s (mqtt_callback_run c t)"
    using Cons.prems by (cases c) (simp_all add: mqtt_on_connect_def mqtt_on_disconnect_def mqtt_on_publish_def
        mqtt_on_message_def)
  then show ?case using Cons.IH by simp
qed simp

lemma same_damper_report: "same_damper base s t \<Longrightarrow> same_damper base s (doPeriodicReport e t)"
  by (simp add: doPeriodicReport_def same_damper_publish topic_defs)

lemma same_damper_tickMessage:
  assumes "same_damper base s t" shows "same_damper base s (mqtt_tickMessage base e t)"
proof -
  let ?s2 = "onInfo (\<lambda>i. i\<lparr>mqtt_ticks := mqtt_ticks i + 1\<rparr>)
    (fold mqtt_callback_run (loopCallbacks e) (readyForTimerTickServiceMessage base False t))"
  have s2: "same_damper base s ?s2" using assms by (simp add: same_damper_callbacks same_damper_ready)
  obtain report s3 where r: "(if loopRc e = MOSQ_ERR_SUCCESS then testAndReset (periodicReportService base) ?s2
      else (False, ?s2)) = (report, s3)" by fastforce
  have s3: "same_damper base s s3"
    using s2 r same_damper_test[OF s2, of "periodicReportService base"]
    by (auto simp: mqtt_service_defs split: if_splits)
  obtain reconnect s5 where c: "(if loopRc e = MOSQ_ERR_NO_CONN \<or> \<not> mqttBrokerConnected (mqttClientInfo s3)
      then testAndReset (reconnectDamperService base) s3 else (False, s3)) = (reconnect, s5)" by fastforce
  have s5: "same_damper base s s5"
    using s3 c same_damper_test[OF s3, of "reconnectDamperService base"]
    by (auto simp: mqtt_service_defs split: if_splits)
  show ?thesis using s3 s5
    unfolding mqtt_tickMessage_def Let_def r c prod.case
    by (cases report; cases reconnect) (simp_all add: c same_damper_report)
qed

lemma same_damper_motionOff:
  assumes "same_damper base s t" shows "same_damper base s (mqtt_motionOff e t)"
proof -
  have "same_damper base s (u\<lparr>publishedMotionOn := b\<rparr>) = same_damper base s u" for u b
    by (simp add: same_damper_def damper_def motionOnCount_def)
  then show ?thesis using assms by (simp add: mqtt_motionOff_def same_damper_publish c_str_def)
qed

lemma same_damper_motionOn:
  assumes "damping base n t" shows "same_damper base t (mqtt_motionOn base e t)"
proof -
  have "getAndResetExpired (damper base t) = (False, damper base t)"
    using assms by (simp add: damping_def getAndResetExpired_def)
  then have "testAndReset (motionDamperService base) t = (False, t)"
    by (simp add: testAndReset_def damper_def onTimer_def update_service_def)
  then show ?thesis by (simp add: mqtt_motionOn_def)
qed

lemma same_damper_handle:
  assumes "damping base n t" shows "same_damper base t (mqtt_handle base e m t)"
  using same_damper_tickMessage[of base t t e] same_damper_motionOff[of base t t e]
    same_damper_motionOn[OF assms, of e]
  by (cases m) (simp_all add: mqtt_handle_def same_damper_publish topic_defs)

lemma damping_event:
  assumes "damping base n s" "ev \<noteq> TimerTicked"
  shows "same_damper base s (mqtt_event_run base ev s)"
proof (cases ev)
  case (MqttRound e)
  let ?t = "readyForTimerTickServiceMessage base True s"
  have t: "same_damper base s ?t" by (simp add: same_damper_ready)
  have "same_damper base s u" if st: "mqttLoopStep base e s = Some (go, u)" for go u
  proof -
    obtain q msg q1 where q: "tickInboxes (mqttTimer ?t) threadIdMqttClient = Some q" "waitForMessage q = Some (msg, q1)"
      using st by (auto simp: mqttLoopStep_def Let_def split: option.splits)
    let ?u = "onTimer (\<lambda>w. w\<lparr>tickInboxes := (tickInboxes w)(threadIdMqttClient \<mapsto> q1)\<rparr>) ?t"
    have u: "same_damper base s ?u" using t by (rule same_damper_inboxes)
    have "same_damper base ?u (mqtt_handle base e (inboxMsgType msg) ?u)"
      using damping_same[OF u assms(1)] by (rule same_damper_handle)
    with u show ?thesis using st q by (auto simp: mqttLoopStep_def Let_def intro: same_damper_trans split: if_splits)
  qed
  then show ?thesis using MqttRound by (simp split: option.split prod.split)
qed (use assms in \<open>simp_all add: same_damper_inboxes\<close>)

lemma damping_tick:
  assumes "damping base n s" "1 < n"
  shows "damping base (n - 1) (onTimer timerTick s) \<and> motionOnCount (onTimer timerTick s) = motionOnCount s"
proof -
  let ?v = "damper base s"
  have v: "tick_inv (mqttTimer s)" "registered (mqttTimer s) (motionDamperService base)" "unat (ticksLeft ?v) = n"
    using assms by (auto simp: damping_def mqtt_ok_def)
  then have d: "damper base (onTimer timerTick s) = tickOnly ?v"
    by (simp add: damper_def timerTick_services)
  have l: "unat (ticksLeft (tickOnly ?v)) = n - 1" using svc.left_tick[of ?v] v(3) assms(2) by simp
  have "ticksLeft ?v \<noteq> 1" using v(3) assms(2) by auto
  then have "ticksLeft ?v - 1 \<noteq> 0" by simp
  moreover have "0 < ticksLeft ?v" using v(3) assms(2) by (simp add: word_less_nat_alt)
  ultimately have "trigger (tickOnly ?v) = trigger ?v" by (simp add: tickOnly_def tickService_def)
  then show ?thesis using assms v d l by (auto simp: damping_def mqtt_ok_def tick_inv_timerTick motionOnCount_def)
qed

lemma damping_events:
  assumes "damping base n s" "count_list evs TimerTicked < n"
  shows "motionOnCount (fold (mqtt_event_run base) evs s) = motionOnCount s"
  using assms
proof (induction evs arbitrary: n s)
  case (Cons ev evs)
  show ?case
  proof (cases "ev = TimerTicked")
    case True
    have "1 < n" using Cons.prems(2) True by simp
    then show ?thesis
      using Cons.IH[of "n - 1" "onTimer timerTick s"] Cons.prems True damping_tick[OF Cons.prems(1)] by simp
  next
    case False
    have e: "same_damper base s (mqtt_event_run base ev s)" using Cons.prems(1) False by (rule damping_event)
    then have "motionOnCount (mqtt_event_run base ev s) = motionOnCount s" by (simp add: same_damper_def)
    then show ?thesis using Cons.IH[OF damping_same[OF e Cons.prems(1)]] Cons.prems(2) False by simp
  qed
qed simp

lemma motionOn_damps:
  assumes "mqtt_ok base s" "motionOnCount (mqtt_motionOn base e s) \<noteq> motionOnCount s"
  shows "damping base 50001 (mqtt_motionOn base e s)"
proof -
  let ?sid = "motionDamperService base" and ?v = "damper base s"
  obtain b where b: "trigger ?v = TimerTickServiceBool b" using assms(1) by (auto simp: mqtt_ok_def)
  let ?v0 = "?v\<lparr>trigger := TimerTickServiceBool False\<rparr>"
  have t: "testAndReset ?sid s = (b, onTimer (update_service ?sid (\<lambda>_. ?v0)) s)"
    using b by (simp add: testAndReset_def damper_def[symmetric] getAndResetExpired_def)
  have "b" using assms(2) t by (cases b) (simp_all add: mqtt_motionOn_def motionOnCount_def)
  let ?w = "update_service ?sid (\<lambda>_. ?v0) (mqttTimer s)"
  have w: "tick_inv ?w" "registered ?w ?sid" "cookie (services ?w ?sid) = cookie ?v"
    using assms(1) tick_inv_update[of "mqttTimer s" "\<lambda>v. v\<lparr>trigger := TimerTickServiceBool False\<rparr>" ?sid]
    by (simp_all add: mqtt_ok_def damper_def update_service_def registered_def)
  have m: "mqttTimer (mqtt_motionOn base e s) = update_service ?sid startTimerTickService2 ?w"
    using \<open>b\<close> t tick_inv_lookup[OF w(1,2)] w(3)
    by (simp add: mqtt_motionOn_def Let_def startTimerTickService_def)
  have "interval_ok ?v0" "period ?v0 = 50001"
    using assms(1) by (simp_all add: interval_ok_def period_def mqtt_ok_def motionDamperInterval_def millisPerTick_def)
  then have "unat (ticksLeft (startTimerTickService2 ?v0)) = 50001" using unat_ticksLeft_start by metis
  moreover have "damper base (mqtt_motionOn base e s) = startTimerTickService2 ?v0" using m by (simp add: damper_def)
  moreover have "tick_inv (mqttTimer (mqtt_motionOn base e s))" "registered (mqttTimer (mqtt_motionOn base e s)) ?sid"
    using m w(1,2) by (simp_all add: tick_inv_update)
  ultimately show ?thesis using assms(1) by (auto simp: damping_def mqtt_ok_def)
qed

text \<open>
  C22. Motion is announced at most once in ten minutes. Once the client has published that there is
  motion it publishes that no further time, whatever messages come and whatever the broker does,
  until the timer has ticked 50001 times, which at 12 milliseconds is ten minutes and 12
  milliseconds.
\<close>

theorem motion_announced_at_most_every_ten_minutes:
  assumes "mqtt_ok base s" and "motionOnCount (mqtt_motionOn base e s) \<noteq> motionOnCount s"
    and "count_list evs TimerTicked < 50001"
  shows "motionOnCount (fold (mqtt_event_run base) evs (mqtt_motionOn base e s)) = motionOnCount (mqtt_motionOn base e s)"
  using damping_events[OF motionOn_damps[OF assms(1,2)] assms(3)] .

definition sampleMqtt :: MqttClient where
  "sampleMqtt = \<lparr>mqttClientInfo = newMqttClientInfo,
     mqttTimer = \<lparr>nextTimerTickId = 2, timerTickServices = [(1, 3)],
       services = (\<lambda>sid. if sid = 3 then (mkTimerTickService motionDamperInterval False (TimerTickServiceBool True))\<lparr>cookie := 1\<rparr>
         else mkTimerTickService mqttLoopInterval True (TimerTickServiceCv False)),
       tickInboxes = (\<lambda>_. None)\<rparr>,
     publishedMotionOn = False, mqttSent = []\<rparr>"

lemma sampleMqtt_ok: "mqtt_ok 0 sampleMqtt"
  by (auto simp: mqtt_ok_def sampleMqtt_def damper_def mqtt_service_defs mkTimerTickService_def tick_inv_def
      registered_def nullCookie_def)

lemma sampleMqtt_motionOn: "motionOnCount (mqtt_motionOn 0 e sampleMqtt) = 1" "motionOnCount sampleMqtt = 0"
  by (simp_all add: motionOnCount_def mqtt_motionOn_def testAndReset_def sampleMqtt_def mqtt_service_defs
      mkTimerTickService_def getAndResetExpired_def topic_defs c_str_def Let_def)

text \<open>Motion is announced at once, and again on another message a tick later it is not.\<close>

theorem motion_announced_at_most_every_ten_minutes_witness:
  "\<forall>e. motionOnCount (mqtt_motionOn 0 e sampleMqtt) = 1 \<and>
     motionOnCount (fold (mqtt_event_run 0) [Posted \<lparr>inboxMsgType = inboxMsgTypeMotionOn, payload = ''''\<rparr>, TimerTicked, MqttRound e]
       (mqtt_motionOn 0 e sampleMqtt)) = 1"
  using motion_announced_at_most_every_ten_minutes[of 0 sampleMqtt _
      "[Posted \<lparr>inboxMsgType = inboxMsgTypeMotionOn, payload = ''''\<rparr>, TimerTicked, MqttRound _]"]
    sampleMqtt_ok sampleMqtt_motionOn by simp

end
