(* ===== verification/Web_Handler.thy ===== *)
theory Web_Handler
  imports Web_Post Display Led_Strip Mqtt_Client
begin

text \<open>
  \<^verbatim>\<open>src/webHandlerInternal.h\<close>, \<^verbatim>\<open>src/webHandlerInternal.cpp\<close>
  and \<^verbatim>\<open>src/statusReportGather.cpp\<close>: the registry of web handlers, the handlers with
  their pages and posts, and the gathering of the status. The singletons that the handlers
  reach are the components of the world that a request is handled in.
\<close>

section \<open>Keys\<close>

text \<open>The commands of libevent.\<close>

definition EVHTTP_REQ_GET :: int where "EVHTTP_REQ_GET = 1"
definition EVHTTP_REQ_POST :: int where "EVHTTP_REQ_POST = 2"
definition EVHTTP_REQ_HEAD :: int where "EVHTTP_REQ_HEAD = 4"
definition EVHTTP_REQ_PUT :: int where "EVHTTP_REQ_PUT = 8"

lemmas evhttp_defs = EVHTTP_REQ_GET_def EVHTTP_REQ_POST_def EVHTTP_REQ_HEAD_def EVHTTP_REQ_PUT_def

datatype WebHandlerKey = WebHandlerKey (getMethod: int) (getUriPath: string)

definition keyLess :: "WebHandlerKey \<Rightarrow> WebHandlerKey \<Rightarrow> bool" where
  "keyLess a b \<longleftrightarrow>
     (if getMethod a \<noteq> getMethod b then getMethod a < getMethod b else getUriPath a < getUriPath b)"

instantiation WebHandlerKey :: linorder
begin

definition less_WebHandlerKey :: "WebHandlerKey \<Rightarrow> WebHandlerKey \<Rightarrow> bool" where
  "less_WebHandlerKey = keyLess"

definition less_eq_WebHandlerKey :: "WebHandlerKey \<Rightarrow> WebHandlerKey \<Rightarrow> bool" where
  "less_eq_WebHandlerKey a b \<longleftrightarrow> a < b \<or> a = b"

instance
  by standard (auto simp: less_WebHandlerKey_def keyLess_def less_eq_WebHandlerKey_def split: if_splits
      intro: WebHandlerKey.expand)

end

definition getKey :: "string \<Rightarrow> WebHandlerKey" where "getKey uriPath = WebHandlerKey EVHTTP_REQ_GET uriPath"

definition uriNotFound :: WebHandlerKey where "uriNotFound = getKey ''__notFound''"
definition uriHead :: WebHandlerKey where "uriHead = WebHandlerKey EVHTTP_REQ_HEAD ''/''"

definition keyText :: "WebHandlerKey \<Rightarrow> string" where
  "keyText k =
     (if getUriPath k = getUriPath uriNotFound then getUriPath k
      else getUriPath k @ '' ('' @
        (if getMethod k = EVHTTP_REQ_GET then ''get''
         else if getMethod k = EVHTTP_REQ_POST then ''post''
         else if getMethod k = EVHTTP_REQ_PUT then ''put''
         else if getMethod k = EVHTTP_REQ_HEAD then ''head''
         else dec_int (getMethod k)) @ '')'')"

section \<open>The registry\<close>

text \<open>The classes of handlers. An object is its place in the list of those allocated.\<close>

datatype WebHandlerClass =
    WebHandlerNotFound | WebHandlerHeadRoot | WebHandlerRoot | WebHandlerStatus | WebHandlerStatusJson
  | WebHandlerMsgMode | WebHandlerMsgModePost | WebHandlerImgBackground | WebHandlerImgBackgroundPost
  | WebHandlerMsgBackground | WebHandlerMsgBackgroundPost | WebHandlerLedStrip | WebHandlerLedStripPost
  | WebHandlerDictionary | WebHandlerDictionaryPost | WebHandlerStop

record WebHandler =
  handlerClass :: WebHandlerClass
  hits :: Int32U

record WebHandlerInternal =
  webHandlers :: "(WebHandlerKey, nat) omap"
  webObjects :: "WebHandler list"

definition newWebHandlerInternal :: WebHandlerInternal where
  "newWebHandlerInternal = \<lparr>webHandlers = [], webObjects = []\<rparr>"

definition newWebHandler :: "WebHandlerClass \<Rightarrow> WebHandlerInternal \<Rightarrow> nat \<times> WebHandlerInternal" where
  "newWebHandler c w = (length (webObjects w),
     w\<lparr>webObjects := webObjects w @ [\<lparr>handlerClass = c, hits = 0\<rparr>]\<rparr>)"

definition setWebHandler :: "WebHandlerKey \<Rightarrow> nat \<Rightarrow> WebHandlerInternal \<Rightarrow> WebHandlerInternal" where
  "setWebHandler k p w = w\<lparr>webHandlers := omap_set k p (webHandlers w)\<rparr>"

text \<open>The statements of \<^verbatim>\<open>_start\<close>: the keys that a new object is stored under.\<close>

definition startTable :: "(WebHandlerKey list \<times> WebHandlerClass) list" where
  "startTable =
     [([uriNotFound], WebHandlerNotFound),
      ([uriHead], WebHandlerHeadRoot),
      ([getKey ''/'', getKey ''/index.html''], WebHandlerRoot),
      ([getKey ''/status''], WebHandlerStatus),
      ([getKey ''/status.json''], WebHandlerStatusJson),
      ([getKey ''/msgMode''], WebHandlerMsgMode),
      ([WebHandlerKey EVHTTP_REQ_POST ''/msgMode''], WebHandlerMsgModePost),
      ([getKey ''/imgBackground''], WebHandlerImgBackground),
      ([WebHandlerKey EVHTTP_REQ_POST ''/imgBackground''], WebHandlerImgBackgroundPost),
      ([getKey ''/msgBackground''], WebHandlerMsgBackground),
      ([WebHandlerKey EVHTTP_REQ_POST ''/msgBackground''], WebHandlerMsgBackgroundPost),
      ([getKey ''/ledStrip''], WebHandlerLedStrip),
      ([WebHandlerKey EVHTTP_REQ_POST ''/ledStrip''], WebHandlerLedStripPost),
      ([getKey ''/dictionary''], WebHandlerDictionary),
      ([WebHandlerKey EVHTTP_REQ_POST ''/dictionary''], WebHandlerDictionaryPost),
      ([getKey ''/stop''], WebHandlerStop),
      ([WebHandlerKey EVHTTP_REQ_POST ''/stop''], WebHandlerStop)]"

definition web_start :: "WebHandlerInternal \<Rightarrow> WebHandlerInternal" where
  "web_start = fold (\<lambda>(ks, c) w. case newWebHandler c w of (p, w1) \<Rightarrow> fold (\<lambda>k. setWebHandler k p) ks w1) startTable"

definition web_bind :: "WebHandlerInternal option \<Rightarrow> WebHandlerInternal" where
  "web_bind inst = (case inst of None \<Rightarrow> newWebHandlerInternal | Some w \<Rightarrow> w)"

definition web_shutdown :: "WebHandlerInternal option \<Rightarrow> WebHandlerInternal option" where
  "web_shutdown inst = None"

definition bumpHits :: "WebHandler \<Rightarrow> WebHandler" where
  "bumpHits h = h\<lparr>hits := hits h + 1\<rparr>"

definition findWebHandler :: "WebHandlerKey \<Rightarrow> WebHandlerInternal \<Rightarrow> nat option \<times> WebHandlerInternal" where
  "findWebHandler k w = (case omap_find (webHandlers w) k of
     None \<Rightarrow> (None, w)
   | Some p \<Rightarrow> (Some p, w\<lparr>webObjects := (webObjects w)[p := bumpHits (webObjects w ! p)]\<rparr>))"

text \<open>The handler of a request: its own, that of all HEAD requests, that of unknown places.\<close>

definition chooseWebHandler :: "int \<Rightarrow> string \<Rightarrow> WebHandlerInternal \<Rightarrow> nat option \<times> WebHandlerInternal" where
  "chooseWebHandler method uriPath w =
     (let (p0, w0) = findWebHandler (WebHandlerKey method uriPath) w;
          (p1, w1) = (if p0 = None \<and> method = EVHTTP_REQ_HEAD then findWebHandler uriHead w0 else (p0, w0))
      in if p1 = None then findWebHandler uriNotFound w1 else (p1, w1))"

definition getHandlerHits :: "WebHandlerInternal \<Rightarrow> (string \<times> Int32U) list" where
  "getHandlerHits w = map (\<lambda>(k, p). (keyText k, hits (webObjects w ! p))) (webHandlers w)"

section \<open>Pages\<close>

definition contentStart :: string where
  "contentStart = ''<html><head><title>Embedded Office Clock Display Controller</title><style type='' @ [dquote] @
     ''text/css'' @ [dquote] @ ''>BODY { font-family: sans-serif }H1 { font-size: 14pt; text-decoration: underline }'' @
     ''P { font-size: 10pt; }</style></head><body>''"

definition contentStop :: string where "contentStop = ''</body></html>''"

definition FORM_MSG_BOX_LEN :: int where "FORM_MSG_BOX_LEN = 64"

text \<open>A text in single quotes.\<close>

definition sq :: "string \<Rightarrow> string" where
  "sq t = CHR 0x27 # t @ [CHR 0x27]"

definition addCheckboxOrRadio :: "string \<Rightarrow> string \<Rightarrow> string \<Rightarrow> string \<Rightarrow> bool \<Rightarrow> string" where
  "addCheckboxOrRadio element name val label selected =
     ''<label><input type='' @ sq element @ '' name='' @ sq name @ '' value='' @ sq val @ '' '' @
     (if selected then ''checked '' else '''') @ ''/> '' @ label @ ''</label>''"

definition addRadioButton :: "string \<Rightarrow> string \<Rightarrow> string \<Rightarrow> bool \<Rightarrow> string" where
  "addRadioButton = addCheckboxOrRadio ''radio''"

definition addRadioButtonInt :: "string \<Rightarrow> int \<Rightarrow> string \<Rightarrow> bool \<Rightarrow> string" where
  "addRadioButtonInt name valAutoInt = addRadioButton name (dec_int valAutoInt)"

definition addCheckBox :: "string \<Rightarrow> string \<Rightarrow> string \<Rightarrow> bool \<Rightarrow> string" where
  "addCheckBox = addCheckboxOrRadio ''checkbox''"

definition addFormFont :: string where
  "addFormFont = ''<br/>Font: '' @
     addRadioButtonInt ''font'' (uint font5x4) ''5x4'' True @
     addRadioButtonInt ''font'' (uint font8x4) ''8x4'' False @
     addRadioButtonInt ''font'' (uint font7x5) ''7x5'' False @
     addRadioButtonInt ''font'' (uint font8x6) ''8x6'' False @
     addRadioButtonInt ''font'' (uint font16x8) ''16x8'' False"

definition addFormColor :: "bool \<Rightarrow> string" where
  "addFormColor includeAlternate = ''<br/>Color: '' @
     addRadioButtonInt ''color'' (uint displayColorGreen) ''green'' (\<not> includeAlternate) @
     addRadioButtonInt ''color'' (uint displayColorRed) ''red'' False @
     addRadioButtonInt ''color'' (uint displayColorYellow) ''yellow'' False @
     (if includeAlternate then addRadioButtonInt ''color'' (uint displayColorAlternate) ''alternate'' True else '''')"

definition addXYCoordinatesInput :: string where
  "addXYCoordinatesInput =
     ''<br/>X (0-'' @ dec_int (OUT_SIZE - 1) @ ''): <input type='' @ sq ''range'' @ '' size='' @ sq ''3'' @ '' min='' @
     sq ''0'' @ '' max='' @ sq (dec_int (OUT_SIZE - 1)) @ '' value='' @ sq ''0'' @ '' name='' @ sq ''x'' @ ''>'' @
     ''  Y (0-'' @ dec_int (COM_SIZE - 1) @ ''): <input type='' @ sq ''range'' @ '' size='' @ sq ''2'' @ '' min='' @
     sq ''0'' @ '' max='' @ sq (dec_int (COM_SIZE - 1)) @ '' value=0 name='' @ sq ''y'' @ ''>''"

definition addAnimationStepInput :: string where
  "addAnimationStepInput = ''<br/>Animation: '' @
     addRadioButtonInt ''animationStep'' (uint animationStepNone) ''none'' True @
     addRadioButtonInt ''animationStep'' (uint animationStepFast) ''fast'' False @
     addRadioButtonInt ''animationStep'' (uint animationStep250ms) ''250ms'' False @
     addRadioButtonInt ''animationStep'' (uint animationStep500ms) ''500ms'' False @
     addRadioButtonInt ''animationStep'' (uint animationStep1sec) ''1sec'' False @
     addRadioButtonInt ''animationStep'' (uint animationStep5sec) ''5sec'' False @
     ''<br/>phase (0-255): <input type='' @ sq ''range'' @ '' size=3 min=0 max=255 value=2 name='' @ sq ''animationPhase'' @
     ''> value (0-254): <input type='' @ sq ''range'' @ '' size=3 min=0 max=254 value=0 name='' @
     sq ''animationPhaseValue'' @ ''>''"

definition formStart :: "string \<Rightarrow> string \<Rightarrow> string" where
  "formStart action title =
     ''<form action='' @ sq action @ '' method='' @ sq ''post'' @ ''><h1>'' @ title @ ''</h1><p>''"

definition formStop :: string where
  "formStop = ''</p><input type='' @ sq ''submit'' @ '' value='' @ sq ''Submit'' @ ''/></form>''"

definition indexInput :: "nat \<Rightarrow> string" where
  "indexInput n = ''<br/>Index (0-'' @ dec_int (int n - 1) @ ''): <input type='' @ sq ''range'' @ '' min='' @ sq ''0'' @
     '' max='' @ sq (dec_int (int n - 1)) @ '' value=0 name='' @ sq ''index'' @ ''>''"

definition textInput :: "string \<Rightarrow> string \<Rightarrow> string" where
  "textInput sz name = ''<input type='' @ sq ''text'' @ '' size='' @ sq sz @ '' name='' @ sq name @ ''>''"

definition imgArtStr :: "string list" where
  "imgArtStr =
    [''imgArtSmiley'', ''imgArtWink'', ''imgArtBigHeart'', ''imgArtCat'', ''imgArtOwls'',
    ''imgArtMail'', ''imgArtMusic'', ''imgArtMusicNote'', ''imgArtHeart'', ''imgArtSpeakerA'',
    ''imgArtSpeakerB'', ''imgArt8x8'', ''imgArtStickMan1'', ''imgArtStickMan2'',
    ''imgArtStickMan3'', ''imgArtStickMan4'', ''imgArtWave1'', ''imgArtWave2'', ''imgArtWave3'',
    ''imgArtWave4'', ''imgArtJump1'', ''imgArtJump2'', ''imgArtJump3'', ''imgArtJump4'',
    ''imgArtUp'', ''imgArtDown'', ''imgArtUp1'', ''imgArtUp2'', ''imgArtUp3'', ''imgArtUp4'',
    ''imgArtDown1'', ''imgArtDown2'', ''imgArtDown3'', ''imgArtDown4'', ''imgArtUp21'',
    ''imgArtUp22'', ''imgArtUp23'', ''imgArtUp24'', ''imgArtDown21'', ''imgArtDown22'',
    ''imgArtDown23'', ''imgArtDown24'', ''imgArtCar1'', ''imgArtCar2'', ''imgArtBlank'',
    ''imgArtLast'']"

definition imgArtStrUniqueOffset :: nat where "imgArtStrUniqueOffset = 6"

definition pageNotFound :: "string \<Rightarrow> string" where
  "pageNotFound uriPath =
     ''<html><head><title>404 Not Found</title></head><body><h1>Not Found</h1><p>The requested URL '' @ uriPath @
     '' was not found on this server.</p></body></html>''"

definition enabledClearAll :: string where
  "enabledClearAll = ''<br/>Enabled: '' @ addCheckBox ''enabled'' ''yes'' '''' True @
     ''  Clear all: '' @ addCheckBox ''clearAll'' ''yes'' '''' False"

definition pageImgBackground :: string where
  "pageImgBackground = contentStart @ formStart ''/imgBackground'' ''Background Img'' @
     indexInput BACKGROUND_IMG_COUNT @
     ''<br/>ImgArt Name: '' @ addRadioButtonInt ''imgArt'' (- 1) ''default'' True @
     concat (map (\<lambda>i. addRadioButtonInt ''imgArt'' (int i) (drop imgArtStrUniqueOffset (imgArtStr ! i)) False)
       [0..<unat imgArtLast]) @
     enabledClearAll @ addFormColor False @ addXYCoordinatesInput @ addAnimationStepInput @ formStop @ contentStop"

definition pageMsgBackground :: string where
  "pageMsgBackground = contentStart @ formStart ''/msgBackground'' ''Background Message'' @
     indexInput BACKGROUND_MESSAGE_COUNT @
     ''<br/>Msg: '' @ textInput ''16'' ''msg'' @
     enabledClearAll @ addFormFont @ addFormColor False @ addXYCoordinatesInput @ addAnimationStepInput @
     formStop @ contentStop"

definition pageMsgMode :: string where
  "pageMsgMode = contentStart @ formStart ''/msgMode'' ''Display Message'' @
     textInput (dec_int FORM_MSG_BOX_LEN) ''msg'' @ ''<br/>'' @ addFormFont @
     ''<br/>Alternate font: '' @ addCheckBox ''alternateFont'' ''yes'' '''' False @
     ''<br/>Confetti: '' @ addCheckBox ''confetti'' ''15'' '''' False @
     ''<br/>Bounce: '' @ addCheckBox ''bounce'' ''yes'' '''' False @
     ''<br/>NoScroll: '' @ addCheckBox ''noScroll'' ''yes'' '''' False @
     ''<br/>Blink: '' @ addCheckBox ''blink'' ''yes'' '''' False @
     addFormColor True @
     ''<br/>Scroll Repeat: '' @
     addRadioButton ''repeats'' ''0'' ''none'' False @ addRadioButton ''repeats'' ''5'' ''5'' False @
     addRadioButton ''repeats'' ''10'' ''10'' False @ addRadioButton ''repeats'' ''100'' ''100'' True @
     ''<br/>Timeout (sec): '' @
     addRadioButton ''timeout'' ''3'' ''3'' False @ addRadioButton ''timeout'' ''10'' ''10'' False @
     addRadioButton ''timeout'' ''60'' ''60'' True @ addRadioButton ''timeout'' ''300'' ''300'' False @
     addXYCoordinatesInput @ formStop @ contentStop"

text \<open>A colour that the LED strip page sets by a range.\<close>

definition colorRange :: "string \<Rightarrow> string" where
  "colorRange name = '' (0-127): <input type='' @ sq ''range'' @ '' size=3 min=0 max=127 value=0 name='' @ sq name @ ''>''"

definition pageLedStrip :: "LedStrip \<Rightarrow> string" where
  "pageLedStrip strip = contentStart @ formStart ''/ledStrip'' ''Led Strip Config'' @
     ''Pixels (0 to '' @ dec_int (uint numberOfLeds - 1) @ '') formatting:'' @
     textInput (dec_int FORM_MSG_BOX_LEN) ''rawFormat'' @
     '' e.g: pixels 3,4,5 with color R,G,B and pixel 9 with a 21bit color ==> 3-5:127,45,0 ; 9:762'' @
     ''<br/>Extra Param: '' @ textInput ''5'' ledStripParamExtra @
     ''<br/>Clear all Pixels: '' @ addCheckBox ledStripParamClearAllPixels ''yes'' '''' False @
     ''<br/> Mode: '' @
     concat (map (\<lambda>m. addRadioButtonInt ledStripParamLedStripMode (ledStripModeValue m)
         (strip_getLedStripModeStr m strip) (m = ledStripModeManual))
       [ledStripModeManual, ledStripModePastel, ledStripModeFill, ledStripModeRainbow, ledStripModeScan,
        ledStripModeBinaryCounter]) @
     ''<p>Default Color (used whan it was not specified in pixel format):<br/>Red'' @ colorRange ''red'' @
     ''  Green'' @ colorRange ''green'' @ ''  Blue'' @ colorRange ''blue'' @
     ''<br/>Timeout (sec): '' @
     addRadioButton ledStripParamTimeout ''3'' ''3'' True @ addRadioButton ledStripParamTimeout ''10'' ''10'' False @
     addRadioButton ledStripParamTimeout ''60'' ''60'' False @ addRadioButton ledStripParamTimeout ''300'' ''300'' False @
     addRadioButton ledStripParamTimeout ''-1'' ''never'' False @ formStop @ contentStop"

definition pageDictionary :: string where
  "pageDictionary = contentStart @ formStart ''/dictionary'' ''Global Dictionary Config'' @
     ''<br/>Operation: '' @
     addRadioButton dictionaryParamOperation ''set'' ''set'' False @
     addRadioButton dictionaryParamOperation ''add'' ''add'' True @
     addRadioButton dictionaryParamOperation ''del'' ''del'' False @
     ''<br/>Key: '' @ textInput ''30'' dictionaryParamKey @
     ''<br/>Data: '' @ textInput ''30'' dictionaryParamData @
     ''<br/>Timeout (sec): '' @
     addRadioButton dictionaryParamTimeout ''3000'' ''3'' False @ addRadioButton dictionaryParamTimeout ''10000'' ''10'' False @
     addRadioButton dictionaryParamTimeout ''60000'' ''60'' True @ addRadioButton dictionaryParamTimeout ''300000'' ''300'' False @
     addRadioButton dictionaryParamTimeout ''-1'' ''never'' False @ formStop @ contentStop"

definition rootLink :: "string \<times> string \<Rightarrow> string" where
  "rootLink l = ''<br/><a href='' @ sq (fst l) @ ''>'' @ snd l @ ''</a>''"

definition pageRoot :: string where
  "pageRoot = contentStart @ ''<h1>Office Clock main page</h1><p>'' @
     concat (map rootLink [(''status'', ''status''), (''status.json'', ''status (json)''), (''msgMode'', ''msg mode''),
       (''imgBackground'', ''image background''), (''msgBackground'', ''message background''),
       (''ledStrip'', ''led strip''), (''dictionary'', ''dictionary''), (''sound'', ''sound''), (''stop'', ''stop'')]) @
     '' (careful!)'' @ contentStop"

end
