(* ===== verification/Web_Requests.thy ===== *)
theory Web_Requests
  imports Web_Handler
begin

text \<open>
  \<^verbatim>\<open>src/webHandlerInternal.cpp\<close> and \<^verbatim>\<open>src/statusReportGather.cpp\<close>:
  what a request does to the clock. The world of a request is the state of the singletons that the
  handlers reach. What libevent, mosquitto, the files of the kernel and the web server answer is
  the record \<open>web_env\<close>.
\<close>

section \<open>Requests and the world\<close>

record RequestInfo =
  req_method :: int
  uriHost :: "string option"
  uriPath :: string
  uriQuery :: "string option"
  uriScheme :: "string option"
  requestBody :: "string option"

text \<open>What libevent has of a request.\<close>

record evhttp_request =
  ev_command :: int
  ev_host :: "string option"
  ev_path :: "string option"
  ev_query :: "string option"
  ev_scheme :: "string option"
  ev_body :: "string option"

definition parseRequest :: "evhttp_request \<Rightarrow> RequestInfo" where
  "parseRequest req = \<lparr>req_method = ev_command req, uriHost = ev_host req,
     uriPath = (case ev_path req of None \<Rightarrow> ''/'' | Some p \<Rightarrow> if p = '''' then ''/'' else p),
     uriQuery = ev_query req, uriScheme = ev_scheme req, requestBody = ev_body req\<rparr>"

record web_env =
  headerFound :: header_finder
  loadavgFile :: "string option"
  meminfoFile :: "string option"
  getStrError :: "int \<Rightarrow> string"
  serverStopRc :: int

record WebWorld =
  web :: "WebHandlerInternal option"
  web_display :: Display
  web_strip :: LedStrip
  web_dictionary :: Dictionary
  web_motion :: MotionSensor
  web_light :: LightSensor
  web_mqtt :: MqttClient

text \<open>Visiting the dictionary removes the entries that have expired.\<close>

definition gatherStatusSnapshot :: "web_env \<Rightarrow> WebWorld \<Rightarrow> StatusSnapshot \<times> WebWorld" where
  "gatherStatusSnapshot e w =
     (let mqtt = snd (getMqttClientInfo (web_mqtt w));
          d = web_dictionary w;
          (entries, d1) = visitFrom '''' d
      in (\<lparr>webHandlerAvailable = (web w \<noteq> None),
           handlerHits = (case web w of None \<Rightarrow> [] | Some h \<Rightarrow> getHandlerHits h),
           snap_motion = snd (getMotionValue (web_motion w)),
           snap_lightValue = getLightValue (web_light w),
           snap_displayMode = getInternalDisplayMode (web_display w),
           snap_displayDimmed = getInternalDisplayDimmed (web_display w),
           snap_ledStripMode = getInternalLedStripMode (web_strip w),
           snap_mqtt = mqtt,
           snap_mqttBrokerIp = (case mqttBrokerIp mqtt of None \<Rightarrow> '''' | Some ip \<Rightarrow> ip),
           mqttLastLoopRcStr = getStrError e (last_loop_rc mqtt),
           snap_dictionaryStatus = getDictionaryStatus d,
           dictionarySize = dict_size d,
           snap_dictionaryEntries = entries,
           snap_system = snd (readSystemStatus (loadavgFile e) (meminfoFile e))\<rparr>,
          w\<lparr>web_dictionary := d1\<rparr>))"

section \<open>The handlers\<close>

text \<open>An exception, or an access outside an array.\<close>

datatype web_failure = WebException string | WebUndefined

type_synonym web_result = "web_failure + (HandleRequestReply \<times> RequestOutput) \<times> WebWorld"

definition webPage :: "string \<Rightarrow> RequestOutput \<Rightarrow> WebWorld \<Rightarrow> web_result" where
  "webPage page out w = Inr ((replyOk, addBody page out), w)"

text \<open>A post: what is done with the parameters once they are read.\<close>

definition webPost :: "web_env \<Rightarrow> RequestInfo \<Rightarrow> RequestOutput \<Rightarrow> (StringMap \<Rightarrow> WebWorld \<Rightarrow> web_result) \<Rightarrow> WebWorld \<Rightarrow> web_result" where
  "webPost e r out act w = (case parsePost (headerFound e) (requestBody r) out of
     None \<Rightarrow> Inl WebUndefined
   | Some (reply, out1, ps) \<Rightarrow>
       if replyCode reply \<noteq> HTTP_OK then Inr ((reply, out1), w) else act ps w)"

definition whatText :: "display_error \<Rightarrow> string" where
  "whatText err = (case err of
     EnqueueNullptr \<Rightarrow> ''asked to enqueue DisplayTodo that is a nullptr''
   | DisplayTimerError _ \<Rightarrow> '''')"

definition displayPost :: "(StringMap \<Rightarrow> Display \<Rightarrow> display_error + Display) \<Rightarrow> RequestOutput \<Rightarrow> StringMap \<Rightarrow> WebWorld \<Rightarrow> web_result" where
  "displayPost enqueue out ps w = (case enqueue ps (web_display w) of
     Inl err \<Rightarrow> Inl (WebException (whatText err))
   | Inr d \<Rightarrow> Inr ((replyNoContent, out), w\<lparr>web_display := d\<rparr>))"

definition dictionaryPost :: "web_env \<Rightarrow> RequestOutput \<Rightarrow> StringMap \<Rightarrow> WebWorld \<Rightarrow> web_result" where
  "dictionaryPost e out ps w = (case dict_parsePostRequest ps (web_dictionary w) of
     (ok, d) \<Rightarrow>
       Inr (if ok then (replyNoContent, out)
            else returnError (headerFound e) 761 ''Was unable to parse request on dictionary'' out,
            w\<lparr>web_dictionary := d\<rparr>))"

text \<open>The methods \<^verbatim>\<open>process\<close> of the classes that do more than to print a page.\<close>

definition process_notFound :: "RequestInfo \<Rightarrow> RequestOutput \<Rightarrow> WebWorld \<Rightarrow> web_result" where
  "process_notFound r out w = Inr ((replyNotFound, addBody (pageNotFound (uriPath r)) out), w)"

definition process_status :: "web_env \<Rightarrow> RequestOutput \<Rightarrow> WebWorld \<Rightarrow> web_result" where
  "process_status e out w = (case gatherStatusSnapshot e w of
     (s, w1) \<Rightarrow> webPage (renderStatusText s) (setHeaderContentTypeText (headerFound e) out) w1)"

definition process_statusJson :: "web_env \<Rightarrow> RequestOutput \<Rightarrow> WebWorld \<Rightarrow> web_result" where
  "process_statusJson e out w = (case gatherStatusSnapshot e w of
     (s, w1) \<Rightarrow> webPage (renderStatusJson s) (setHeaderContentType (headerFound e) ''application/json'' out) w1)"

definition process_msgModePost :: "web_env \<Rightarrow> RequestInfo \<Rightarrow> RequestOutput \<Rightarrow> WebWorld \<Rightarrow> web_result" where
  "process_msgModePost e r out = webPost e r out (displayPost display_enqueueMsgModePost out)"

definition process_imgBackgroundPost :: "web_env \<Rightarrow> RequestInfo \<Rightarrow> RequestOutput \<Rightarrow> WebWorld \<Rightarrow> web_result" where
  "process_imgBackgroundPost e r out = webPost e r out (displayPost display_enqueueImgBackgroundPost out)"

definition process_msgBackgroundPost :: "web_env \<Rightarrow> RequestInfo \<Rightarrow> RequestOutput \<Rightarrow> WebWorld \<Rightarrow> web_result" where
  "process_msgBackgroundPost e r out = webPost e r out (displayPost display_enqueueMsgBackgroundPost out)"

definition process_ledStripPost :: "web_env \<Rightarrow> RequestInfo \<Rightarrow> RequestOutput \<Rightarrow> WebWorld \<Rightarrow> web_result" where
  "process_ledStripPost e r out = webPost e r out (\<lambda>ps w.
     Inr ((replyNoContent, out), w\<lparr>web_strip := strip_enqueueMsgModePost ps (web_strip w)\<rparr>))"

definition process_dictionaryPost :: "web_env \<Rightarrow> RequestInfo \<Rightarrow> RequestOutput \<Rightarrow> WebWorld \<Rightarrow> web_result" where
  "process_dictionaryPost e r out = webPost e r out (dictionaryPost e out)"

definition process_stop :: "web_env \<Rightarrow> RequestOutput \<Rightarrow> WebWorld \<Rightarrow> web_result" where
  "process_stop e out w = Inr ((if serverStopRc e = 0 then replyNoContent else replyInternalError, out), w)"

definition process_headRoot :: "RequestOutput \<Rightarrow> WebWorld \<Rightarrow> web_result" where
  "process_headRoot out w = Inr ((replyNoContent, out), w)"

lemmas process_defs = process_notFound_def process_status_def process_statusJson_def process_msgModePost_def
  process_imgBackgroundPost_def process_msgBackgroundPost_def process_ledStripPost_def process_dictionaryPost_def
  process_stop_def process_headRoot_def

text \<open>The virtual call: the method of the object's class.\<close>

fun handler_process :: "web_env \<Rightarrow> WebHandlerClass \<Rightarrow> RequestInfo \<Rightarrow> RequestOutput \<Rightarrow> WebWorld \<Rightarrow> web_result" where
  "handler_process e WebHandlerNotFound r out w = process_notFound r out w"
| "handler_process e WebHandlerHeadRoot r out w = process_headRoot out w"
| "handler_process e WebHandlerRoot r out w = webPage pageRoot out w"
| "handler_process e WebHandlerStatus r out w = process_status e out w"
| "handler_process e WebHandlerStatusJson r out w = process_statusJson e out w"
| "handler_process e WebHandlerMsgMode r out w = webPage pageMsgMode out w"
| "handler_process e WebHandlerMsgModePost r out w = process_msgModePost e r out w"
| "handler_process e WebHandlerImgBackground r out w = webPage pageImgBackground out w"
| "handler_process e WebHandlerImgBackgroundPost r out w = process_imgBackgroundPost e r out w"
| "handler_process e WebHandlerMsgBackground r out w = webPage pageMsgBackground out w"
| "handler_process e WebHandlerMsgBackgroundPost r out w = process_msgBackgroundPost e r out w"
| "handler_process e WebHandlerLedStrip r out w = webPage (pageLedStrip (web_strip w)) out w"
| "handler_process e WebHandlerLedStripPost r out w = process_ledStripPost e r out w"
| "handler_process e WebHandlerDictionary r out w = webPage pageDictionary out w"
| "handler_process e WebHandlerDictionaryPost r out w = process_dictionaryPost e r out w"
| "handler_process e WebHandlerStop r out w = process_stop e out w"

definition web_process :: "web_env \<Rightarrow> RequestInfo \<Rightarrow> RequestOutput \<Rightarrow> WebHandlerInternal \<Rightarrow> WebWorld \<Rightarrow> web_result" where
  "web_process e r out h w = (case chooseWebHandler (req_method r) (uriPath r) h of
     (None, h1) \<Rightarrow> Inr ((replyNotFound, out), w\<lparr>web := Some h1\<rparr>)
   | (Some p, h1) \<Rightarrow> handler_process e (handlerClass (webObjects h1 ! p)) r out (w\<lparr>web := Some h1\<rparr>))"

text \<open>
  The entry that the server calls. The catch keeps the output up to the exception, none of
  which the handlers that throw have made, and \<open>None\<close> is undefined behaviour.
\<close>

definition handleRequest :: "web_env \<Rightarrow> evhttp_request \<Rightarrow> RequestOutput \<Rightarrow> WebWorld \<Rightarrow>
    ((HandleRequestReply \<times> RequestOutput) \<times> WebWorld) option" where
  "handleRequest e req out w = (case web w of
     None \<Rightarrow> Some ((replyServerUnavail, out), w)
   | Some h \<Rightarrow> (case web_process e (parseRequest req) out h w of
       Inr r \<Rightarrow> Some r
     | Inl (WebException what) \<Rightarrow>
         (case chooseWebHandler (ev_command req) (uriPath (parseRequest req)) h of
           (_, h1) \<Rightarrow> Some ((replyInternalError, addBody (''Internal error: '' @ c_str what @ nl) out), w\<lparr>web := Some h1\<rparr>))
     | Inl WebUndefined \<Rightarrow> None))"

section \<open>Every request is served\<close>

text \<open>A registry that has been started, whatever requests it has counted.\<close>

definition started :: "WebHandlerInternal \<Rightarrow> bool" where
  "started h \<longleftrightarrow> webHandlers h = webHandlers (web_start newWebHandlerInternal) \<and>
     map handlerClass (webObjects h) = map handlerClass (webObjects (web_start newWebHandlerInternal))"

definition totalHits :: "WebHandlerInternal \<Rightarrow> nat" where
  "totalHits h = sum_list (map (\<lambda>x. unat (hits x)) (webObjects h))"

fun web_serve :: "web_env \<Rightarrow> (evhttp_request \<times> RequestOutput) list \<Rightarrow> WebWorld \<Rightarrow> WebWorld option" where
  "web_serve e [] w = Some w"
| "web_serve e ((req, out) # rs) w = (case handleRequest e req out w of
     None \<Rightarrow> None
   | Some (_, w1) \<Rightarrow> web_serve e rs w1)"

lemma start_classes:
  "map handlerClass (webObjects (web_start newWebHandlerInternal)) =
    [WebHandlerNotFound, WebHandlerHeadRoot, WebHandlerRoot, WebHandlerStatus, WebHandlerStatusJson, WebHandlerMsgMode,
     WebHandlerMsgModePost, WebHandlerImgBackground, WebHandlerImgBackgroundPost, WebHandlerMsgBackground,
     WebHandlerMsgBackgroundPost, WebHandlerLedStrip, WebHandlerLedStripPost, WebHandlerDictionary,
     WebHandlerDictionaryPost, WebHandlerStop, WebHandlerStop]"
  by code_simp

lemma start_handlers:
  "webHandlers (web_start newWebHandlerInternal) =
    [(WebHandlerKey 1 ''/'', 2), (WebHandlerKey 1 ''/dictionary'', 13), (WebHandlerKey 1 ''/imgBackground'', 7),
     (WebHandlerKey 1 ''/index.html'', 2), (WebHandlerKey 1 ''/ledStrip'', 11), (WebHandlerKey 1 ''/msgBackground'', 9),
     (WebHandlerKey 1 ''/msgMode'', 5), (WebHandlerKey 1 ''/status'', 3), (WebHandlerKey 1 ''/status.json'', 4),
     (WebHandlerKey 1 ''/stop'', 15), (WebHandlerKey 1 ''__notFound'', 0), (WebHandlerKey 2 ''/dictionary'', 14),
     (WebHandlerKey 2 ''/imgBackground'', 8), (WebHandlerKey 2 ''/ledStrip'', 12), (WebHandlerKey 2 ''/msgBackground'', 10),
     (WebHandlerKey 2 ''/msgMode'', 6), (WebHandlerKey 2 ''/stop'', 16), (WebHandlerKey 4 ''/'', 1)]"
  by code_simp

lemmas start_tables = start_classes start_handlers

lemma startedD:
  assumes "started h"
  shows "length (webObjects h) = 17" "p < 17 \<Longrightarrow> handlerClass (webObjects h ! p) =
    map handlerClass (webObjects (web_start newWebHandlerInternal)) ! p"
proof -
  have m: "map handlerClass (webObjects h) = map handlerClass (webObjects (web_start newWebHandlerInternal))"
    using assms by (simp add: started_def)
  show l: "length (webObjects h) = 17" using m[unfolded start_classes, THEN arg_cong[of _ _ length]] by simp
  show "p < 17 \<Longrightarrow> handlerClass (webObjects h ! p) =
    map handlerClass (webObjects (web_start newWebHandlerInternal)) ! p"
    unfolding m[symmetric] using l by simp
qed

text \<open>The registry after a handler was found, and so counted.\<close>

definition counted :: "nat \<Rightarrow> WebHandlerInternal \<Rightarrow> WebHandlerInternal" where
  "counted p h = h\<lparr>webObjects := (webObjects h)[p := bumpHits (webObjects h ! p)]\<rparr>"

lemma find_counted:
  "findWebHandler k h = (case omap_find (webHandlers h) k of None \<Rightarrow> (None, h) | Some p \<Rightarrow> (Some p, counted p h))"
  by (simp add: findWebHandler_def counted_def split: option.split)

lemma started_counted:
  assumes "started h" "p < 17" shows "started (counted p h)"
proof -
  have "map handlerClass ((webObjects h)[p := bumpHits (webObjects h ! p)]) = map handlerClass (webObjects h)"
    using startedD(1)[OF assms(1)] assms(2)
    by (intro nth_equalityI) (simp_all add: nth_list_update bumpHits_def)
  then show ?thesis using assms(1) by (simp add: started_def counted_def)
qed

lemma class_counted [simp]:
  "started h \<Longrightarrow> p < 17 \<Longrightarrow> handlerClass (webObjects (counted p h) ! p) = handlerClass (webObjects h ! p)"
  by (simp add: counted_def bumpHits_def startedD(1))

definition handlerPlace :: "int \<Rightarrow> string \<Rightarrow> nat" where
  "handlerPlace method path =
     (case omap_find (webHandlers (web_start newWebHandlerInternal)) (WebHandlerKey method path) of
        Some p \<Rightarrow> p
      | None \<Rightarrow> if method = EVHTTP_REQ_HEAD then 1 else 0)"

lemma handlerPlace_bound: "handlerPlace method path < 17"
proof -
  have "list_all (\<lambda>(k, p). p < 17) (webHandlers (web_start newWebHandlerInternal))"
    unfolding start_handlers by simp
  then show ?thesis
    by (auto simp: handlerPlace_def list_all_iff dest!: map_of_SomeD split: option.split)
qed

lemma choose_counted:
  assumes "started h"
  shows "chooseWebHandler method path h = (Some (handlerPlace method path), counted (handlerPlace method path) h)"
proof -
  have nf: "omap_find (webHandlers h) uriNotFound = Some 0" and hd: "omap_find (webHandlers h) uriHead = Some 1"
    using assms by (simp_all add: started_def start_handlers uriNotFound_def uriHead_def getKey_def evhttp_defs)
  have w: "webHandlers h = webHandlers (web_start newWebHandlerInternal)" using assms by (simp add: started_def)
  show ?thesis
    using nf hd by (simp add: chooseWebHandler_def find_counted handlerPlace_def w Let_def split: option.split)
qed

text \<open>A handler that returns a reply, and leaves the registry as it is.\<close>

definition served :: "WebWorld \<Rightarrow> web_result \<Rightarrow> bool" where
  "served w res \<longleftrightarrow> (case res of Inl _ \<Rightarrow> False | Inr (_, w1) \<Rightarrow> web w1 = web w)"

lemma served_page [simp]: "served w (webPage page out w1) \<longleftrightarrow> web w1 = web w"
  by (simp add: served_def webPage_def)

lemma gather_web: "gatherStatusSnapshot e w = (s, w1) \<Longrightarrow> web w1 = web w"
  by (auto simp: gatherStatusSnapshot_def Let_def split: prod.splits)

lemma served_post:
  assumes "\<And>ps. served w (act ps w)"
  shows "served w (webPost e r out act w)"
proof -
  obtain reply out1 ps where "parsePost (headerFound e) (requestBody r) out = Some (reply, out1, ps)"
    using parsePost_defined[of "headerFound e" "requestBody r" out] by (metis not_None_eq prod_cases3)
  then show ?thesis using assms by (simp add: webPost_def served_def)
qed

lemma served_displayPost:
  "served w (displayPost display_enqueueMsgModePost out ps w)"
  "served w (displayPost display_enqueueImgBackgroundPost out ps w)"
  "served w (displayPost display_enqueueMsgBackgroundPost out ps w)"
  by (simp_all add: served_def displayPost_def enqueueDisplayTodo_def display_enqueueMsgModePost_def
      display_enqueueImgBackgroundPost_def display_enqueueMsgBackgroundPost_def)

lemma served_dictionaryPost: "served w (dictionaryPost e out ps w)"
  by (simp add: served_def dictionaryPost_def split: prod.split)

lemma served_replied [simp]: "served w (Inr (r, w1)) \<longleftrightarrow> web w1 = web w"
  by (simp add: served_def)

lemma handler_process_served: "served w (handler_process e c r out w)"
proof -
  obtain s w1 where g: "gatherStatusSnapshot e w = (s, w1)" by fastforce
  note posts = served_post[where w = w] served_displayPost[of w out] served_dictionaryPost[of w e out]
  have strip: "served w (webPost e r out (\<lambda>ps w1.
      Inr ((replyNoContent, out), w1\<lparr>web_strip := strip_enqueueMsgModePost ps (web_strip w1)\<rparr>)) w)"
    by (rule served_post) simp
  show ?thesis using gather_web[OF g]
    by (cases c; simp only: handler_process.simps process_defs g prod.case served_page served_replied)
      (simp_all add: posts strip)
qed

lemma servedE: "served w res \<Longrightarrow> \<exists>r w1. res = Inr (r, w1) \<and> web w1 = web w"
  by (auto simp: served_def split: sum.splits prod.splits)

text \<open>A request is the work of the handler that its method and place select.\<close>

lemma handleRequest_handler:
  assumes "web w = Some h" "started h"
    and "handlerPlace (ev_command req) (uriPath (parseRequest req)) = p"
    and "map handlerClass (webObjects (web_start newWebHandlerInternal)) ! p = c"
  shows "\<exists>r w1. handler_process e c (parseRequest req) out (w\<lparr>web := Some (counted p h)\<rparr>) = Inr (r, w1) \<and>
    handleRequest e req out w = Some (r, w1) \<and> web w1 = Some (counted p h)"
proof -
  have p: "p < 17" using handlerPlace_bound assms(3) by blast
  have ch: "chooseWebHandler (req_method (parseRequest req)) (uriPath (parseRequest req)) h = (Some p, counted p h)"
    using choose_counted[OF assms(2)] assms(3) by (simp add: parseRequest_def)
  have c: "handlerClass (webObjects (counted p h) ! p) = c" using assms(2,4) p startedD(2)[OF assms(2) p] by simp
  obtain r w1 where "handler_process e c (parseRequest req) out (w\<lparr>web := Some (counted p h)\<rparr>) = Inr (r, w1)"
      "web w1 = Some (counted p h)"
    using servedE[OF handler_process_served[of "w\<lparr>web := Some (counted p h)\<rparr>"]] by fastforce
  then show ?thesis using assms(1) ch c by (simp add: handleRequest_def web_process_def)
qed

lemma totalHits_counted:
  assumes "p < length (webObjects h)" "totalHits h + 1 < 2 ^ 32"
  shows "totalHits (counted p h) = totalHits h + 1"
proof -
  let ?xs = "map (\<lambda>x. unat (hits x)) (webObjects h)"
  have l: "unat (hits (webObjects h ! p)) \<le> sum_list ?xs"
    using assms(1) by (intro elem_le_sum_list[of p ?xs, simplified]) simp
  have "hits (webObjects h ! p) \<noteq> - 1" using l assms(2)
    by (auto simp: totalHits_def unsigned_minus_1_eq_mask mask_eq_exp_minus_1)
  then have "hits (webObjects h ! p) + 1 \<noteq> 0" by (simp add: eq_neg_iff_add_eq_0)
  then have b: "unat (hits (webObjects h ! p) + 1) = unat (hits (webObjects h ! p)) + 1"
    by (simp add: unat_plus_one_neq)
  have "map (\<lambda>x. unat (hits x)) ((webObjects h)[p := bumpHits (webObjects h ! p)]) = ?xs[p := ?xs ! p + 1]"
    using b assms(1) by (simp add: map_update bumpHits_def)
  then show ?thesis using assms(1) l by (simp add: totalHits_def counted_def sum_list_update)
qed

lemma web_serve_counts:
  assumes "web w = Some h" "started h" "totalHits h + length rs < 2 ^ 32"
  shows "\<exists>w1 h1. web_serve e rs w = Some w1 \<and> web w1 = Some h1 \<and> started h1 \<and> totalHits h1 = totalHits h + length rs"
  using assms
proof (induction rs arbitrary: w h)
  case (Cons r rs)
  obtain req out where r: "r = (req, out)" by (cases r)
  let ?p = "handlerPlace (ev_command req) (uriPath (parseRequest req))"
  obtain a w1 where w1: "handleRequest e req out w = Some (a, w1)" "web w1 = Some (counted ?p h)"
    using handleRequest_handler[OF Cons.prems(1,2) refl refl, of e req out] by blast
  have t: "totalHits (counted ?p h) = totalHits h + 1" "started (counted ?p h)"
    using totalHits_counted[of ?p h] startedD(1)[OF Cons.prems(2)] handlerPlace_bound Cons.prems(2,3)
      started_counted by simp_all
  show ?case using Cons.IH[OF w1(2) t(2)] t(1) w1(1) Cons.prems(3) by (auto simp: r)
qed simp

lemma started_new: "started (web_start newWebHandlerInternal)" "totalHits (web_start newWebHandlerInternal) = 0"
proof -
  show "started (web_start newWebHandlerInternal)" by (simp add: started_def)
  show "totalHits (web_start newWebHandlerInternal) = 0" by code_simp
qed

text \<open>
  C16. Every request is answered and counted once. Whatever requests a started web server gets, of
  whatever method, to whatever place and with whatever body, it answers all of them, without an
  exception and without an access outside an array, and the hit counts of its handlers add up to
  the number of requests, as long as these are less than \<open>2 ^ 32\<close>.
\<close>

theorem every_request_is_counted_once:
  assumes "web w = Some (web_start newWebHandlerInternal)" and "length rs < 2 ^ 32"
  shows "\<exists>w1 h. web_serve e rs w = Some w1 \<and> web w1 = Some h \<and>
    sum_list (map (\<lambda>x. unat (hits x)) (webObjects h)) = length rs"
  using web_serve_counts[OF assms(1) started_new(1), of rs e, unfolded started_new(2)] assms(2)
  by (auto simp: totalHits_def)

text \<open>The parameters and the handler of a posted form.\<close>

definition postRequest :: "string \<Rightarrow> (string \<times> string) list \<Rightarrow> evhttp_request" where
  "postRequest path fs = \<lparr>ev_command = EVHTTP_REQ_POST, ev_host = None, ev_path = Some path, ev_query = None,
     ev_scheme = None, ev_body = Some (form_encode fs)\<rparr>"

lemma webPost_form:
  assumes "fs \<noteq> []" "list_all plain_field fs" "length (form_encode fs) < MAX_POST_BODY_LEN"
    "requestBody r = Some (form_encode fs)"
  shows "webPost e r out act w = act (fold (\<lambda>(k, v). omap_set k v) fs []) w"
  using parsePost_fields[of "form_encode fs" "headerFound e" out] form_fields_encode[OF assms(1,2)] assms
    url_text_not_empty[of fs] by (simp add: Suc_le_eq webPost_def replyOk_def)

lemma postRequest_fields [simp]:
  "path \<noteq> '''' \<Longrightarrow> uriPath (parseRequest (postRequest path fs)) = path"
  "requestBody (parseRequest (postRequest path fs)) = Some (form_encode fs)"
  "ev_command (postRequest path fs) = EVHTTP_REQ_POST"
  by (simp_all add: parseRequest_def postRequest_def)

lemma post_places:
  "handlerPlace EVHTTP_REQ_POST ''/msgMode'' = 6" "handlerPlace EVHTTP_REQ_POST ''/dictionary'' = 14"
  by (simp_all add: handlerPlace_def start_handlers evhttp_defs)

lemma length_url_text: "length s \<le> length (url_text s)"
proof (induction s)
  case (Cons c s)
  have "1 \<le> length (url_char c)" by (simp add: url_char_def)
  with Cons show ?case by (simp add: url_text_def)
qed (simp add: url_text_def)

text \<open>
  C5. From the web to the matrix. A text that is posted to \<^verbatim>\<open>/msgMode\<close> is answered with
  204, and the next round of the display thread finds the request and shows just that text, in the
  message mode, as long as the thread had no other request to handle.
\<close>

theorem posted_text_reaches_the_display:
  assumes "web w = Some h" "started h"
    and "displayTodos (web_display w) = []" "display_internal (web_display w) = Some i"
    and "NUL \<notin> set v" "\<not> strncasecmp_eq v ''#cookie'' 7" "\<not> isDictRef v"
    and "length (form_encode [(''msg'', v)]) < MAX_POST_BODY_LEN"
  shows "\<exists>w1 j. handleRequest e (postRequest ''/msgMode'' [(''msg'', v)]) out w = Some ((replyNoContent, out), w1) \<and>
    display_internal (display_checkTodoList (web_display w1)) = Some j \<and>
    getInternalDisplayMode (display_checkTodoList (web_display w1)) = ''message'' \<and>
    mm_msg (modeMessageData j) = v \<and> web_strip w1 = web_strip w \<and> web_dictionary w1 = web_dictionary w"
proof -
  let ?req = "postRequest ''/msgMode'' [(''msg'', v)]"
  let ?w = "w\<lparr>web := Some (counted 6 h)\<rparr>"
  obtain r w1 where r: "handler_process e WebHandlerMsgModePost (parseRequest ?req) out ?w = Inr (r, w1)"
      "handleRequest e ?req out w = Some (r, w1)"
    using handleRequest_handler[OF assms(1,2), of ?req 6 WebHandlerMsgModePost e out]
    by (auto simp: post_places start_classes)
  have "handler_process e WebHandlerMsgModePost (parseRequest ?req) out ?w =
      displayPost display_enqueueMsgModePost out [(''msg'', v)] ?w"
    using webPost_form[of "[(''msg'', v)]" "parseRequest ?req"] assms(5,8) by (simp add: plain_field_def process_defs)
  then have w1: "r = (replyNoContent, out)" "w1 = ?w\<lparr>web_display := (web_display w)
      \<lparr>displayTodos := [displayTodoTypeHandleMsgModePost [(''msg'', v)]]\<rparr>\<rparr>"
    using r(1) assms(3) by (simp_all add: displayPost_def display_enqueueMsgModePost_def enqueueDisplayTodo_def)
  have l: "length v < MESSAGE_MAX_SIZE"
    using assms(8) length_url_text[of v] by (simp add: MESSAGE_MAX_SIZE_def MAX_POST_BODY_LEN_def)
  note p = posted_message_state[OF assms(5-7) l, of i]
  have "display_internal (display_checkTodoList (web_display w1)) = Some (doHandleMsgModePost [(''msg'', v)] i)"
    using assms(4) by (simp add: w1 display_checkTodoList_def dequeueDisplayTodo_def handleDisplayTodo_def)
  moreover have "getDisplayModeStr (doHandleMsgModePost [(''msg'', v)] i) = ''message''"
    using p(2) by (simp add: getDisplayModeStr_def showing_def displayModeHeads_def)
  ultimately show ?thesis using r(2) p(1) by (simp add: w1 getInternalDisplayMode_def)
qed

definition sampleWorld :: WebWorld where
  "sampleWorld = \<lparr>web = Some (web_start newWebHandlerInternal),
     web_display = \<lparr>displayTodos = [], display_internal = Some quietDisplay, displayTimer = sampleTimer\<rparr>,
     web_strip = \<lparr>ledStripTodos = [], strip_internal = None\<rparr>, web_dictionary = sampleDict,
     web_motion = newMotionSensor (\<lambda>_. None), web_light = newLightSensor, web_mqtt = sampleMqtt\<rparr>"

lemma sampleWorld_sel [simp]:
  "web sampleWorld = Some (web_start newWebHandlerInternal)" "web_dictionary sampleWorld = sampleDict"
  "displayTodos (web_display sampleWorld) = []" "display_internal (web_display sampleWorld) = Some quietDisplay"
  by (simp_all add: sampleWorld_def)

theorem every_request_is_counted_once_witness:
  "\<forall>e. \<exists>w1 h. web_serve e (replicate 3 (postRequest ''/nowhere'' [(''a'', ''b'')], \<lparr>replyHeaders = [], replyBody = []\<rparr>))
      sampleWorld = Some w1 \<and> web w1 = Some h \<and> sum_list (map (\<lambda>x. unat (hits x)) (webObjects h)) = 3"
  using every_request_is_counted_once[of sampleWorld
      "replicate 3 (postRequest ''/nowhere'' [(''a'', ''b'')], \<lparr>replyHeaders = [], replyBody = []\<rparr>)"] by simp

theorem posted_text_reaches_the_display_witness:
  "\<forall>e out. \<exists>w1. handleRequest e (postRequest ''/msgMode'' [(''msg'', ''Hi & bye'')]) out sampleWorld =
       Some ((replyNoContent, out), w1) \<and>
     getInternalDisplayMode (display_checkTodoList (web_display w1)) = ''message''"
proof -
  have "\<not> strncasecmp_eq ''Hi & bye'' ''#cookie'' 7" "\<not> isDictRef ''Hi & bye''"
    "length (form_encode [(''msg'', ''Hi & bye'')]) < MAX_POST_BODY_LEN" by code_simp+
  then show ?thesis
    using posted_text_reaches_the_display[OF sampleWorld_sel(1) started_new(1) sampleWorld_sel(3,4), of "''Hi & bye''"]
    by fastforce
qed

definition occurs :: "string \<Rightarrow> string \<Rightarrow> bool" where
  "occurs t s \<longleftrightarrow> (\<exists>p q. s = p @ t @ q)"

lemma occurs_append: "occurs t s \<Longrightarrow> occurs t (p @ s)" "occurs t s \<Longrightarrow> occurs t (s @ q)"
proof -
  assume "occurs t s"
  then obtain a b where "s = a @ t @ b" by (auto simp: occurs_def)
  then have "p @ s = (p @ a) @ t @ b" "s @ q = a @ t @ (b @ q)" by simp_all
  then show "occurs t (p @ s)" "occurs t (s @ q)" unfolding occurs_def by blast+
qed

lemma occurs_self: "occurs t (t @ q)"
  unfolding occurs_def by (metis append_Nil)

lemma occurs_commaSeparated: "x \<in> set xs \<Longrightarrow> occurs t x \<Longrightarrow> occurs t (commaSeparated xs)"
proof (induction xs rule: commaSeparated.induct)
  case (3 x0 y xs)
  then show ?case by (cases "x = x0") (auto intro: occurs_append)
qed (auto intro: occurs_append)

lemma json_entry:
  assumes "(k, v) \<in> set (snap_dictionaryEntries s)"
  shows "occurs (appendJsonString k @ '': '' @ appendJsonString v) (renderStatusJson s)"
proof -
  let ?t = "appendJsonString k @ '': '' @ appendJsonString v"
  have "occurs ?t (''      '' @ ?t)" by (rule occurs_append(1)) (use occurs_self[of ?t "''''"] in simp)
  then have o: "occurs ?t (renderJsonPairs (snap_dictionaryEntries s) ''      '')"
    unfolding renderJsonPairs_def by (rule occurs_commaSeparated[rotated]) (use assms in force)
  have ne: "snap_dictionaryEntries s \<noteq> []" using assms by auto
  have e: "occurs ?t ((nl @ renderJsonPairs (snap_dictionaryEntries s) ''      '' @ ''    }'' @ nl) @ q)" for q
    by (rule occurs_append(2), rule occurs_append(1), rule occurs_append(2), rule o)
  have "occurs ?t (renderJsonDictionary s)"
    unfolding renderJsonDictionary_def Let_def if_not_P[OF ne] by (rule e | rule occurs_append(1))+
  then have d: "occurs ?t (renderJsonDictionary s @ q)" for q by (rule occurs_append(2))
  show ?thesis unfolding renderStatusJson_def by (rule d | rule occurs_append(1))+
qed

lemma gather_entries:
  "snap_dictionaryEntries (fst (gatherStatusSnapshot e w)) = fst (visitFrom '''' (web_dictionary w))"
  by (simp add: gatherStatusSnapshot_def Let_def split: prod.split)

text \<open>What a posted key and data mean to the dictionary: an entry that stays.\<close>

lemma dictionary_params:
  "dictionaryParamData < dictionaryParamKey" "dictionaryParamOperation \<noteq> dictionaryParamKey"
  "dictionaryParamOperation \<noteq> dictionaryParamData" "dictionaryParamTimeout \<noteq> dictionaryParamKey"
  "dictionaryParamTimeout \<noteq> dictionaryParamData"
  by code_simp+

lemma spec_post_entry:
  assumes "k \<noteq> ''''"
  shows "spec_post [(dictionaryParamData, v), (dictionaryParamKey, k)] m = (True, m(k \<mapsto> (v, None)))"
proof -
  have "stoi ''-1'' 10 = Some (- 1)" by code_simp
  then show ?thesis using assms dictionary_params
    by (auto simp: spec_post_def getParamValue_def spec_add_def spec_put_def noExpiration_def Let_def)
qed

text \<open>
  C23. From the web through the dictionary to the status. An entry that is posted to
  \<^verbatim>\<open>/dictionary\<close> is answered with 204; the status gathered next lists it with its
  value, lists every other entry that is alive as before and nothing else, in the order of the
  keys, and the JSON document has the pair as two JSON strings.
\<close>

theorem posted_entry_is_in_the_status:
  assumes "web w = Some h" "started h" "dict_inv (web_dictionary w)" "timer_room (web_dictionary w)"
    and "k \<noteq> ''''" "NUL \<notin> set k" "NUL \<notin> set v"
    and "length (form_encode [(dictionaryParamKey, k), (dictionaryParamData, v)]) < MAX_POST_BODY_LEN"
  shows "\<exists>w1 s w2. handleRequest e (postRequest ''/dictionary'' [(dictionaryParamKey, k), (dictionaryParamData, v)]) out w =
       Some ((replyNoContent, out), w1) \<and> gatherStatusSnapshot e w1 = (s, w2) \<and>
     set (snap_dictionaryEntries s) = {(k', v'). k' \<noteq> '''' \<and>
       map_option fst (((abs_dict (web_dictionary w))(k \<mapsto> (v, None))) k') = Some v'} \<and>
     sorted_wrt (<) (map fst (snap_dictionaryEntries s)) \<and>
     occurs (appendJsonString k @ '': '' @ appendJsonString v) (renderStatusJson s)"
proof -
  let ?fs = "[(dictionaryParamKey, k), (dictionaryParamData, v)]"
  let ?req = "postRequest ''/dictionary'' ?fs" and ?w = "w\<lparr>web := Some (counted 14 h)\<rparr>"
  let ?m = "[(dictionaryParamData, v), (dictionaryParamKey, k)]"
  obtain r w1 where r: "handler_process e WebHandlerDictionaryPost (parseRequest ?req) out ?w = Inr (r, w1)"
      "handleRequest e ?req out w = Some (r, w1)"
    using handleRequest_handler[OF assms(1,2), of ?req 14 WebHandlerDictionaryPost e out]
    by (auto simp: post_places start_classes)
  have fs: "fold (\<lambda>(k, v). omap_set k v) ?fs [] = ?m" using dictionary_params(1) by simp
  have "list_all plain_field ?fs" using assms(5-7) by (simp add: plain_field_def dictionaryParamKey_def dictionaryParamData_def)
  then have hp: "handler_process e WebHandlerDictionaryPost (parseRequest ?req) out ?w = dictionaryPost e out ?m ?w"
    using webPost_form[of ?fs "parseRequest ?req" e out] assms(8) fs by (simp add: process_defs)
  obtain b d where d: "dict_parsePostRequest ?m (web_dictionary w) = (b, d)" by fastforce
  note sp = spec_post_entry[OF assms(5), of v "abs_dict (web_dictionary w)"]
  have d': "dict_inv d" "b" "abs_dict d = (abs_dict (web_dictionary w))(k \<mapsto> (v, None))"
    using dict_post_refines[OF assms(3,4) d] sp by simp_all
  have w1: "r = (replyNoContent, out)" "web_dictionary w1 = d"
    using r(1) hp d d'(2) by (auto simp: dictionaryPost_def)
  obtain es d2 where v: "visitFrom '''' d = (es, d2)" by fastforce
  have ne: "'''' < k' \<longleftrightarrow> k' \<noteq> ''''" for k' :: string by (cases k') simp_all
  obtain s w2 where g: "gatherStatusSnapshot e w1 = (s, w2)" by fastforce
  have es: "snap_dictionaryEntries s = es"
    using gather_entries[of e w1] by (simp add: g v w1(2))
  note vc = visitFrom_correct[OF d'(1) v, unfolded d'(3) ne]
  have vs: "set es = {(k', v'). k' \<noteq> '''' \<and>
      map_option fst (((abs_dict (web_dictionary w))(k \<mapsto> (v, None))) k') = Some v'}"
    using vc by (elim conjE)
  have so: "sorted_wrt (<) (map fst es)" using vc by (elim conjE)
  from vs have "(k, v) \<in> set (snap_dictionaryEntries s)" using assms(5) by (simp add: es)
  note j = json_entry[OF this]
  show ?thesis
    by (intro exI[of _ w1] exI[of _ s] exI[of _ w2] conjI) (use r(2) w1(1) g vs so es j in simp_all)
qed

theorem posted_entry_is_in_the_status_witness:
  "\<forall>e out. \<exists>w1 s w2. handleRequest e (postRequest ''/dictionary'' [(dictionaryParamKey, ''temp''), (dictionaryParamData, ''21 C'')])
      out sampleWorld = Some ((replyNoContent, out), w1) \<and> gatherStatusSnapshot e w1 = (s, w2) \<and>
    set (snap_dictionaryEntries s) = {(''temp'', ''21 C'')}"
proof -
  have l: "length (form_encode [(dictionaryParamKey, ''temp''), (dictionaryParamData, ''21 C'')]) < MAX_POST_BODY_LEN"
    by code_simp
  have s: "{(k', v'). k' \<noteq> '''' \<and> map_option fst (((abs_dict (web_dictionary sampleWorld))
      (''temp'' \<mapsto> (''21 C'', None))) k') = Some v'} = {(''temp'', ''21 C'')}" by (auto split: if_splits)
  have "dict_inv (web_dictionary sampleWorld)" "timer_room (web_dictionary sampleWorld)" by simp_all
  from posted_entry_is_in_the_status[OF sampleWorld_sel(1) started_new(1) this _ _ _ l, unfolded s]
  show ?thesis by fastforce
qed

end
