(* ===== verification/Worker_Handler.thy ===== *)
theory Worker_Handler
  imports Web_Requests
begin

text \<open>
  \<^verbatim>\<open>worker_handler\<close> of \<^verbatim>\<open>pulsar/worker.c\<close>, the call-back that libevent makes for
  every request: it sets the headers that all replies share, hands the request to
  \<^verbatim>\<open>handleRequest\<close>, and sends what that gives. The result is the reply that is sent, with
  the calls that made its headers and its body.
\<close>

definition SERVER_NAME :: string where "SERVER_NAME = ''pulsar''"

definition freshOutput :: RequestOutput where
  "freshOutput = \<lparr>replyHeaders = [AddHeader ''Content-Type'' ''text/html; charset=UTF-8'', AddHeader ''Server'' SERVER_NAME,
     AddHeader ''Cache-Control'' ''private, max-age=0, no-cache, no-store''], replyBody = []\<rparr>"

definition worker_handler :: "web_env \<Rightarrow> evhttp_request \<Rightarrow> WebWorld \<Rightarrow> ((HandleRequestReply \<times> RequestOutput) \<times> WebWorld) option" where
  "worker_handler e req w = handleRequest e req freshOutput w"

section \<open>One content type\<close>

definition adds :: "string \<Rightarrow> header_call list \<Rightarrow> nat" where
  "adds name calls = length (filter (\<lambda>c. case c of AddHeader k _ \<Rightarrow> k = name | _ \<Rightarrow> False) calls)"

definition removes :: "string \<Rightarrow> header_call list \<Rightarrow> nat" where
  "removes name calls = length (filter (\<lambda>c. c = RemoveHeader name) calls)"

text \<open>
  What libevent promises of its headers: one is found when it was added more often than removed.
\<close>

definition header_law :: "header_finder \<Rightarrow> bool" where
  "header_law found \<longleftrightarrow> (\<forall>calls name. found calls name \<longleftrightarrow> removes name calls < adds name calls)"

text \<open>The headers a reply has: those that all replies share, and one content type.\<close>

definition proper_headers :: "RequestOutput \<Rightarrow> bool" where
  "proper_headers out \<longleftrightarrow> adds ''Content-Type'' (replyHeaders out) = removes ''Content-Type'' (replyHeaders out) + 1 \<and>
     (\<forall>name \<in> {''Server'', ''Cache-Control''}. adds name (replyHeaders out) = 1 \<and> removes name (replyHeaders out) = 0)"

lemma proper_fresh [simp]: "proper_headers freshOutput"
  by (simp add: proper_headers_def freshOutput_def adds_def removes_def)

lemma proper_addBody [simp]: "proper_headers (addBody t out) = proper_headers out"
  by (simp add: addBody_def proper_headers_def)

lemma proper_contentType: "header_law found \<Longrightarrow> proper_headers out \<Longrightarrow> proper_headers (setHeaderContentType found v out)"
  by (auto simp: header_law_def proper_headers_def setHeaderContentType_def setHeader_def adds_def removes_def)

lemma proper_returnError: "header_law found \<Longrightarrow> proper_headers out \<Longrightarrow> returnError found n t out = (r, out1) \<Longrightarrow> proper_headers out1"
  by (auto simp: returnError_def setHeaderContentTypeText_def proper_contentType)

lemma proper_parsePost:
  "header_law found \<Longrightarrow> proper_headers out \<Longrightarrow> parsePost found body out = Some (r, out1, ps) \<Longrightarrow> proper_headers out1"
  using proper_returnError
  by (auto simp: parsePost_def Let_def split: option.splits if_splits post_outcome.splits prod.splits)

definition proper_result :: "web_result \<Rightarrow> bool" where
  "proper_result res \<longleftrightarrow> (case res of Inl _ \<Rightarrow> True | Inr ((_, out), _) \<Rightarrow> proper_headers out)"

lemma proper_page [simp]: "proper_result (webPage t out w) = proper_headers out"
  by (simp add: webPage_def proper_result_def)

lemma proper_post:
  assumes "header_law (headerFound e)" "proper_headers out" "\<And>ps v. proper_result (act ps v)"
  shows "proper_result (webPost e r out act w)"
  using assms proper_parsePost[OF assms(1,2)]
  by (auto simp: webPost_def proper_result_def split: option.splits)

lemma proper_handler_process:
  assumes "header_law (headerFound e)" "proper_headers out"
  shows "proper_result (handler_process e k r out w)"
proof -
  have d: "proper_result (displayPost f out ps v)" for f ps v
    using assms(2) by (simp add: displayPost_def proper_result_def split: sum.split)
  have x: "proper_result (dictionaryPost e out ps v)" for ps v
    using assms proper_returnError[OF assms]
    by (auto simp: dictionaryPost_def proper_result_def split: prod.splits)
  show ?thesis using assms d x
    by (cases k) (auto simp: process_defs proper_contentType setHeaderContentTypeText_def intro!: proper_post
        split: prod.splits, auto simp: proper_result_def)
qed

text \<open>
  C17. Every reply of the web server, whatever was asked for and whether it is a page, a file of
  text, a document, an empty reply or an error, has exactly one content type, the name of the server and the
  rule that forbids to keep it.
\<close>

theorem reply_has_one_content_type:
  assumes "header_law (headerFound e)" "worker_handler e req w = Some ((reply, out), w1)"
  shows "adds ''Content-Type'' (replyHeaders out) = removes ''Content-Type'' (replyHeaders out) + 1 \<and>
     adds ''Server'' (replyHeaders out) = 1 \<and> removes ''Server'' (replyHeaders out) = 0 \<and>
     adds ''Cache-Control'' (replyHeaders out) = 1 \<and> removes ''Cache-Control'' (replyHeaders out) = 0"
proof -
  have p: "proper_result (web_process e r freshOutput h v)" for r h v
    using proper_handler_process[OF assms(1) proper_fresh]
    by (auto simp: web_process_def proper_result_def split: option.splits prod.splits)
  have "proper_headers out1" if "web_process e r freshOutput h v = Inr ((r1, out1), v1)" for r h v r1 out1 v1
    using p[of r h v] that by (simp add: proper_result_def)
  then have "proper_headers out"
    using assms(2) by (auto simp: worker_handler_def handleRequest_def proper_result_def split: option.splits sum.splits web_failure.splits prod.splits) 
  then show ?thesis by (simp add: proper_headers_def)
qed


text \<open>A form with an empty body.\<close>

theorem reply_has_one_content_type_witness:
  "\<exists>reply out w1. worker_handler \<lparr>headerFound = (\<lambda>calls name. removes name calls < adds name calls), loadavgFile = None,
       meminfoFile = None, getStrError = (\<lambda>_. ''''), serverStopRc = 0\<rparr> (postRequest ''/dictionary'' []) sampleWorld = Some ((reply, out), w1) \<and>
     adds ''Content-Type'' (replyHeaders out) = removes ''Content-Type'' (replyHeaders out) + 1"
proof -
  let ?e = "\<lparr>headerFound = (\<lambda>calls name. removes name calls < adds name calls), loadavgFile = None,
       meminfoFile = None, getStrError = (\<lambda>_. ''''), serverStopRc = 0\<rparr>"
  let ?r = "postRequest ''/dictionary'' []"
  have "\<exists>w1. web_serve ?e [(?r, freshOutput)] sampleWorld = Some w1"
    using web_serve_counts[OF _ started_new(1), of sampleWorld "[(?r, freshOutput)]" ?e, unfolded started_new(2)]
    by auto
  then obtain reply out w1 where h: "worker_handler ?e ?r sampleWorld = Some ((reply, out), w1)"
    by (auto simp: worker_handler_def split: option.splits)
  have "header_law (headerFound ?e)" by (simp add: header_law_def)
  from reply_has_one_content_type[OF this h] show ?thesis using h by blast
qed

end
