(* ===== verification/Status_Json.thy ===== *)
theory Status_Json
  imports Status_Report
begin

text \<open>
  The document of \<^verbatim>\<open>renderStatusJson\<close> as JSON: the grammar of JSON as inductive predicates that relate a text to
  the value it stands for, the value that a snapshot has, and that the document is a text of that value.
\<close>

section \<open>The grammar\<close>

text \<open>A number is kept by its text, an object as its members in order.\<close>

datatype json = JNull | JBool bool | JNumber string | JString string | JObject "(string \<times> json) list"

definition is_ws :: "string \<Rightarrow> bool" where
  "is_ws t \<longleftrightarrow> list_all (\<lambda>c. c \<in> {CHR 0x20, CHR 0x09, CHR 0x0A, CHR 0x0D}) t"

text \<open>Digits without a leading zero, then a fraction or nothing; an exponent is not needed.\<close>

definition is_json_unsigned :: "string \<Rightarrow> bool" where
  "is_json_unsigned t \<longleftrightarrow> (let i = takeWhile is_digit t; r = dropWhile is_digit t
     in i \<noteq> [] \<and> (hd i = CHR ''0'' \<longrightarrow> length i = 1) \<and>
        (r = [] \<or> hd r = CHR ''.'' \<and> tl r \<noteq> [] \<and> list_all is_digit (tl r)))"

definition is_json_number :: "string \<Rightarrow> bool" where
  "is_json_number t \<longleftrightarrow> (case t of c # u \<Rightarrow> if c = CHR ''-'' then is_json_unsigned u else is_json_unsigned t | [] \<Rightarrow> False)"

definition json_literal :: "string \<Rightarrow> string \<Rightarrow> bool" where
  "json_literal s t \<longleftrightarrow> (case t of c # u \<Rightarrow> c = dquote \<and> jsonReadString u = Some (s, []) | [] \<Rightarrow> False)"

inductive json_value :: "json \<Rightarrow> string \<Rightarrow> bool"
  and json_member :: "string \<Rightarrow> json \<Rightarrow> string \<Rightarrow> bool"
  and json_members :: "(string \<times> json) list \<Rightarrow> string \<Rightarrow> bool" where
  Null: "json_value JNull ''null''"
| TrueText: "json_value (JBool True) ''true''"
| FalseText: "json_value (JBool False) ''false''"
| Number: "is_json_number t \<Longrightarrow> json_value (JNumber t) t"
| Literal: "json_literal s t \<Longrightarrow> json_value (JString s) t"
| NoMembers: "is_ws w \<Longrightarrow> json_value (JObject []) (CHR ''{'' # w @ ''}'')"
| Members: "json_members ms t \<Longrightarrow> json_value (JObject ms) (CHR ''{'' # t @ ''}'')"
| Member: "is_ws w1 \<Longrightarrow> json_literal k ks \<Longrightarrow> is_ws w2 \<Longrightarrow> is_ws w3 \<Longrightarrow> json_value v vs \<Longrightarrow> is_ws w4 \<Longrightarrow>
    json_member k v (w1 @ ks @ w2 @ CHR '':'' # w3 @ vs @ w4)"
| One: "json_member k v t \<Longrightarrow> json_members [(k, v)] t"
| More: "json_member k v t \<Longrightarrow> json_members ms u \<Longrightarrow> json_members ((k, v) # ms) (t @ CHR '','' # u)"

definition json_document :: "json \<Rightarrow> string \<Rightarrow> bool" where
  "json_document v t \<longleftrightarrow> (\<exists>w1 u w2. t = w1 @ u @ w2 \<and> is_ws w1 \<and> is_ws w2 \<and> json_value v u)"

section \<open>The value of a snapshot\<close>

definition JInt :: "int \<Rightarrow> json" where "JInt n = JNumber (dec_int n)"

definition systemValue :: "SystemStatus \<Rightarrow> json" where
  "systemValue y = JObject
     ((''cpu_load'', if loadValid y then JObject [(''1min'', JNumber (appendLoad (loadAvg1Hundredths y))),
         (''5min'', JNumber (appendLoad (loadAvg5Hundredths y))), (''15min'', JNumber (appendLoad (loadAvg15Hundredths y)))]
       else JNull) #
      map (\<lambda>(name, kb). (name, if memValid y then JInt (uint kb) else JNull))
        [(''mem_free_kb'', memFreeKb y), (''mem_available_kb'', memAvailableKb y), (''mem_total_kb'', memTotalKb y)])"

definition motionValue :: "MotionInfo \<Rightarrow> json" where
  "motionValue m = JObject [(''detected'', JBool (currMotionDetected m)), (''last_change_hour'', JInt (uint (lastChangedHour m))),
     (''last_change_min'', JInt (uint (lastChangedMin m))), (''last_change_sec'', JInt (uint (lastChangedSec m)))]"

definition mqttValue :: "StatusSnapshot \<Rightarrow> json" where
  "mqttValue s = (let m = snap_mqtt s in JObject
     [(''broker_connected'', JBool (mqttBrokerConnected m)), (''broker_ip'', JString (snap_mqttBrokerIp s)),
      (''broker_port'', JInt (mqttBrokerPort m)), (''keep_alive_secs'', JInt (mqttKeepAlive m)),
      (''last_loop_rc'', JInt (last_loop_rc m)), (''last_loop_rc_str'', JString (mqttLastLoopRcStr s)),
      (''connect_attempts'', JInt (sint (connectAttempts m))), (''connects'', JInt (sint (connects m))),
      (''disconnects'', JInt (sint (disconnects m))), (''publishes'', JInt (sint (publishes m))),
      (''published_motions'', JInt (sint (publishedMotions m))), (''publishes_dropped'', JInt (sint (publishesDropped m))),
      (''publish_callbacks'', JInt (sint (publishCallbacks m))), (''messages'', JInt (sint (messages m))),
      (''ticks'', JInt (sint (mqtt_ticks m)))])"

definition dictionaryValue :: "StatusSnapshot \<Rightarrow> json" where
  "dictionaryValue s = (let d = snap_dictionaryStatus s in JObject
     [(''size'', JInt (sint (of_nat (dictionarySize s) :: Int32U))), (''ticks'', JInt (sint (dict_ticks d))),
      (''adds'', JInt (sint (entriesAdded d))), (''removes'', JInt (sint (entriesRemoved d))),
      (''expires'', JInt (sint (entriesExpired d))),
      (''entries'', JObject (map (\<lambda>(k, v). (k, JString v)) (snap_dictionaryEntries s)))])"

definition handlersValue :: "StatusSnapshot \<Rightarrow> json" where
  "handlersValue s = JObject [(''hits'', JObject (if webHandlerAvailable s then map (\<lambda>(k, n). (k, JInt (sint n))) (handlerHits s) else []))]"

definition statusValue :: "StatusSnapshot \<Rightarrow> json" where
  "statusValue s = JObject
     [(''version'', JInt 1), (''system'', systemValue (snap_system s)), (''motion'', motionValue (snap_motion s)),
      (''light_sensor'', JInt (sint (snap_lightValue s))),
      (''display'', JObject [(''mode'', JString (snap_displayMode s)), (''dimmed'', JBool (snap_displayDimmed s))]),
      (''led_strip'', JObject [(''mode'', JString (snap_ledStripMode s))]),
      (''mqtt'', mqttValue s), (''dictionary'', dictionaryValue s), (''handlers'', handlersValue s)]"

section \<open>Numbers, strings and space\<close>

lemma is_ws_simps [simp]: "is_ws []" "is_ws nl" "is_ws (replicate n (CHR '' ''))" "is_ws (xs @ ys) \<longleftrightarrow> is_ws xs \<and> is_ws ys"
  "is_ws [CHR '' '']" "is_ws '' ''"
  by (auto simp: is_ws_def nl_def list_all_iff)

lemma dec_nat_digits_only: "list_all is_digit (dec_nat n)"
  using dec_nat_digits[of n] by (auto simp: list_all_iff is_digit_def)

lemma dec_nat_leading: "hd (dec_nat n) = CHR ''0'' \<Longrightarrow> length (dec_nat n) = 1"
proof (induction n rule: dec_nat.induct)
  case (1 n)
  show ?case
  proof (cases "n < 10")
    case False
    have z: "n div 10 \<noteq> 0" using False by simp
    have "hd (dec_nat n) = hd (dec_nat (n div 10))" using False by (subst dec_nat.simps) simp
    with 1 False have l: "length (dec_nat (n div 10)) = 1" "hd (dec_nat (n div 10)) = CHR ''0''" by simp_all
    then have "dec_nat (n div 10) = ''0''" by (cases "dec_nat (n div 10)") auto
    then have "digits_value 10 0 (dec_nat (n div 10)) = 0" by (simp add: digit_val_def)
    then show ?thesis using z by (simp add: digits_value_dec_nat)
  qed (subst dec_nat.simps, simp)
qed

lemma unsigned_dec_nat: "is_json_unsigned (dec_nat n)"
proof -
  have t: "takeWhile is_digit (dec_nat n) = dec_nat n" "dropWhile is_digit (dec_nat n) = []"
    using dec_nat_digits_only[of n] by (simp_all add: takeWhile_eq_all_conv list_all_iff)
  show ?thesis using dec_nat_leading[of n] by (simp only: is_json_unsigned_def Let_def t) simp
qed

lemma number_dec_nat [simp]: "is_json_number (dec_nat n)"
  using dec_nat_hd(3)[of n] unsigned_dec_nat[of n] by (cases "dec_nat n") (auto simp: is_json_number_def)

lemma number_dec_int [simp]: "is_json_number (dec_int i)"
  using unsigned_dec_nat by (simp add: dec_int_def) (simp add: is_json_number_def)

lemma number_load [simp]: "is_json_number (appendLoad h)"
proof -
  let ?w = "dec_nat (unat (h div 100))" and ?f = "pad_left (CHR ''0'') 2 (dec_nat (unat (h mod 100)))"
  have d: "\<not> is_digit (CHR ''.'')" "is_digit (CHR ''0'')" by (simp_all add: is_digit_def)
  have t: "takeWhile is_digit (?w @ CHR ''.'' # ?f) = ?w" "dropWhile is_digit (?w @ CHR ''.'' # ?f) = CHR ''.'' # ?f"
    using dec_nat_digits_only[of "unat (h div 100)"] d(1) by (simp_all add: takeWhile_append dropWhile_append list_all_iff)
  have "list_all is_digit ?f" using dec_nat_digits_only[of "unat (h mod 100)"] d(2) by (auto simp: pad_left_def list_all_iff)
  then have "is_json_unsigned (?w @ CHR ''.'' # ?f)" using t dec_nat_leading by (simp add: is_json_unsigned_def pad_left_def)
  then show ?thesis using dec_nat_hd(3)[of "unat (h div 100)"]
    by (cases ?w) (auto simp: is_json_number_def appendLoad_def)
qed

lemma literal_append [simp]: "json_literal s (appendJsonString s)"
  using json_string_reads_back[of s "[]"] by (simp add: json_literal_def appendJsonString_def)

text \<open>A name that needs no escape is its own literal.\<close>

definition plain_name :: "string \<Rightarrow> bool" where
  "plain_name t \<longleftrightarrow> list_all (\<lambda>c. jsonEscapeChar c = [c]) t"

lemma literal_name: "plain_name k \<Longrightarrow> json_literal k (dquote # k @ [dquote])"
proof -
  assume "plain_name k"
  then have "jsonEscape k = k" by (induction k) (simp_all add: plain_name_def jsonEscape_def)
  then show ?thesis using literal_append[of k] by (simp add: appendJsonString_def)
qed

section \<open>Members\<close>

lemma JInt_int: "json_value (JInt n) (appendInt n)"
  using Number[OF number_dec_int[of n]] by (simp only: JInt_def appendInt_def)

lemma JInt_count: "json_value (JInt (sint w)) (countText w)"
  using JInt_int[of "sint w"] by (simp only: countText_def)

lemma JInt_byte: "json_value (JInt (uint b)) (byteText b)"
  using JInt_int[of "uint b"] by (simp only: byteText_def)

lemma JInt_size: "json_value (JInt (sint (of_nat k :: Int32U))) (sizeText k)"
  using JInt_count[of "of_nat k"] by (simp only: sizeText_def)

lemma JInt_unsigned: "json_value (JInt (uint v)) (appendUInt64 v)"
proof -
  have "dec_int (uint v) = dec_nat (unat v)" by (simp add: dec_int_def)
  then show ?thesis by (simp add: JInt_def appendUInt64_def Number)
qed

lemma value_texts: "json_value (JNumber (appendLoad h)) (appendLoad h)"
  "json_value (JBool b) (appendJsonBool b)" "json_value (JString t) (appendJsonString t)"
  by (simp_all add: Number Literal appendJsonBool_def TrueText FalseText)

lemma member_text:
  assumes "json_literal k ks" "json_value v vs" "is_ws w1" "is_ws w4"
  shows "json_member k v (w1 @ ks @ '': '' @ vs @ w4)"
  using Member[OF assms(3,1) _ _ assms(2,4), of "[]" "'' ''"] by simp

lemma member_name: "plain_name k \<Longrightarrow> json_value v vs \<Longrightarrow> is_ws w \<Longrightarrow> json_member k v (jsonName n k @ vs @ w)"
  using member_text[OF literal_name, of k v vs "replicate n (CHR '' '')" w] by (simp add: jsonName_def)

lemma member_space:
  assumes "json_member k v t" "is_ws w"
  shows "json_member k v (w @ t) \<and> json_member k v (t @ w)"
  using assms(1)
proof cases
  case (Member w1 ks w2 w3 vs w4)
  note m = json_value_json_member_json_members.Member[OF _ Member(3-6)]
  have "json_member k v ((w @ w1) @ ks @ w2 @ CHR '':'' # w3 @ vs @ w4)" "json_member k v (w1 @ ks @ w2 @ CHR '':'' # w3 @ vs @ (w4 @ w))"
    by (rule m; use Member assms(2) in simp)+
  then show ?thesis using Member(1) by simp
qed

lemma members_space:
  assumes "json_members ms t" "is_ws w"
  shows "json_members ms (w @ t)"
  using assms(1)
proof cases
  case (One k v)
  then show ?thesis using member_space[OF _ assms(2)] by (simp add: json_value_json_member_json_members.One)
next
  case (More k v u ms u2)
  have "json_members ((k, v) # ms) ((w @ u) @ CHR '','' # u2)"
    by (rule json_value_json_member_json_members.More) (use More member_space[OF _ assms(2)] in simp_all)
  then show ?thesis using More by simp
qed

text \<open>The two ends of a member in the text: a comma and a new line or a space before the next, or space before the brace.\<close>

lemma members_more:
  assumes "json_member k v t" "json_members ms u"
  shows "json_members ((k, v) # ms) (t @ commaNl @ u)" "json_members ((k, v) # ms) (t @ '', '' @ u)"
  using More[OF assms(1) members_space[OF assms(2)], of nl] More[OF assms(1) members_space[OF assms(2)], of "'' ''"]
  by (simp_all add: commaNl_def)

lemma name_more:
  assumes "plain_name k" "json_value v vs" "json_members ms u"
  shows "json_members ((k, v) # ms) (jsonName n k @ vs @ commaNl @ u)" "json_members ((k, v) # ms) (jsonName n k @ vs @ CHR '','' # CHR '' '' # u)"
  using members_more[OF member_name[OF assms(1,2), of "[]" n] assms(3)] by simp_all

lemma name_one: "plain_name k \<Longrightarrow> json_value v vs \<Longrightarrow> is_ws w \<Longrightarrow> json_members [(k, v)] (jsonName n k @ vs @ w)"
  by (intro One member_name)

lemma members_commaSeparated:
  "xs \<noteq> [] \<Longrightarrow> (\<And>x. x \<in> set xs \<Longrightarrow> json_member (fst (f x)) (snd (f x)) (g x)) \<Longrightarrow>
    is_ws w \<Longrightarrow> json_members (map f xs) (commaSeparated (map g xs) @ w)"
proof (induction xs rule: induct_list012)
  case (2 x)
  then have "json_member (fst (f x)) (snd (f x)) (g x)" by simp
  then have "json_member (fst (f x)) (snd (f x)) (g x @ nl @ w)"
    using member_space[of _ _ "g x" "nl @ w"] 2(3) by simp
  then show ?case by (cases "f x") (simp add: One)
next
  case (3 x y zs)
  have "json_member (fst (f x)) (snd (f x)) (g x)" "json_members (map f (y # zs)) (commaSeparated (map g (y # zs)) @ w)"
    using 3 by simp_all
  from members_more(1)[OF this] show ?case by simp
qed simp

lemma object_value: "json_members ms t \<Longrightarrow> json_value (JObject ms) (CHR ''{'' # nl @ t @ ''}'')"
  using Members[OF members_space[of ms t nl]] by simp

lemma object_more:
  assumes "plain_name k" "json_members body t" "json_members ms u"
  shows "json_members ((k, JObject body) # ms) (jsonName n k @ CHR ''{'' # nl @ t @ CHR ''}'' # commaNl @ u)"
    "json_members ((k, JObject body) # ms) (jsonName n k @ CHR ''{'' # t @ CHR ''}'' # commaNl @ u)"
  using name_more(1)[OF assms(1) object_value[OF assms(2)] assms(3), of n] name_more(1)[OF assms(1) Members[OF assms(2)] assms(3), of n]
  by simp_all

lemmas plain_defs = plain_name_def jsonEscapeChar_def dquote_def backslash_def

lemmas value_intros = JInt_int JInt_count JInt_byte JInt_size JInt_unsigned value_texts Null

section \<open>The parts of the document\<close>

text \<open>Each part, followed by members, is members with its own in front.\<close>

lemma motion_text:
  assumes "json_members ms u"
  shows "json_members ((''motion'', motionValue (snap_motion s)) # ms) (renderJsonMotion s @ u)"
proof -
  let ?m = "snap_motion s"
  have "json_members [(''detected'', JBool (currMotionDetected ?m)), (''last_change_hour'', JInt (uint (lastChangedHour ?m))),
      (''last_change_min'', JInt (uint (lastChangedMin ?m))), (''last_change_sec'', JInt (uint (lastChangedSec ?m)))]
     (jsonName 4 ''detected'' @ appendJsonBool (currMotionDetected ?m) @ commaNl @
      jsonName 4 ''last_change_hour'' @ byteText (lastChangedHour ?m) @ commaNl @
      jsonName 4 ''last_change_min'' @ byteText (lastChangedMin ?m) @ commaNl @
      jsonName 4 ''last_change_sec'' @ byteText (lastChangedSec ?m) @ nl @ ''  '')"
    by (intro name_more(1) name_one value_intros) (simp_all add: plain_defs is_ws_def nl_def)
  from object_more(1)[OF _ this assms, of "''motion''" 2] show ?thesis
    by (simp add: motionValue_def renderJsonMotion_def plain_defs)
qed

lemma system_text:
  assumes "json_members ms u"
  shows "json_members ((''system'', systemValue y) # ms) (renderJsonSystem y @ u)"
proof -
  let ?kb = "\<lambda>n :: 64 word. if memValid y then appendUInt64 n else ''null''"
  let ?jb = "\<lambda>n :: 64 word. if memValid y then JInt (uint n) else JNull"
  have "json_members [(''1min'', JNumber (appendLoad (loadAvg1Hundredths y))), (''5min'', JNumber (appendLoad (loadAvg5Hundredths y))),
      (''15min'', JNumber (appendLoad (loadAvg15Hundredths y)))]
     (jsonName 0 ''1min'' @ appendLoad (loadAvg1Hundredths y) @ CHR '','' # CHR '' '' #
      jsonName 0 ''5min'' @ appendLoad (loadAvg5Hundredths y) @ CHR '','' # CHR '' '' #
      jsonName 0 ''15min'' @ appendLoad (loadAvg15Hundredths y) @ [])"
    by (intro name_more(2) name_one value_intros) (simp_all add: plain_defs)
  note load = Members[OF this]
  have kb: "json_value (?jb n) (?kb n)" for n by (simp add: JInt_unsigned Null)
  have "json_members [(''mem_free_kb'', ?jb (memFreeKb y)), (''mem_available_kb'', ?jb (memAvailableKb y)),
      (''mem_total_kb'', ?jb (memTotalKb y))]
     (jsonName 4 ''mem_free_kb'' @ ?kb (memFreeKb y) @ commaNl @ jsonName 4 ''mem_available_kb'' @ ?kb (memAvailableKb y) @ commaNl @
      jsonName 4 ''mem_total_kb'' @ ?kb (memTotalKb y) @ nl @ ''  '')"
    by (intro name_more(1) name_one kb) (simp_all add: plain_defs is_ws_def nl_def)
  note mem = name_more(1)[OF _ _ this, of "''cpu_load''" _ _ 4]
  show ?thesis
    using object_more(1)[OF _ mem[OF _ load] assms, of "''system''" 2] object_more(1)[OF _ mem[OF _ Null] assms, of "''system''" 2]
    by (simp add: systemValue_def renderJsonSystem_def plain_defs)
qed

lemma mqtt_text:
  assumes "json_members ms u"
  shows "json_members ((''mqtt'', mqttValue s) # ms) (renderJsonMqtt s @ u)"
proof -
  let ?m = "snap_mqtt s"
  have "json_members [(''broker_connected'', JBool (mqttBrokerConnected ?m)), (''broker_ip'', JString (snap_mqttBrokerIp s)),
      (''broker_port'', JInt (mqttBrokerPort ?m)), (''keep_alive_secs'', JInt (mqttKeepAlive ?m)),
      (''last_loop_rc'', JInt (last_loop_rc ?m)), (''last_loop_rc_str'', JString (mqttLastLoopRcStr s)),
      (''connect_attempts'', JInt (sint (connectAttempts ?m))), (''connects'', JInt (sint (connects ?m))),
      (''disconnects'', JInt (sint (disconnects ?m))), (''publishes'', JInt (sint (publishes ?m))),
      (''published_motions'', JInt (sint (publishedMotions ?m))), (''publishes_dropped'', JInt (sint (publishesDropped ?m))),
      (''publish_callbacks'', JInt (sint (publishCallbacks ?m))), (''messages'', JInt (sint (messages ?m))),
      (''ticks'', JInt (sint (mqtt_ticks ?m)))]
     (jsonName 4 ''broker_connected'' @ appendJsonBool (mqttBrokerConnected ?m) @ commaNl @
      jsonName 4 ''broker_ip'' @ appendJsonString (snap_mqttBrokerIp s) @ commaNl @
      jsonName 4 ''broker_port'' @ appendInt (mqttBrokerPort ?m) @ commaNl @
      jsonName 4 ''keep_alive_secs'' @ appendInt (mqttKeepAlive ?m) @ commaNl @
      jsonName 4 ''last_loop_rc'' @ appendInt (last_loop_rc ?m) @ commaNl @
      jsonName 4 ''last_loop_rc_str'' @ appendJsonString (mqttLastLoopRcStr s) @ commaNl @
      jsonName 4 ''connect_attempts'' @ countText (connectAttempts ?m) @ commaNl @
      jsonName 4 ''connects'' @ countText (connects ?m) @ commaNl @
      jsonName 4 ''disconnects'' @ countText (disconnects ?m) @ commaNl @
      jsonName 4 ''publishes'' @ countText (publishes ?m) @ commaNl @
      jsonName 4 ''published_motions'' @ countText (publishedMotions ?m) @ commaNl @
      jsonName 4 ''publishes_dropped'' @ countText (publishesDropped ?m) @ commaNl @
      jsonName 4 ''publish_callbacks'' @ countText (publishCallbacks ?m) @ commaNl @
      jsonName 4 ''messages'' @ countText (messages ?m) @ commaNl @
      jsonName 4 ''ticks'' @ countText (mqtt_ticks ?m) @ nl @ ''  '')"
    by (intro name_more(1) name_one value_intros) (simp_all add: plain_defs is_ws_def nl_def)
  from object_more(1)[OF _ this assms, of "''mqtt''" 2] show ?thesis
    by (simp add: mqttValue_def renderJsonMqtt_def plain_defs Let_def)
qed

lemma entries_text: "\<exists>t. json_value (JObject (map (\<lambda>(k, v). (k, JString v)) entries)) t \<and>
  (if entries = [] then ''{}'' @ nl else CHR ''{'' # nl @ renderJsonPairs entries ''      '' @ ''    }'' @ nl) = t @ nl"
proof (cases "entries = []")
  case True
  then show ?thesis using NoMembers[of "[]"] by simp
next
  case False
  let ?f = "\<lambda>(k, v). (k, JString v)"
  let ?g = "\<lambda>(k, v). ''      '' @ appendJsonString k @ '': '' @ appendJsonString v"
  have "json_member (fst (?f x)) (snd (?f x)) (?g x)" for x
    using member_text[OF literal_append value_texts(3), of "''      ''" "[]" "fst x" "snd x"]
    by (cases x) (simp add: is_ws_def)
  then have "json_members (map ?f entries) (commaSeparated (map ?g entries) @ ''    '')"
    using False by (intro members_commaSeparated) (simp_all add: is_ws_def)
  from object_value[OF this] show ?thesis using False by (auto simp: renderJsonPairs_def)
qed

lemma dictionary_text:
  assumes "json_members ms u"
  shows "json_members ((''dictionary'', dictionaryValue s) # ms) (renderJsonDictionary s @ u)"
proof -
  let ?d = "snap_dictionaryStatus s"
  let ?e = "snap_dictionaryEntries s"
  obtain t where t: "json_value (JObject (map (\<lambda>(k, v). (k, JString v)) ?e)) t"
    "(if ?e = [] then ''{}'' @ nl else CHR ''{'' # nl @ renderJsonPairs ?e ''      '' @ ''    }'' @ nl) = t @ nl"
    using entries_text by blast
  have "json_members [(''size'', JInt (sint (of_nat (dictionarySize s) :: Int32U))), (''ticks'', JInt (sint (dict_ticks ?d))),
      (''adds'', JInt (sint (entriesAdded ?d))), (''removes'', JInt (sint (entriesRemoved ?d))),
      (''expires'', JInt (sint (entriesExpired ?d))), (''entries'', JObject (map (\<lambda>(k, v). (k, JString v)) ?e))]
     (jsonName 4 ''size'' @ sizeText (dictionarySize s) @ commaNl @ jsonName 4 ''ticks'' @ countText (dict_ticks ?d) @ commaNl @
      jsonName 4 ''adds'' @ countText (entriesAdded ?d) @ commaNl @ jsonName 4 ''removes'' @ countText (entriesRemoved ?d) @ commaNl @
      jsonName 4 ''expires'' @ countText (entriesExpired ?d) @ commaNl @ jsonName 4 ''entries'' @ t @ nl @ ''  '')"
    using t(1) by (intro name_more(1) name_one value_intros) (simp_all add: plain_defs is_ws_def nl_def)
  from object_more(1)[OF _ this assms, of "''dictionary''" 2] t(2) show ?thesis
    by (cases "?e = []") (auto simp: dictionaryValue_def renderJsonDictionary_def plain_defs Let_def)
qed

lemma hits_text: "\<exists>t. json_value (handlersValue s) (CHR ''{'' # jsonName 0 ''hits'' @ t @ ''}'') \<and>
  renderJsonHandlers s = jsonName 2 ''handlers'' @ CHR ''{'' # jsonName 0 ''hits'' @ t @ CHR ''}'' # nl"
proof -
  let ?hits = "if webHandlerAvailable s then handlerHits s else []"
  let ?f = "\<lambda>(k, n). (k, JInt (sint n))" and ?g = "\<lambda>(k, n). ''    '' @ appendJsonString k @ '': '' @ countText n"
  have m: "json_member (fst (?f x)) (snd (?f x)) (?g x)" for x
    using member_text[OF literal_append JInt_count, of "''    ''" "[]" "fst x" "snd x"] by (cases x) (simp add: is_ws_def)
  obtain t where t: "json_value (JObject (map ?f ?hits)) t"
    "t = (if ?hits = [] then ''{}'' else CHR ''{'' # nl @ commaSeparated (map ?g ?hits) @ ''  }'')"
  proof (cases "?hits = []")
    case True
    then show ?thesis using that NoMembers[of "[]"] by simp
  next
    case False
    then have "json_members (map ?f ?hits) (commaSeparated (map ?g ?hits) @ ''  '')"
      using m by (intro members_commaSeparated) (simp_all add: is_ws_def)
    from object_value[OF this] show ?thesis using that False by simp
  qed
  have "json_value (handlersValue s) (CHR ''{'' # (jsonName 0 ''hits'' @ t @ []) @ ''}'')"
    using t(1) unfolding handlersValue_def by (intro Members name_one) (auto simp: plain_defs)
  then show ?thesis using t(2) by (intro exI[of _ t]) (auto simp: renderJsonHandlers_def)
qed

section \<open>The document\<close>

text \<open>
  C7. The status document is JSON: for every snapshot, whatever bytes its strings hold, the text that is sent is, byte by byte, a JSON document,
  and the value it is a text of is the snapshot's: the object with the members of the document in their order, each count as its
  number, each flag as a truth value, each string as itself, the dictionary's entries and the handlers' hits as objects of their
  own, empty ones included, and null for a load or a memory size that could not be read.
\<close>

theorem status_document_denotes_snapshot: "json_document (statusValue s) (renderStatusJson s)"
proof -
  obtain t where t: "json_value (handlersValue s) (CHR ''{'' # jsonName 0 ''hits'' @ t @ ''}'')"
    "renderJsonHandlers s = jsonName 2 ''handlers'' @ CHR ''{'' # jsonName 0 ''hits'' @ t @ CHR ''}'' # nl"
    using hits_text by blast
  have handlers: "json_members [(''handlers'', handlersValue s)] (renderJsonHandlers s)"
    using name_one[OF _ t(1), of "''handlers''" nl 2] t(2) by (simp add: plain_defs)
  have strip: "json_members [(''mode'', JString (snap_ledStripMode s))] (jsonName 0 ''mode'' @ appendJsonString (snap_ledStripMode s) @ [])"
    by (intro name_one value_intros) (simp_all add: plain_defs)
  have display: "json_members [(''mode'', JString (snap_displayMode s)), (''dimmed'', JBool (snap_displayDimmed s))]
      (jsonName 0 ''mode'' @ appendJsonString (snap_displayMode s) @ CHR '','' # CHR '' '' #
       jsonName 0 ''dimmed'' @ appendJsonBool (snap_displayDimmed s) @ [])"
    by (intro name_more(2) name_one value_intros) (simp_all add: plain_defs)
  have plain: "plain_name ''version''" "plain_name ''light_sensor''" "plain_name ''display''" "plain_name ''led_strip''"
    by (simp_all add: plain_defs)
  note from_strip = object_more(2)[OF plain(4) strip mqtt_text[where s = s, OF dictionary_text[where s = s, OF handlers]], where n = 2]
  note from_display = object_more(2)[OF plain(3) display from_strip, where n = 2]
  note from_light = name_more(1)[OF plain(2) JInt_count[of "snap_lightValue s"] from_display, where n = 2]
  note body = name_more(1)[OF plain(1) JInt_int[of statusJsonVersion] system_text[where y = "snap_system s", OF motion_text[where s = s, OF from_light]],
    where n = 2]
  have "\<exists>u. json_value (statusValue s) u \<and> renderStatusJson s = u @ nl"
    using object_value[OF body] by (intro exI conjI) (simp_all add: statusValue_def statusJsonVersion_def renderStatusJson_def)
  then show ?thesis unfolding json_document_def by (metis append_Nil is_ws_simps(1,2))
qed

end
