(* ===== verification/Errno.thy ===== *)
theory Errno
  imports Prelude
begin

text \<open>
  The numbers of \<^verbatim>\<open>errno.h\<close> and \<^verbatim>\<open>glob.h\<close> that the hardware
  backends name, as Linux has them.
\<close>

definition ENOENT :: int where "ENOENT = 2"
definition EINTR :: int where "EINTR = 4"
definition EIO :: int where "EIO = 5"
definition E2BIG :: int where "E2BIG = 7"
definition EEXIST :: int where "EEXIST = 17"
definition ENODEV :: int where "ENODEV = 19"
definition EINVAL :: int where "EINVAL = 22"
definition ERANGE :: int where "ERANGE = 34"
definition GLOB_NOMATCH :: int where "GLOB_NOMATCH = 3"

lemmas errno_defs = ENOENT_def EINTR_def EIO_def E2BIG_def EEXIST_def ENODEV_def EINVAL_def ERANGE_def

end
