(* ===== verification/Pulsar_Server.thy ===== *)
theory Pulsar_Server
  imports C_Strings Errno "HOL-Library.Multiset"
begin

text \<open>
  \<^verbatim>\<open>pulsar/pulsar.c\<close>, \<^verbatim>\<open>pulsar/server.c\<close>, \<^verbatim>\<open>pulsar/worker.c\<close>,
  \<^verbatim>\<open>pulsar/conf.c\<close> and \<^verbatim>\<open>pulsar/logger.c\<close>: the web server that
  \<^verbatim>\<open>main\<close> runs. The C library, the kernel and libevent are a parameter: each call that may
  fail takes the next of a sequence of answers, and each \<^verbatim>\<open>send\<close> the next of another.
  Everything they hand out is a handle that is written down until it is given back: memory, files,
  sockets, events, threads. A pointer that is not null at any call is a record. A worker's thread
  runs beside the thread of the server, but the two meet only where it is started and where it is joined: what it does before it waits
  for events is part of its start, and what it does after them part of the join.
\<close>

section \<open>What the libraries answer and hand out\<close>

datatype pulsar_kind = ConfMem | IpMem | LoggerMem | LogFile | ServerMem | WorkerArray | WorkerMem | WorkerThread
  | EventBase | StopEvent | SignalEvent | HttpServer | StopSocket | ListenSocket

datatype log_fd = NoLogFile | LogStderr | LogFd nat

record pulsar_world =
  live :: "(pulsar_kind \<times> nat) list"
  nextHandle :: nat
  badFrees :: nat
  boundTo :: "(string \<times> Int8U list) list"
  clockText :: string
  logged :: "(log_fd \<times> string \<times> nat) list"
  answers :: "nat \<Rightarrow> bool"
  asked :: nat
  sendAnswers :: "nat \<Rightarrow> int \<times> int"
  sent :: nat

definition EAGAIN :: int where "EAGAIN = 11"

text \<open>
  A call returns, or the process exits, or an assertion fails, or a null pointer is used, or it
  waits for ever.
\<close>

datatype 'a pulsar_run = Returns 'a | Exits | Aborts | Undefined | Hangs

definition andThen :: "'a pulsar_run \<Rightarrow> ('a \<Rightarrow> 'b pulsar_run) \<Rightarrow> 'b pulsar_run" where
  "andThen r f = (case r of Returns x \<Rightarrow> f x | Exits \<Rightarrow> Exits | Aborts \<Rightarrow> Aborts | Undefined \<Rightarrow> Undefined | Hangs \<Rightarrow> Hangs)"

definition ask :: "pulsar_world \<Rightarrow> bool \<times> pulsar_world" where
  "ask w = (answers w (asked w), w\<lparr>asked := asked w + 1\<rparr>)"

definition takeHandle :: "pulsar_kind \<Rightarrow> pulsar_world \<Rightarrow> nat \<times> pulsar_world" where
  "takeHandle k w = (nextHandle w, w\<lparr>live := (k, nextHandle w) # live w, nextHandle := nextHandle w + 1\<rparr>)"

definition acquire :: "pulsar_kind \<Rightarrow> pulsar_world \<Rightarrow> nat option \<times> pulsar_world" where
  "acquire k w = (case ask w of
     (False, w1) \<Rightarrow> (None, w1)
   | (True, w1) \<Rightarrow> (case takeHandle k w1 of (h, w2) \<Rightarrow> (Some h, w2)))"

definition release :: "pulsar_kind \<Rightarrow> nat \<Rightarrow> pulsar_world \<Rightarrow> pulsar_world" where
  "release k h w = (if (k, h) \<in> set (live w) then w\<lparr>live := remove1 (k, h) (live w)\<rparr>
     else w\<lparr>badFrees := badFrees w + 1\<rparr>)"

definition releaseIf :: "pulsar_kind \<Rightarrow> nat option \<Rightarrow> pulsar_world \<Rightarrow> pulsar_world" where
  "releaseIf k ho w = (case ho of None \<Rightarrow> w | Some h \<Rightarrow> release k h w)"

section \<open>The logger\<close>

record logger =
  log_mem :: nat
  log_pid :: int
  log_fd :: log_fd
  logfile :: "string option"
  verbosity :: int

definition PULSAR_DEBUG :: int where "PULSAR_DEBUG = 4"

definition closeLogFile :: "logger \<Rightarrow> pulsar_world \<Rightarrow> pulsar_world" where
  "closeLogFile l w = (case log_fd l of LogFd h \<Rightarrow> release LogFile h w | _ \<Rightarrow> w)"

definition log_free :: "logger \<Rightarrow> pulsar_world \<Rightarrow> pulsar_world" where
  "log_free l w = release LoggerMem (log_mem l) (closeLogFile l w)"

definition log_set_file :: "string option \<Rightarrow> logger \<Rightarrow> pulsar_world \<Rightarrow> bool \<times> logger \<times> pulsar_world" where
  "log_set_file file l w =
     (let w1 = closeLogFile l w; l1 = l\<lparr>logfile := file\<rparr>
      in case file of
           None \<Rightarrow> (True, l1\<lparr>log_fd := LogStderr\<rparr>, w1)
         | Some _ \<Rightarrow> (case acquire LogFile w1 of
             (None, w2) \<Rightarrow> (False, l1\<lparr>log_fd := NoLogFile\<rparr>, w2)
           | (Some h, w2) \<Rightarrow> (True, l1\<lparr>log_fd := LogFd h\<rparr>, w2)))"

definition log_new :: "int \<Rightarrow> string option \<Rightarrow> int \<Rightarrow> pulsar_world \<Rightarrow> logger option \<times> pulsar_world" where
  "log_new pid file level w = (case acquire LoggerMem w of
     (None, w1) \<Rightarrow> (None, w1)
   | (Some h, w1) \<Rightarrow>
       (case log_set_file file \<lparr>log_mem = h, log_pid = pid, log_fd = NoLogFile, logfile = file, verbosity = level\<rparr> w1 of
          (_, l, w2) \<Rightarrow> (Some l, w2)))"

text \<open>
  What \<^verbatim>\<open>log_it\<close> writes: the buffer of 256 characters and the number of characters that
  \<^verbatim>\<open>write\<close> is asked for, which is the length of the text before it was cut. The marks are
  printed as numbers, the last one being the end of their string.
\<close>

definition logMarks :: string where "logMarks = ''.-*#'' @ [NUL]"

definition logLine :: "int \<Rightarrow> string \<Rightarrow> int \<Rightarrow> string \<Rightarrow> string" where
  "logLine pid time level body =
     (let msg = snprintf_s (min (length (c_str body) + 1) 124) body
      in ''['' @ dec_int pid @ ''] '' @ time @ '' '' @ dec_int (of_char (logMarks ! nat level)) @ '' '' @ msg @ [CHR 0x0A])"

definition log_it :: "logger \<Rightarrow> int \<Rightarrow> string \<Rightarrow> pulsar_world \<Rightarrow> pulsar_world" where
  "log_it l level body w =
     (if verbosity l < level \<or> log_fd l = NoLogFile then w
      else let line = logLine (log_pid l) (clockText w) level body
           in w\<lparr>logged := logged w @ [(log_fd l, snprintf_s 256 line, length line)]\<rparr>)"

section \<open>The options\<close>

record conf =
  conf_mem :: nat
  conf_ip :: "(nat \<times> string) option"
  conf_port :: Int16U
  conf_workers :: nat

definition WEBSERVER_DEFAULT_IP :: string where "WEBSERVER_DEFAULT_IP = ''0.0.0.0''"
definition WEBSERVER_DEFAULT_PORT :: Int16U where "WEBSERVER_DEFAULT_PORT = 80"
definition WEBSERVER_DEFAULT_WORKERS :: nat where "WEBSERVER_DEFAULT_WORKERS = 4"

definition strdup :: "string \<Rightarrow> pulsar_world \<Rightarrow> (nat \<times> string) option \<times> pulsar_world" where
  "strdup s w = (case acquire IpMem w of (ho, w1) \<Rightarrow> (map_option (\<lambda>h. (h, c_str s)) ho, w1))"

definition conf_free :: "conf \<Rightarrow> pulsar_world \<Rightarrow> pulsar_world" where
  "conf_free c w = release ConfMem (conf_mem c) (releaseIf IpMem (map_option fst (conf_ip c)) w)"

definition conf_new :: "(nat \<times> string) option \<Rightarrow> Int16U \<Rightarrow> nat \<Rightarrow> pulsar_world \<Rightarrow> conf option \<times> pulsar_world" where
  "conf_new ip port workers w = (case acquire ConfMem w of
     (None, w1) \<Rightarrow> (None, releaseIf IpMem (map_option fst ip) w1)
   | (Some h, w1) \<Rightarrow> (Some \<lparr>conf_mem = h, conf_ip = ip, conf_port = port, conf_workers = workers\<rparr>, w1))"

definition parse_number :: "string \<Rightarrow> int \<Rightarrow> int \<Rightarrow> int option" where
  "parse_number v minimum maximum = (case strtol_end v of
     None \<Rightarrow> None
   | Some (parsed, rest, outOfRange) \<Rightarrow>
       if outOfRange \<or> rest \<noteq> '''' \<or> parsed < minimum \<or> maximum < parsed then None else Some parsed)"

record PulsarServerInfo =
  info_cfg :: conf
  info_log :: logger

text \<open>One option as \<^verbatim>\<open>getopt\<close> delivers it, with its argument.\<close>

definition pulsar_option :: "char \<Rightarrow> string \<Rightarrow> PulsarServerInfo \<Rightarrow> pulsar_world \<Rightarrow> (PulsarServerInfo \<times> pulsar_world) pulsar_run" where
  "pulsar_option opt optarg i w =
     (if opt = CHR ''b'' then
        (case strdup optarg (releaseIf IpMem (map_option fst (conf_ip (info_cfg i))) w) of
           (None, w1) \<Rightarrow> Exits
         | (Some ip, w1) \<Rightarrow> Returns (i\<lparr>info_cfg := (info_cfg i)\<lparr>conf_ip := Some ip\<rparr>\<rparr>, w1))
      else if opt = CHR ''p'' then
        (case parse_number optarg 1 65535 of
           None \<Rightarrow> Exits
         | Some n \<Rightarrow> Returns (i\<lparr>info_cfg := (info_cfg i)\<lparr>conf_port := word_of_int n\<rparr>\<rparr>, w))
      else if opt = CHR ''w'' then
        (case parse_number optarg 1 64 of
           None \<Rightarrow> Exits
         | Some n \<Rightarrow> Returns (i\<lparr>info_cfg := (info_cfg i)\<lparr>conf_workers := nat n\<rparr>\<rparr>, w))
      else if opt = CHR ''v'' then
        (case parse_number optarg 0 4 of
           None \<Rightarrow> Exits
         | Some n \<Rightarrow> Returns (i\<lparr>info_log := (info_log i)\<lparr>verbosity := n\<rparr>\<rparr>, w))
      else if opt = CHR ''l'' then
        (case log_set_file (Some optarg) (info_log i) w of
           (False, _, _) \<Rightarrow> Exits
         | (True, l, w1) \<Rightarrow> Returns (i\<lparr>info_log := l\<rparr>, w1))
      else if opt = CHR ''M'' \<or> opt = CHR ''P'' \<or> opt = CHR ''K'' then Returns (i, w)
      else Exits)"

fun pulsar_options :: "(char \<times> string) list \<Rightarrow> PulsarServerInfo \<Rightarrow> pulsar_world \<Rightarrow> (PulsarServerInfo \<times> pulsar_world) pulsar_run" where
  "pulsar_options [] i w = Returns (i, w)"
| "pulsar_options ((opt, optarg) # opts) i w =
     andThen (pulsar_option opt optarg i w) (\<lambda>(i1, w1). pulsar_options opts i1 w1)"

definition pulsar_parse_args :: "int \<Rightarrow> (char \<times> string) list \<Rightarrow> pulsar_world \<Rightarrow> (PulsarServerInfo \<times> pulsar_world) pulsar_run" where
  "pulsar_parse_args pid opts w =
     (let (lo, w1) = log_new pid (Some ''log/pulsar.log'') PULSAR_DEBUG w;
          (ip, w2) = strdup WEBSERVER_DEFAULT_IP w1;
          (co, w3) = conf_new ip WEBSERVER_DEFAULT_PORT WEBSERVER_DEFAULT_WORKERS w2
      in case (lo, co) of
           (Some l, Some c) \<Rightarrow> pulsar_options opts \<lparr>info_cfg = c, info_log = l\<rparr> w3
         | _ \<Rightarrow> Exits)"

section \<open>The workers\<close>

record worker =
  w_mem :: nat
  w_thread :: "nat option"
  w_started :: bool
  w_stopRequested :: bool
  w_stop0 :: "nat option"
  w_stop1 :: "nat option"
  w_base :: "nat option"
  w_stopEvent :: "nat option"
  w_http :: "nat option"

definition worker_new :: "pulsar_world \<Rightarrow> worker option \<times> pulsar_world" where
  "worker_new w = (case acquire WorkerMem w of
     (None, w1) \<Rightarrow> (None, w1)
   | (Some h, w1) \<Rightarrow> (Some \<lparr>w_mem = h, w_thread = None, w_started = False, w_stopRequested = False, w_stop0 = None,
       w_stop1 = None, w_base = None, w_stopEvent = None, w_http = None\<rparr>, w1))"

text \<open>
  The thread: what it does before it dispatches events, and after the stop handler ended that. An
  assertion that fails ends the process.
\<close>

definition worker_main_begin :: "worker \<Rightarrow> pulsar_world \<Rightarrow> (worker \<times> pulsar_world) pulsar_run" where
  "worker_main_begin k w = (case acquire EventBase w of
     (None, _) \<Rightarrow> Aborts
   | (Some b, w1) \<Rightarrow> (case acquire HttpServer w1 of
       (None, _) \<Rightarrow> Aborts
     | (Some h, w2) \<Rightarrow> (case acquire StopEvent w2 of
         (None, _) \<Rightarrow> Aborts
       | (Some v, w3) \<Rightarrow>
           let (added, w4) = ask w3; (accepting, w5) = ask w4
           in if \<not> added \<or> \<not> accepting then Aborts
              else Returns (k\<lparr>w_base := Some b, w_http := Some h, w_stopEvent := Some v\<rparr>, w5))))"

definition worker_main_end :: "worker \<Rightarrow> pulsar_world \<Rightarrow> (worker \<times> pulsar_world) pulsar_run" where
  "worker_main_end k w =
     (let (dispatched, w1) = ask w
      in if \<not> dispatched then Aborts
         else Returns (k\<lparr>w_http := None, w_stopEvent := None, w_base := None, w_stop0 := None\<rparr>,
           releaseIf StopSocket (w_stop0 k) (releaseIf EventBase (w_base k)
             (releaseIf StopEvent (w_stopEvent k) (releaseIf HttpServer (w_http k) w1)))))"

definition closeStopSockets :: "worker \<Rightarrow> pulsar_world \<Rightarrow> worker \<times> pulsar_world" where
  "closeStopSockets k w = (k\<lparr>w_stop0 := None, w_stop1 := None\<rparr>,
     releaseIf StopSocket (w_stop1 k) (releaseIf StopSocket (w_stop0 k) w))"

text \<open>The flag tells whether the worker was started.\<close>

definition worker_start :: "worker \<Rightarrow> pulsar_world \<Rightarrow> (bool \<times> worker \<times> pulsar_world) pulsar_run" where
  "worker_start k w = (case ask w of
     (False, w1) \<Rightarrow> Returns (False, k, w1)
   | (True, w1) \<Rightarrow>
       let (s0, w2) = takeHandle StopSocket w1; (s1, w3) = takeHandle StopSocket w2;
           k1 = k\<lparr>w_stop0 := Some s0, w_stop1 := Some s1\<rparr>;
           (nonblocking0, w4) = ask w3;
           (nonblocking1, w5) = (if nonblocking0 then ask w4 else (False, w4))
       in if \<not> nonblocking1 then Returns (False, closeStopSockets k1 w5)
          else (case ask w5 of
              (False, w6) \<Rightarrow> (case closeStopSockets k1 w6 of (k2, w7) \<Rightarrow> Returns (False, k2\<lparr>w_started := False\<rparr>, w7))
            | (True, w6) \<Rightarrow>
                let (t, w7) = takeHandle WorkerThread w6
                in andThen (worker_main_begin k1 w7)
                     (\<lambda>(k2, w8). Returns (True, k2\<lparr>w_thread := Some t, w_started := True\<rparr>, w8))))"

text \<open>The loop around \<^verbatim>\<open>send\<close>: the result, the error, and the number of the next call.\<close>

partial_function (option) sendLoop :: "(nat \<Rightarrow> int \<times> int) \<Rightarrow> nat \<Rightarrow> (int \<times> int \<times> nat) option" where
  "sendLoop answer n =
     (let (rc, errno) = answer n
      in if rc < 0 \<and> errno = EINTR then sendLoop answer (n + 1) else Some (rc, errno, n + 1))"

definition worker_stop :: "worker \<Rightarrow> pulsar_world \<Rightarrow> (bool \<times> worker \<times> pulsar_world) pulsar_run" where
  "worker_stop k w =
     (if \<not> w_started k \<or> w_stopRequested k then Returns (True, k, w)
      else case sendLoop (sendAnswers w) (sent w) of
        None \<Rightarrow> Hangs
      | Some (rc, errno, n) \<Rightarrow>
          if 0 \<le> rc \<or> errno = EAGAIN then Returns (True, k\<lparr>w_stopRequested := True\<rparr>, w\<lparr>sent := n\<rparr>)
          else Returns (False, k, w\<lparr>sent := n\<rparr>))"

text \<open>The join: a thread ends when its stop event was signalled, and only then.\<close>

definition worker_join :: "worker \<Rightarrow> pulsar_world \<Rightarrow> (worker \<times> pulsar_world) pulsar_run" where
  "worker_join k w =
     (if \<not> w_stopRequested k then Hangs
      else andThen (worker_main_end k w) (\<lambda>(k1, w1). Returns (k1, releaseIf WorkerThread (w_thread k1) w1)))"

definition worker_free :: "worker \<Rightarrow> pulsar_world \<Rightarrow> pulsar_world pulsar_run" where
  "worker_free k w =
     andThen (if w_started k then andThen (worker_stop k w) (\<lambda>(_, k1, w1). worker_join k1 w1) else Returns (k, w))
       (\<lambda>(k1, w1). Returns (release WorkerMem (w_mem k1) (releaseIf EventBase (w_base k1) (releaseIf StopEvent (w_stopEvent k1)
          (releaseIf HttpServer (w_http k1) (releaseIf StopSocket (w_stop1 k1) (releaseIf StopSocket (w_stop0 k1) w1)))))))"

section \<open>The server\<close>

record server =
  s_mem :: nat
  s_cfg :: conf
  s_log :: logger
  s_fd :: "nat option"
  s_base :: "nat option"
  s_signalInt :: "nat option"
  s_signalHup :: "nat option"
  s_array :: nat
  s_workers :: "worker list"

text \<open>The port in network order: \<^verbatim>\<open>htons\<close> of the port as a \<^verbatim>\<open>short\<close>.\<close>

definition htons_bytes :: "int \<Rightarrow> Int8U list" where
  "htons_bytes port = (let p = word_of_int port :: Int16U in [ucast (drop_bit 8 p), ucast p])"

definition server_setup_socket :: "string \<Rightarrow> int \<Rightarrow> pulsar_world \<Rightarrow> nat option \<times> pulsar_world" where
  "server_setup_socket ip port w = (case ask w of
     (False, w1) \<Rightarrow> (None, w1)
   | (True, w1) \<Rightarrow> (case acquire ListenSocket w1 of
       (None, w2) \<Rightarrow> (None, w2)
     | (Some fd, w2) \<Rightarrow> (case ask w2 of
         (False, w3) \<Rightarrow> (None, release ListenSocket fd w3)
       | (True, w3) \<Rightarrow> (case ask w3 of
           (False, w4) \<Rightarrow> (None, release ListenSocket fd w4)
         | (True, w4) \<Rightarrow> (case ask w4 of
             (False, w5) \<Rightarrow> (None, release ListenSocket fd w5)
           | (True, w5) \<Rightarrow>
               let w6 = w5\<lparr>boundTo := boundTo w5 @ [(ip, htons_bytes port)]\<rparr>
               in (case ask w6 of
                   (False, w7) \<Rightarrow> (None, release ListenSocket fd w7)
                 | (True, w7) \<Rightarrow> (Some fd, w7)))))))"

text \<open>The loop that makes the workers: when one cannot be made, those before it are freed, the newest first.\<close>

fun newWorkers :: "nat \<Rightarrow> worker list \<Rightarrow> pulsar_world \<Rightarrow> worker list option \<times> pulsar_world" where
  "newWorkers 0 ks w = (Some ks, w)"
| "newWorkers (Suc n) ks w = (case worker_new w of
     (None, w1) \<Rightarrow> (None, fold (\<lambda>k. release WorkerMem (w_mem k)) (rev ks) w1)
   | (Some k, w1) \<Rightarrow> newWorkers n (ks @ [k]) w1)"

definition server_new :: "conf \<Rightarrow> logger \<Rightarrow> pulsar_world \<Rightarrow> server option \<times> pulsar_world" where
  "server_new cfg log w = (case acquire ServerMem w of
     (None, w1) \<Rightarrow> (None, w1)
   | (Some m, w1) \<Rightarrow> (case acquire WorkerArray w1 of
       (None, w2) \<Rightarrow> (None, release ServerMem m w2)
     | (Some a, w2) \<Rightarrow> (case newWorkers (conf_workers cfg) [] w2 of
         (None, w3) \<Rightarrow> (None, release ServerMem m (release WorkerArray a w3))
       | (Some ks, w3) \<Rightarrow> (Some \<lparr>s_mem = m, s_cfg = cfg, s_log = log, s_fd = None, s_base = None, s_signalInt = None,
           s_signalHup = None, s_array = a, s_workers = ks\<rparr>, log_it log PULSAR_DEBUG ''workers initialized ...'' w3))))"

fun stopWorkers :: "worker list \<Rightarrow> pulsar_world \<Rightarrow> (worker list \<times> pulsar_world) pulsar_run" where
  "stopWorkers [] w = Returns ([], w)"
| "stopWorkers (k # ks) w = andThen (worker_stop k w) (\<lambda>(_, k1, w1).
     andThen (stopWorkers ks w1) (\<lambda>(ks1, w2). Returns (k1 # ks1, w2)))"

fun freeWorkers :: "worker list \<Rightarrow> pulsar_world \<Rightarrow> pulsar_world pulsar_run" where
  "freeWorkers [] w = Returns w"
| "freeWorkers (k # ks) w = andThen (worker_free k w) (freeWorkers ks)"

definition server_free :: "server \<Rightarrow> pulsar_world \<Rightarrow> pulsar_world pulsar_run" where
  "server_free s w =
     andThen (stopWorkers (s_workers s) w) (\<lambda>(ks, w1).
     andThen (freeWorkers ks w1) (\<lambda>w2.
       let w3 = releaseIf ListenSocket (s_fd s) (releaseIf EventBase (s_base s)
             (releaseIf SignalEvent (s_signalHup s) (releaseIf SignalEvent (s_signalInt s) w2)))
       in Returns (release ServerMem (s_mem s) (log_free (s_log s) (conf_free (s_cfg s) (release WorkerArray (s_array s) w3))))))"

text \<open>The loop that starts the workers: the flag tells whether all of them were.\<close>

fun startWorkers :: "worker list \<Rightarrow> pulsar_world \<Rightarrow> (bool \<times> worker list \<times> pulsar_world) pulsar_run" where
  "startWorkers [] w = Returns (True, [], w)"
| "startWorkers (k # ks) w = andThen (worker_start k w) (\<lambda>(ok, k1, w1).
     if \<not> ok then Returns (False, k1 # ks, w1)
     else andThen (startWorkers ks w1) (\<lambda>(ok1, ks1, w2). Returns (ok1, k1 # ks1, w2)))"

definition server_fails :: "server \<Rightarrow> pulsar_world \<Rightarrow> (bool \<times> pulsar_world) pulsar_run" where
  "server_fails s w = andThen (server_free s w) (\<lambda>w1. Returns (False, w1))"

text \<open>A signal event that is made but cannot be added is freed with the server.\<close>

definition server_start :: "server \<Rightarrow> pulsar_world \<Rightarrow> (bool \<times> pulsar_world) pulsar_run" where
  "server_start s w =
     (let (base, w1) = acquire EventBase w; s1 = s\<lparr>s_base := base\<rparr>
      in if base = None then server_fails s1 w1
         else
           let (sigInt, w2) = acquire SignalEvent w1; s2 = s1\<lparr>s_signalInt := sigInt\<rparr>;
               (intAdded, w3) = (if sigInt = None then (False, w2) else ask w2)
           in if \<not> intAdded then server_fails s2 w3
              else
                let (sigHup, w4) = acquire SignalEvent w3; s3 = s2\<lparr>s_signalHup := sigHup\<rparr>;
                    (hupAdded, w5) = (if sigHup = None then (False, w4) else ask w4)
                in if \<not> hupAdded then server_fails s3 w5
                   else (case conf_ip (s_cfg s3) of
                       None \<Rightarrow> Undefined
                     | Some (_, ip) \<Rightarrow>
                         let (fd, w6) = server_setup_socket ip (sint (conf_port (s_cfg s3))) w5; s4 = s3\<lparr>s_fd := fd\<rparr>
                         in if fd = None then server_fails s4 w6
                            else andThen (startWorkers (s_workers s4) w6) (\<lambda>(ok, ks, w7).
                              let s5 = s4\<lparr>s_workers := ks\<rparr>
                              in if \<not> ok then server_fails s5 w7
                                 else
                                   let (dispatched, w8) = ask w7
                                   in andThen (server_free s5 w8) (\<lambda>w9. Returns (dispatched, w9)))))"

definition pulsar_main :: "PulsarServerInfo \<Rightarrow> pulsar_world \<Rightarrow> (bool \<times> pulsar_world) pulsar_run" where
  "pulsar_main i w = (case server_new (info_cfg i) (info_log i) w of
     (None, w1) \<Rightarrow> Returns (False, log_free (info_log i) (conf_free (info_cfg i) w1))
   | (Some s, w1) \<Rightarrow> server_start s w1)"

section \<open>The books\<close>

text \<open>What is live is what is listed, and nothing was given back that was not live.\<close>

definition books :: "(pulsar_kind \<times> nat) multiset \<Rightarrow> pulsar_world \<Rightarrow> bool" where
  "books r w \<longleftrightarrow> mset (live w) = r \<and> badFrees w = 0"

definition optional :: "pulsar_kind \<Rightarrow> nat option \<Rightarrow> (pulsar_kind \<times> nat) multiset" where
  "optional k ho = (case ho of None \<Rightarrow> {#} | Some h \<Rightarrow> {#(k, h)#})"

lemma optional_simps [simp]: "optional k None = {#}" "optional k (Some h) = {#(k, h)#}"
  by (simp_all add: optional_def)

definition logger_holds :: "logger \<Rightarrow> (pulsar_kind \<times> nat) multiset" where
  "logger_holds l = {#(LoggerMem, log_mem l)#} + (case log_fd l of LogFd h \<Rightarrow> {#(LogFile, h)#} | _ \<Rightarrow> {#})"

definition conf_holds :: "conf \<Rightarrow> (pulsar_kind \<times> nat) multiset" where
  "conf_holds c = {#(ConfMem, conf_mem c)#} + optional IpMem (map_option fst (conf_ip c))"

definition worker_holds :: "worker \<Rightarrow> (pulsar_kind \<times> nat) multiset" where
  "worker_holds k = {#(WorkerMem, w_mem k)#} + optional StopSocket (w_stop0 k) + optional StopSocket (w_stop1 k) +
     optional EventBase (w_base k) + optional StopEvent (w_stopEvent k) + optional HttpServer (w_http k) +
     optional WorkerThread (w_thread k)"

definition workers_hold :: "worker list \<Rightarrow> (pulsar_kind \<times> nat) multiset" where
  "workers_hold ks = sum_list (map worker_holds ks)"

definition server_holds :: "server \<Rightarrow> (pulsar_kind \<times> nat) multiset" where
  "server_holds s = {#(ServerMem, s_mem s)#} + {#(WorkerArray, s_array s)#} + optional ListenSocket (s_fd s) +
     optional EventBase (s_base s) + optional SignalEvent (s_signalInt s) + optional SignalEvent (s_signalHup s) +
     workers_hold (s_workers s) + conf_holds (s_cfg s) + logger_holds (s_log s)"

lemma workers_hold_simps [simp]:
  "workers_hold [] = {#}" "workers_hold (k # ks) = worker_holds k + workers_hold ks"
  "workers_hold (ks @ js) = workers_hold ks + workers_hold js"
  by (simp_all add: workers_hold_def)

definition worker_ok :: "worker \<Rightarrow> bool" where
  "worker_ok k \<longleftrightarrow> (w_started k \<longleftrightarrow> w_thread k \<noteq> None) \<and> (w_stopRequested k \<longrightarrow> w_started k)"

text \<open>A worker that was never started holds its memory and nothing else.\<close>

definition worker_idle :: "worker \<Rightarrow> bool" where
  "worker_idle k \<longleftrightarrow> \<not> w_started k \<and> \<not> w_stopRequested k \<and> w_thread k = None \<and> w_stop0 k = None \<and> w_stop1 k = None \<and>
     w_base k = None \<and> w_stopEvent k = None \<and> w_http k = None"

lemma worker_idle_ok: "worker_idle k \<Longrightarrow> worker_ok k"
  by (simp add: worker_idle_def worker_ok_def)

lemma andThen_simps [simp]: "andThen (Returns x) f = f x" "andThen Exits f = Exits" "andThen Aborts f = Aborts"
  "andThen Undefined f = Undefined" "andThen Hangs f = Hangs"
  by (simp_all add: andThen_def)

lemma andThen_Returns: "andThen r f = Returns y \<longleftrightarrow> (\<exists>x. r = Returns x \<and> f x = Returns y)"
  by (cases r) auto

lemma books_ask: "ask w = (b, w1) \<Longrightarrow> books r w1 = books r w"
  by (auto simp: ask_def books_def)

lemma books_take: "takeHandle k w = (h, w1) \<Longrightarrow> books r w \<Longrightarrow> books (add_mset (k, h) r) w1"
  by (auto simp: takeHandle_def books_def)

lemma books_acquire: "acquire k w = (ho, w1) \<Longrightarrow> books r w \<Longrightarrow> books (optional k ho + r) w1"
  by (auto simp: acquire_def ask_def takeHandle_def books_def split: bool.splits prod.splits)

lemma books_given_back:
  assumes "books (add_mset (k, h) r) w" shows "books r (release k h w)"
proof -
  have m: "mset (live w) = add_mset (k, h) r" using assms by (simp add: books_def)
  then have "(k, h) \<in># mset (live w)" by simp
  then have "(k, h) \<in> set (live w)" by simp
  then show ?thesis using assms m by (simp add: books_def release_def)
qed

lemma books_releaseIf: "books (optional k ho + r) w \<Longrightarrow> books r (releaseIf k ho w)"
  by (cases ho) (simp_all add: releaseIf_def books_given_back)

lemma books_boundTo [simp]: "books r (w\<lparr>boundTo := x\<rparr>) = books r w" "books r (w\<lparr>sent := n\<rparr>) = books r w"
  "books r (log_it l level body w) = books r w"
  by (simp_all add: books_def log_it_def Let_def)

text \<open>A chain of releases gives back the sum of what it names.\<close>

lemma books_chain:
  "books (optional k ho + r) w \<Longrightarrow> books r (releaseIf k ho w)"
  "books (add_mset (k, h) r) w \<Longrightarrow> books r (release k h w)"
  by (simp_all add: books_releaseIf books_given_back)

lemma books_closeLogFile:
  "books ((case log_fd l of LogFd h \<Rightarrow> {#(LogFile, h)#} | _ \<Rightarrow> {#}) + r) w \<Longrightarrow> books r (closeLogFile l w)"
  by (simp add: closeLogFile_def books_given_back split: log_fd.splits)

lemma books_log_free: "books (logger_holds l + r) w \<Longrightarrow> books r (log_free l w)"
  unfolding log_free_def logger_holds_def
  by (intro books_given_back books_closeLogFile) (simp add: ac_simps)

lemma books_conf_free: "books (conf_holds c + r) w \<Longrightarrow> books r (conf_free c w)"
  unfolding conf_free_def conf_holds_def
  by (intro books_given_back books_releaseIf) (simp add: ac_simps)

lemma books_log_set_file:
  assumes "books (logger_holds l + r) w" "log_set_file file l w = (ok, l1, w1)"
  shows "books (logger_holds l1 + r) w1"
proof -
  have b: "books (add_mset (LoggerMem, log_mem l) r) (closeLogFile l w)"
    using assms(1) by (intro books_closeLogFile) (simp add: logger_holds_def ac_simps)
  show ?thesis
  proof (cases "file")
    case None
    then show ?thesis using assms(2) b by (auto simp: log_set_file_def logger_holds_def)
  next
    case (Some f)
    obtain ho w2 where a: "acquire LogFile (closeLogFile l w) = (ho, w2)" by fastforce
    from books_acquire[OF a b] show ?thesis
      using assms(2) a Some by (cases ho) (auto simp: log_set_file_def logger_holds_def ac_simps)
  qed
qed

section \<open>The books of the workers\<close>

lemma books_worker_new:
  assumes "books r w" "worker_new w = (ko, w1)"
  shows "case ko of None \<Rightarrow> books r w1 | Some k \<Rightarrow> worker_idle k \<and> books (worker_holds k + r) w1"
proof -
  obtain ho w2 where a: "acquire WorkerMem w = (ho, w2)" by fastforce
  from books_acquire[OF a assms(1)] show ?thesis
    using assms(2) a by (cases ho) (auto simp: worker_new_def worker_holds_def worker_idle_def)
qed

lemma books_worker_main_begin:
  assumes "books (worker_holds k + r) w" "w_base k = None" "w_http k = None" "w_stopEvent k = None"
    "worker_main_begin k w = Returns (k1, w1)"
  shows "books (worker_holds k1 + r) w1 \<and> w_started k1 = w_started k \<and> w_stopRequested k1 = w_stopRequested k \<and> w_thread k1 = w_thread k"
proof -
  obtain b w2 where a1: "acquire EventBase w = (b, w2)" by fastforce
  obtain h w3 where a2: "acquire HttpServer w2 = (h, w3)" by fastforce
  obtain v w4 where a3: "acquire StopEvent w3 = (v, w4)" by fastforce
  obtain x w5 where a4: "ask w4 = (x, w5)" by fastforce
  obtain y w6 where a5: "ask w5 = (y, w6)" by fastforce
  have "books (optional StopEvent v + (optional HttpServer h + (optional EventBase b + (worker_holds k + r)))) w6"
    using books_acquire[OF a3 books_acquire[OF a2 books_acquire[OF a1 assms(1)]]] books_ask[OF a4] books_ask[OF a5] by simp
  then show ?thesis
    using assms(2-) a1 a2 a3 a4 a5
    by (auto simp: worker_main_begin_def worker_holds_def Let_def ac_simps add_mset_commute split: option.splits if_splits)
qed

lemma books_worker_main_end:
  assumes "books (worker_holds k + r) w" "worker_main_end k w = Returns (k1, w1)"
  shows "books (worker_holds k1 + r) w1 \<and> w_thread k1 = w_thread k \<and> w_mem k1 = w_mem k"
proof -
  obtain x w2 where a: "ask w = (x, w2)" by fastforce
  have "books ({#(WorkerMem, w_mem k)#} + optional StopSocket (w_stop1 k) + optional WorkerThread (w_thread k) + r)
     (releaseIf StopSocket (w_stop0 k) (releaseIf EventBase (w_base k)
             (releaseIf StopEvent (w_stopEvent k) (releaseIf HttpServer (w_http k) w2))))"
    using assms(1) by (intro books_releaseIf) (simp add: books_ask[OF a] worker_holds_def ac_simps)
  then show ?thesis using assms(2) a by (auto simp: worker_main_end_def worker_holds_def ac_simps split: if_splits)
qed

lemma books_worker_start:
  assumes "worker_idle k" "books (worker_holds k + r) w" "worker_start k w = Returns (ok, k1, w1)"
  shows "books (worker_holds k1 + r) w1 \<and> worker_ok k1 \<and> \<not> w_stopRequested k1"
proof -
  obtain p w2 where a1: "ask w = (p, w2)" by fastforce
  have b2: "books (worker_holds k + r) w2" using assms(2) books_ask[OF a1] by simp
  show ?thesis
  proof (cases p)
    case False
    then show ?thesis using assms(1,3) a1 b2 by (auto simp: worker_start_def worker_idle_ok worker_idle_def)
  next
    case True
    obtain s0 w3 where t0: "takeHandle StopSocket w2 = (s0, w3)" by fastforce
    obtain s1 w4 where t1: "takeHandle StopSocket w3 = (s1, w4)" by fastforce
    let ?k = "k\<lparr>w_stop0 := Some s0, w_stop1 := Some s1\<rparr>"
    have "books (add_mset (StopSocket, s1) (add_mset (StopSocket, s0) (worker_holds k + r))) w4"
      by (rule books_take[OF t1 books_take[OF t0 b2]])
    moreover have "add_mset (StopSocket, s1) (add_mset (StopSocket, s0) (worker_holds k + r)) = worker_holds ?k + r"
      using assms(1) by (simp add: worker_holds_def worker_idle_def ac_simps add_mset_commute)
    ultimately have b4: "books (worker_holds ?k + r) w4" by simp
    obtain n0 w5 where a2: "ask w4 = (n0, w5)" by fastforce
    obtain n1 w6 where a3: "(if n0 then ask w5 else (False, w5)) = (n1, w6)" by fastforce
    have b6: "books (worker_holds ?k + r) w6" using b4 books_ask[OF a2] a3 books_ask[of w5] by (auto split: if_splits)
    have close: "books (worker_holds (fst (closeStopSockets ?k u)) + r) (snd (closeStopSockets ?k u)) \<and>
        worker_idle (fst (closeStopSockets ?k u))" if "books (worker_holds ?k + r) u" for u
    proof -
      have "books (worker_holds k + r) (releaseIf StopSocket (Some s1) (releaseIf StopSocket (Some s0) u))"
        using that assms(1) by (intro books_releaseIf) (simp add: worker_holds_def worker_idle_def ac_simps add_mset_commute)
      then show ?thesis using assms(1) by (simp add: closeStopSockets_def worker_holds_def worker_idle_def)
    qed
    show ?thesis
    proof (cases n1)
      case False
      then have "k1 = fst (closeStopSockets ?k w6)" "w1 = snd (closeStopSockets ?k w6)"
        using assms(3) True a1 t0 t1 a2 a3 by (auto simp: worker_start_def Let_def closeStopSockets_def)
      then show ?thesis using close[OF b6] worker_idle_ok by (auto simp: worker_idle_def)
    next
      case n1: True
      obtain c w7 where a4: "ask w6 = (c, w7)" by fastforce
      have b7: "books (worker_holds ?k + r) w7" using b6 books_ask[OF a4] by simp
      show ?thesis
      proof (cases c)
        case False
        then have "k1 = (fst (closeStopSockets ?k w7))\<lparr>w_started := False\<rparr>" "w1 = snd (closeStopSockets ?k w7)"
          using assms(3) True n1 a1 t0 t1 a2 a3 a4 by (auto simp: worker_start_def Let_def split: prod.splits)
        moreover have "(fst (closeStopSockets ?k w7))\<lparr>w_started := False\<rparr> = fst (closeStopSockets ?k w7)"
          using assms(1) by (simp add: closeStopSockets_def worker_idle_def)
        ultimately show ?thesis using close[OF b7] worker_idle_ok by (auto simp: worker_idle_def)
      next
        case c: True
        obtain t w8 where t2: "takeHandle WorkerThread w7 = (t, w8)" by fastforce
        obtain k2 w9 where m: "worker_main_begin ?k w8 = Returns (k2, w9)"
            and k1: "k1 = k2\<lparr>w_thread := Some t, w_started := True\<rparr>" "w1 = w9"
          using assms(3) True n1 c a1 t0 t1 a2 a3 a4 t2 by (auto simp: worker_start_def Let_def andThen_Returns)
        have "books (worker_holds ?k + add_mset (WorkerThread, t) r) w8" using books_take[OF t2 b7] by simp
        from books_worker_main_begin[OF this _ _ _ m]
        have "books (worker_holds k2 + add_mset (WorkerThread, t) r) w9" "w_thread k2 = None" "\<not> w_stopRequested k2"
          using assms(1) by (auto simp: worker_idle_def)
        then show ?thesis using k1 by (simp add: worker_holds_def worker_ok_def ac_simps)
      qed
    qed
  qed
qed

lemma worker_stop_books:
  assumes "worker_stop k w = Returns (ok, k1, w1)"
  shows "worker_holds k1 = worker_holds k \<and> books r w1 = books r w \<and> (worker_ok k \<longrightarrow> worker_ok k1) \<and>
    w_started k1 = w_started k \<and> (w_stopRequested k \<longrightarrow> w_stopRequested k1) \<and> (ok \<and> w_started k \<longrightarrow> w_stopRequested k1)"
  using assms by (auto simp: worker_stop_def worker_holds_def worker_ok_def split: if_splits option.splits)

lemma books_worker_free:
  assumes "books (worker_holds k + r) w" "worker_ok k" "worker_free k w = Returns w1"
  shows "books r w1"
proof -
  let ?rest = "\<lambda>k. {#(WorkerMem, w_mem k)#} + optional StopSocket (w_stop0 k) + optional StopSocket (w_stop1 k) +
     optional EventBase (w_base k) + optional StopEvent (w_stopEvent k) + optional HttpServer (w_http k)"
  have tail: "books r (release WorkerMem (w_mem k1) (releaseIf EventBase (w_base k1) (releaseIf StopEvent (w_stopEvent k1)
          (releaseIf HttpServer (w_http k1) (releaseIf StopSocket (w_stop1 k1) (releaseIf StopSocket (w_stop0 k1) u))))))"
    if "books (?rest k1 + r) u" for k1 u
    using that by (intro books_given_back books_releaseIf) (simp add: ac_simps)
  show ?thesis
  proof (cases "w_started k")
    case False
    then have "worker_holds k = ?rest k" using assms(2) by (simp add: worker_ok_def worker_holds_def)
    then show ?thesis using assms(1,3) False tail[of k w] by (simp add: worker_free_def)
  next
    case True
    from assms(3) True obtain ok k1 u where st: "worker_stop k w = Returns (ok, k1, u)"
        and "\<exists>k3 u3. worker_join k1 u = Returns (k3, u3) \<and> w1 = release WorkerMem (w_mem k3) (releaseIf EventBase (w_base k3)
          (releaseIf StopEvent (w_stopEvent k3) (releaseIf HttpServer (w_http k3)
          (releaseIf StopSocket (w_stop1 k3) (releaseIf StopSocket (w_stop0 k3) u3)))))"
      by (auto simp: worker_free_def andThen_Returns)
    then obtain k3 u3 where j: "worker_join k1 u = Returns (k3, u3)"
        and w1: "w1 = release WorkerMem (w_mem k3) (releaseIf EventBase (w_base k3) (releaseIf StopEvent (w_stopEvent k3)
          (releaseIf HttpServer (w_http k3) (releaseIf StopSocket (w_stop1 k3) (releaseIf StopSocket (w_stop0 k3) u3)))))" by blast
    obtain u2 where e: "worker_main_end k1 u = Returns (k3, u2)" "u3 = releaseIf WorkerThread (w_thread k3) u2"
      using j by (auto simp: worker_join_def andThen_Returns split: if_splits)
    have "books (worker_holds k1 + r) u" using worker_stop_books[OF st, of "worker_holds k + r"] assms(1) by simp
    from books_worker_main_end[OF this e(1)] have "books (worker_holds k3 + r) u2" by blast
    then have "books (?rest k3 + r) u3" unfolding e(2)
      by (intro books_releaseIf) (simp add: worker_holds_def ac_simps)
    then show ?thesis unfolding w1 by (rule tail)
  qed
qed

section \<open>The books of the server\<close>

lemma books_newWorkers:
  "books (workers_hold ks + r) w \<Longrightarrow> list_all worker_idle ks \<Longrightarrow> newWorkers n ks w = (kso, w1) \<Longrightarrow>
    (case kso of None \<Rightarrow> books r w1 | Some js \<Rightarrow> list_all worker_idle js \<and> books (workers_hold js + r) w1)"
proof (induction n ks w rule: newWorkers.induct)
  case (2 n ks w)
  obtain ko w2 where a: "worker_new w = (ko, w2)" by fastforce
  note b = books_worker_new[OF 2(2) a]
  have frees: "books r (fold (\<lambda>k. release WorkerMem (w_mem k)) js u)"
    if "books (workers_hold js + r) u" "list_all worker_idle js" for js u
    using that
  proof (induction js arbitrary: u)
    case (Cons j js)
    have "worker_holds j = {#(WorkerMem, w_mem j)#}" using Cons.prems(2) by (simp add: worker_holds_def worker_idle_def)
    then show ?case using Cons by (simp add: books_given_back)
  qed simp
  show ?case
  proof (cases ko)
    case None
    have "workers_hold (rev ks) = workers_hold ks"
      by (induction ks) (simp_all add: ac_simps)
    then show ?thesis using 2(3,4) None a b frees[of "rev ks" w2] by (auto simp: list_all_iff)
  next
    case (Some k)
    have "books (workers_hold (ks @ [k]) + r) w2" using Some b by (simp add: ac_simps)
    then show ?thesis using 2(1)[OF a[symmetric] Some] 2(3,4) Some a b by simp
  qed
qed auto

lemma books_stopWorkers:
  "stopWorkers ks w = Returns (js, w1) \<Longrightarrow> workers_hold js = workers_hold ks \<and> books r w1 = books r w \<and>
    (list_all worker_ok ks \<longrightarrow> list_all worker_ok js)"
proof (induction ks arbitrary: w js)
  case (Cons k ks)
  then obtain ok k1 w2 ks1 where s: "worker_stop k w = Returns (ok, k1, w2)" "stopWorkers ks w2 = Returns (ks1, w1)" "js = k1 # ks1"
    by (auto simp: andThen_Returns)
  then show ?case using worker_stop_books[OF s(1), of r] Cons.IH[OF s(2)] by simp
qed simp

lemma books_freeWorkers:
  "books (workers_hold ks + r) w \<Longrightarrow> list_all worker_ok ks \<Longrightarrow> freeWorkers ks w = Returns w1 \<Longrightarrow> books r w1"
proof (induction ks arbitrary: w)
  case (Cons k ks)
  then obtain w2 where f: "worker_free k w = Returns w2" "freeWorkers ks w2 = Returns w1" by (auto simp: andThen_Returns)
  have "books (workers_hold ks + r) w2"
    by (rule books_worker_free[OF _ _ f(1)]) (use Cons.prems in \<open>simp_all add: ac_simps\<close>)
  then show ?case using Cons f by simp
qed simp

lemma books_server_free:
  assumes "books (server_holds s + r) w" "list_all worker_ok (s_workers s)" "server_free s w = Returns w1"
  shows "books r w1"
proof -
  obtain ks w2 w3 where st: "stopWorkers (s_workers s) w = Returns (ks, w2)" and fr: "freeWorkers ks w2 = Returns w3"
      and w1: "w1 = release ServerMem (s_mem s) (log_free (s_log s) (conf_free (s_cfg s) (release WorkerArray (s_array s)
        (releaseIf ListenSocket (s_fd s) (releaseIf EventBase (s_base s)
             (releaseIf SignalEvent (s_signalHup s) (releaseIf SignalEvent (s_signalInt s) w3)))))))"
    using assms(3) by (auto simp: server_free_def andThen_Returns Let_def)
  let ?rest = "{#(ServerMem, s_mem s)#} + {#(WorkerArray, s_array s)#} + optional ListenSocket (s_fd s) +
     optional EventBase (s_base s) + optional SignalEvent (s_signalInt s) + optional SignalEvent (s_signalHup s) +
     conf_holds (s_cfg s) + logger_holds (s_log s) + r"
  have e: "server_holds s + r = workers_hold (s_workers s) + ?rest" by (simp add: server_holds_def ac_simps)
  have "books (workers_hold ks + ?rest) w2" "list_all worker_ok ks"
    using books_stopWorkers[OF st, of "workers_hold (s_workers s) + ?rest"] assms(1,2) unfolding e by auto
  from books_freeWorkers[OF this fr] have "books ?rest w3" .
  then show ?thesis unfolding w1
    by (intro books_given_back books_log_free books_conf_free books_releaseIf) (simp add: ac_simps add_mset_commute)
qed

lemma books_server_fails:
  "books (server_holds s + r) w \<Longrightarrow> list_all worker_ok (s_workers s) \<Longrightarrow> server_fails s w = Returns (ok, w1) \<Longrightarrow> books r w1"
  by (auto simp: server_fails_def andThen_Returns dest: books_server_free)

lemma books_startWorkers:
  "books (workers_hold ks + r) w \<Longrightarrow> list_all worker_idle ks \<Longrightarrow> startWorkers ks w = Returns (ok, js, w1) \<Longrightarrow>
    books (workers_hold js + r) w1 \<and> list_all worker_ok js"
proof (induction ks arbitrary: w r ok js)
  case (Cons k ks)
  obtain ok1 k1 w2 where s: "worker_start k w = Returns (ok1, k1, w2)" using Cons.prems(3) by (auto simp: andThen_Returns)
  have "books (worker_holds k + (workers_hold ks + r)) w" using Cons.prems(1) by (simp add: ac_simps)
  from books_worker_start[OF _ this s] have k1: "books (worker_holds k1 + (workers_hold ks + r)) w2" "worker_ok k1"
    using Cons.prems(2) by simp_all
  show ?case
  proof (cases ok1)
    case False
    then show ?thesis using Cons.prems(2,3) s k1 worker_idle_ok by (auto simp: list_all_iff ac_simps)
  next
    case True
    then obtain js1 where "startWorkers ks w2 = Returns (ok, js1, w1)" "js = k1 # js1"
      using Cons.prems(3) s by (auto simp: andThen_Returns)
    moreover have "books (workers_hold ks + (worker_holds k1 + r)) w2" using k1(1) by (simp add: ac_simps)
    ultimately show ?thesis using Cons.IH[of "worker_holds k1 + r" w2 ok js1] Cons.prems(2) k1(2) by (auto simp: ac_simps)
  qed
qed simp

lemma books_setup_socket:
  assumes "books r w" "server_setup_socket ip port w = (fd, w1)"
  shows "books (optional ListenSocket fd + r) w1"
proof -
  obtain b1 u1 where a1: "ask w = (b1, u1)" by fastforce
  obtain ho u2 where a2: "acquire ListenSocket u1 = (ho, u2)" by fastforce
  have c2: "books (optional ListenSocket ho + r) u2" using books_acquire[OF a2] assms(1) books_ask[OF a1] by simp
  have c1: "books r u1" using assms(1) books_ask[OF a1] by simp
  show ?thesis
  proof (cases ho)
    case None
    then show ?thesis using assms(2) a1 a2 c1 c2 by (cases b1) (simp_all add: server_setup_socket_def)
  next
    case (Some h)
    obtain b3 u3 where a3: "ask u2 = (b3, u3)" by fastforce
    obtain b4 u4 where a4: "ask u3 = (b4, u4)" by fastforce
    obtain b5 u5 where a5: "ask u4 = (b5, u5)" by fastforce
    obtain b6 u6 where a6: "ask (u5\<lparr>boundTo := boundTo u5 @ [(ip, htons_bytes port)]\<rparr>) = (b6, u6)" by fastforce
    have "books (add_mset (ListenSocket, h) r) u2" using c2 Some by simp
    then have c: "books (add_mset (ListenSocket, h) r) u3" "books (add_mset (ListenSocket, h) r) u4"
        "books (add_mset (ListenSocket, h) r) u5" "books (add_mset (ListenSocket, h) r) u6"
      using books_ask[OF a3] books_ask[OF a4] books_ask[OF a5] books_ask[OF a6] by simp_all
    show ?thesis using assms(2) a1 a2 a3 a4 a5 a6 c1 Some c books_given_back[OF c(1)] books_given_back[OF c(2)] books_given_back[OF c(3)] books_given_back[OF c(4)]
      by (cases b1; cases b3; cases b4; cases b5; cases b6) (auto simp: server_setup_socket_def Let_def)
  qed
qed

lemma books_server_start:
  assumes "books (server_holds s + r) w" "list_all worker_idle (s_workers s)" "s_base s = None" "s_signalInt s = None"
    "s_signalHup s = None" "s_fd s = None" "server_start s w = Returns (ok, w1)"
  shows "books r w1"
proof -
  have idle: "list_all worker_ok (s_workers s)" using assms(2) worker_idle_ok by (auto simp: list_all_iff)
  obtain base u1 where a1: "acquire EventBase w = (base, u1)" by fastforce
  let ?s1 = "s\<lparr>s_base := base\<rparr>"
  have b1: "books (server_holds ?s1 + r) u1"
    using books_acquire[OF a1 assms(1)] assms(3) by (simp add: server_holds_def ac_simps)
  show ?thesis
  proof (cases "base = None")
    case True
    then show ?thesis using assms(7) a1 books_server_fails[OF b1] idle by (simp add: server_start_def)
  next
    case base: False
    obtain si u2 where a2: "acquire SignalEvent u1 = (si, u2)" by fastforce
    obtain sa u3 where a3: "(if si = None then (False, u2) else ask u2) = (sa, u3)" by fastforce
    let ?s2 = "?s1\<lparr>s_signalInt := si\<rparr>"
    have "books (server_holds ?s2 + r) u2" using books_acquire[OF a2 b1] assms(4) by (simp add: server_holds_def ac_simps)
    then have b3: "books (server_holds ?s2 + r) u3" using a3 books_ask[of u2] by (auto split: if_splits)
    show ?thesis
    proof (cases sa)
      case False
      then show ?thesis using assms(7) a1 a2 a3 base books_server_fails[OF b3] idle by (simp add: server_start_def)
    next
      case sa: True
      obtain sh u4 where a4: "acquire SignalEvent u3 = (sh, u4)" by fastforce
      obtain ha u5 where a5: "(if sh = None then (False, u4) else ask u4) = (ha, u5)" by fastforce
      let ?s3 = "?s2\<lparr>s_signalHup := sh\<rparr>"
      have "books (server_holds ?s3 + r) u4" using books_acquire[OF a4 b3] assms(5) by (simp add: server_holds_def ac_simps)
      then have b5: "books (server_holds ?s3 + r) u5" using a5 books_ask[of u4] by (auto split: if_splits)
      show ?thesis
      proof (cases ha)
        case False
        then show ?thesis using assms(7) a1 a2 a3 a4 a5 base sa books_server_fails[OF b5] idle by (simp add: server_start_def)
      next
        case ha: True
        obtain h ip where ip: "conf_ip (s_cfg s) = Some (h, ip)"
          using assms(7) a1 a2 a3 a4 a5 base sa ha by (cases "conf_ip (s_cfg s)") (auto simp: server_start_def)
        obtain fd u6 where a6: "server_setup_socket ip (sint (conf_port (s_cfg s))) u5 = (fd, u6)" by fastforce
        let ?s4 = "?s3\<lparr>s_fd := fd\<rparr>"
        have b6: "books (server_holds ?s4 + r) u6" using books_setup_socket[OF b5 a6] assms(6) by (simp add: server_holds_def ac_simps)
        show ?thesis
        proof (cases "fd = None")
          case True
          then show ?thesis using assms(7) a1 a2 a3 a4 a5 a6 base sa ha ip books_server_fails[OF b6] idle by (simp add: server_start_def)
        next
          case fd: False
          obtain ok1 ks u7 where st: "startWorkers (s_workers s) u6 = Returns (ok1, ks, u7)"
            using assms(7) a1 a2 a3 a4 a5 a6 base sa ha ip fd by (auto simp: server_start_def andThen_Returns)
          let ?s5 = "?s4\<lparr>s_workers := ks\<rparr>"
          let ?rest = "server_holds (?s4\<lparr>s_workers := []\<rparr>) + r"
          have "books (workers_hold (s_workers s) + ?rest) u6" using b6 by (simp add: server_holds_def ac_simps)
          from books_startWorkers[OF this assms(2) st] have ks: "books (workers_hold ks + ?rest) u7" "list_all worker_ok ks" by blast+
          have e: "workers_hold ks + ?rest = server_holds ?s5 + r" by (simp add: server_holds_def ac_simps)
          have b7: "books (server_holds ?s5 + r) u7" "list_all worker_ok (s_workers ?s5)" using ks unfolding e by simp_all
          obtain d u8 where a8: "ask u7 = (d, u8)" by fastforce
          show ?thesis
          proof (cases ok1)
            case False
            then show ?thesis using assms(7) a1 a2 a3 a4 a5 a6 base sa ha ip fd st books_server_fails[OF b7] by (simp add: server_start_def)
          next
            case True
            have b8: "books (server_holds ?s5 + r) u8" using b7(1) books_ask[OF a8] by simp
            have "server_free ?s5 u8 = Returns w1"
              using assms(7) a1 a2 a3 a4 a5 a6 a8 base sa ha ip fd st True by (auto simp: server_start_def andThen_Returns)
            then show ?thesis using books_server_free[OF b8] b7(2) by blast
          qed
        qed
      qed
    qed
  qed
qed

lemma books_server_new:
  assumes "books (conf_holds c + logger_holds l + r) w" "server_new c l w = (so, w1)"
  shows "case so of None \<Rightarrow> books (conf_holds c + logger_holds l + r) w1
    | Some s \<Rightarrow> books (server_holds s + r) w1 \<and> list_all worker_idle (s_workers s) \<and> s_base s = None \<and> s_signalInt s = None \<and>
        s_signalHup s = None \<and> s_fd s = None"
proof -
  let ?r = "conf_holds c + logger_holds l + r"
  obtain mo u1 where a1: "acquire ServerMem w = (mo, u1)" by fastforce
  note b1 = books_acquire[OF a1 assms(1)]
  show ?thesis
  proof (cases mo)
    case None
    then show ?thesis using assms(2) a1 b1 by (auto simp: server_new_def)
  next
    case m: (Some m)
    obtain ao u2 where a2: "acquire WorkerArray u1 = (ao, u2)" by fastforce
    note b2 = books_acquire[OF a2 b1]
    show ?thesis
    proof (cases ao)
      case None
      then show ?thesis using assms(2) a1 a2 m b2 books_given_back[of ServerMem m ?r u2] by (auto simp: server_new_def)
    next
      case a: (Some a)
      obtain ko u3 where a3: "newWorkers (conf_workers c) [] u2 = (ko, u3)" by fastforce
      have "books (workers_hold [] + add_mset (WorkerArray, a) (add_mset (ServerMem, m) ?r)) u2"
        using b2 a m by (simp add: add_mset_commute)
      from books_newWorkers[OF this _ a3]
      have b3: "case ko of None \<Rightarrow> books (add_mset (WorkerArray, a) (add_mset (ServerMem, m) ?r)) u3
        | Some js \<Rightarrow> list_all worker_idle js \<and> books (workers_hold js + add_mset (WorkerArray, a) (add_mset (ServerMem, m) ?r)) u3"
        by simp
      show ?thesis
      proof (cases ko)
        case None
        then have "books ?r (release ServerMem m (release WorkerArray a u3))" using b3 by (intro books_given_back) simp
        then show ?thesis using None assms(2) a1 a2 a3 m a by (auto simp: server_new_def)
      next
        case (Some js)
        then show ?thesis using assms(2) a1 a2 a3 m a b3
          by (auto simp: server_new_def server_holds_def ac_simps add_mset_commute)
      qed
    qed
  qed
qed

lemma books_pulsar_main:
  assumes "books (conf_holds (info_cfg i) + logger_holds (info_log i) + r) w" "pulsar_main i w = Returns (ok, w1)"
  shows "books r w1"
proof -
  obtain so u where s: "server_new (info_cfg i) (info_log i) w = (so, u)" by fastforce
  note b = books_server_new[OF assms(1) s]
  show ?thesis
  proof (cases so)
    case None
    have "books r (log_free (info_log i) (conf_free (info_cfg i) u))"
      using b None by (intro books_log_free books_conf_free) (simp add: ac_simps)
    then show ?thesis using None assms(2) s by (simp add: pulsar_main_def)
  next
    case (Some v)
    then have "server_start v u = Returns (ok, w1)" using assms(2) s by (simp add: pulsar_main_def)
    then show ?thesis using b Some books_server_start[of v r u] by auto
  qed
qed

section \<open>The books of the whole run\<close>

definition info_holds :: "PulsarServerInfo \<Rightarrow> (pulsar_kind \<times> nat) multiset" where
  "info_holds i = conf_holds (info_cfg i) + logger_holds (info_log i)"

lemma books_strdup: "strdup s w = (x, w1) \<Longrightarrow> books r w \<Longrightarrow> books (optional IpMem (map_option fst x) + r) w1"
  by (auto simp: strdup_def option.map_comp comp_def option.map_ident dest: books_acquire split: prod.splits)

lemma books_log_new:
  assumes "books r w" "log_new pid file level w = (lo, w1)"
  shows "case lo of None \<Rightarrow> books r w1 | Some l \<Rightarrow> books (logger_holds l + r) w1"
proof -
  obtain ho u where a: "acquire LoggerMem w = (ho, u)" by fastforce
  note b = books_acquire[OF a assms(1)]
  show ?thesis
  proof (cases ho)
    case None
    then show ?thesis using assms(2) a b by (auto simp: log_new_def)
  next
    case (Some h)
    let ?l = "\<lparr>log_mem = h, log_pid = pid, log_fd = NoLogFile, logfile = file, verbosity = level\<rparr>"
    obtain ok l v where s: "log_set_file file ?l u = (ok, l, v)" by (metis prod_cases3)
    have "books (logger_holds ?l + r) u" using b Some by (simp add: logger_holds_def)
    from books_log_set_file[OF this s] show ?thesis using assms(2) a Some s by (auto simp: log_new_def)
  qed
qed

lemma books_conf_new:
  assumes "books (optional IpMem (map_option fst ip) + r) w" "conf_new ip port workers w = (co, w1)"
  shows "case co of None \<Rightarrow> books r w1 | Some c \<Rightarrow> books (conf_holds c + r) w1"
proof -
  obtain ho u where a: "acquire ConfMem w = (ho, u)" by fastforce
  show ?thesis using books_acquire[OF a assms(1)] assms(2) a
    by (cases ho) (auto simp: conf_new_def conf_holds_def books_releaseIf)
qed

lemma books_pulsar_option:
  assumes "books (info_holds i + r) w" "pulsar_option opt optarg i w = Returns (j, w1)"
  shows "books (info_holds j + r) w1"
proof -
  let ?c = "info_cfg i"
  have ip: "books (optional IpMem (map_option fst x) + (add_mset (ConfMem, conf_mem ?c) (logger_holds (info_log i) + r))) u"
    if "strdup optarg (releaseIf IpMem (map_option fst (conf_ip ?c)) w) = (x, u)" for x u
    using assms(1) by (intro books_strdup[OF that] books_releaseIf) (simp add: info_holds_def conf_holds_def ac_simps)
  have lf: "books (logger_holds l + (conf_holds ?c + r)) u"
    if "log_set_file (Some optarg) (info_log i) w = (ok, l, u)" for ok l u
    by (rule books_log_set_file[OF _ that]) (use assms(1) in \<open>simp add: info_holds_def ac_simps\<close>)
  show ?thesis using assms ip lf unfolding pulsar_option_def
    by (auto simp: info_holds_def conf_holds_def logger_holds_def ac_simps add_mset_commute split: if_splits option.splits prod.splits bool.splits)
qed

lemma books_pulsar_options:
  "books (info_holds i + r) w \<Longrightarrow> pulsar_options opts i w = Returns (j, w1) \<Longrightarrow> books (info_holds j + r) w1"
proof (induction opts i w rule: pulsar_options.induct)
  case (2 opt optarg opts i w)
  then obtain i1 w2 where o: "pulsar_option opt optarg i w = Returns (i1, w2)" "pulsar_options opts i1 w2 = Returns (j, w1)"
    by (auto simp: andThen_Returns)
  show ?case using "2.IH" o books_pulsar_option[OF "2.prems"(1) o(1)] by auto
qed auto

lemma books_pulsar_parse_args:
  assumes "books {#} w" "pulsar_parse_args pid opts w = Returns (i, w1)"
  shows "books (info_holds i) w1"
proof -
  obtain lo u1 where a1: "log_new pid (Some ''log/pulsar.log'') PULSAR_DEBUG w = (lo, u1)" by fastforce
  obtain ip u2 where a2: "strdup WEBSERVER_DEFAULT_IP u1 = (ip, u2)" by fastforce
  obtain co u3 where a3: "conf_new ip WEBSERVER_DEFAULT_PORT WEBSERVER_DEFAULT_WORKERS u2 = (co, u3)" by fastforce
  obtain l c where s: "lo = Some l" "co = Some c" "pulsar_options opts \<lparr>info_cfg = c, info_log = l\<rparr> u3 = Returns (i, w1)"
    using assms(2) a1 a2 a3 by (auto simp: pulsar_parse_args_def split: option.splits)
  have "books (logger_holds l) u1" using books_log_new[OF assms(1) a1] s(1) by simp
  from books_conf_new[OF books_strdup[OF a2 this] a3] s(2)
  have "books (info_holds \<lparr>info_cfg = c, info_log = l\<rparr> + {#}) u3" by (simp add: info_holds_def)
  from books_pulsar_options[OF this s(3)] show ?thesis by simp
qed

text \<open>
  C10. Whatever the C library, the kernel and libevent answer and whatever the options are, a run of the
  web server that returns has given back every block of memory, file, socket, event and thread
  it was handed, each once and none that was not live.
\<close>

theorem pulsar_releases_everything:
  assumes "live w = []" "badFrees w = 0"
    and "andThen (pulsar_parse_args pid opts w) (\<lambda>(i, w1). pulsar_main i w1) = Returns (ok, w2)"
  shows "live w2 = [] \<and> badFrees w2 = 0"
proof -
  obtain i w1 where p: "pulsar_parse_args pid opts w = Returns (i, w1)" "pulsar_main i w1 = Returns (ok, w2)"
    using assms(3) by (auto simp: andThen_Returns)
  have "books {#} w" using assms(1,2) by (simp add: books_def)
  from books_pulsar_parse_args[OF this p(1)] have "books (conf_holds (info_cfg i) + logger_holds (info_log i) + {#}) w1"
    by (simp add: info_holds_def)
  from books_pulsar_main[OF this p(2)] show ?thesis by (simp add: books_def)
qed

section \<open>A run that ends\<close>

text \<open>What no call changes: the answers to come. Of what was bound, only the set-up of the socket adds to it.\<close>

definition outlook :: "pulsar_world \<Rightarrow> (nat \<Rightarrow> bool) \<times> (nat \<Rightarrow> int \<times> int) \<times> (string \<times> Int8U list) list" where
  "outlook w = (answers w, sendAnswers w, boundTo w)"

definition interrupted :: "int \<times> int \<Rightarrow> bool" where
  "interrupted a \<longleftrightarrow> fst a < 0 \<and> snd a = EINTR"

text \<open>A \<^verbatim>\<open>send\<close> is not interrupted for ever, and finds room or a byte that was not read yet.\<close>

definition sends_succeed :: "pulsar_world \<Rightarrow> bool" where
  "sends_succeed w \<longleftrightarrow> (\<forall>n. \<exists>m \<ge> n. \<not> interrupted (sendAnswers w m)) \<and>
     (\<forall>n. fst (sendAnswers w n) < 0 \<longrightarrow> snd (sendAnswers w n) \<in> {EINTR, EAGAIN})"

lemma outlook_ask: "ask w = (b, w1) \<Longrightarrow> outlook w1 = outlook w \<and> (b \<longleftrightarrow> answers w (asked w))"
  by (auto simp: ask_def outlook_def)

lemma outlook_acquire: "acquire k w = (ho, w1) \<Longrightarrow> outlook w1 = outlook w"
  by (auto simp: acquire_def ask_def takeHandle_def outlook_def split: bool.splits prod.splits)

lemma outlook_simps [simp]: "outlook (release k h w) = outlook w" "outlook (releaseIf k ho w) = outlook w"
  "outlook (log_it l level body w) = outlook w" "outlook (w\<lparr>sent := n\<rparr>) = outlook w"
  by (simp_all add: outlook_def release_def releaseIf_def log_it_def Let_def split: option.splits)

lemma outlook_free [simp]: "outlook (conf_free c w) = outlook w" "outlook (log_free l w) = outlook w"
  by (simp_all add: conf_free_def log_free_def closeLogFile_def split: log_fd.splits)

lemma outlook_eq: "outlook w1 = outlook w \<Longrightarrow> answers w1 = answers w \<and> sendAnswers w1 = sendAnswers w \<and> boundTo w1 = boundTo w"
  by (simp add: outlook_def)

lemma sends_succeed_cong: "outlook w1 = outlook w \<Longrightarrow> sends_succeed w1 = sends_succeed w"
  by (simp add: sends_succeed_def outlook_def)

lemma sendLoop_ends:
  "n \<le> m \<Longrightarrow> \<not> interrupted (answer m) \<Longrightarrow>
    \<exists>k. n \<le> k \<and> \<not> interrupted (answer k) \<and> sendLoop answer n = Some (fst (answer k), snd (answer k), k + 1)"
proof (induction "m - n" arbitrary: n)
  case 0
  then have "m = n" by simp
  then show ?case using 0 by (subst sendLoop.simps) (auto simp: interrupted_def split: prod.splits)
next
  case (Suc d)
  show ?case
  proof (cases "interrupted (answer n)")
    case True
    from Suc have "\<exists>k. n + 1 \<le> k \<and> \<not> interrupted (answer k) \<and> sendLoop answer (n + 1) = Some (fst (answer k), snd (answer k), k + 1)"
      by (intro Suc.hyps(1)) auto
    then obtain k where "n + 1 \<le> k" "\<not> interrupted (answer k)"
        "sendLoop answer (n + 1) = Some (fst (answer k), snd (answer k), k + 1)" by blast
    with True show ?thesis
      by (intro exI[of _ k]) (subst sendLoop.simps, auto simp: interrupted_def split: prod.splits)
  next
    case False
    then show ?thesis by (intro exI[of _ n]) (subst sendLoop.simps, auto simp: interrupted_def split: prod.splits)
  qed
qed

lemma worker_stop_succeeds:
  assumes "sends_succeed w"
  obtains k1 w1 where "worker_stop k w = Returns (True, k1, w1)" "outlook w1 = outlook w" "w_started k1 = w_started k"
    "w_started k \<Longrightarrow> w_stopRequested k1"
proof (cases "\<not> w_started k \<or> w_stopRequested k")
  case True
  show ?thesis by (rule that[of k w]) (use True in \<open>auto simp: worker_stop_def\<close>)
next
  case False
  obtain m where "sent w \<le> m" "\<not> interrupted (sendAnswers w m)" using assms by (auto simp: sends_succeed_def)
  from sendLoop_ends[of _ _ "sendAnswers w", OF this] obtain j where j: "\<not> interrupted (sendAnswers w j)"
      "sendLoop (sendAnswers w) (sent w) = Some (fst (sendAnswers w j), snd (sendAnswers w j), j + 1)" by blast
  have "0 \<le> fst (sendAnswers w j) \<or> snd (sendAnswers w j) = EAGAIN"
    using assms j(1) by (auto simp: sends_succeed_def interrupted_def not_less)
  then show ?thesis using False j(2)
    by (intro that[of "k\<lparr>w_stopRequested := True\<rparr>" "w\<lparr>sent := j + 1\<rparr>"]) (auto simp: worker_stop_def)
qed

text \<open>
  A part of a run ends from a world: it does not wait for ever, it keeps the outlook where it
  returns, and where every answer is yes it returns what is wanted.
\<close>

definition ends :: "('a \<Rightarrow> pulsar_world) \<Rightarrow> ('a \<Rightarrow> bool) \<Rightarrow> pulsar_world \<Rightarrow> 'a pulsar_run \<Rightarrow> bool" where
  "ends f wanted w r \<longleftrightarrow> r \<noteq> Hangs \<and> (\<forall>x. r = Returns x \<longrightarrow> outlook (f x) = outlook w) \<and>
     ((\<forall>n. answers w n) \<longrightarrow> (\<exists>x. r = Returns x \<and> wanted x))"

lemma ends_cong: "outlook u = outlook w \<Longrightarrow> ends f wanted u r = ends f wanted w r"
  using outlook_eq[of u w] by (simp add: ends_def)

lemma ends_Returns [simp]:
  "ends f wanted w (Returns x) \<longleftrightarrow> outlook (f x) = outlook w \<and> ((\<forall>n. answers w n) \<longrightarrow> wanted x)"
  by (auto simp: ends_def)

lemma ends_andThen:
  assumes "ends f wanted w r"
    "\<And>x. r = Returns x \<Longrightarrow> outlook (f x) = outlook w \<Longrightarrow> ((\<forall>n. answers w n) \<Longrightarrow> wanted x) \<Longrightarrow> ends g wants w (h x)"
  shows "ends g wants w (andThen r h)"
proof (cases r)
  case (Returns x)
  then show ?thesis using assms(1) assms(2)[OF Returns] by (auto simp: ends_def)
qed (use assms(1) in \<open>auto simp: ends_def\<close>)

lemma ends_worker_main_begin: "ends snd (\<lambda>(k1, _). w_started k1 = w_started k \<and> w_stopRequested k1 = w_stopRequested k) w (worker_main_begin k w)"
  by (auto simp: ends_def worker_main_begin_def acquire_def ask_def takeHandle_def outlook_def Let_def split: bool.splits option.splits prod.splits)

lemma ends_worker_main_end: "ends snd (\<lambda>_. True) w (worker_main_end k w)"
proof -
  obtain b u where a: "ask w = (b, u)" by fastforce
  show ?thesis using a outlook_ask[OF a] by (auto simp: ends_def worker_main_end_def)
qed

lemma ends_worker_start: "ends (snd \<circ> snd) (\<lambda>(ok, k1, _). ok \<and> w_started k1 \<and> w_stopRequested k1 = w_stopRequested k) w (worker_start k w)"
proof -
  obtain b1 u1 where a1: "ask w = (b1, u1)" by fastforce
  obtain s0 u2 where t0: "takeHandle StopSocket u1 = (s0, u2)" by fastforce
  obtain s1 u3 where t1: "takeHandle StopSocket u2 = (s1, u3)" by fastforce
  obtain b2 u4 where a2: "ask u3 = (b2, u4)" by fastforce
  obtain b3 u5 where a3: "(if b2 then ask u4 else (False, u4)) = (b3, u5)" by fastforce
  obtain b4 u6 where a4: "ask u5 = (b4, u6)" by fastforce
  obtain t u7 where t2: "takeHandle WorkerThread u6 = (t, u7)" by fastforce
  have take: "outlook v = outlook u" if "takeHandle j u = (h, v)" for j u h v
    using that by (auto simp: takeHandle_def outlook_def)
  have o: "outlook u1 = outlook w" "outlook u3 = outlook w" "outlook u4 = outlook w" "outlook u5 = outlook w"
      "outlook u6 = outlook w" "outlook u7 = outlook w"
    using outlook_ask[OF a1] take[OF t0] take[OF t1] outlook_ask[OF a2] a3 outlook_ask[of u4] outlook_ask[OF a4] take[OF t2]
    by (auto split: if_splits)
  have yes: "(\<forall>n. answers w n) \<longrightarrow> b1 \<and> b3 \<and> b4"
    using outlook_ask[OF a1] outlook_ask[OF a2] a3 outlook_ask[of u4] outlook_ask[OF a4] o[THEN outlook_eq] by (auto split: if_splits)
  let ?k = "k\<lparr>w_stop0 := Some s0, w_stop1 := Some s1\<rparr>"
  let ?wanted = "\<lambda>(ok, k1, w1 :: pulsar_world). ok \<and> w_started k1 \<and> w_stopRequested k1 = w_stopRequested k"
  have m: "ends (snd \<circ> snd) ?wanted w (andThen (worker_main_begin ?k u7)
      (\<lambda>(k2, w8). Returns (True, k2\<lparr>w_thread := Some t, w_started := True\<rparr>, w8)))"
    by (rule ends_andThen[OF ends_worker_main_begin[of ?k u7, unfolded ends_cong[OF o(6)]]]) auto
  show ?thesis
    using a1 t0 t1 a2 a3 a4 t2 o m yes
    by (cases b1; cases b3; cases b4) (simp_all add: worker_start_def Let_def closeStopSockets_def)
qed

lemma ends_worker_free:
  assumes "sends_succeed w"
  shows "ends (\<lambda>u. u) (\<lambda>_. True) w (worker_free k w)"
proof -
  have tail: "ends (\<lambda>u. u) (\<lambda>_. True) w (case x of (k1, u) \<Rightarrow>
      Returns (release WorkerMem (w_mem k1) (releaseIf EventBase (w_base k1) (releaseIf StopEvent (w_stopEvent k1)
          (releaseIf HttpServer (w_http k1) (releaseIf StopSocket (w_stop1 k1) (releaseIf StopSocket (w_stop0 k1) u)))))))"
    if "outlook (snd x) = outlook w" for x
    using that by (simp add: split_beta)
  have join: "ends snd (\<lambda>_. True) w (andThen (worker_stop k w) (\<lambda>(_, k1, w1). worker_join k1 w1))" if s: "w_started k"
  proof -
    from assms obtain k1 w1 where st: "worker_stop k w = Returns (True, k1, w1)" "outlook w1 = outlook w" "w_stopRequested k1"
      using s worker_stop_succeeds[of w k] by metis
    have "ends snd (\<lambda>_. True) w (andThen (worker_main_end k1 w1) (\<lambda>(k2, w2). Returns (k2, releaseIf WorkerThread (w_thread k2) w2)))"
      by (rule ends_andThen[OF ends_worker_main_end[of w1 k1, unfolded ends_cong[OF st(2)]]]) auto
    then show ?thesis using st by (simp add: worker_join_def)
  qed
  show ?thesis unfolding worker_free_def
    by (rule ends_andThen[of snd "\<lambda>_. True"]) (use join tail in auto)
qed

lemma ends_freeWorkers: "sends_succeed w \<Longrightarrow> ends (\<lambda>u. u) (\<lambda>_. True) w (freeWorkers ks w)"
proof (induction ks arbitrary: w)
  case (Cons k ks)
  have "ends (\<lambda>u. u) (\<lambda>_. True) w (andThen (worker_free k w) (freeWorkers ks))"
  proof (rule ends_andThen[OF ends_worker_free[OF Cons.prems]])
    fix u assume "outlook u = outlook w"
    then have o: "outlook u = outlook w" by simp
    then show "ends (\<lambda>u. u) (\<lambda>_. True) w (freeWorkers ks u)"
      using Cons.IH[of u] Cons.prems sends_succeed_cong[OF o] by (simp add: ends_cong[OF o])
  qed
  then show ?case by simp
qed simp

lemma ends_stopWorkers: "sends_succeed w \<Longrightarrow> ends snd (\<lambda>_. True) w (stopWorkers ks w)"
proof (induction ks arbitrary: w)
  case (Cons k ks)
  from Cons.prems obtain k1 w1 where st: "worker_stop k w = Returns (True, k1, w1)" "outlook w1 = outlook w"
    by (rule worker_stop_succeeds)
  have "ends snd (\<lambda>_. True) w (andThen (stopWorkers ks w1) (\<lambda>(ks1, w2). Returns (k1 # ks1, w2)))"
    using Cons.IH[of w1] Cons.prems sends_succeed_cong[OF st(2)]
    by (intro ends_andThen[of snd "\<lambda>_. True"]) (auto simp: ends_cong[OF st(2)])
  then show ?case using st(1) by simp
qed simp

lemma ends_server_free: "sends_succeed w \<Longrightarrow> ends (\<lambda>u. u) (\<lambda>_. True) w (server_free s w)"
  unfolding server_free_def
proof (rule ends_andThen[OF ends_stopWorkers], goal_cases)
  case (2 x)
  obtain ks u where x: "x = (ks, u)" by fastforce
  then have o: "outlook u = outlook w" using 2 by simp
  have f: "ends (\<lambda>u. u) (\<lambda>_. True) w (freeWorkers ks u)"
    using ends_freeWorkers[of u ks] 2(1) sends_succeed_cong[OF o] by (simp add: ends_cong[OF o])
  show ?case unfolding x by (simp, rule ends_andThen[OF f]) (simp add: Let_def)
qed

lemma ends_server_fails: "sends_succeed w \<Longrightarrow> server_fails s w \<noteq> Hangs"
  using ends_server_free[of w s] by (cases "server_free s w") (auto simp: ends_def server_fails_def)

lemma ends_startWorkers:
  "ends (snd \<circ> snd) (\<lambda>(ok, js, _). ok \<and> list_all w_started js \<and> map w_stopRequested js = map w_stopRequested ks) w (startWorkers ks w)"
proof (induction ks arbitrary: w)
  case (Cons k ks)
  show ?case unfolding startWorkers.simps
  proof (rule ends_andThen[OF ends_worker_start], goal_cases)
    case (1 x)
    obtain ok k1 u where x: "x = (ok, k1, u)" by (metis prod_cases3)
    then have o: "outlook u = outlook w" using 1(2) by simp
    show ?case
    proof (cases ok)
      case True
      show ?thesis unfolding x using 1(3) True x
        by (simp, intro ends_andThen[OF Cons.IH[of u, unfolded ends_cong[OF o]]]) auto
    next
      case False
      then show ?thesis using 1(3) x o by auto
    qed
  qed
qed simp

lemma acquire_yes: "acquire k w = (ho, w1) \<Longrightarrow> (\<forall>n. answers w n) \<Longrightarrow> ho \<noteq> None"
  by (auto simp: acquire_def ask_def takeHandle_def split: bool.splits prod.splits)

lemma setup_socket_outlook:
  assumes "server_setup_socket ip port w = (fd, w1)"
  shows "answers w1 = answers w \<and> sendAnswers w1 = sendAnswers w"
    and "(\<forall>n. answers w n) \<Longrightarrow> fd \<noteq> None \<and> boundTo w1 = boundTo w @ [(ip, htons_bytes port)]"
  using assms
  by (auto simp: server_setup_socket_def ask_def acquire_def takeHandle_def release_def Let_def split: bool.splits prod.splits option.splits if_splits)

lemma server_start_ends:
  assumes "sends_succeed w"
  shows "server_start s w \<noteq> Hangs"
proof -
  have good: "sends_succeed u" if "sendAnswers u = sendAnswers w" for u
    using assms that by (simp add: sends_succeed_def)
  note fails = ends_server_fails[OF good]
  obtain base u1 where a1: "acquire EventBase w = (base, u1)" by fastforce
  obtain si u2 where a2: "acquire SignalEvent u1 = (si, u2)" by fastforce
  obtain sa u3 where a3: "(if si = None then (False, u2) else ask u2) = (sa, u3)" by fastforce
  obtain sh u4 where a4: "acquire SignalEvent u3 = (sh, u4)" by fastforce
  obtain ha u5 where a5: "(if sh = None then (False, u4) else ask u4) = (ha, u5)" by fastforce
  note o = outlook_acquire[OF a1, THEN outlook_eq] outlook_acquire[OF a2, THEN outlook_eq] outlook_acquire[OF a4, THEN outlook_eq]
  have q: "sendAnswers u3 = sendAnswers u2" "sendAnswers u5 = sendAnswers u4"
    using a3 a5 by (auto simp: ask_def split: if_splits)
  have last: "andThen (startWorkers ks u) (\<lambda>(ok, js, v). if \<not> ok then server_fails (t js) v
      else let (d, v1) = ask v in andThen (server_free (t js) v1) (\<lambda>x. Returns (d, x))) \<noteq> Hangs"
    if u: "sendAnswers u = sendAnswers w" for ks u and t :: "worker list \<Rightarrow> server"
  proof (cases "startWorkers ks u")
    case (Returns x)
    obtain ok js v where x: "x = (ok, js, v)" by (metis prod_cases3)
    have v: "sendAnswers v = sendAnswers w" using ends_startWorkers[of ks u] Returns x u by (auto simp: ends_def dest: outlook_eq)
    obtain d v1 where d: "ask v = (d, v1)" by fastforce
    then have "ends (\<lambda>u. u) (\<lambda>_. True) v1 (server_free (t js) v1)"
      using v by (intro ends_server_free good) (auto simp: ask_def)
    then show ?thesis using Returns x d fails[OF v] by (cases "server_free (t js) v1") (auto simp: ends_def)
  qed (use ends_startWorkers[of ks u] in \<open>auto simp: ends_def\<close>)
  show ?thesis
  proof (cases "base = None \<or> \<not> sa \<or> \<not> ha")
    case True
    then show ?thesis using a1 a2 a3 a4 a5 o q fails by (auto simp: server_start_def Let_def)
  next
    case False
    show ?thesis
    proof (cases "conf_ip (s_cfg s)")
      case None
      then show ?thesis using False a1 a2 a3 a4 a5 by (auto simp: server_start_def)
    next
      case (Some hip)
      obtain h ip where hip: "hip = (h, ip)" by fastforce
      obtain fd u6 where a6: "server_setup_socket ip (sint (conf_port (s_cfg s))) u5 = (fd, u6)" by fastforce
      have u6: "sendAnswers u6 = sendAnswers w" using setup_socket_outlook(1)[OF a6] o q by simp
      show ?thesis using False Some hip a1 a2 a3 a4 a5 a6 fails[OF u6] last[OF u6, of "s_workers s" "\<lambda>js. s\<lparr>s_base := base, s_signalInt := si, s_signalHup := sh, s_fd := fd, s_workers := js\<rparr>"]
        by (cases "fd = None") (auto simp: server_start_def Let_def)
    qed
  qed
qed

text \<open>Where every answer is yes: what is bound, and that nothing is left but to free the server.\<close>

lemma server_start_yes:
  assumes "\<forall>n. answers w n" "conf_ip (s_cfg s) = Some (h, ip)"
  obtains t u where "server_start s w = andThen (server_free t u) (\<lambda>x. Returns (True, x))"
    "answers u = answers w" "sendAnswers u = sendAnswers w"
    "boundTo u = boundTo w @ [(ip, htons_bytes (sint (conf_port (s_cfg s))))]"
    "list_all w_started (s_workers t)" "map w_stopRequested (s_workers t) = map w_stopRequested (s_workers s)"
proof -
  obtain base u1 where a1: "acquire EventBase w = (base, u1)" by fastforce
  obtain si u2 where a2: "acquire SignalEvent u1 = (si, u2)" by fastforce
  obtain sa u3 where a3: "ask u2 = (sa, u3)" by fastforce
  obtain sh u4 where a4: "acquire SignalEvent u3 = (sh, u4)" by fastforce
  obtain ha u5 where a5: "ask u4 = (ha, u5)" by fastforce
  obtain fd u6 where a6: "server_setup_socket ip (sint (conf_port (s_cfg s))) u5 = (fd, u6)" by fastforce
  have o: "outlook u1 = outlook w" "outlook u2 = outlook w" "outlook u3 = outlook w" "outlook u4 = outlook w" "outlook u5 = outlook w"
    using outlook_acquire[OF a1] outlook_acquire[OF a2] outlook_ask[OF a3] outlook_acquire[OF a4] outlook_ask[OF a5] by simp_all
  have yes: "base \<noteq> None" "si \<noteq> None" "sa" "sh \<noteq> None" "ha" "fd \<noteq> None"
      and u6: "answers u6 = answers w" "sendAnswers u6 = sendAnswers w"
      "boundTo u6 = boundTo w @ [(ip, htons_bytes (sint (conf_port (s_cfg s))))]"
    using acquire_yes[OF a1] acquire_yes[OF a2] outlook_ask[OF a3] acquire_yes[OF a4] outlook_ask[OF a5]
      setup_socket_outlook[OF a6] o[THEN outlook_eq] assms(1) by auto
  obtain js v where st: "startWorkers (s_workers s) u6 = Returns (True, js, v)" "outlook v = outlook u6" "list_all w_started js"
      "map w_stopRequested js = map w_stopRequested (s_workers s)"
    using ends_startWorkers[of "s_workers s" u6] assms(1) u6(1) by (auto simp: ends_def)
  obtain d v1 where d: "ask v = (d, v1)" by fastforce
  then have v: "outlook v1 = outlook u6" "d" using st(2) outlook_ask[OF d] outlook_eq[OF st(2)] assms(1) u6(1) by auto
  show ?thesis
  proof (rule that[of "s\<lparr>s_base := base, s_signalInt := si, s_signalHup := sh, s_fd := fd, s_workers := js\<rparr>" v1])
    show "server_start s w = andThen (server_free (s\<lparr>s_base := base, s_signalInt := si, s_signalHup := sh, s_fd := fd, s_workers := js\<rparr>) v1)
        (\<lambda>x. Returns (True, x))"
      using yes a1 a2 a3 a4 a5 a6 assms(2) st(1) d v(2) by (auto simp: server_start_def Let_def)
  qed (use outlook_eq[OF v(1)] u6 st in simp_all)
qed

lemma newWorkers_outlook:
  "newWorkers n ks w = (kso, w1) \<Longrightarrow> outlook w1 = outlook w \<and>
    ((\<forall>m. answers w m) \<longrightarrow> (\<exists>js. kso = Some (ks @ js) \<and> length js = n \<and> list_all worker_idle js))"
proof (induction n ks w rule: newWorkers.induct)
  case (2 n ks w)
  obtain ho u where a: "acquire WorkerMem w = (ho, u)" by fastforce
  have f: "outlook (fold (\<lambda>k. release WorkerMem (w_mem k)) js v) = outlook v" for js :: "worker list" and v
    by (induction js arbitrary: v) simp_all
  show ?case
  proof (cases ho)
    case None
    then show ?thesis using 2(2) a f outlook_acquire[OF a] acquire_yes[OF a] by (auto simp: worker_new_def)
  next
    case (Some h)
    then obtain k where k: "worker_new w = (Some k, u)" "worker_idle k" using a by (auto simp: worker_new_def worker_idle_def)
    have "outlook w1 = outlook u \<and> ((\<forall>m. answers u m) \<longrightarrow> (\<exists>js. kso = Some ((ks @ [k]) @ js) \<and> length js = n \<and> list_all worker_idle js))"
      using "2.IH"[of "Some k" u k] 2(2) k(1) by simp
    then show ?thesis using outlook_acquire[OF a] outlook_eq[of u w] k(2) by fastforce
  qed
qed auto

lemma server_new_outlook:
  assumes "server_new c l w = (so, w1)"
  shows "outlook w1 = outlook w"
    and "(\<forall>n. answers w n) \<Longrightarrow> \<exists>s. so = Some s \<and> s_cfg s = c \<and> length (s_workers s) = conf_workers c \<and> list_all worker_idle (s_workers s)"
proof -
  obtain mo u1 where a1: "acquire ServerMem w = (mo, u1)" by fastforce
  obtain ao u2 where a2: "acquire WorkerArray u1 = (ao, u2)" by fastforce
  obtain ko u3 where a3: "newWorkers (conf_workers c) [] u2 = (ko, u3)" by fastforce
  note o = outlook_acquire[OF a1] outlook_acquire[OF a2] newWorkers_outlook[OF a3]
  show "outlook w1 = outlook w"
    using assms a1 a2 a3 o by (cases mo; cases ao; cases ko) (auto simp: server_new_def)
  assume yes: "\<forall>n. answers w n"
  then have "\<forall>n. answers u1 n" "\<forall>n. answers u2 n" using o(1,2) outlook_eq[of u1 w] outlook_eq[of u2 w] by auto
  then show "\<exists>s. so = Some s \<and> s_cfg s = c \<and> length (s_workers s) = conf_workers c \<and> list_all worker_idle (s_workers s)"
    using assms a1 a2 a3 o(3) acquire_yes[OF a1 yes] acquire_yes[OF a2] by (auto simp: server_new_def)
qed

lemma pulsar_main_not_Hangs:
  assumes "sends_succeed w"
  shows "pulsar_main i w \<noteq> Hangs"
proof -
  obtain so u where s: "server_new (info_cfg i) (info_log i) w = (so, u)" by fastforce
  have "sends_succeed u" using assms sends_succeed_cong[OF server_new_outlook(1)[OF s]] by simp
  then show ?thesis using s server_start_ends by (auto simp: pulsar_main_def split: option.splits)
qed

lemma outlook_log_set_file: "log_set_file file l w = (ok, l1, w1) \<Longrightarrow> outlook w1 = outlook w"
  by (auto simp: log_set_file_def closeLogFile_def Let_def dest: outlook_acquire split: option.splits prod.splits log_fd.splits)

lemma outlook_log_new: "log_new pid file level w = (lo, w1) \<Longrightarrow> outlook w1 = outlook w"
  by (auto simp: log_new_def dest!: outlook_acquire outlook_log_set_file split: option.splits prod.splits)

lemma outlook_strdup: "strdup s w = (x, w1) \<Longrightarrow> outlook w1 = outlook w"
  by (auto simp: strdup_def dest: outlook_acquire split: prod.splits)

lemma outlook_conf_new: "conf_new ip port workers w = (co, w1) \<Longrightarrow> outlook w1 = outlook w"
  by (auto simp: conf_new_def dest: outlook_acquire split: option.splits prod.splits)

lemma outlook_pulsar_option:
  "pulsar_option opt optarg i w \<noteq> Hangs \<and> (pulsar_option opt optarg i w = Returns (j, w1) \<longrightarrow> outlook w1 = outlook w)"
proof -
  obtain x u where s: "strdup optarg (releaseIf IpMem (map_option fst (conf_ip (info_cfg i))) w) = (x, u)" by fastforce
  obtain ok l v where f: "log_set_file (Some optarg) (info_log i) w = (ok, l, v)" by (metis prod_cases3)
  show ?thesis using outlook_strdup[OF s] outlook_log_set_file[OF f] s f
    by (cases x; cases ok) (auto simp: pulsar_option_def split: option.splits)
qed

lemma outlook_pulsar_options:
  "pulsar_options opts i w \<noteq> Hangs \<and> (pulsar_options opts i w = Returns (j, w1) \<longrightarrow> outlook w1 = outlook w)"
proof (induction opts i w rule: pulsar_options.induct)
  case (2 opt optarg opts i w)
  show ?case
  proof (cases "pulsar_option opt optarg i w")
    case (Returns x)
    obtain i1 w2 where x: "x = (i1, w2)" by fastforce
    show ?thesis using Returns x 2[of i1 w2] outlook_pulsar_option[of opt optarg i w i1 w2] by auto
  qed (use outlook_pulsar_option[of opt optarg i w] in auto)
qed auto

lemma outlook_pulsar_parse_args:
  "pulsar_parse_args pid opts w \<noteq> Hangs \<and> (pulsar_parse_args pid opts w = Returns (i, w1) \<longrightarrow> outlook w1 = outlook w)"
proof -
  obtain lo u1 where a1: "log_new pid (Some ''log/pulsar.log'') PULSAR_DEBUG w = (lo, u1)" by fastforce
  obtain ip u2 where a2: "strdup WEBSERVER_DEFAULT_IP u1 = (ip, u2)" by fastforce
  obtain co u3 where a3: "conf_new ip WEBSERVER_DEFAULT_PORT WEBSERVER_DEFAULT_WORKERS u2 = (co, u3)" by fastforce
  have "outlook u3 = outlook w" using outlook_log_new[OF a1] outlook_strdup[OF a2] outlook_conf_new[OF a3] by simp
  then show ?thesis using a1 a2 a3 outlook_pulsar_options[of opts _ u3 i w1]
    by (auto simp: pulsar_parse_args_def split: option.splits)
qed

section \<open>What a run does\<close>

lemma parse_number_dec_nat:
  assumes "int n < 2 ^ 31"
  shows "parse_number (dec_nat n) lo hi = (if lo \<le> int n \<and> int n \<le> hi then Some (int n) else None)"
  using assms by (simp add: parse_number_def strtol_end_def scan_int_dec_nat)

text \<open>
  The port is kept as an unsigned number, handed on as a signed one and turned into network order:
  the two bytes are those of the port.
\<close>

lemma htons_bytes_port:
  assumes "n \<le> 65535"
  shows "htons_bytes (sint (word_of_int (int n) :: Int16U)) = [word_of_nat (n div 256), word_of_nat (n mod 256)]"
proof -
  have "unat (ucast (drop_bit 8 (word_of_nat n :: Int16U)) :: Int8U) = unat (word_of_nat (n div 256) :: Int8U)"
    using assms by (simp add: unsigned_ucast_eq unsigned_drop_bit_eq unsigned_of_nat take_bit_eq_mod drop_bit_eq_div unat_div_distrib)
  moreover have "unat (ucast (word_of_nat n :: Int16U) :: Int8U) = unat (word_of_nat (n mod 256) :: Int8U)"
    using assms by (simp add: unsigned_ucast_eq unsigned_of_nat take_bit_eq_mod)
  ultimately show ?thesis by (simp add: htons_bytes_def Let_def word_unat_eq_iff)
qed


lemma parse_port_yes:
  assumes "\<forall>n. answers w n" "1 \<le> n" "n \<le> 65535"
  obtains i h u where "pulsar_parse_args pid [(CHR ''p'', dec_nat n)] w = Returns (i, u)" "outlook u = outlook w"
    "conf_ip (info_cfg i) = Some (h, ''0.0.0.0'')" "conf_port (info_cfg i) = word_of_int (int n)" "conf_workers (info_cfg i) = 4"
proof -
  obtain lo u1 where a1: "log_new pid (Some ''log/pulsar.log'') PULSAR_DEBUG w = (lo, u1)" by fastforce
  obtain ip u2 where a2: "strdup WEBSERVER_DEFAULT_IP u1 = (ip, u2)" by fastforce
  obtain co u3 where a3: "conf_new ip WEBSERVER_DEFAULT_PORT WEBSERVER_DEFAULT_WORKERS u2 = (co, u3)" by fastforce
  note o = outlook_log_new[OF a1] outlook_strdup[OF a2] outlook_conf_new[OF a3]
  have y: "\<forall>n. answers u1 n" "\<forall>n. answers u2 n" using o(1,2) outlook_eq[of u1 w] outlook_eq[of u2 u1] assms(1) by auto
  obtain l where l: "lo = Some l" using a1 assms(1) acquire_yes[of LoggerMem w]
    by (cases "acquire LoggerMem w") (auto simp: log_new_def split: prod.splits)
  obtain h where h: "ip = Some (h, ''0.0.0.0'')" using a2 y(1) acquire_yes[of IpMem u1]
    by (cases "acquire IpMem u1") (auto simp: strdup_def WEBSERVER_DEFAULT_IP_def c_str_def)
  obtain c where c: "co = Some c" "conf_ip c = ip" "conf_workers c = 4" using a3 y(2) acquire_yes[of ConfMem u2]
    by (cases "acquire ConfMem u2") (auto simp: conf_new_def WEBSERVER_DEFAULT_WORKERS_def)
  have "pulsar_parse_args pid [(CHR ''p'', dec_nat n)] w =
      Returns (\<lparr>info_cfg = c\<lparr>conf_port := word_of_int (int n)\<rparr>, info_log = l\<rparr>, u3)"
    using a1 a2 a3 l c assms(2,3) by (simp add: pulsar_parse_args_def pulsar_option_def parse_number_dec_nat)
  from that[OF this] show ?thesis using o h c by simp
qed

text \<open>
  C12. When the libraries grant what they are asked for, the server started with \<^verbatim>\<open>-p\<close> and a port
  from 1 to 65535 in decimal binds every local address at that port, in network order, and nothing else; it ends with
  success.
\<close>

theorem pulsar_serves_port:
  assumes "\<forall>m. answers w m" "sends_succeed w" "1 \<le> n" "n \<le> 65535"
  shows "\<exists>w2. andThen (pulsar_parse_args pid [(CHR ''p'', dec_nat n)] w) (\<lambda>(i, w1). pulsar_main i w1) = Returns (True, w2) \<and>
    boundTo w2 = boundTo w @ [(''0.0.0.0'', [word_of_nat (n div 256), word_of_nat (n mod 256)])]"
proof -
  from assms(1,3,4) obtain i h u where p: "pulsar_parse_args pid [(CHR ''p'', dec_nat n)] w = Returns (i, u)" "outlook u = outlook w"
      "conf_ip (info_cfg i) = Some (h, ''0.0.0.0'')" "conf_port (info_cfg i) = word_of_int (int n)"
    by (rule parse_port_yes)
  obtain so v where s: "server_new (info_cfg i) (info_log i) u = (so, v)" by fastforce
  have u: "\<forall>m. answers u m" using outlook_eq[OF p(2)] assms(1) by simp
  obtain t where t: "so = Some t" "s_cfg t = info_cfg i" using server_new_outlook(2)[OF s u] by blast
  have v: "outlook v = outlook w" using server_new_outlook(1)[OF s] p(2) by simp
  have "\<forall>m. answers v m" "conf_ip (s_cfg t) = Some (h, ''0.0.0.0'')" using outlook_eq[OF v] assms(1) t p(3) by simp_all
  from server_start_yes[OF this] obtain t2 u2 where st: "server_start t v = andThen (server_free t2 u2) (\<lambda>x. Returns (True, x))"
      "answers u2 = answers v" "sendAnswers u2 = sendAnswers v"
      "boundTo u2 = boundTo v @ [(''0.0.0.0'', htons_bytes (sint (conf_port (s_cfg t))))]" by metis
  have "sends_succeed u2" using assms(2) st(3) outlook_eq[OF v] by (simp add: sends_succeed_def)
  from ends_server_free[OF this, of t2] obtain w2 where f: "server_free t2 u2 = Returns w2" "outlook w2 = outlook u2"
    using st(2) outlook_eq[OF v] assms(1) by (auto simp: ends_def)
  show ?thesis using p(1,4) s t st f outlook_eq[OF f(2)] outlook_eq[OF v] htons_bytes_port[OF assms(4)]
    by (simp add: pulsar_main_def)
qed

text \<open>A stop byte that cannot be sent: the join that follows waits for a thread that nobody told to end.\<close>

lemma server_free_lost_stop:
  assumes "\<And>n. fst (sendAnswers w n) < 0 \<and> snd (sendAnswers w n) \<noteq> EINTR \<and> snd (sendAnswers w n) \<noteq> EAGAIN"
    and "list_all w_started (s_workers s)" "\<forall>k \<in> set (s_workers s). \<not> w_stopRequested k" "s_workers s \<noteq> []"
  shows "server_free s w = Hangs"
proof -
  have stop: "\<exists>u. worker_stop k v = Returns (False, k, u) \<and> sendAnswers u = sendAnswers w"
    if "sendAnswers v = sendAnswers w" "w_started k" "\<not> w_stopRequested k" for k v
    using that assms(1)[of "sent v"]
    by (cases "sendAnswers w (sent v)") (auto simp: worker_stop_def sendLoop.simps[of _ "sent v"])
  have stops: "\<exists>u. stopWorkers ks v = Returns (ks, u) \<and> sendAnswers u = sendAnswers w"
    if "sendAnswers v = sendAnswers w" "list_all w_started ks" "\<forall>k \<in> set ks. \<not> w_stopRequested k" for ks v
    using that
  proof (induction ks arbitrary: v)
    case (Cons k ks)
    then obtain u where u: "worker_stop k v = Returns (False, k, u)" "sendAnswers u = sendAnswers w" using stop[of v k] by auto
    then show ?case using Cons.IH[of u] Cons.prems by auto
  qed simp
  obtain k ks where ks: "s_workers s = k # ks" using assms(4) by (cases "s_workers s") auto
  obtain u where u: "stopWorkers (s_workers s) w = Returns (k # ks, u)" "sendAnswers u = sendAnswers w"
    using stops[of w "s_workers s"] assms(2,3) ks by auto
  obtain v where "worker_stop k u = Returns (False, k, v)" using stop[of u k] u(2) assms(2,3) ks by auto
  then have "worker_free k u = Hangs" using assms(2,3) ks by (simp add: worker_free_def worker_join_def)
  then show ?thesis using u(1) by (simp add: server_free_def)
qed

text \<open>
  C38. When everything else is granted but no stop byte can be sent, for a reason other than an interruption or a full
  buffer, the server with at least one worker never returns: it waits for ever for the first worker.
\<close>

theorem pulsar_lost_stop_hangs:
  assumes "\<forall>m. answers w m" "\<forall>m. fst (sendAnswers w m) < 0 \<and> snd (sendAnswers w m) \<noteq> EINTR \<and> snd (sendAnswers w m) \<noteq> EAGAIN"
    and "0 < conf_workers (info_cfg i)" "conf_ip (info_cfg i) = Some (h, ip)"
  shows "pulsar_main i w = Hangs"
proof -
  obtain so v where s: "server_new (info_cfg i) (info_log i) w = (so, v)" by fastforce
  from server_new_outlook(2)[OF s assms(1)] obtain t where t: "so = Some t" "s_cfg t = info_cfg i"
      "length (s_workers t) = conf_workers (info_cfg i)" "list_all worker_idle (s_workers t)" by blast
  note v = outlook_eq[OF server_new_outlook(1)[OF s]]
  have "\<forall>m. answers v m" "conf_ip (s_cfg t) = Some (h, ip)" using v assms(1,4) t(2) by simp_all
  from server_start_yes[OF this] obtain t2 u2 where st: "server_start t v = andThen (server_free t2 u2) (\<lambda>x. Returns (True, x))"
      "sendAnswers u2 = sendAnswers v" "list_all w_started (s_workers t2)"
      "map w_stopRequested (s_workers t2) = map w_stopRequested (s_workers t)" by metis
  have "\<forall>b \<in> set (map w_stopRequested (s_workers t)). \<not> b" using t(4) by (auto simp: list_all_iff worker_idle_def)
  then have "\<forall>k \<in> set (s_workers t2). \<not> w_stopRequested k" unfolding st(4)[symmetric] by simp
  moreover have "s_workers t2 \<noteq> []" using st(4) t(3) assms(3) by auto
  ultimately have "server_free t2 u2 = Hangs"
    using server_free_lost_stop[of u2 t2] st(2,3) v assms(2) by simp
  then show ?thesis using s t st by (simp add: pulsar_main_def)
qed

section \<open>Runs on one sequence of answers\<close>

text \<open>A world before anything happened, with the answers to come.\<close>

definition fresh_world :: "(nat \<Rightarrow> bool) \<Rightarrow> (nat \<Rightarrow> int \<times> int) \<Rightarrow> pulsar_world" where
  "fresh_world yes sends = \<lparr>live = [], nextHandle = 0, badFrees = 0, boundTo = [], clockText = ''01 Jan 00:00:00'', logged = [],
     answers = yes, asked = 0, sendAnswers = sends, sent = 0\<rparr>"

text \<open>The first \<^verbatim>\<open>send\<close> is interrupted, the second finds the buffer full, the others send the byte.\<close>

definition bumpy_sends :: "nat \<Rightarrow> int \<times> int" where
  "bumpy_sends n = (if n = 0 then (- 1, EINTR) else if n = 1 then (- 1, EAGAIN) else (1, 0))"

lemma bumpy_succeed: "sends_succeed (fresh_world yes bumpy_sends)"
proof -
  have "\<exists>m \<ge> n. \<not> interrupted (bumpy_sends m)" for n
    by (rule exI[of _ "n + 2"]) (simp add: bumpy_sends_def interrupted_def)
  then show ?thesis by (simp add: sends_succeed_def fresh_world_def bumpy_sends_def)
qed


lemma example_digits: "digit_char 0 = CHR ''0''" "digit_char 7 = CHR ''7''" "digit_char 8 = CHR ''8''"
  by code_simp+

theorem pulsar_serves_port_witness:
  "\<exists>w2. andThen (pulsar_parse_args 7 [(CHR ''p'', ''8080'')] (fresh_world (\<lambda>_. True) bumpy_sends)) (\<lambda>(i, w1). pulsar_main i w1) =
    Returns (True, w2) \<and> boundTo w2 = [(''0.0.0.0'', [31, 144])]"
proof -
  have d: "dec_nat 8080 = ''8080''" using example_digits by (simp add: dec_nat.simps)
  show ?thesis using pulsar_serves_port[of "fresh_world (\<lambda>_. True) bumpy_sends" 8080 7] bumpy_succeed
    unfolding d by (simp add: fresh_world_def)
qed

text \<open>The eighth call, which would make the second worker, fails.\<close>

theorem pulsar_releases_everything_witness:
  "\<exists>ok w2. andThen (pulsar_parse_args 7 [(CHR ''p'', ''8080'')] (fresh_world (\<lambda>n. n \<noteq> 7) bumpy_sends)) (\<lambda>(i, w1). pulsar_main i w1) =
    Returns (ok, w2) \<and> live w2 = [] \<and> badFrees w2 = 0"
proof -
  let ?w = "fresh_world (\<lambda>n. n \<noteq> 7) bumpy_sends"
  let ?r = "andThen (pulsar_parse_args 7 [(CHR ''p'', ''8080'')] ?w) (\<lambda>(i, w1). pulsar_main i w1)"
  have "case ?r of Returns _ \<Rightarrow> True | _ \<Rightarrow> False" by code_simp
  then obtain ok w2 where r: "?r = Returns (ok, w2)" by (auto split: pulsar_run.splits)
  show ?thesis using pulsar_releases_everything[OF _ _ r] r by (simp add: fresh_world_def)
qed

theorem pulsar_lost_stop_hangs_witness:
  "pulsar_main \<lparr>info_cfg = \<lparr>conf_mem = 0, conf_ip = Some (1, ''0.0.0.0''), conf_port = 80, conf_workers = 4\<rparr>,
     info_log = \<lparr>log_mem = 2, log_pid = 7, log_fd = LogStderr, logfile = None, verbosity = 4\<rparr>\<rparr>
     (fresh_world (\<lambda>_. True) (\<lambda>_. (- 1, 104))) = Hangs"
  by (rule pulsar_lost_stop_hangs) (simp_all add: fresh_world_def EINTR_def EAGAIN_def)

section \<open>What the logger writes\<close>

lemma dec_nat_length: "n < 10 ^ k \<Longrightarrow> 0 < k \<Longrightarrow> length (dec_nat n) \<le> k"
proof (induction k arbitrary: n)
  case (Suc k)
  show ?case
  proof (cases "n < 10")
    case False
    then have "k \<noteq> 0" using Suc.prems(1) by (intro notI) simp
    then have "length (dec_nat (n div 10)) \<le> k" using Suc.prems(1) by (intro Suc.IH) auto
    then show ?thesis using False by (subst dec_nat.simps) simp
  qed (subst dec_nat.simps, simp)
qed simp

lemma dec_int_length: "\<bar>i\<bar> < 10 ^ k \<Longrightarrow> 0 < k \<Longrightarrow> length (dec_int i) \<le> Suc k"
proof -
  assume "\<bar>i\<bar> < 10 ^ k" and k: "0 < k"
  then have "int (nat \<bar>i\<bar>) < int (10 ^ k)" by simp
  then have "nat \<bar>i\<bar> < 10 ^ k" by linarith
  from dec_nat_length[OF this k] show ?thesis by (cases "i < 0") (simp_all add: dec_int_def)
qed

lemma logLine_bounds:
  assumes "- (2 ^ 31) \<le> pid" "pid < 2 ^ 31" "length time \<le> 63" "NUL \<notin> set time" "0 \<le> level" "level \<le> 4"
  shows "length (logLine pid time level body) \<le> 206" "NUL \<notin> set (logLine pid time level body)"
proof -
  have "length (dec_int pid) \<le> 11" using dec_int_length[of pid 10] assms(1,2) by auto
  moreover have "length (dec_int (of_char (logMarks ! nat level))) \<le> 3"
  proof -
    have "nat level \<in> {0, 1, 2, 3, 4}" using assms(5,6) by auto
    then have "\<bar>of_char (logMarks ! nat level) :: int\<bar> < 10 ^ 2" by (auto simp: logMarks_def)
    from dec_int_length[OF this] show ?thesis by simp
  qed
  moreover have "length (snprintf_s (min (length (c_str body) + 1) 124) body) < min (length (c_str body) + 1) 124"
    by (rule length_snprintf_s) simp
  ultimately show "length (logLine pid time level body) \<le> 206" using assms(3) by (simp add: logLine_def Let_def)
  show "NUL \<notin> set (logLine pid time level body)" using assms(4) by (simp add: logLine_def Let_def)
qed

text \<open>
  The line that the logger makes of any message, with a time of at most 63 characters and
  a process id and a level in their ranges, fits its buffer of 256 characters with the end mark, so
  \<^verbatim>\<open>write\<close> is asked for the line, whole, and for nothing beyond it.
\<close>

theorem log_line_fits:
  assumes "- (2 ^ 31) \<le> log_pid l" "log_pid l < 2 ^ 31" "length (clockText w) \<le> 63" "NUL \<notin> set (clockText w)"
    and "0 \<le> level" "level \<le> verbosity l" "verbosity l \<le> 4" "log_fd l \<noteq> NoLogFile"
  shows "\<exists>line. line = logLine (log_pid l) (clockText w) level body \<and> length line < 256 \<and>
    log_it l level body w = w\<lparr>logged := logged w @ [(log_fd l, line, length line)]\<rparr>"
proof -
  let ?line = "logLine (log_pid l) (clockText w) level body"
  have b: "length ?line \<le> 206" "NUL \<notin> set ?line"
    using logLine_bounds[of "log_pid l" "clockText w" level body] assms by auto
  then have "c_str ?line = ?line" by (simp add: c_str_def takeWhile_eq_all_conv) (metis)
  then show ?thesis using assms(6,8) b(1) by (simp add: log_it_def Let_def snprintf_s_def)
qed


theorem log_line_fits_witness:
  "\<exists>line. length line < 256 \<and> line = ''[7] 01 Jan 00:00:00 0 workers initialized ...'' @ [CHR 0x0A] \<and>
    log_it \<lparr>log_mem = 2, log_pid = 7, log_fd = LogStderr, logfile = None, verbosity = 4\<rparr> PULSAR_DEBUG ''workers initialized ...''
      (fresh_world (\<lambda>_. True) bumpy_sends) =
    (fresh_world (\<lambda>_. True) bumpy_sends)\<lparr>logged := [(LogStderr, line, length line)]\<rparr>"
proof -
  let ?l = "\<lparr>log_mem = 2, log_pid = 7, log_fd = LogStderr, logfile = None, verbosity = 4\<rparr>"
  let ?w = "fresh_world (\<lambda>_. True) bumpy_sends"
  have "logLine (log_pid ?l) (clockText ?w) PULSAR_DEBUG ''workers initialized ...'' =
      ''[7] 01 Jan 00:00:00 0 workers initialized ...'' @ [CHR 0x0A]"
    using example_digits
    by (simp add: logLine_def logMarks_def PULSAR_DEBUG_def fresh_world_def snprintf_s_def c_str_def dec_int_def dec_nat.simps)
  then show ?thesis using log_line_fits[of ?l ?w PULSAR_DEBUG "''workers initialized ...''"]
    by (simp add: fresh_world_def PULSAR_DEBUG_def)
qed

end
