(* ===== verification/Device_Threads.thy ===== *)
theory Device_Threads
  imports Display Led_Strip Light_Sensor Motion_Sensor
begin

text \<open>
  The threads of the light sensor, the motion sensor and the LED strip as a whole: what
  \<^verbatim>\<open>lightSensorMain\<close>, \<^verbatim>\<open>motionSensorMain\<close> and \<^verbatim>\<open>ledStripMain\<close> do from
  the registration of the thread to its end, with the services of the timer they wait for. The
  timer is shared: a round takes it as the thread of the timer left it. The services of a
  thread are its local variables, at \<open>base\<close> and the places after it.
\<close>

section \<open>The instances\<close>

definition light_bind :: "LightSensor option \<Rightarrow> LightSensor" where
  "light_bind inst = (case inst of None \<Rightarrow> newLightSensor | Some s \<Rightarrow> s)"

definition light_shutdown :: "LightSensor option \<Rightarrow> LightSensor option" where
  "light_shutdown inst = None"

definition motion_bind :: "InboxRegistry \<Rightarrow> MotionSensor option \<Rightarrow> MotionSensor" where
  "motion_bind r inst = (case inst of None \<Rightarrow> newMotionSensor r | Some s \<Rightarrow> s)"

definition motion_shutdown :: "MotionSensor option \<Rightarrow> MotionSensor option" where
  "motion_shutdown inst = None"

definition strip_bind :: "LedStrip option \<Rightarrow> LedStrip" where
  "strip_bind inst = (case inst of None \<Rightarrow> newLedStrip | Some s \<Rightarrow> s)"

definition strip_shutdown :: "LedStrip option \<Rightarrow> LedStrip option" where
  "strip_shutdown inst = None"

definition tick_bind :: "(ServiceId \<Rightarrow> TimerTickService) \<Rightarrow> InboxRegistry \<Rightarrow> TimerTick option \<Rightarrow> TimerTick" where
  "tick_bind svcs r inst = (case inst of None \<Rightarrow> newTimerTick svcs r | Some w \<Rightarrow> w)"

definition tick_shutdown :: "TimerTick option \<Rightarrow> TimerTick option" where
  "tick_shutdown inst = None"

text \<open>Each class has a guard of its own.\<close>

definition light_registerMainThread :: "'t option \<Rightarrow> 't \<Rightarrow> thread_error + 't option" where
  "light_registerMainThread mainThreadId caller = registerMainThread mainThreadId caller"

definition motion_registerMainThread :: "'t option \<Rightarrow> 't \<Rightarrow> thread_error + 't option" where
  "motion_registerMainThread mainThreadId caller = registerMainThread mainThreadId caller"

definition strip_registerMainThread :: "'t option \<Rightarrow> 't \<Rightarrow> thread_error + 't option" where
  "strip_registerMainThread mainThreadId caller = registerMainThread mainThreadId caller"

lemmas register_defs = registerMainThread_def light_registerMainThread_def motion_registerMainThread_def strip_registerMainThread_def

section \<open>The services of a thread\<close>

datatype thread_failure = MainThreadError thread_error | ServiceError tick_error | StripError strip_error | LightError light_error

text \<open>The local variables, then their registration in the same order.\<close>

definition constructServices :: "ServiceId \<Rightarrow> (int \<times> TickTrigger) list \<Rightarrow> TimerTick \<Rightarrow> TimerTick" where
  "constructServices base specs w =
     fold (\<lambda>(n, ms, t). update_service (base + n) (\<lambda>_. mkTimerTickService ms True t)) (List.enumerate 0 specs) w"

definition serviceIds :: "ServiceId \<Rightarrow> (int \<times> TickTrigger) list \<Rightarrow> ServiceId list" where
  "serviceIds base specs = [base..<base + length specs]"

definition takeServices :: "ServiceId \<Rightarrow> (int \<times> TickTrigger) list \<Rightarrow> TimerTick \<Rightarrow> (tick_error + unit) \<times> TimerTick" where
  "takeServices base specs w = registerServices (serviceIds base specs) (constructServices base specs w)"

definition giveServicesBack :: "ServiceId \<Rightarrow> (int \<times> TickTrigger) list \<Rightarrow> TimerTick \<Rightarrow> TimerTick" where
  "giveServicesBack base specs w =
     fold (\<lambda>sid w. unregisterTimerTickService (cookie (services w sid)) w) (serviceIds base specs) w"

section \<open>The thread of the light sensor\<close>

definition lightServices :: "(int \<times> TickTrigger) list" where
  "lightServices = [(600, TimerTickServiceCv False)]"

definition lightSensorMain :: "ServiceId \<Rightarrow> 't \<Rightarrow> 't option \<Rightarrow> LightSensor option \<Rightarrow> TimerTick \<Rightarrow>
    thread_failure + 't option \<times> TimerTick \<times> LightSensor" where
  "lightSensorMain base caller mainThreadId inst w = (case light_registerMainThread mainThreadId caller of
     Inl e \<Rightarrow> Inl (MainThreadError e)
   | Inr m \<Rightarrow> (case takeServices base lightServices w of
       (Inl e, _) \<Rightarrow> Inl (ServiceError e)
     | (Inr _, w1) \<Rightarrow> Inr (m, w1, light_bind inst)))"

text \<open>A round of the loop; \<open>None\<close> while the thread is blocked, and whether the loop goes on.\<close>

definition lightRound :: "ServiceId \<Rightarrow> InboxMsg option \<Rightarrow> (nat \<Rightarrow> int) \<Rightarrow> TimerTick \<times> LightSensor \<Rightarrow>
    (thread_failure + bool \<times> TimerTick \<times> LightSensor) option" where
  "lightRound base msg readAnalog x = (case x of (w, s) \<Rightarrow>
     if map_option inboxMsgType msg = Some inboxMsgTypeTerminate then Some (Inr (False, giveServicesBack base lightServices w, s))
     else case cvWait (services w base) of
       None \<Rightarrow> None
     | Some svc \<Rightarrow> (case lightLoopStep msg readAnalog s of
         Inl e \<Rightarrow> Some (Inl (LightError e))
       | Inr (go, s1) \<Rightarrow> Some (Inr (go, update_service base (\<lambda>_. svc) w, s1))))"

section \<open>The thread of the motion sensor\<close>

definition motionServices :: "(int \<times> TickTrigger) list" where
  "motionServices = [(1000, TimerTickServiceCv False)]"

definition motionSensorMain :: "ServiceId \<Rightarrow> 't \<Rightarrow> 't option \<Rightarrow> InboxRegistry \<Rightarrow> MotionSensor option \<Rightarrow> FakeGpio \<Rightarrow> TimerTick \<Rightarrow>
    thread_failure + 't option \<times> TimerTick \<times> MotionSensor \<times> FakeGpio" where
  "motionSensorMain base caller mainThreadId r inst gpio w = (case motion_registerMainThread mainThreadId caller of
     Inl e \<Rightarrow> Inl (MainThreadError e)
   | Inr m \<Rightarrow> (case takeServices base motionServices w of
       (Inl e, _) \<Rightarrow> Inl (ServiceError e)
     | (Inr _, w1) \<Rightarrow> Inr (m, w1, motion_bind r inst, gpio_configureInput (int sensorGpioPin) gpio)))"

definition motionRound :: "ServiceId \<Rightarrow> InboxMsg option \<Rightarrow> (nat \<Rightarrow> GpioValue) \<Rightarrow> TimerTick \<times> MotionSensor \<Rightarrow>
    (bool \<times> TimerTick \<times> MotionSensor) option" where
  "motionRound base msg gpio x = (case x of (w, s) \<Rightarrow>
     if map_option inboxMsgType msg = Some inboxMsgTypeTerminate then Some (False, giveServicesBack base motionServices w, s)
     else case cvWait (services w base) of
       None \<Rightarrow> None
     | Some svc \<Rightarrow> (case motionLoopStep msg gpio s of (go, s1) \<Rightarrow> Some (go, update_service base (\<lambda>_. svc) w, s1)))"

section \<open>The thread of the LED strip\<close>

definition stripServices :: "(int \<times> TickTrigger) list" where
  "stripServices = [(millisPerTick, TimerTickServiceCv False), (1000, TimerTickServiceBool False),
     (10000, TimerTickServiceBool False), (60000, TimerTickServiceBool False)]"

definition ledStripMain :: "ServiceId \<Rightarrow> 't \<Rightarrow> 't option \<Rightarrow> LedStrip option \<Rightarrow> bool \<Rightarrow> bool \<Rightarrow> rng \<Rightarrow> TimerTick \<Rightarrow>
    thread_failure + 't option \<times> TimerTick \<times> LedStrip" where
  "ledStripMain base caller mainThreadId inst haveSpi mallocOk rand w = (case strip_registerMainThread mainThreadId caller of
     Inl e \<Rightarrow> Inl (MainThreadError e)
   | Inr m \<Rightarrow> (case takeServices base stripServices w of
       (Inl e, _) \<Rightarrow> Inl (ServiceError e)
     | (Inr _, w1) \<Rightarrow> (case strip_setup haveSpi mallocOk rand (strip_bind inst) of
         Inl e \<Rightarrow> Inl (StripError e)
       | Inr s \<Rightarrow> Inr (m, w1, s))))"

text \<open>The flag of one service, which reading it resets.\<close>

definition takeFlag :: "ServiceId \<Rightarrow> TimerTick \<Rightarrow> bool \<times> TimerTick" where
  "takeFlag sid w = (case getAndResetExpired (services w sid) of (b, svc) \<Rightarrow> (b, update_service sid (\<lambda>_. svc) w))"

definition stripRound :: "ServiceId \<Rightarrow> InboxMsg option \<Rightarrow> TimerTick \<times> LedStrip \<Rightarrow> (bool \<times> TimerTick \<times> LedStrip) option" where
  "stripRound base msg x = (case x of (w, s) \<Rightarrow>
     if map_option inboxMsgType msg = Some inboxMsgTypeTerminate then
       Some (False, giveServicesBack base stripServices w, fst (strip_teardown s))
     else case cvWait (services w base) of
       None \<Rightarrow> None
     | Some svc \<Rightarrow>
         let (b1, w1) = takeFlag (base + 1) (update_service base (\<lambda>_. svc) w);
             (b2, w2) = takeFlag (base + 2) w1;
             (b3, w3) = takeFlag (base + 3) w2
         in (case stripLoopStep msg \<lparr>due1sec = b1, due10sec = b2, due1min = b3\<rparr> s of (go, s1) \<Rightarrow> Some (go, w3, s1)))"

section \<open>What the threads take they give back\<close>

lemma tick_inv_same_cookie:
  "tick_inv w \<Longrightarrow> (\<And>s. cookie (f s) = cookie s) \<Longrightarrow> tick_inv (update_service sid f w)"
  by (auto simp: tick_inv_def registered_def)

lemma registered_update_service [simp]: "registered (update_service sid f w) = registered w"
  by (auto simp: registered_def)

lemma giveServicesBack_ids:
  "tick_inv w \<Longrightarrow> \<forall>sid \<in> set ids. registered w sid \<Longrightarrow> distinct ids \<Longrightarrow>
   tick_inv (fold (\<lambda>sid w. unregisterTimerTickService (cookie (services w sid)) w) ids w) \<and>
   registered (fold (\<lambda>sid w. unregisterTimerTickService (cookie (services w sid)) w) ids w) =
     (\<lambda>sid. registered w sid \<and> sid \<notin> set ids)"
proof (induction ids arbitrary: w)
  case (Cons sid ids)
  let ?w = "unregisterTimerTickService (cookie (services w sid)) w"
  note u = unregister_known[OF Cons.prems(1), of sid]
  have "tick_inv ?w" "\<forall>t \<in> set ids. registered ?w t" using u Cons.prems by auto
  with Cons.IH[of ?w] Cons.prems u(2) show ?case by (auto simp: fun_eq_iff)
qed simp

lemma register_next:
  "registerTimerTickService sid start w = (Inr c, w1) \<Longrightarrow> nextTimerTickId w1 = nextTimerTickId w + 1 \<and>
    timerTickServices w1 = (nextTimerTickId w, sid) # timerTickServices w"
  by (auto simp: registerTimerTickService_def Let_def split: if_splits)

lemma registerServices_ids:
  "tick_inv w \<Longrightarrow> \<forall>sid \<in> set ids. \<not> registered w sid \<Longrightarrow> distinct ids \<Longrightarrow> nextTimerTickId w \<noteq> 0 \<Longrightarrow>
   unat (nextTimerTickId w) + length ids < 2 ^ 64 \<Longrightarrow>
   \<exists>w1. registerServices ids w = (Inr (), w1) \<and> tick_inv w1 \<and> registered w1 = (\<lambda>sid. registered w sid \<or> sid \<in> set ids) \<and>
     (\<forall>sid. sid \<notin> set ids \<longrightarrow> services w1 sid = services w sid) \<and>
     (\<forall>sid \<in> set ids. \<exists>c. c \<noteq> nullCookie \<and> services w1 sid = startTimerTickService2 ((services w sid)\<lparr>cookie := c\<rparr>))"
proof (induction ids arbitrary: w)
  case (Cons sid ids)
  have n: "unat (nextTimerTickId w) + 1 < 2 ^ 64" using Cons.prems(5) by simp
  then have n1: "unat (nextTimerTickId w + 1) = unat (nextTimerTickId w) + 1"
    by (simp add: unat_word_ariths)
  then have z: "nextTimerTickId w + 1 \<noteq> 0" by auto
  from tick_inv_register[OF Cons.prems(1) _ Cons.prems(4) z, of sid True] Cons.prems(2)
  obtain w1 where w1: "registerTimerTickService sid True w = (Inr (nextTimerTickId w), w1)" "tick_inv w1" "registered w1 sid"
      "services w1 = (services w)(sid := startTimerTickService2 ((services w sid)\<lparr>cookie := nextTimerTickId w\<rparr>))" by auto
  have r1: "registered w1 = (\<lambda>t. registered w t \<or> t = sid)"
    using register_next[OF w1(1)] by (auto simp: registered_def fun_eq_iff)
  have "nextTimerTickId w1 = nextTimerTickId w + 1" using register_next[OF w1(1)] by simp
  then have "nextTimerTickId w1 \<noteq> 0" "unat (nextTimerTickId w1) + length ids < 2 ^ 64" using z n1 Cons.prems(5) by simp_all
  moreover have "\<forall>t \<in> set ids. \<not> registered w1 t" "distinct ids" using r1 Cons.prems(2,3) by auto
  ultimately obtain w2 where "registerServices ids w1 = (Inr (), w2)" "tick_inv w2"
      "registered w2 = (\<lambda>t. registered w1 t \<or> t \<in> set ids)" "\<forall>t. t \<notin> set ids \<longrightarrow> services w2 t = services w1 t"
      "\<forall>t \<in> set ids. \<exists>c. c \<noteq> nullCookie \<and> services w2 t = startTimerTickService2 ((services w1 t)\<lparr>cookie := c\<rparr>)"
    using Cons.IH[OF w1(2)] by blast
  moreover have "\<forall>t \<in> set ids. services w1 t = services w t" using w1(4) Cons.prems(3) by auto
  ultimately show ?case using w1 r1 Cons.prems(3,4)
    by (intro exI[of _ w2]) (auto simp: fun_eq_iff nullCookie_def)
qed auto

lemma fold_update_other:
  "sid \<notin> (\<lambda>(n, _). base + n) ` set es \<Longrightarrow>
   services (fold (\<lambda>(n, ms, t). update_service (base + n) (\<lambda>_. mkTimerTickService ms True t)) es w) sid = services w sid"
  by (induction es arbitrary: w) (auto simp: image_iff)

lemma fold_update_frame:
  "timerTickServices (fold (\<lambda>(n, ms, t). update_service (base + n) (\<lambda>_. mkTimerTickService ms True t)) es w) = timerTickServices w \<and>
   nextTimerTickId (fold (\<lambda>(n, ms, t). update_service (base + n) (\<lambda>_. mkTimerTickService ms True t)) es w) = nextTimerTickId w"
  by (induction es arbitrary: w) (auto simp: split_beta)

lemma fold_update_cookie:
  "cookie (services w sid) = nullCookie \<Longrightarrow>
   cookie (services (fold (\<lambda>(n, ms, t). update_service (base + n) (\<lambda>_. mkTimerTickService ms True t)) es w) sid) = nullCookie"
  by (induction es arbitrary: w) (auto simp: split_beta mkTimerTickService_def)

lemma constructServices_ok:
  assumes "tick_inv w" "\<forall>sid \<in> set (serviceIds base specs). \<not> registered w sid"
  shows "tick_inv (constructServices base specs w)" "registered (constructServices base specs w) = registered w"
    "nextTimerTickId (constructServices base specs w) = nextTimerTickId w"
proof -
  note f = fold_update_frame[of base "List.enumerate 0 specs" w]
  show r: "registered (constructServices base specs w) = registered w"
    using f by (auto simp: constructServices_def registered_def)
  show "nextTimerTickId (constructServices base specs w) = nextTimerTickId w" using f by (simp add: constructServices_def)
  have o: "services (constructServices base specs w) sid = services w sid" if "sid \<notin> set (serviceIds base specs)" for sid
    unfolding constructServices_def by (rule fold_update_other) (use that in \<open>auto simp: serviceIds_def in_set_enumerate_eq\<close>)
  show "tick_inv (constructServices base specs w)"
    using assms f r o fold_update_cookie[of w _ base "List.enumerate 0 specs"]
    unfolding tick_inv_def constructServices_def[symmetric]
    by (fastforce simp: registered_def)
qed


lemma constructServices_nth:
  assumes "n < length specs"
  shows "services (constructServices base specs w) (base + n) = mkTimerTickService (fst (specs ! n)) True (snd (specs ! n))"
  using assms
proof (induction specs arbitrary: n rule: rev_induct)
  case (snoc x xs)
  then show ?case by (auto simp: constructServices_def enumerate_append_eq nth_append less_Suc_eq split: prod.split)
qed simp

text \<open>The services are there, registered and started, and those of the others as they were.\<close>

lemma takeServices_ok:
  assumes "tick_inv w" "\<forall>sid \<in> set (serviceIds base specs). \<not> registered w sid" "nextTimerTickId w \<noteq> 0"
    "unat (nextTimerTickId w) + length specs < 2 ^ 64"
  obtains w1 where "takeServices base specs w = (Inr (), w1)" "tick_inv w1"
    "registered w1 = (\<lambda>sid. registered w sid \<or> sid \<in> set (serviceIds base specs))"
    "\<And>n. n < length specs \<Longrightarrow> \<exists>c. c \<noteq> nullCookie \<and> services w1 (base + n) =
      startTimerTickService2 ((mkTimerTickService (fst (specs ! n)) True (snd (specs ! n)))\<lparr>cookie := c\<rparr>)"
proof -
  note c = constructServices_ok[OF assms(1,2)]
  have "distinct (serviceIds base specs)" "length (serviceIds base specs) = length specs" by (simp_all add: serviceIds_def)
  with registerServices_ids[OF c(1), of "serviceIds base specs"] assms(2-4) c(2,3)
  obtain w1 where w1: "registerServices (serviceIds base specs) (constructServices base specs w) = (Inr (), w1)" "tick_inv w1"
      "registered w1 = (\<lambda>sid. registered w sid \<or> sid \<in> set (serviceIds base specs))"
      "\<forall>sid \<in> set (serviceIds base specs). \<exists>c. c \<noteq> nullCookie \<and>
        services w1 sid = startTimerTickService2 ((services (constructServices base specs w) sid)\<lparr>cookie := c\<rparr>)" by auto
  show ?thesis
  proof (rule that)
    show "takeServices base specs w = (Inr (), w1)" using w1(1) by (simp add: takeServices_def)
    fix n assume n: "n < length specs"
    then have "base + n \<in> set (serviceIds base specs)" by (simp add: serviceIds_def)
    from w1(4)[rule_format, OF this] show "\<exists>c. c \<noteq> nullCookie \<and> services w1 (base + n) =
      startTimerTickService2 ((mkTimerTickService (fst (specs ! n)) True (snd (specs ! n)))\<lparr>cookie := c\<rparr>)"
      by (simp add: constructServices_nth[OF n])
  qed (use w1 in auto)
qed

lemma giveServicesBack_ok:
  assumes "tick_inv w" "\<forall>sid \<in> set (serviceIds base specs). registered w sid"
  shows "tick_inv (giveServicesBack base specs w)"
    "registered (giveServicesBack base specs w) = (\<lambda>sid. registered w sid \<and> sid \<notin> set (serviceIds base specs))"
  using giveServicesBack_ids[OF assms] by (simp_all add: giveServicesBack_def serviceIds_def)

section \<open>Rounds at every period\<close>

lemma tickOnly_count:
  assumes "1 < unat (ticksLeft s)"
  shows "tickOnly s = s\<lparr>ticksLeft := ticksLeft s - 1\<rparr>"
proof -
  have "ticksLeft s \<noteq> 0" "ticksLeft s \<noteq> 1" using assms by auto
  then show ?thesis by (simp add: tickOnly_def tickService_def word_gt_0)
qed

text \<open>
  A started service of the class with a condition variable: it is not signalled before its period is
  over, and then it is, and runs again from its start.
\<close>

lemma cv_before:
  assumes "interval_ok s" "k < period s"
  shows "(tickOnly ^^ k) (startTimerTickService2 s) = (startTimerTickService2 s)\<lparr>ticksLeft := of_nat (period s - k)\<rparr>"
  using assms(2)
proof (induction k)
  case 0
  have "of_nat (period s) = ticksLeft (startTimerTickService2 s)"
    unfolding unat_ticksLeft_start[OF assms(1), symmetric] by simp
  then show ?case by simp
next
  case (Suc k)
  let ?t = "(startTimerTickService2 s)\<lparr>ticksLeft := of_nat (period s - k)\<rparr>"
  have p: "period s < 2 ^ 64" using unsigned_less[of "ticksLeft (startTimerTickService2 s)", where 'a = nat]
    by (simp add: unat_ticksLeft_start[OF assms(1)])
  then have "unat (of_nat (period s - k) :: Int64U) = period s - k" by (simp add: unat_of_nat_id)
  then have "tickOnly ?t = ?t\<lparr>ticksLeft := of_nat (period s - k) - 1\<rparr>" using Suc.prems by (simp add: tickOnly_count)
  moreover have "of_nat (period s - k) - 1 = (of_nat (period s - Suc k) :: Int64U)" using Suc.prems by (simp add: of_nat_diff)
  ultimately show ?case using Suc by simp
qed

lemma cv_period:
  assumes "interval_ok s" "periodic s" "getIsRegistered s" "trigger s = TimerTickServiceCv False"
  shows "(tickOnly ^^ period s) (startTimerTickService2 s) = (startTimerTickService2 s)\<lparr>trigger := TimerTickServiceCv True\<rparr>"
proof -
  let ?t = "(startTimerTickService2 s)\<lparr>ticksLeft := 1\<rparr>"
  have "(tickOnly ^^ (period s - 1)) (startTimerTickService2 s) = ?t"
    using cv_before[OF assms(1), of "period s - 1"] period_pos[of s] by (simp del: of_nat_diff)
  moreover have "tickOnly ?t = (startTimerTickService2 s)\<lparr>trigger := TimerTickServiceCv True\<rparr>"
    using assms(2-4) by (simp add: tickOnly_def tickService_def expireTrigger_def startTimerTickService2_def getIsRegistered_def)
  ultimately show ?thesis
    using period_pos[of s] funpow.simps(2)[of "period s - 1" tickOnly] by (simp del: funpow.simps)
qed

text \<open>
  A thread that waits for such a service: it is blocked before the period is over, and at its end
  it goes on and the service is as it was when it was started.
\<close>

definition fresh_cv :: "int \<Rightarrow> ServiceId \<Rightarrow> TimerTick \<Rightarrow> bool" where
  "fresh_cv ms sid w \<longleftrightarrow> tick_inv w \<and> registered w sid \<and>
     (\<exists>c. c \<noteq> nullCookie \<and> services w sid = startTimerTickService2 ((mkTimerTickService ms True (TimerTickServiceCv False))\<lparr>cookie := c\<rparr>))"

lemma fresh_cv_waits:
  assumes "fresh_cv ms sid w" "0 \<le> ms" "ms < 2 ^ 31"
  shows "k < nat (1 + ms div millisPerTick) \<Longrightarrow> cvWait (services ((timerTick ^^ k) w) sid) = None"
    and "\<exists>svc. cvWait (services ((timerTick ^^ nat (1 + ms div millisPerTick)) w) sid) = Some svc \<and>
      fresh_cv ms sid (update_service sid (\<lambda>_. svc) ((timerTick ^^ nat (1 + ms div millisPerTick)) w))"
proof -
  let ?P = "nat (1 + ms div millisPerTick)"
  obtain c where c: "c \<noteq> nullCookie"
      "services w sid = startTimerTickService2 ((mkTimerTickService ms True (TimerTickServiceCv False))\<lparr>cookie := c\<rparr>)"
    and w: "tick_inv w" "registered w sid" using assms(1) by (auto simp: fresh_cv_def)
  let ?s = "(mkTimerTickService ms True (TimerTickServiceCv False))\<lparr>cookie := c\<rparr>"
  have s: "interval_ok ?s" "periodic ?s" "getIsRegistered ?s" "trigger ?s = TimerTickServiceCv False" "period ?s = ?P"
    using assms(2,3) c(1) by (simp_all add: mkTimerTickService_def interval_ok_def getIsRegistered_def period_def)
  note f = timerTick_funpow[OF w]
  show "cvWait (services ((timerTick ^^ k) w) sid) = None" if "k < ?P"
    using f[of k] cv_before[OF s(1), of k] that s(4,5) c(2) by (simp add: cvWait_def)
  let ?w = "(timerTick ^^ ?P) w"
  have e: "services ?w sid = (startTimerTickService2 ?s)\<lparr>trigger := TimerTickServiceCv True\<rparr>"
    using f[of ?P] cv_period[OF s(1-4)] s(5) c(2) by simp
  have "tick_inv (update_service sid (\<lambda>s. s\<lparr>trigger := TimerTickServiceCv False\<rparr>) ?w)" using f[of ?P] by (intro tick_inv_same_cookie) auto
  moreover have "update_service sid (\<lambda>_. startTimerTickService2 ?s) ?w = update_service sid (\<lambda>s. s\<lparr>trigger := TimerTickServiceCv False\<rparr>) ?w"
    using e by (simp add: update_service_def startTimerTickService2_def mkTimerTickService_def)
  ultimately have i: "tick_inv (update_service sid (\<lambda>_. startTimerTickService2 ?s) ?w)" by simp
  have "fresh_cv ms sid (update_service sid (\<lambda>_. startTimerTickService2 ?s) ?w)"
    unfolding fresh_cv_def using i f[of ?P] c(1) by (intro conjI exI[of _ c]) simp_all
  moreover have "cvWait (services ?w sid) = Some (startTimerTickService2 ?s)"
    using s(4) by (simp add: e cvWait_def startTimerTickService2_def)
  ultimately show "\<exists>svc. cvWait (services ?w sid) = Some svc \<and> fresh_cv ms sid (update_service sid (\<lambda>_. svc) ?w)" by blast
qed


text \<open>The loops: before each round the timer ticks a number of times, and there is no message.\<close>

fun lightRounds :: "ServiceId \<Rightarrow> (nat \<times> (nat \<Rightarrow> int)) list \<Rightarrow> TimerTick \<times> LightSensor \<Rightarrow>
    (thread_failure + TimerTick \<times> LightSensor) option" where
  "lightRounds base [] x = Some (Inr x)"
| "lightRounds base ((n, readAnalog) # rs) x = (case lightRound base None readAnalog ((timerTick ^^ n) (fst x), snd x) of
     None \<Rightarrow> None
   | Some (Inl e) \<Rightarrow> Some (Inl e)
   | Some (Inr (_, y)) \<Rightarrow> lightRounds base rs y)"

fun motionRounds :: "ServiceId \<Rightarrow> (nat \<times> (nat \<Rightarrow> GpioValue)) list \<Rightarrow> TimerTick \<times> MotionSensor \<Rightarrow> (TimerTick \<times> MotionSensor) option" where
  "motionRounds base [] x = Some x"
| "motionRounds base ((n, gpio) # rs) x = (case motionRound base None gpio ((timerTick ^^ n) (fst x), snd x) of
     None \<Rightarrow> None
   | Some (_, y) \<Rightarrow> motionRounds base rs y)"

lemma lightRounds_every_51:
  assumes "fresh_cv 600 base w" "list_all (\<lambda>r. 0 \<le> r 0 \<and> 0 \<le> r 1) rs"
  shows "\<exists>w1 s1. lightRounds base (map (Pair 51) rs) (w, s) = Some (Inr (w1, s1)) \<and> sensorReads rs s = Inr s1 \<and> fresh_cv 600 base w1"
  using assms
proof (induction rs arbitrary: w s)
  case (Cons r rs)
  obtain svc where v: "cvWait (services ((timerTick ^^ 51) w) base) = Some svc"
      "fresh_cv 600 base (update_service base (\<lambda>_. svc) ((timerTick ^^ 51) w))"
    using fresh_cv_waits(2)[OF Cons.prems(1)] by (auto simp: millisPerTick_def)
  obtain s1 where s1: "doSensorRead r s = Inr s1" using Cons.prems(2) by (auto simp: doSensorRead_def Let_def)
  show ?case using Cons.IH[OF v(2), of s1] Cons.prems(2) v(1) s1
    by (simp add: lightRound_def lightLoopStep_def del: funpow.simps)
qed simp

lemma motionRounds_every_84:
  assumes "fresh_cv 1000 base w"
  shows "\<exists>w1. motionRounds base (map (Pair 84) gs) (w, s) = Some (w1, fold (\<lambda>g s. snd (checkMotionSensor g s)) gs s) \<and> fresh_cv 1000 base w1"
  using assms
proof (induction gs arbitrary: w s)
  case (Cons g gs)
  obtain svc where v: "cvWait (services ((timerTick ^^ 84) w) base) = Some svc"
      "fresh_cv 1000 base (update_service base (\<lambda>_. svc) ((timerTick ^^ 84) w))"
    using fresh_cv_waits(2)[OF Cons.prems] by (auto simp: millisPerTick_def)
  show ?case using Cons.IH[OF v(2)] v(1)
    by (simp add: motionRound_def motionLoopStep_def del: funpow.simps)
qed simp

section \<open>The threads from their start\<close>

text \<open>A timer that has room for the services of a thread, whose places are free.\<close>

definition has_room :: "ServiceId \<Rightarrow> (int \<times> TickTrigger) list \<Rightarrow> TimerTick \<Rightarrow> bool" where
  "has_room base specs w \<longleftrightarrow> tick_inv w \<and> (\<forall>sid \<in> set (serviceIds base specs). \<not> registered w sid) \<and>
     nextTimerTickId w \<noteq> 0 \<and> unat (nextTimerTickId w) + length specs < 2 ^ 64"

lemma takeServices_cv:
  assumes "has_room base [(ms, TimerTickServiceCv False)] w"
  obtains w1 where "takeServices base [(ms, TimerTickServiceCv False)] w = (Inr (), w1)" "fresh_cv ms base w1"
proof -
  from assms have "tick_inv w" "\<forall>sid \<in> set (serviceIds base [(ms, TimerTickServiceCv False)]). \<not> registered w sid"
      "nextTimerTickId w \<noteq> 0" "unat (nextTimerTickId w) + length [(ms, TimerTickServiceCv False)] < 2 ^ 64"
    by (simp_all add: has_room_def)
  then show ?thesis
  proof (rule takeServices_ok)
    fix w1 assume w1: "takeServices base [(ms, TimerTickServiceCv False)] w = (Inr (), w1)" "tick_inv w1"
      "registered w1 = (\<lambda>sid. registered w sid \<or> sid \<in> set (serviceIds base [(ms, TimerTickServiceCv False)]))"
      "\<And>n. n < length [(ms, TimerTickServiceCv False)] \<Longrightarrow> \<exists>c. c \<noteq> nullCookie \<and> services w1 (base + n) =
        startTimerTickService2 ((mkTimerTickService (fst ([(ms, TimerTickServiceCv False)] ! n)) True (snd ([(ms, TimerTickServiceCv False)] ! n)))\<lparr>cookie := c\<rparr>)"
    from w1(4)[of 0] have "\<exists>c. c \<noteq> nullCookie \<and> services w1 base =
        startTimerTickService2 ((mkTimerTickService ms True (TimerTickServiceCv False))\<lparr>cookie := c\<rparr>)" by simp
    moreover have "registered w1 base" using w1(3) by (simp add: serviceIds_def)
    ultimately show thesis using w1(1,2) by (intro that) (auto simp: fresh_cv_def)
  qed
qed

text \<open>
  C20. The light sensor is read once in 51 ticks of the timer, which are 612 milliseconds: from the start of its thread, a
  round is blocked until the 51st tick after the round before it and goes on then; and after any such readings, none of them
  negative, the value is between the smallest and the largest of the last ten.
\<close>

theorem light_is_read_every_51_ticks:
  assumes "has_room base lightServices w" "list_all (\<lambda>r. 0 \<le> r 0 \<and> 0 \<le> r 1) rs" "rs \<noteq> []"
    and "\<forall>r \<in> set (drop (length rs - 10) rs). lo \<le> (r 0 + r 1) div 2 \<and> (r 0 + r 1) div 2 \<le> hi" "0 \<le> lo" "hi < 2 ^ 32"
  shows "\<exists>w0 s0 w1 s1. lightSensorMain base caller None None w = Inr (Some caller, w0, s0) \<and>
     lightRounds base (map (Pair 51) rs) (w0, s0) = Some (Inr (w1, s1)) \<and>
     lo \<le> uint (getLightValue s1) \<and> uint (getLightValue s1) \<le> hi \<and>
     (\<forall>k readAnalog. k < 51 \<longrightarrow> lightRound base None readAnalog ((timerTick ^^ k) w1, s1) = None)"
proof -
  obtain w0 where w0: "takeServices base lightServices w = (Inr (), w0)" "fresh_cv 600 base w0"
    using takeServices_cv assms(1) unfolding lightServices_def by blast
  obtain w1 s1 where r: "lightRounds base (map (Pair 51) rs) (w0, newLightSensor) = Some (Inr (w1, s1))"
      "sensorReads rs newLightSensor = Inr s1" "fresh_cv 600 base w1"
    using lightRounds_every_51[OF w0(2) assms(2)] by blast
  have "lightRound base None q ((timerTick ^^ k) w1, s1) = None" if "k < 51" for q k
    using fresh_cv_waits(1)[OF r(3), of k] that by (simp add: lightRound_def millisPerTick_def)
  moreover have "lo \<le> uint (getLightValue s1) \<and> uint (getLightValue s1) \<le> hi"
    using light_value_is_window_average[OF assms(2-6)] r(2) by auto
  ultimately show ?thesis using w0(1) r(1)
    by (intro exI[of _ w0] exI[of _ newLightSensor] exI[of _ w1] exI[of _ s1])
      (simp add: lightSensorMain_def register_defs light_bind_def)
qed

theorem light_is_read_every_51_ticks_witness:
  "\<exists>w0 s0 w1 s1. lightSensorMain 5 (7 :: nat) None None sampleTimer = Inr (Some 7, w0, s0) \<and>
     lightRounds 5 (map (Pair 51) (replicate 12 (\<lambda>c. 300 + 100 * int c))) (w0, s0) = Some (Inr (w1, s1)) \<and>
     350 \<le> uint (getLightValue s1) \<and> uint (getLightValue s1) \<le> 350 \<and>
     (\<forall>k readAnalog. k < 51 \<longrightarrow> lightRound 5 None readAnalog ((timerTick ^^ k) w1, s1) = None)"
  by (rule light_is_read_every_51_ticks) (simp_all add: has_room_def lightServices_def list_all_iff)

text \<open>
  C21. What the motion sensor counts as a second is 84 ticks of the timer, which are 1008 milliseconds: from the start of its
  thread a round is blocked until the 84th tick after the round before it and goes on then; so after the motion began and
  \<open>84 n\<close> more ticks the counters hold \<open>n\<close> in hours, minutes and seconds, the hours held at 254.
\<close>

theorem motion_second_is_84_ticks:
  assumes "has_room base motionServices w"
  shows "\<exists>w0 s0 g0 w1 s1. motionSensorMain base caller None r None gpio w = Inr (Some caller, w0, s0, g0) \<and>
     motionRounds base (replicate (Suc n) (84, \<lambda>_. high)) (w0, s0) = Some (w1, s1) \<and>
     motionInfo s1 = \<lparr>currMotionDetected = True, lastChangedSec = of_nat (n mod 60),
       lastChangedMin = of_nat (n div 60 mod 60), lastChangedHour = of_nat (min 254 (n div 3600))\<rparr> \<and>
     (\<forall>k pins. k < 84 \<longrightarrow> motionRound base None pins ((timerTick ^^ k) w1, s1) = None)"
proof -
  obtain w0 where w0: "takeServices base motionServices w = (Inr (), w0)" "fresh_cv 1000 base w0"
    using takeServices_cv assms(1) unfolding motionServices_def by blast
  let ?s = "newMotionSensor r"
  have "fold (\<lambda>g s. snd (checkMotionSensor g s)) (replicate m (\<lambda>_. high)) s = (checkWith high ^^ m) s" for m s
    by (induction m arbitrary: s) (simp_all add: funpow_Suc_right del: funpow.simps(2))
  with motionRounds_every_84[OF w0(2), of "replicate (Suc n) (\<lambda>_. high)" ?s]
  obtain w1 where w1: "motionRounds base (replicate (Suc n) (84, \<lambda>_. high)) (w0, ?s) = Some (w1, (checkWith high ^^ n) (checkWith high ?s))"
      "fresh_cv 1000 base w1" by (auto simp: map_replicate simp del: replicate_Suc funpow.simps)
        (metis comp_apply funpow_Suc_right)
  have "motionInfo (checkWith high ?s) = elapsed 0 (high = high)"
    by (rule check_change(1)) (simp add: newMotionSensor_def)
  then have m: "motionInfo ((checkWith high ^^ n) (checkWith high ?s)) = elapsed n True" using checks_elapsed by simp
  have "motionRound base None q ((timerTick ^^ k) w1, t) = None" if "k < 84" for q k t
    using fresh_cv_waits(1)[OF w1(2), of k] that by (simp add: motionRound_def millisPerTick_def)
  with w0(1) w1(1) m show ?thesis
    by (intro exI[of _ w0] exI[of _ ?s] exI[of _ "gpio_configureInput (int sensorGpioPin) gpio"] exI[of _ w1]
        exI[of _ "(checkWith high ^^ n) (checkWith high ?s)"])
      (simp add: motionSensorMain_def register_defs motion_bind_def elapsed_def)
qed

theorem motion_second_is_84_ticks_witness:
  "\<forall>gpio. \<exists>w0 s0 g0 w1 s1. motionSensorMain 5 (7 :: nat) None (\<lambda>_. None) None gpio sampleTimer = Inr (Some 7, w0, s0, g0) \<and>
     motionRounds 5 (replicate (Suc 3725) (84, \<lambda>_. high)) (w0, s0) = Some (w1, s1) \<and>
     motionInfo s1 = \<lparr>currMotionDetected = True, lastChangedSec = of_nat (3725 mod 60),
       lastChangedMin = of_nat (3725 div 60 mod 60), lastChangedHour = of_nat (min 254 (3725 div 3600))\<rparr> \<and>
     (\<forall>k pins. k < 84 \<longrightarrow> motionRound 5 None pins ((timerTick ^^ k) w1, s1) = None)"
  by (rule allI, rule motion_second_is_84_ticks) (simp add: has_room_def motionServices_def)



end
