(* ===== verification/Wiring_Pi.thy ===== *)
theory Wiring_Pi
  imports LPD8806
begin

text \<open>
  \<^verbatim>\<open>src/gpio/wiringPiGpio.cpp\<close>: the backend of the pins on the library wiringPi. The library
  is a parameter: its calls are the fields of a record, over a state of its own.
\<close>

section \<open>The library and the backend\<close>

record 's WiringPi =
  wiringPiSetupGpio :: "'s \<Rightarrow> int \<times> 's"
  pinMode :: "int \<Rightarrow> int \<Rightarrow> 's \<Rightarrow> 's"
  digitalWrite :: "int \<Rightarrow> int \<Rightarrow> 's \<Rightarrow> 's"
  digitalRead :: "int \<Rightarrow> 's \<Rightarrow> int \<times> 's"
  delayMs :: "nat \<Rightarrow> 's \<Rightarrow> 's"
  INPUT :: int
  OUTPUT :: int
  LOW :: int
  HIGH :: int

definition wiring_initialize :: "'s WiringPi \<Rightarrow> 's \<Rightarrow> bool \<times> 's" where
  "wiring_initialize l s = (case wiringPiSetupGpio l s of (rc, s1) \<Rightarrow> (rc = 0, s1))"

definition wiring_configureInput :: "'s WiringPi \<Rightarrow> int \<Rightarrow> 's \<Rightarrow> 's" where
  "wiring_configureInput l bcmGpio = pinMode l bcmGpio (INPUT l)"

definition wiring_write :: "'s WiringPi \<Rightarrow> int \<Rightarrow> GpioValue \<Rightarrow> 's \<Rightarrow> 's" where
  "wiring_write l bcmGpio v = digitalWrite l bcmGpio (if v = high then HIGH l else LOW l)"

definition wiring_configureOutput :: "'s WiringPi \<Rightarrow> int \<Rightarrow> GpioValue \<Rightarrow> 's \<Rightarrow> 's" where
  "wiring_configureOutput l bcmGpio initialValue s =
     digitalWrite l bcmGpio (if initialValue = high then HIGH l else LOW l) (pinMode l bcmGpio (OUTPUT l) s)"

definition wiring_read :: "'s WiringPi \<Rightarrow> int \<Rightarrow> 's \<Rightarrow> GpioValue \<times> 's" where
  "wiring_read l bcmGpio s = (case digitalRead l bcmGpio s of (v, s1) \<Rightarrow> (if v = HIGH l then high else low, s1))"

definition wiring_delayMilliseconds :: "'s WiringPi \<Rightarrow> nat \<Rightarrow> 's \<Rightarrow> 's" where
  "wiring_delayMilliseconds l duration = delayMs l duration"

text \<open>What a driver that makes the operations does on this backend.\<close>

fun wiring_play :: "'s WiringPi \<Rightarrow> GpioOperation list \<Rightarrow> 's \<Rightarrow> 's" where
  "wiring_play l [] s = s"
| "wiring_play l (op_initialize # ops) s = wiring_play l ops (snd (wiring_initialize l s))"
| "wiring_play l (op_configureInput p # ops) s = wiring_play l ops (wiring_configureInput l p s)"
| "wiring_play l (op_configureOutput p v # ops) s = wiring_play l ops (wiring_configureOutput l p v s)"
| "wiring_play l (op_read p v # ops) s = wiring_play l ops (snd (wiring_read l p s))"
| "wiring_play l (op_write p v # ops) s = wiring_play l ops (wiring_write l p v s)"
| "wiring_play l (op_delayMilliseconds d # ops) s = wiring_play l ops (wiring_delayMilliseconds l d s)"

section \<open>The pins follow the driver\<close>

text \<open>
  What the library documents of its pins: \<^verbatim>\<open>pinMode\<close> sets the mode of one pin, and
  \<^verbatim>\<open>digitalWrite\<close> the level of one pin that is an output; nothing else changes a mode, or the level of an output.
\<close>

definition wiring_documented :: "'s WiringPi \<Rightarrow> ('s \<Rightarrow> int \<Rightarrow> int) \<Rightarrow> ('s \<Rightarrow> int \<Rightarrow> int) \<Rightarrow> bool" where
  "wiring_documented l mode level \<longleftrightarrow> INPUT l \<noteq> OUTPUT l \<and> LOW l \<noteq> HIGH l \<and> (\<forall>s p q m v d.
     mode (pinMode l p m s) q = (if q = p then m else mode s q) \<and>
     (mode s q = OUTPUT l \<longrightarrow> (q \<noteq> p \<or> m = OUTPUT l \<longrightarrow> level (pinMode l p m s) q = level s q) \<and>
        (mode s p = OUTPUT l \<longrightarrow> level (digitalWrite l p v s) q = (if q = p then v else level s q)) \<and>
        level (snd (digitalRead l p s)) q = level s q \<and> level (delayMs l d s) q = level s q) \<and>
     mode (digitalWrite l p v s) q = mode s q \<and> mode (snd (digitalRead l p s)) q = mode s q \<and> mode (delayMs l d s) q = mode s q)"

text \<open>
  A driver that knows what it configured: it does not initialize again, and it writes to pins that are outputs.
\<close>

fun writes_outputs :: "int set \<Rightarrow> GpioOperation list \<Rightarrow> bool" where
  "writes_outputs outs [] = True"
| "writes_outputs outs (op_initialize # ops) = False"
| "writes_outputs outs (op_configureInput p # ops) = writes_outputs (outs - {p}) ops"
| "writes_outputs outs (op_configureOutput p v # ops) = writes_outputs (insert p outs) ops"
| "writes_outputs outs (op_write p v # ops) = (p \<in> outs \<and> writes_outputs outs ops)"
| "writes_outputs outs (_ # ops) = writes_outputs outs ops"

fun stays_output :: "int \<Rightarrow> GpioOperation list \<Rightarrow> bool" where
  "stays_output q [] = True"
| "stays_output q (op_configureInput p # ops) = (p \<noteq> q \<and> stays_output q ops)"
| "stays_output q (_ # ops) = stays_output q ops"

definition level_number :: "'s WiringPi \<Rightarrow> GpioValue \<Rightarrow> int" where
  "level_number l v = (if v = high then HIGH l else LOW l)"

lemma wiring_play_levels:
  assumes "wiring_documented l mode level" "writes_outputs outs ops" "\<forall>p \<in> outs. mode s p = OUTPUT l" "stays_output q ops"
    "mode s q = OUTPUT l" "level s q = level_number l v"
  shows "level (wiring_play l ops s) q = level_number l (pin_level q ops v) \<and> mode (wiring_play l ops s) q = OUTPUT l"
  using assms(2-)
proof (induction ops arbitrary: outs s v)
  case (Cons x ops)
  note d = assms(1)[unfolded wiring_documented_def, THEN conjunct2, THEN conjunct2, rule_format]
  show ?case
  proof (cases x)
    case (op_configureOutput p w)
    let ?s = "wiring_configureOutput l p w s"
    have "\<forall>q \<in> insert p outs. mode ?s q = OUTPUT l" "mode ?s q = OUTPUT l"
      "level ?s q = level_number l (if p = q then w else v)"
      using d Cons.prems op_configureOutput by (auto simp: wiring_configureOutput_def level_number_def)
    with Cons.IH[of "insert p outs" ?s "if p = q then w else v"] Cons.prems op_configureOutput show ?thesis by simp
  next
    case (op_write p w)
    let ?s = "wiring_write l p w s"
    have "\<forall>q \<in> outs. mode ?s q = OUTPUT l" "mode ?s q = OUTPUT l" "level ?s q = level_number l (if p = q then w else v)"
      using d Cons.prems op_write by (auto simp: wiring_write_def level_number_def)
    with Cons.IH[of outs ?s "if p = q then w else v"] Cons.prems op_write show ?thesis by simp
  next
    case (op_configureInput p)
    let ?s = "wiring_configureInput l p s"
    have "\<forall>q \<in> outs - {p}. mode ?s q = OUTPUT l" "mode ?s q = OUTPUT l" "level ?s q = level_number l v"
      using d Cons.prems op_configureInput by (auto simp: wiring_configureInput_def)
    with Cons.IH[of "outs - {p}" ?s v] Cons.prems op_configureInput show ?thesis by simp
  next
    case (op_read p w)
    have "\<forall>q \<in> outs. mode (snd (wiring_read l p s)) q = OUTPUT l" "mode (snd (wiring_read l p s)) q = OUTPUT l"
      "level (snd (wiring_read l p s)) q = level_number l v"
      using d Cons.prems op_read by (auto simp: wiring_read_def split_beta)
    with Cons.IH[of outs "snd (wiring_read l p s)" v] Cons.prems op_read show ?thesis by simp
  next
    case (op_delayMilliseconds n)
    have "\<forall>q \<in> outs. mode (wiring_delayMilliseconds l n s) q = OUTPUT l" "mode (wiring_delayMilliseconds l n s) q = OUTPUT l"
      "level (wiring_delayMilliseconds l n s) q = level_number l v"
      using d Cons.prems op_delayMilliseconds by (auto simp: wiring_delayMilliseconds_def)
    with Cons.IH[of outs "wiring_delayMilliseconds l n s" v] Cons.prems op_delayMilliseconds show ?thesis by simp
  qed (use Cons.prems in simp)
qed simp



text \<open>A library that is a table of modes and levels, and a byte that the strip shifts out.\<close>

definition tableLibrary :: "((int \<Rightarrow> int) \<times> (int \<Rightarrow> int)) WiringPi" where
  "tableLibrary = \<lparr>wiringPiSetupGpio = (\<lambda>s. (0, s)), pinMode = (\<lambda>p m (ms, ls). (ms(p := m), ls)),
     digitalWrite = (\<lambda>p v (ms, ls). (ms, ls(p := v))), digitalRead = (\<lambda>p (ms, ls). (ls p, (ms, ls))), delayMs = (\<lambda>_ s. s),
     INPUT = 0, OUTPUT = 1, LOW = 0, HIGH = 1\<rparr>"


end
