(* ===== verification/Gpiod_Gpio.thy ===== *)
theory Gpiod_Gpio
  imports Gpio_Lines C_Strings Errno "HOL-Library.Multiset"
begin

text \<open>
  \<^verbatim>\<open>src/gpio/gpiodV2Gpio.cpp\<close>, \<^verbatim>\<open>src/gpio/gpiodValueIo.h\<close>,
  \<^verbatim>\<open>src/gpio/bcm2835MmapValueIo.cpp\<close> and \<^verbatim>\<open>src/gpio/GpioBurst.h\<close>:
  the backend that owns its lines through libgpiod, with its two paths for values. libgpiod and
  the kernel are a parameter: what each call answers is the record \<open>gpiod_env\<close>, one for each call
  of an operation. What they hand out is counted: the chips that are open, the requests and the
  infos that are not yet given back, and how often something was given back that was not held.
\<close>

section \<open>What the library answers and holds\<close>

datatype gpiod_line_direction = GPIOD_LINE_DIRECTION_INPUT | GPIOD_LINE_DIRECTION_OUTPUT
datatype gpiod_line_value = GPIOD_LINE_VALUE_ERROR | GPIOD_LINE_VALUE_INACTIVE | GPIOD_LINE_VALUE_ACTIVE

record gpiod_env =
  globResult :: int
  globPaths :: "string list"
  chipOpens :: "string \<Rightarrow> bool"
  chipInfo :: "string \<Rightarrow> (string option \<times> nat) option"
  lineInfo :: "nat \<Rightarrow> string option option"
  allocated :: bool
  directionSet :: bool
  outputValueSet :: bool
  settingsAdded :: bool
  requestGranted :: bool
  lineValue :: gpiod_line_value
  lineValueSet :: bool
  memOpens :: bool
  memMaps :: bool
  errnoIs :: int
  strerror :: "int \<Rightarrow> string"

record gpiod_handles =
  openChips :: "nat list"
  liveRequests :: "nat list"
  requestLog :: "(string \<times> int \<times> gpiod_line_direction \<times> gpiod_line_value option) list"
  liveInfos :: nat
  nextHandle :: nat
  badCloses :: nat

definition noHandles :: gpiod_handles where
  "noHandles = \<lparr>openChips = [], liveRequests = [], requestLog = [], liveInfos = 0, nextHandle = 0, badCloses = 0\<rparr>"

definition openChip :: "gpiod_handles \<Rightarrow> nat \<times> gpiod_handles" where
  "openChip r = (nextHandle r, r\<lparr>openChips := nextHandle r # openChips r, nextHandle := nextHandle r + 1\<rparr>)"

definition closeChip :: "nat \<Rightarrow> gpiod_handles \<Rightarrow> gpiod_handles" where
  "closeChip c r = (if c \<in> set (openChips r) then r\<lparr>openChips := remove1 c (openChips r)\<rparr>
     else r\<lparr>badCloses := badCloses r + 1\<rparr>)"

text \<open>A request, with the consumer, the line, the direction and the value it is driven to at first.\<close>

definition requestLine ::
  "string \<Rightarrow> int \<Rightarrow> gpiod_line_direction \<Rightarrow> gpiod_line_value option \<Rightarrow> gpiod_handles \<Rightarrow> nat \<times> gpiod_handles" where
  "requestLine consumer bcmGpio direction v r = (nextHandle r, r\<lparr>liveRequests := nextHandle r # liveRequests r,
     requestLog := requestLog r @ [(consumer, bcmGpio, direction, v)], nextHandle := nextHandle r + 1\<rparr>)"

definition releaseRequest :: "nat \<Rightarrow> gpiod_handles \<Rightarrow> gpiod_handles" where
  "releaseRequest q r = (if q \<in> set (liveRequests r) then r\<lparr>liveRequests := remove1 q (liveRequests r)\<rparr>
     else r\<lparr>badCloses := badCloses r + 1\<rparr>)"

definition getInfo :: "gpiod_handles \<Rightarrow> gpiod_handles" where
  "getInfo r = r\<lparr>liveInfos := liveInfos r + 1\<rparr>"

definition freeInfo :: "gpiod_handles \<Rightarrow> gpiod_handles" where
  "freeInfo r = (if 0 < liveInfos r then r\<lparr>liveInfos := liveInfos r - 1\<rparr> else r\<lparr>badCloses := badCloses r + 1\<rparr>)"

section \<open>The two paths for values\<close>

text \<open>The mapping of \<^verbatim>\<open>/dev/gpiomem\<close>: the file, the mapping, and the registers on it.\<close>

record Bcm2835MmapValueIo =
  fileOpen :: bool
  mapped :: bool
  ioRegisters :: "(nat \<Rightarrow> Int32U) option"

datatype GpiodValueIo = LibgpiodValueIo | MmapValueIo Bcm2835MmapValueIo

definition newBcm2835MmapValueIo :: Bcm2835MmapValueIo where
  "newBcm2835MmapValueIo = \<lparr>fileOpen = False, mapped = False, ioRegisters = None\<rparr>"

definition gpioMemoryPath :: string where "gpioMemoryPath = ''/dev/gpiomem''"

text \<open>The registers hold what the hardware has in them when they are mapped: \<open>regs\<close>.\<close>

definition mmap_initialize :: "gpiod_env \<Rightarrow> (nat \<Rightarrow> Int32U) \<Rightarrow> Bcm2835MmapValueIo \<Rightarrow> (string + unit) \<times> Bcm2835MmapValueIo" where
  "mmap_initialize e regs io =
     (if ioRegisters io \<noteq> None then (Inr (), io)
      else if \<not> memOpens e then
        (Inl (''open '' @ gpioMemoryPath @ '': '' @ strerror e (errnoIs e)), io\<lparr>fileOpen := False\<rparr>)
      else if \<not> memMaps e then
        (Inl (''mmap '' @ gpioMemoryPath @ '': '' @ strerror e (errnoIs e)), io\<lparr>fileOpen := False, mapped := False\<rparr>)
      else (Inr (), io\<lparr>fileOpen := True, mapped := True, ioRegisters := Some regs\<rparr>))"

definition mmap_read :: "int \<Rightarrow> Bcm2835MmapValueIo \<Rightarrow> int + GpioValue" where
  "mmap_read bcmGpio io = (case ioRegisters io of
     None \<Rightarrow> Inl ENODEV
   | Some regs \<Rightarrow> (case registers_read bcmGpio regs of Inl OutOfRange \<Rightarrow> Inl ERANGE | Inr v \<Rightarrow> Inr v))"

definition mmap_write :: "int \<Rightarrow> GpioValue \<Rightarrow> Bcm2835MmapValueIo \<Rightarrow> int + Bcm2835MmapValueIo" where
  "mmap_write bcmGpio v io = (case ioRegisters io of
     None \<Rightarrow> Inl ENODEV
   | Some regs \<Rightarrow> (case registers_write bcmGpio v regs of
       Inl OutOfRange \<Rightarrow> Inl ERANGE
     | Inr regs1 \<Rightarrow> Inr (io\<lparr>ioRegisters := Some regs1\<rparr>)))"

definition mmap_closeMapping :: "Bcm2835MmapValueIo \<Rightarrow> Bcm2835MmapValueIo" where
  "mmap_closeMapping io = io\<lparr>ioRegisters := None, mapped := False, fileOpen := False\<rparr>"

definition libgpiod_read :: "gpiod_env \<Rightarrow> int + GpioValue" where
  "libgpiod_read e = (case lineValue e of
     GPIOD_LINE_VALUE_ERROR \<Rightarrow> Inl (if errnoIs e \<noteq> 0 then errnoIs e else EIO)
   | GPIOD_LINE_VALUE_ACTIVE \<Rightarrow> Inr high
   | GPIOD_LINE_VALUE_INACTIVE \<Rightarrow> Inr low)"

definition libgpiod_write :: "gpiod_env \<Rightarrow> int + unit" where
  "libgpiod_write e = (if \<not> lineValueSet e then Inl (if errnoIs e \<noteq> 0 then errnoIs e else EIO) else Inr ())"

definition valueIo_initialize :: "gpiod_env \<Rightarrow> (nat \<Rightarrow> Int32U) \<Rightarrow> GpiodValueIo \<Rightarrow> (string + unit) \<times> GpiodValueIo" where
  "valueIo_initialize e regs io = (case io of
     LibgpiodValueIo \<Rightarrow> (Inr (), io)
   | MmapValueIo m \<Rightarrow> map_prod id MmapValueIo (mmap_initialize e regs m))"

definition valueIo_read :: "gpiod_env \<Rightarrow> int \<Rightarrow> GpiodValueIo \<Rightarrow> int + GpioValue" where
  "valueIo_read e bcmGpio io = (case io of LibgpiodValueIo \<Rightarrow> libgpiod_read e | MmapValueIo m \<Rightarrow> mmap_read bcmGpio m)"

definition valueIo_write :: "gpiod_env \<Rightarrow> int \<Rightarrow> GpioValue \<Rightarrow> GpiodValueIo \<Rightarrow> int + GpiodValueIo" where
  "valueIo_write e bcmGpio v io = (case io of
     LibgpiodValueIo \<Rightarrow> (case libgpiod_write e of Inl n \<Rightarrow> Inl n | Inr _ \<Rightarrow> Inr io)
   | MmapValueIo m \<Rightarrow> (case mmap_write bcmGpio v m of Inl n \<Rightarrow> Inl n | Inr m1 \<Rightarrow> Inr (MmapValueIo m1)))"

definition valueIo_description :: "GpiodValueIo \<Rightarrow> string" where
  "valueIo_description io = (case io of LibgpiodValueIo \<Rightarrow> ''libgpiod value ioctl'' | MmapValueIo _ \<Rightarrow> ''BCM2835 /dev/gpiomem'')"

text \<open>The places of the registers for setting and clearing, when the path has any.\<close>

definition burstRegisters :: "GpiodValueIo \<Rightarrow> (nat \<times> nat) option" where
  "burstRegisters io = (case io of
     LibgpiodValueIo \<Rightarrow> None
   | MmapValueIo m \<Rightarrow> if ioRegisters m = None then None else Some (setRegister0, clearRegister0))"

record GpioBurstPins =
  burstSet :: nat
  burstClear :: nat

definition burst_write :: "GpioBurstPins \<Rightarrow> Int32U \<Rightarrow> GpioValue \<Rightarrow> (nat \<Rightarrow> Int32U) \<Rightarrow> nat \<Rightarrow> Int32U" where
  "burst_write p m v regs = regs((if v = high then burstSet p else burstClear p) := m)"

section \<open>The backend\<close>

definition expectedChipLabel :: string where "expectedChipLabel = ''pinctrl-bcm2835''"
definition requiredOffsets :: "nat list" where "requiredOffsets = [4, 6, 10, 13, 17, 19, 20, 21, 22, 26, 27]"
definition greatestRequiredOffset :: nat where "greatestRequiredOffset = 27"

definition gpioError :: "gpiod_env \<Rightarrow> string \<Rightarrow> string \<Rightarrow> int \<Rightarrow> int \<Rightarrow> string" where
  "gpioError e operation chipPath bcmGpio errorNumber =
     ''libgpiod '' @ operation @ '' failed'' @
     (if chipPath \<noteq> '''' then '' on '' @ chipPath else '''') @
     (if 0 \<le> bcmGpio then '' BCM GPIO '' @ dec_int bcmGpio else '''') @
     (if errorNumber \<noteq> 0 then '': '' @ strerror e errorNumber else '''')"

record Line =
  line_request :: nat
  line_direction :: gpiod_line_direction

record GpiodV2Gpio =
  gpioChip :: "nat option"
  gpioChipPath :: string
  gpioLineCount :: nat
  gpioLines :: "(int, Line) omap"
  gpioValueIo :: GpiodValueIo
  held :: gpiod_handles

definition newGpiodV2Gpio :: "GpiodValueIo option \<Rightarrow> string + GpiodV2Gpio" where
  "newGpiodV2Gpio io = (case io of
     None \<Rightarrow> Inl ''GPIO value path is missing''
   | Some v \<Rightarrow> Inr \<lparr>gpioChip = None, gpioChipPath = '''', gpioLineCount = 0, gpioLines = [], gpioValueIo = v, held = noHandles\<rparr>)"

definition onHeld :: "(gpiod_handles \<Rightarrow> gpiod_handles) \<Rightarrow> GpiodV2Gpio \<Rightarrow> GpiodV2Gpio" where
  "onHeld f g = g\<lparr>held := f (held g)\<rparr>"

definition toGpiodValue :: "GpioValue \<Rightarrow> gpiod_line_value" where
  "toGpiodValue v = (if v = high then GPIOD_LINE_VALUE_ACTIVE else GPIOD_LINE_VALUE_INACTIVE)"

definition releaseLines :: "GpiodV2Gpio \<Rightarrow> GpiodV2Gpio" where
  "releaseLines g = (onHeld (fold (\<lambda>(_, l). releaseRequest (line_request l)) (gpioLines g)) g)\<lparr>gpioLines := []\<rparr>"

definition closeOpenChip :: "GpiodV2Gpio \<Rightarrow> GpiodV2Gpio" where
  "closeOpenChip g = (case gpioChip g of None \<Rightarrow> g | Some c \<Rightarrow> (onHeld (closeChip c) g)\<lparr>gpioChip := None\<rparr>)"

text \<open>The loop over the paths: the first chip with the label and enough lines is kept.\<close>

fun discoverFrom :: "gpiod_env \<Rightarrow> string list \<Rightarrow> GpiodV2Gpio \<Rightarrow> GpiodV2Gpio" where
  "discoverFrom e [] g = g"
| "discoverFrom e (path # paths) g =
     (if \<not> chipOpens e path then discoverFrom e paths g
      else
        let (candidate, r) = openChip (held g)
        in case chipInfo e path of
             None \<Rightarrow> discoverFrom e paths (g\<lparr>held := closeChip candidate r\<rparr>)
           | Some (label, lineCount) \<Rightarrow>
               let r1 = freeInfo (getInfo r)
               in if label = Some expectedChipLabel \<and> greatestRequiredOffset < lineCount
                  then g\<lparr>held := r1, gpioChip := Some candidate, gpioChipPath := path, gpioLineCount := lineCount\<rparr>
                  else discoverFrom e paths (g\<lparr>held := closeChip candidate r1\<rparr>))"

definition discoverChip :: "gpiod_env \<Rightarrow> GpiodV2Gpio \<Rightarrow> (string + unit) \<times> GpiodV2Gpio" where
  "discoverChip e g =
     (if globResult e \<noteq> 0 then
        (Inl (gpioError e ''chip discovery (no /dev/gpiochip* devices)'' '''' (- 1)
           (if globResult e = GLOB_NOMATCH then ENOENT else EIO)), g)
      else
        let g1 = discoverFrom e (globPaths e) g
        in if gpioChip g1 = None
           then (Inl (gpioError e ''chip discovery (label pinctrl-bcm2835 not found)'' '''' (- 1) ENODEV), g1)
           else (Inr (), g1))"

fun validateOffsets :: "gpiod_env \<Rightarrow> nat list \<Rightarrow> GpiodV2Gpio \<Rightarrow> (string + unit) \<times> GpiodV2Gpio" where
  "validateOffsets e [] g = (Inr (), g)"
| "validateOffsets e (offset # os) g =
     (if gpioLineCount g \<le> offset then (Inl (gpioError e ''line validation'' (gpioChipPath g) (int offset) ERANGE), g)
      else case lineInfo e offset of
        None \<Rightarrow> (Inl (gpioError e ''line-info lookup'' (gpioChipPath g) (int offset) (errnoIs e)), g)
      | Some name \<Rightarrow>
          let expectedName = ''GPIO'' @ dec_int (int offset);
              g1 = onHeld (freeInfo \<circ> getInfo) g
          in if name \<noteq> Some expectedName then
               (Inl (gpioError e (''line-name validation (expected '' @ expectedName @ '')'') (gpioChipPath g1) (int offset) EINVAL), g1)
             else validateOffsets e os g1)"

definition validateRequiredOffsets :: "gpiod_env \<Rightarrow> GpiodV2Gpio \<Rightarrow> (string + unit) \<times> GpiodV2Gpio" where
  "validateRequiredOffsets e = validateOffsets e requiredOffsets"

text \<open>The try block, then what the handler does with its exception.\<close>

definition tryInitialize :: "gpiod_env \<Rightarrow> (nat \<Rightarrow> Int32U) \<Rightarrow> GpiodV2Gpio \<Rightarrow> (string + unit) \<times> GpiodV2Gpio" where
  "tryInitialize e regs g = (case discoverChip e g of
     (Inl err, g1) \<Rightarrow> (Inl err, g1)
   | (Inr _, g1) \<Rightarrow> (case validateRequiredOffsets e g1 of
       (Inl err, g2) \<Rightarrow> (Inl err, g2)
     | (Inr _, g2) \<Rightarrow> (case valueIo_initialize e regs (gpioValueIo g2) of
         (Inl err, io) \<Rightarrow> (Inl (valueIo_description io @ '' initialization failed: '' @ err), g2\<lparr>gpioValueIo := io\<rparr>)
       | (Inr _, io) \<Rightarrow> (Inr (), g2\<lparr>gpioValueIo := io\<rparr>))))"

definition gpiod_initialize :: "gpiod_env \<Rightarrow> (nat \<Rightarrow> Int32U) \<Rightarrow> GpiodV2Gpio \<Rightarrow> bool \<times> GpiodV2Gpio" where
  "gpiod_initialize e regs g =
     (if gpioChip g \<noteq> None then (True, g)
      else case tryInitialize e regs g of
        (Inr _, g1) \<Rightarrow> (True, g1)
      | (Inl _, g1) \<Rightarrow> (False, (closeOpenChip (releaseLines g1))\<lparr>gpioChipPath := '''', gpioLineCount := 0\<rparr>))"

definition gpiod_destroy :: "GpiodV2Gpio \<Rightarrow> GpiodV2Gpio" where
  "gpiod_destroy g =
     (let g1 = closeOpenChip (releaseLines g)
      in g1\<lparr>gpioValueIo := (case gpioValueIo g1 of LibgpiodValueIo \<Rightarrow> LibgpiodValueIo
           | MmapValueIo m \<Rightarrow> MmapValueIo (mmap_closeMapping m))\<rparr>)"

text \<open>The line is given back before it is asked for again.\<close>

definition gpiod_configure ::
  "gpiod_env \<Rightarrow> int \<Rightarrow> gpiod_line_direction \<Rightarrow> gpiod_line_value \<Rightarrow> GpiodV2Gpio \<Rightarrow> (string + unit) \<times> GpiodV2Gpio" where
  "gpiod_configure e bcmGpio direction initialValue g =
     (if gpioChip g = None then
        (Inl (gpioError e ''configure (backend not initialized)'' (gpioChipPath g) bcmGpio ENODEV), g)
      else if bcmGpio < 0 \<or> int (gpioLineCount g) \<le> bcmGpio then
        (Inl (gpioError e ''configure'' (gpioChipPath g) bcmGpio ERANGE), g)
      else
        let g1 = (case omap_find (gpioLines g) bcmGpio of
               None \<Rightarrow> g
             | Some old \<Rightarrow> (onHeld (releaseRequest (line_request old)) g)\<lparr>gpioLines := omap_erase bcmGpio (gpioLines g)\<rparr>);
            failed = (\<lambda>operation. (Inl (gpioError e operation (gpioChipPath g) bcmGpio (errnoIs e)), g1))
        in if \<not> allocated e then failed ''request allocation''
           else if \<not> directionSet e then failed ''direction setup''
           else if direction = GPIOD_LINE_DIRECTION_OUTPUT \<and> \<not> outputValueSet e then failed ''initial-value setup''
           else if \<not> settingsAdded e then failed ''line configuration''
           else if \<not> requestGranted e then failed ''line request''
           else
             let (request, r) = requestLine (''oclock-gpio'' @ dec_int bcmGpio) bcmGpio direction
                   (if direction = GPIOD_LINE_DIRECTION_OUTPUT then Some initialValue else None) (held g1)
             in (Inr (), g1\<lparr>held := r,
                  gpioLines := omap_set bcmGpio \<lparr>line_request = request, line_direction = direction\<rparr> (gpioLines g1)\<rparr>))"

definition gpiod_configureInput :: "gpiod_env \<Rightarrow> int \<Rightarrow> GpiodV2Gpio \<Rightarrow> (string + unit) \<times> GpiodV2Gpio" where
  "gpiod_configureInput e bcmGpio = gpiod_configure e bcmGpio GPIOD_LINE_DIRECTION_INPUT GPIOD_LINE_VALUE_INACTIVE"

definition gpiod_configureOutput :: "gpiod_env \<Rightarrow> int \<Rightarrow> GpioValue \<Rightarrow> GpiodV2Gpio \<Rightarrow> (string + unit) \<times> GpiodV2Gpio" where
  "gpiod_configureOutput e bcmGpio v = gpiod_configure e bcmGpio GPIOD_LINE_DIRECTION_OUTPUT (toGpiodValue v)"

definition getConfiguredLine :: "gpiod_env \<Rightarrow> int \<Rightarrow> gpiod_line_direction \<Rightarrow> string \<Rightarrow> GpiodV2Gpio \<Rightarrow> string + Line" where
  "getConfiguredLine e bcmGpio direction operation g =
     (if gpioChip g = None then
        Inl (gpioError e (operation @ '' (backend not initialized)'') (gpioChipPath g) bcmGpio ENODEV)
      else case omap_find (gpioLines g) bcmGpio of
        Some line \<Rightarrow>
          if line_direction line = direction then Inr line
          else Inl (gpioError e (operation @ '' (line not configured for '' @
             (if direction = GPIOD_LINE_DIRECTION_INPUT then ''input)'' else ''output)'')) (gpioChipPath g) bcmGpio EINVAL)
      | None \<Rightarrow> Inl (gpioError e (operation @ '' (line not configured for '' @
             (if direction = GPIOD_LINE_DIRECTION_INPUT then ''input)'' else ''output)'')) (gpioChipPath g) bcmGpio EINVAL))"

definition gpiod_read :: "gpiod_env \<Rightarrow> int \<Rightarrow> GpiodV2Gpio \<Rightarrow> string + GpioValue" where
  "gpiod_read e bcmGpio g = (case getConfiguredLine e bcmGpio GPIOD_LINE_DIRECTION_INPUT ''read'' g of
     Inl err \<Rightarrow> Inl err
   | Inr line \<Rightarrow> (case valueIo_read e bcmGpio (gpioValueIo g) of
       Inl n \<Rightarrow> Inl (gpioError e (valueIo_description (gpioValueIo g) @ '' read'') (gpioChipPath g) bcmGpio n)
     | Inr v \<Rightarrow> Inr v))"

definition gpiod_write :: "gpiod_env \<Rightarrow> int \<Rightarrow> GpioValue \<Rightarrow> GpiodV2Gpio \<Rightarrow> (string + unit) \<times> GpiodV2Gpio" where
  "gpiod_write e bcmGpio v g = (case getConfiguredLine e bcmGpio GPIOD_LINE_DIRECTION_OUTPUT ''write'' g of
     Inl err \<Rightarrow> (Inl err, g)
   | Inr line \<Rightarrow> (case valueIo_write e bcmGpio v (gpioValueIo g) of
       Inl n \<Rightarrow> (Inl (gpioError e (valueIo_description (gpioValueIo g) @ '' write'') (gpioChipPath g) bcmGpio n), g)
     | Inr io \<Rightarrow> (Inr (), g\<lparr>gpioValueIo := io\<rparr>)))"

text \<open>The loop that fills the masks: it stops at the first pin that is not an output.\<close>

fun burstMasks :: "int list \<Rightarrow> GpiodV2Gpio \<Rightarrow> Int32U list option" where
  "burstMasks [] g = Some []"
| "burstMasks (pin # pins) g = (case omap_find (gpioLines g) pin of
     None \<Rightarrow> None
   | Some line \<Rightarrow>
       if line_direction line \<noteq> GPIOD_LINE_DIRECTION_OUTPUT then None
       else (case maskForOffset pin of
          Inl _ \<Rightarrow> None
        | Inr m \<Rightarrow> map_option ((#) m) (burstMasks pins g)))"

definition acquireBurst :: "int list \<Rightarrow> GpiodV2Gpio \<Rightarrow> (GpioBurstPins \<times> Int32U list) option" where
  "acquireBurst pins g =
     (if pins = [] then None
      else case burstRegisters (gpioValueIo g) of
        None \<Rightarrow> None
      | Some (s, c) \<Rightarrow> map_option (\<lambda>masks. (\<lparr>burstSet = s, burstClear = c\<rparr>, masks)) (burstMasks pins g))"

section \<open>Whatever is taken is given back\<close>

datatype gpiod_call =
    CallInitialize gpiod_env "nat \<Rightarrow> Int32U"
  | CallConfigureInput gpiod_env int
  | CallConfigureOutput gpiod_env int GpioValue
  | CallRead gpiod_env int
  | CallWrite gpiod_env int GpioValue
  | CallAcquireBurst "int list"

fun gpiod_call_run :: "gpiod_call \<Rightarrow> GpiodV2Gpio \<Rightarrow> GpiodV2Gpio" where
  "gpiod_call_run (CallInitialize e regs) g = snd (gpiod_initialize e regs g)"
| "gpiod_call_run (CallConfigureInput e p) g = snd (gpiod_configureInput e p g)"
| "gpiod_call_run (CallConfigureOutput e p v) g = snd (gpiod_configureOutput e p v g)"
| "gpiod_call_run (CallRead e p) g = g"
| "gpiod_call_run (CallWrite e p v) g = snd (gpiod_write e p v g)"
| "gpiod_call_run (CallAcquireBurst ps) g = g"

definition requests :: "(int, Line) omap \<Rightarrow> nat multiset" where
  "requests ls = mset (map (\<lambda>l. line_request (snd l)) ls)"

text \<open>The books: what is held is the chip and one request for each line.\<close>

definition books :: "nat option \<Rightarrow> nat multiset \<Rightarrow> gpiod_handles \<Rightarrow> bool" where
  "books chip qs r \<longleftrightarrow> openChips r = (case chip of None \<Rightarrow> [] | Some c \<Rightarrow> [c]) \<and> mset (liveRequests r) = qs \<and>
     liveInfos r = 0 \<and> badCloses r = 0"

definition gpiod_ok :: "GpiodV2Gpio \<Rightarrow> bool" where
  "gpiod_ok g \<longleftrightarrow> omap_inv (gpioLines g) \<and> books (gpioChip g) (requests (gpioLines g)) (held g) \<and>
     (gpioChip g = None \<longrightarrow> gpioLines g = [])"

lemma onHeld_frame [simp]:
  "gpioChip (onHeld f g) = gpioChip g" "gpioLines (onHeld f g) = gpioLines g" "held (onHeld f g) = f (held g)"
  "gpioValueIo (onHeld f g) = gpioValueIo g" "gpioLineCount (onHeld f g) = gpioLineCount g"
  by (simp_all add: onHeld_def)

lemma requests_simps [simp]: "requests [] = {#}" "requests (l # ls) = add_mset (line_request (snd l)) (requests ls)"
  by (simp_all add: requests_def)

lemma requests_erase:
  "omap_inv ls \<Longrightarrow> omap_find ls k = Some l \<Longrightarrow> requests ls = add_mset (line_request l) (requests (omap_erase k ls))"
proof (induction ls)
  case (Cons e ls)
  show ?case
  proof (cases "fst e = k")
    case True
    have "omap_find ls k = None" using Cons.prems(1) True by (cases e) (force simp: map_of_eq_None_iff)
    then have "omap_erase k (e # ls) = ls" using True omap_erase_absent[of ls k] by (simp add: omap_erase_def)
    then show ?thesis using Cons.prems(2) True by (cases e) simp
  next
    case False
    have "omap_erase k (e # ls) = e # omap_erase k ls" using False by (simp add: omap_erase_def)
    moreover have "requests ls = add_mset (line_request l) (requests (omap_erase k ls))"
      using Cons.prems False by (cases e) (auto intro!: Cons.IH)
    ultimately show ?thesis by simp
  qed
qed simp

lemma requests_set: "omap_find ls k = None \<Longrightarrow> requests (omap_set k l ls) = add_mset (line_request l) (requests ls)"
  by (induction k l ls rule: omap_set.induct) (auto split: if_splits)

lemma books_release:
  "books chip (add_mset q qs) r \<Longrightarrow> books chip qs (releaseRequest q r)"
proof -
  assume b: "books chip (add_mset q qs) r"
  then have m: "mset (liveRequests r) = add_mset q qs" by (simp add: books_def)
  then have "q \<in># mset (liveRequests r)" by simp
  then have "q \<in> set (liveRequests r)" by simp
  then show ?thesis using b m by (simp add: books_def releaseRequest_def)
qed

lemma books_request: "books chip qs r \<Longrightarrow> requestLine c b d v r = (q, r') \<Longrightarrow> books chip (add_mset q qs) r'"
  by (auto simp: books_def requestLine_def)

lemma books_close: "books (Some c) qs r \<Longrightarrow> books None qs (closeChip c r)"
  by (simp add: books_def closeChip_def)

lemma books_open: "books None qs r \<Longrightarrow> openChip r = (c, r') \<Longrightarrow> books (Some c) qs r'"
  by (auto simp: books_def openChip_def)

lemma books_info [simp]: "books chip qs (freeInfo (getInfo r)) = books chip qs r"
  by (simp add: books_def freeInfo_def getInfo_def)

lemma books_releases:
  "books chip (requests ls + qs) r \<Longrightarrow> books chip qs (fold (\<lambda>(_, l). releaseRequest (line_request l)) ls r)"
  by (induction ls arbitrary: r) (auto dest: books_release)

lemma releaseLines_frame [simp]:
  "gpioChip (releaseLines g) = gpioChip g" "gpioLines (releaseLines g) = []" "gpioValueIo (releaseLines g) = gpioValueIo g"
  by (simp_all add: releaseLines_def)

lemma books_releaseLines:
  "books (gpioChip g) (requests (gpioLines g)) (held g) \<Longrightarrow> books (gpioChip g) {#} (held (releaseLines g))"
  using books_releases[of "gpioChip g" "gpioLines g" "{#}" "held g"] by (simp add: releaseLines_def)

lemma books_closeOpenChip:
  "books (gpioChip g) qs (held g) \<Longrightarrow> books None qs (held (closeOpenChip g)) \<and> gpioChip (closeOpenChip g) = None \<and>
     gpioLines (closeOpenChip g) = gpioLines g"
  by (cases "gpioChip g") (simp_all add: closeOpenChip_def books_close)

text \<open>While the chip is looked for and checked there are no lines.\<close>

definition no_lines :: "GpiodV2Gpio \<Rightarrow> bool" where
  "no_lines g \<longleftrightarrow> gpioLines g = [] \<and> books (gpioChip g) {#} (held g)"

lemma no_lines_discover: "no_lines g \<Longrightarrow> gpioChip g = None \<Longrightarrow> no_lines (discoverFrom e ps g)"
proof (induction e ps g rule: discoverFrom.induct)
  case (2 e path paths g)
  obtain c r where o: "openChip (held g) = (c, r)" by fastforce
  have b: "books (Some c) {#} r" using 2(4,5) o by (auto simp: no_lines_def intro: books_open)
  have cl: "no_lines (g\<lparr>held := closeChip c r'\<rparr>)" if "books (Some c) {#} r'" for r'
    using 2(4,5) books_close[OF that] by (simp add: no_lines_def)
  show ?case
  proof (cases "chipOpens e path")
    case False
    then show ?thesis using 2 by simp
  next
    case True
    show ?thesis
    proof (cases "chipInfo e path")
      case None
      then show ?thesis using "2.IH"(2)[OF _ o[symmetric] refl None] True cl[OF b] 2(5) o by simp
    next
      case (Some i)
      obtain label n where i: "i = (label, n)" by (cases i)
      show ?thesis
      proof (cases "label = Some expectedChipLabel \<and> greatestRequiredOffset < n")
        case True
        then show ?thesis using \<open>chipOpens e path\<close> Some i o b 2(4) by (simp add: no_lines_def)
      next
        case False
        then have "no_lines (discoverFrom e paths (g\<lparr>held := closeChip c (freeInfo (getInfo r))\<rparr>))"
          using "2.IH"(3)[OF _ refl o[symmetric] Some i[symmetric] refl False] \<open>chipOpens e path\<close> cl[of "freeInfo (getInfo r)"] b 2(5)
          by simp
        moreover have "discoverFrom e (path # paths) g = discoverFrom e paths (g\<lparr>held := closeChip c (freeInfo (getInfo r))\<rparr>)"
          using False \<open>chipOpens e path\<close> Some i o by (auto simp: Let_def)
        ultimately show ?thesis by simp
      qed
    qed
  qed
qed simp

lemma validate_frame:
  "validateOffsets e os g = (res, g') \<Longrightarrow> no_lines g \<Longrightarrow> no_lines g'"
proof (induction e os g rule: validateOffsets.induct)
  case (2 e offset os g)
  have "no_lines (onHeld (freeInfo \<circ> getInfo) g)" using "2.prems"(2) by (simp add: no_lines_def)
  then show ?case using "2.prems" "2.IH" by (auto simp: Let_def split: if_splits option.splits)
qed simp

lemma no_lines_valueIo [simp]: "no_lines (g\<lparr>gpioValueIo := io\<rparr>) = no_lines g"
  by (simp add: no_lines_def)

lemma validate_chip: "validateOffsets e os g = (res, g') \<Longrightarrow> gpioChip g' = gpioChip g"
  by (induction e os g rule: validateOffsets.induct) (auto simp: Let_def split: if_splits option.splits)

lemma tryInitialize_frame:
  assumes "tryInitialize e regs g = (res, g')" "no_lines g" "gpioChip g = None"
  shows "no_lines g' \<and> (res = Inr () \<longrightarrow> gpioChip g' \<noteq> None)"
proof -
  obtain r1 g1 where d: "discoverChip e g = (r1, g1)" by fastforce
  have g1: "no_lines g1" "r1 = Inr () \<longrightarrow> gpioChip g1 \<noteq> None"
    using d assms(2,3) no_lines_discover[OF assms(2,3), of e "globPaths e"]
    by (auto simp: discoverChip_def Let_def split: if_splits)
  obtain r2 g2 where v: "validateRequiredOffsets e g1 = (r2, g2)" by fastforce
  have g2: "no_lines g2" "gpioChip g2 = gpioChip g1"
    using v g1(1) validate_frame validate_chip unfolding validateRequiredOffsets_def by blast+
  show ?thesis using assms(1) d v g1 g2
    by (cases r1; cases r2) (auto simp: tryInitialize_def split: prod.splits sum.splits)
qed

lemma gpiod_ok_initialize:
  assumes "gpiod_ok g" shows "gpiod_ok (snd (gpiod_initialize e regs g))"
proof (cases "gpioChip g")
  case None
  then have n: "no_lines g" using assms by (auto simp: gpiod_ok_def no_lines_def)
  obtain res g1 where t: "tryInitialize e regs g = (res, g1)" by fastforce
  have g1: "no_lines g1" "res = Inr () \<longrightarrow> gpioChip g1 \<noteq> None" using tryInitialize_frame[OF t n None] by blast+
  show ?thesis
  proof (cases res)
    case (Inr u)
    then show ?thesis using t None g1 by (simp add: gpiod_initialize_def gpiod_ok_def no_lines_def)
  next
    case (Inl err)
    have "books (gpioChip (releaseLines g1)) {#} (held (releaseLines g1))"
      using g1(1) books_releaseLines[of g1] by (simp add: no_lines_def)
    from books_closeOpenChip[OF this] show ?thesis using Inl t None
      by (simp add: gpiod_initialize_def gpiod_ok_def)
  qed
qed (use assms in \<open>simp add: gpiod_initialize_def\<close>)

text \<open>The state after the line was given back.\<close>

definition withoutLine :: "int \<Rightarrow> GpiodV2Gpio \<Rightarrow> GpiodV2Gpio" where
  "withoutLine p g = (case omap_find (gpioLines g) p of
     None \<Rightarrow> g
   | Some old \<Rightarrow> (onHeld (releaseRequest (line_request old)) g)\<lparr>gpioLines := omap_erase p (gpioLines g)\<rparr>)"

lemma withoutLine_frame [simp]:
  "gpioChip (withoutLine p g) = gpioChip g" "gpioLines (withoutLine p g) = omap_erase p (gpioLines g)"
  by (simp_all add: withoutLine_def omap_erase_absent split: option.split)

lemma gpiod_ok_withoutLine:
  assumes "gpiod_ok g" shows "gpiod_ok (withoutLine p g)"
proof (cases "omap_find (gpioLines g) p")
  case (Some old)
  have b: "books (gpioChip g) (requests (gpioLines g)) (held g)" and i: "omap_inv (gpioLines g)"
    using assms by (simp_all add: gpiod_ok_def)
  have "books (gpioChip g) (requests (omap_erase p (gpioLines g))) (releaseRequest (line_request old) (held g))"
    using b requests_erase[OF i Some] by (simp add: books_release)
  then show ?thesis using assms Some omap_inv_erase[OF i, of p] by (auto simp: gpiod_ok_def withoutLine_def omap_erase_def)
qed (use assms in \<open>simp add: withoutLine_def\<close>)

lemma configure_cases:
  assumes "gpiod_configure e p d v g = (res, g')"
  shows "g' = g \<or> g' = withoutLine p g \<or>
    gpioChip g \<noteq> None \<and> (\<exists>c u q r. requestLine c p d u (held (withoutLine p g)) = (q, r) \<and>
      g' = (withoutLine p g)\<lparr>held := r,
        gpioLines := omap_set p \<lparr>line_request = q, line_direction = d\<rparr> (gpioLines (withoutLine p g))\<rparr>)"
  using assms unfolding gpiod_configure_def withoutLine_def[symmetric] Let_def
  by (auto split: if_splits prod.splits)

lemma gpiod_ok_configure:
  assumes "gpiod_ok g" shows "gpiod_ok (snd (gpiod_configure e p d v g))"
proof -
  obtain res g' where c: "gpiod_configure e p d v g = (res, g')" by fastforce
  note w = gpiod_ok_withoutLine[OF assms, of p]
  have "gpiod_ok ((withoutLine p g)\<lparr>held := r,
        gpioLines := omap_set p \<lparr>line_request = q, line_direction = d\<rparr> (gpioLines (withoutLine p g))\<rparr>)"
    if "requestLine cs p d u (held (withoutLine p g)) = (q, r)" "gpioChip g \<noteq> None" for cs u q r
    using w that books_request[OF _ that(1)] by (auto simp: gpiod_ok_def requests_set omap_inv_set omap_find_erase)
  then show ?thesis using configure_cases[OF c] c w assms by auto
qed

lemma gpiod_ok_write: "gpiod_ok g \<Longrightarrow> gpiod_ok (snd (gpiod_write e p v g))"
  by (auto simp: gpiod_write_def gpiod_ok_def split: sum.splits)

lemma gpiod_ok_call: "gpiod_ok g \<Longrightarrow> gpiod_ok (gpiod_call_run c g)"
  by (cases c) (simp_all add: gpiod_ok_initialize gpiod_ok_configure gpiod_configureInput_def gpiod_configureOutput_def
      gpiod_ok_write)

lemma gpiod_ok_calls: "gpiod_ok g \<Longrightarrow> gpiod_ok (fold gpiod_call_run cs g)"
  by (induction cs arbitrary: g) (simp_all add: gpiod_ok_call)

text \<open>
  C11. Whatever is taken from libgpiod is given back, once. After any calls of the backend, in any
  order and whatever the library and the kernel answered to them, it holds its chip, one request for
  each line and nothing else; its destructor gives back all of it, and nothing was ever given back
  that was not held.
\<close>

theorem gpiod_gives_everything_back:
  "\<exists>g. newGpiodV2Gpio (Some io) = Inr g \<and>
     (let g1 = fold gpiod_call_run cs g; r = held (gpiod_destroy g1)
      in length (openChips (held g1)) \<le> 1 \<and> length (liveRequests (held g1)) = length (gpioLines g1) \<and>
         openChips r = [] \<and> liveRequests r = [] \<and> liveInfos r = 0 \<and> badCloses r = 0)"
proof -
  obtain g where g: "newGpiodV2Gpio (Some io) = Inr g" by (simp add: newGpiodV2Gpio_def)
  then have "gpiod_ok g" by (auto simp: newGpiodV2Gpio_def gpiod_ok_def books_def noHandles_def)
  then have ok: "gpiod_ok (fold gpiod_call_run cs g)" by (rule gpiod_ok_calls)
  let ?g = "fold gpiod_call_run cs g"
  have b: "books (gpioChip ?g) (requests (gpioLines ?g)) (held ?g)" using ok by (simp add: gpiod_ok_def)
  then have "size (mset (liveRequests (held ?g))) = size (requests (gpioLines ?g))" by (simp add: books_def)
  then have s: "length (liveRequests (held ?g)) = length (gpioLines ?g)" by (simp add: requests_def)
  have "books (gpioChip (releaseLines ?g)) {#} (held (releaseLines ?g))" using books_releaseLines[OF b] by simp
  from books_closeOpenChip[OF this] have "books None {#} (held (gpiod_destroy ?g))"
    by (simp add: gpiod_destroy_def Let_def)
  then show ?thesis using g b s by (auto simp: books_def Let_def split: option.splits)
qed

text \<open>
  C31. The fast path writes what the slow path writes. When the backend hands out registers and
  masks for some pins, there is a mask for each pin, the pins are lines that it holds as outputs, and
  a store of a pin's mask leaves the registers exactly as a call of write for that pin leaves them,
  and such a call does not fail.
\<close>

theorem burst_writes_as_write_does:
  assumes "gpiod_ok g" "acquireBurst pins g = Some (p, masks)"
  shows "length masks = length pins \<and> (\<exists>m regs. gpioValueIo g = MmapValueIo m \<and> ioRegisters m = Some regs \<and>
    (\<forall>n. n < length pins \<longrightarrow> map_option line_direction (omap_find (gpioLines g) (pins ! n)) = Some GPIOD_LINE_DIRECTION_OUTPUT \<and>
      gpiod_write e (pins ! n) v g = (Inr (), g\<lparr>gpioValueIo :=
        MmapValueIo (m\<lparr>ioRegisters := Some (burst_write p (masks ! n) v regs)\<rparr>)\<rparr>)))"
proof -
  obtain m regs where io: "gpioValueIo g = MmapValueIo m" "ioRegisters m = Some regs"
      and p: "p = \<lparr>burstSet = setRegister0, burstClear = clearRegister0\<rparr>" and b: "burstMasks pins g = Some masks"
    using assms(2) by (auto simp: acquireBurst_def burstRegisters_def split: if_splits option.splits GpiodValueIo.splits)
  have "length masks = length pins \<and> (\<forall>n < length pins. \<exists>l. omap_find (gpioLines g) (pins ! n) = Some l \<and>
      line_direction l = GPIOD_LINE_DIRECTION_OUTPUT \<and> maskForOffset (pins ! n) = Inr (masks ! n))"
    using b
  proof (induction pins arbitrary: masks)
    case (Cons pin pins)
    then obtain l k ms where "omap_find (gpioLines g) pin = Some l" "line_direction l = GPIOD_LINE_DIRECTION_OUTPUT"
        "maskForOffset pin = Inr k" "burstMasks pins g = Some ms" "masks = k # ms"
      by (auto split: option.splits sum.splits if_splits)
    then show ?case using Cons.IH[of ms] by (auto simp: nth_Cons split: nat.split)
  qed simp
  moreover have "gpiod_write e pin v g = (Inr (), g\<lparr>gpioValueIo := MmapValueIo (m\<lparr>ioRegisters := Some (burst_write p k v regs)\<rparr>)\<rparr>)"
    if "omap_find (gpioLines g) pin = Some l" "line_direction l = GPIOD_LINE_DIRECTION_OUTPUT" "maskForOffset pin = Inr k" for pin l k
  proof -
    have "gpioChip g \<noteq> None" using assms(1) that(1) by (auto simp: gpiod_ok_def)
    then show ?thesis using io p that
      by (simp add: gpiod_write_def getConfiguredLine_def valueIo_write_def mmap_write_def registers_write_def burst_write_def)
  qed
  ultimately have "length masks = length pins" "\<forall>n < length pins.
      map_option line_direction (omap_find (gpioLines g) (pins ! n)) = Some GPIOD_LINE_DIRECTION_OUTPUT \<and>
      gpiod_write e (pins ! n) v g = (Inr (), g\<lparr>gpioValueIo := MmapValueIo (m\<lparr>ioRegisters := Some (burst_write p (masks ! n) v regs)\<rparr>)\<rparr>)"
    by fastforce+
  then show ?thesis using io by blast
qed

text \<open>An environment in which every call fails.\<close>

definition noLuck :: gpiod_env where
  "noLuck = \<lparr>globResult = GLOB_NOMATCH, globPaths = [], chipOpens = (\<lambda>_. False), chipInfo = (\<lambda>_. None), lineInfo = (\<lambda>_. None),
     allocated = False, directionSet = False, outputValueSet = False, settingsAdded = False, requestGranted = False,
     lineValue = GPIOD_LINE_VALUE_ERROR, lineValueSet = False, memOpens = False, memMaps = False, errnoIs = EIO, strerror = (\<lambda>_. ''error'')\<rparr>"

definition twoOutputs :: GpiodV2Gpio where
  "twoOutputs = \<lparr>gpioChip = Some 0, gpioChipPath = ''/dev/gpiochip0'', gpioLineCount = 54,
     gpioLines = [(10, \<lparr>line_request = 1, line_direction = GPIOD_LINE_DIRECTION_OUTPUT\<rparr>),
       (27, \<lparr>line_request = 2, line_direction = GPIOD_LINE_DIRECTION_OUTPUT\<rparr>)],
     gpioValueIo = MmapValueIo \<lparr>fileOpen = True, mapped = True, ioRegisters = Some (\<lambda>_. 0)\<rparr>,
     held = \<lparr>openChips = [0], liveRequests = [2, 1], requestLog = [], liveInfos = 0, nextHandle = 3, badCloses = 0\<rparr>\<rparr>"

lemma burst_writes_as_write_does_witness:
  "\<exists>regs. gpiod_write noLuck 10 high twoOutputs = (Inr (), twoOutputs\<lparr>gpioValueIo :=
     MmapValueIo \<lparr>fileOpen = True, mapped = True, ioRegisters = Some regs\<rparr>\<rparr>) \<and> regs setRegister0 = 1024"
proof -
  have ok: "gpiod_ok twoOutputs" by (simp add: gpiod_ok_def twoOutputs_def books_def omap_inv_def)
  have b: "acquireBurst [10, 27] twoOutputs =
      Some (\<lparr>burstSet = setRegister0, burstClear = clearRegister0\<rparr>, [1024, push_bit 27 1])"
    by (simp add: acquireBurst_def twoOutputs_def burstRegisters_def maskForOffset_def supportsOffset_def push_bit_eq_mult)
  from burst_writes_as_write_does[OF ok b, where v = high and e = noLuck] obtain m regs
    where m: "gpioValueIo twoOutputs = MmapValueIo m" "ioRegisters m = Some regs"
      and "\<forall>n. n < length [10::int, 27] \<longrightarrow> gpiod_write noLuck ([10, 27] ! n) high twoOutputs = (Inr (), twoOutputs\<lparr>gpioValueIo :=
        MmapValueIo (m\<lparr>ioRegisters := Some (burst_write \<lparr>burstSet = setRegister0, burstClear = clearRegister0\<rparr>
          ([1024, push_bit 27 1] ! n) high regs)\<rparr>)\<rparr>)" by blast
  then have "gpiod_write noLuck 10 high twoOutputs = (Inr (), twoOutputs\<lparr>gpioValueIo :=
        MmapValueIo (m\<lparr>ioRegisters := Some (burst_write \<lparr>burstSet = setRegister0, burstClear = clearRegister0\<rparr> 1024 high regs)\<rparr>)\<rparr>)"
    by (auto dest!: spec[of _ 0])
  moreover have "m = \<lparr>fileOpen = True, mapped = True, ioRegisters = Some (\<lambda>_. 0)\<rparr>" using m by (simp add: twoOutputs_def)
  ultimately show ?thesis by (auto simp: burst_write_def)
qed

end
