(* ===== verification/Mcp300x.thy ===== *)
theory Mcp300x
  imports Gpio_Lines
begin

text \<open>
  \<^verbatim>\<open>mcp300x/mcp300x.cpp\<close> and \<^verbatim>\<open>mcp300x/mcp300x.h\<close>: the
  driver that talks to an analog-to-digital converter over four pins. It works on any
  implementation of the pins: how a pin is written and read are arguments, and the state of the
  pins is passed along. The converter is not code: what is used of it is what its manual documents.
\<close>

unbundle bit_operations_syntax

section \<open>The interface of the pins\<close>

text \<open>What an implementation of the pins promises: it makes the operations it is asked for, in order.\<close>

locale gpio_port =
  fixes wr :: "int \<Rightarrow> GpioValue \<Rightarrow> 'g \<Rightarrow> 'g"
    and rd :: "int \<Rightarrow> 'g \<Rightarrow> GpioValue \<times> 'g"
    and hist :: "'g \<Rightarrow> GpioOperation list"
  assumes hist_wr: "hist (wr p v g) = hist g @ [op_write p v]"
    and hist_rd: "rd p g = (v, g') \<Longrightarrow> hist g' = hist g @ [op_read p v]"

text \<open>The recording implementation, and pins with a device on them that drives the level of its output.\<close>

interpretation fake_port: gpio_port gpio_write gpio_read operationHistory
  by unfold_locales (auto simp: gpio_write_def gpio_read_def gpio_record_def Let_def split: list.splits option.splits)

definition bus_write :: "int \<Rightarrow> GpioValue \<Rightarrow> GpioOperation list \<Rightarrow> GpioOperation list" where
  "bus_write p v h = h @ [op_write p v]"

definition bus_read :: "(GpioOperation list \<Rightarrow> GpioValue) \<Rightarrow> int \<Rightarrow> GpioOperation list \<Rightarrow> GpioValue \<times> GpioOperation list" where
  "bus_read level p h = (level h, h @ [op_read p (level h)])"

interpretation bus_port: gpio_port bus_write "bus_read level" id
  by unfold_locales (auto simp: bus_write_def bus_read_def)

section \<open>The driver\<close>

datatype Mcp_model = Mcp3002 | Mcp3008

record Mcp300x_pins =
  pinClock :: int
  pinDigitalOut :: int
  pinDigitalIn :: int
  pinChipSelect :: int

fun lastChannelPin :: "Mcp_model \<Rightarrow> int" where
  "lastChannelPin Mcp3002 = 1"
| "lastChannelPin Mcp3008 = 7"

fun getCmdOutInfo :: "Mcp_model \<Rightarrow> int \<Rightarrow> Int8U \<times> nat" where
  "getCmdOutInfo Mcp3002 pinChannel = (push_bit (8 - 3) (word_of_int (0x6 OR pinChannel)), 3)"
| "getCmdOutInfo Mcp3008 pinChannel = (push_bit (8 - 5) (word_of_int (0x18 OR pinChannel)), 5)"

definition newMcp300x :: "Mcp300x_pins \<Rightarrow> GpioOperation list" where
  "newMcp300x m = [op_configureOutput (pinClock m) low, op_configureInput (pinDigitalOut m),
     op_configureOutput (pinChipSelect m) high, op_configureOutput (pinDigitalIn m) low]"

definition mcp_destroy :: "Mcp300x_pins \<Rightarrow> GpioOperation list" where
  "mcp_destroy m = [op_configureInput (pinClock m), op_configureInput (pinChipSelect m), op_configureInput (pinDigitalIn m)]"

definition tickClock :: "(int \<Rightarrow> GpioValue \<Rightarrow> 'g \<Rightarrow> 'g) \<Rightarrow> Mcp300x_pins \<Rightarrow> 'g \<Rightarrow> 'g" where
  "tickClock wr m g = wr (pinClock m) low (wr (pinClock m) high g)"

text \<open>The loop that shifts the command out, and the one that shifts the value in.\<close>

fun commandLoop :: "(int \<Rightarrow> GpioValue \<Rightarrow> 'g \<Rightarrow> 'g) \<Rightarrow> Mcp300x_pins \<Rightarrow> nat \<Rightarrow> Int8U \<Rightarrow> 'g \<Rightarrow> 'g" where
  "commandLoop wr m 0 cmdOut g = g"
| "commandLoop wr m (Suc n) cmdOut g =
     commandLoop wr m n (push_bit 1 cmdOut) (tickClock wr m (wr (pinDigitalIn m) (gpio_bit (cmdOut AND 0x80 \<noteq> 0)) g))"

fun valueLoop :: "(int \<Rightarrow> GpioValue \<Rightarrow> 'g \<Rightarrow> 'g) \<Rightarrow> (int \<Rightarrow> 'g \<Rightarrow> GpioValue \<times> 'g) \<Rightarrow> Mcp300x_pins \<Rightarrow> nat \<Rightarrow> int \<Rightarrow> 'g \<Rightarrow> int \<times> 'g" where
  "valueLoop wr rd m 0 valueOut g = (valueOut, g)"
| "valueLoop wr rd m (Suc n) valueOut g =
     (let shifted = push_bit 1 valueOut; (v, g1) = rd (pinDigitalOut m) (tickClock wr m g)
      in valueLoop wr rd m n (if v = high then shifted OR 1 else shifted) g1)"

definition mcp_readAnalog ::
  "(int \<Rightarrow> GpioValue \<Rightarrow> 'g \<Rightarrow> 'g) \<Rightarrow> (int \<Rightarrow> 'g \<Rightarrow> GpioValue \<times> 'g) \<Rightarrow> Mcp_model \<Rightarrow> Mcp300x_pins \<Rightarrow> int \<Rightarrow> 'g \<Rightarrow> int \<times> 'g" where
  "mcp_readAnalog wr rd model m pinChannel g =
     (if pinChannel < 0 \<or> lastChannelPin model < pinChannel then (- 1, g)
      else
        let (cmdOut, cmdOutBits) = getCmdOutInfo model pinChannel;
            g1 = wr (pinChipSelect m) low (wr (pinClock m) low (wr (pinChipSelect m) high g));
            g2 = tickClock wr m (commandLoop wr m cmdOutBits cmdOut g1);
            (valueOut, g3) = valueLoop wr rd m 10 0 g2
        in (valueOut, wr (pinChipSelect m) high (tickClock wr m g3)))"

section \<open>The value stays in its ten bits\<close>

lemma valueLoop_range:
  "0 \<le> v \<Longrightarrow> v < 2 ^ k \<Longrightarrow> valueLoop wr rd m n v g = (r, g') \<Longrightarrow> 0 \<le> r \<and> r < 2 ^ (k + n)"
proof (induction n arbitrary: v g k)
  case (Suc n)
  obtain x g1 where r: "rd (pinDigitalOut m) (tickClock wr m g) = (x, g1)" by fastforce
  let ?v = "if x = high then push_bit 1 v OR 1 else push_bit 1 v"
  have "0 \<le> ?v" "?v < 2 ^ Suc k" using Suc.prems(1,2) by (auto simp: or_one_eq push_bit_eq_mult)
  then show ?case using Suc.IH[of ?v "Suc k" g1] Suc.prems(3) r by (cases x) (simp_all add: Let_def)
qed simp

section \<open>The operations of a reading, on any pins\<close>

text \<open>The pulses of a clock among some operations.\<close>

definition pulses :: "int \<Rightarrow> GpioOperation list \<Rightarrow> nat" where
  "pulses p ops = length (filter (\<lambda>x. x = op_write p high) ops)"

lemma pulses_append [simp]: "pulses p (a @ b) = pulses p a + pulses p b"
  by (simp add: pulses_def)

text \<open>The operations are added to those before, with a number of pulses of the clock.\<close>

definition makes :: "('g \<Rightarrow> GpioOperation list) \<Rightarrow> int \<Rightarrow> nat \<Rightarrow> 'g \<Rightarrow> 'g \<Rightarrow> bool" where
  "makes hist p n g g' \<longleftrightarrow> (\<exists>ops. hist g' = hist g @ ops \<and> pulses p ops = n)"

context gpio_port
begin

lemma makes_refl: "makes hist p 0 g g"
  by (simp add: makes_def pulses_def)

lemma makes_trans: "makes hist p a g g1 \<Longrightarrow> makes hist p b g1 g2 \<Longrightarrow> makes hist p (a + b) g g2"
  by (force simp: makes_def)

lemma makes_wr: "makes hist p (if q = p \<and> v = high then 1 else 0) g (wr q v g)"
  by (auto simp: makes_def hist_wr pulses_def)

lemma makes_rd: "rd q g = (v, g') \<Longrightarrow> makes hist p 0 g g'"
  by (auto simp: makes_def hist_rd pulses_def)

lemma makes_tick: "makes hist (pinClock m) 1 g (tickClock wr m g)"
  using makes_trans[OF makes_wr[of "pinClock m" "pinClock m" high g] makes_wr[of "pinClock m" "pinClock m" low]]
  by (simp add: tickClock_def)

lemma makes_command:
  "pinDigitalIn m \<noteq> pinClock m \<Longrightarrow> makes hist (pinClock m) n g (commandLoop wr m n cmd g)"
proof (induction n arbitrary: cmd g)
  case (Suc n)
  let ?g = "wr (pinDigitalIn m) (gpio_bit (cmd AND 0x80 \<noteq> 0)) g"
  have "makes hist (pinClock m) 0 g ?g" using makes_wr[of "pinClock m" "pinDigitalIn m"] Suc.prems by simp
  from makes_trans[OF makes_trans[OF this makes_tick] Suc.IH[OF Suc.prems]] show ?case by simp
qed (simp add: makes_refl)

lemma makes_value: "makes hist (pinClock m) n g (snd (valueLoop wr rd m n v g))"
proof (induction n arbitrary: v g)
  case (Suc n)
  obtain x g1 where r: "rd (pinDigitalOut m) (tickClock wr m g) = (x, g1)" by fastforce
  from makes_trans[OF makes_trans[OF makes_tick makes_rd[OF r]] Suc.IH] show ?case using r by (simp add: Let_def)
qed (simp add: makes_refl)

text \<open>A reading makes a pulse for each bit of the command, one for the sample, ten for the value and a last one.\<close>

lemma reading_pulses:
  assumes "0 \<le> ch" "ch \<le> lastChannelPin model" "pinDigitalIn m \<noteq> pinClock m" "pinChipSelect m \<noteq> pinClock m"
  shows "makes hist (pinClock m) (snd (getCmdOutInfo model ch) + 12) g (snd (mcp_readAnalog wr rd model m ch g))"
proof -
  obtain cmd n where c: "getCmdOutInfo model ch = (cmd, n)" by fastforce
  let ?g1 = "wr (pinChipSelect m) low (wr (pinClock m) low (wr (pinChipSelect m) high g))"
  let ?g2 = "tickClock wr m (commandLoop wr m n cmd ?g1)"
  let ?g3 = "snd (valueLoop wr rd m 10 0 ?g2)"
  have cs: "makes hist (pinClock m) 0 h (wr (pinChipSelect m) v h)" for h v using makes_wr[of "pinClock m" "pinChipSelect m" v h] assms(4) by simp
  have cl: "makes hist (pinClock m) 0 h (wr (pinClock m) low h)" for h using makes_wr[of "pinClock m" "pinClock m" low h] by simp
  have "makes hist (pinClock m) 0 g ?g1" using makes_trans[OF makes_trans[OF cs cl] cs] by simp
  from makes_trans[OF makes_trans[OF makes_trans[OF makes_trans[OF makes_trans[OF this makes_command[OF assms(3)]] makes_tick] makes_value] makes_tick] cs]
  have "makes hist (pinClock m) (0 + n + 1 + 10 + 1 + 0) g (wr (pinChipSelect m) high (tickClock wr m ?g3))" .
  then show ?thesis using assms(1,2) c by (simp add: mcp_readAnalog_def case_prod_unfold Let_def add.commute)
qed

end

text \<open>So on the recorder, where each reading of the two models takes 15 and 17 pulses.\<close>

lemma recorded_reading:
  assumes "0 \<le> ch" "ch \<le> lastChannelPin model" "pinDigitalIn m \<noteq> pinClock m" "pinChipSelect m \<noteq> pinClock m"
  shows "\<exists>ops. operationHistory (snd (mcp_readAnalog gpio_write gpio_read model m ch g)) = operationHistory g @ ops \<and>
    pulses (pinClock m) ops = (case model of Mcp3002 \<Rightarrow> 15 | Mcp3008 \<Rightarrow> 17)"
  using fake_port.reading_pulses[OF assms, of g] by (cases model) (simp_all add: makes_def)

section \<open>What the converter receives\<close>

text \<open>
  The bits on its input at the rising edges of the clock since it was selected, and nothing while
  it is not selected.
\<close>

fun mcp_receives :: "Mcp300x_pins \<Rightarrow> GpioOperation list \<Rightarrow> bool list option \<times> GpioValue \<Rightarrow> bool list option \<times> GpioValue" where
  "mcp_receives m [] s = s"
| "mcp_receives m (op_write p v # ops) (sel, din) = mcp_receives m ops
     (if p = pinChipSelect m then
        ((if v = high then None else case sel of None \<Rightarrow> Some [] | Some bs \<Rightarrow> Some bs), din)
      else if p = pinClock m \<and> v = high then (map_option (\<lambda>bs. bs @ [din = high]) sel, din)
      else if p = pinDigitalIn m then (sel, v)
      else (sel, din))"
| "mcp_receives m (_ # ops) s = mcp_receives m ops s"

definition mcp_selected :: "Mcp300x_pins \<Rightarrow> GpioOperation list \<Rightarrow> bool list option" where
  "mcp_selected m h = fst (mcp_receives m h (None, low))"

text \<open>The command of the manual: a start bit, single-ended mode, the channel from its top bit on.\<close>

fun mcp_command :: "Mcp_model \<Rightarrow> int \<Rightarrow> bool list" where
  "mcp_command Mcp3002 ch = [True, True, bit ch 0]"
| "mcp_command Mcp3008 ch = [True, True, bit ch 2, bit ch 1, bit ch 0]"

text \<open>
  What the manual documents of the answer: the command and one more clock take the sample, and with
  each of the next ten clocks a bit of it appears, the top one first.
\<close>

definition mcp_documented :: "Mcp_model \<Rightarrow> Mcp300x_pins \<Rightarrow> (int \<Rightarrow> 10 word) \<Rightarrow> (GpioOperation list \<Rightarrow> GpioValue) \<Rightarrow> bool" where
  "mcp_documented model m adc level \<longleftrightarrow> (\<forall>h bs ch j. mcp_selected m h = Some bs \<longrightarrow> 0 \<le> ch \<longrightarrow> ch \<le> lastChannelPin model \<longrightarrow>
     j < 10 \<longrightarrow> length bs = length (mcp_command model ch) + 2 + j \<longrightarrow> take (length (mcp_command model ch)) bs = mcp_command model ch \<longrightarrow>
     level (h @ [op_write (pinClock m) low]) = gpio_bit (bit (adc ch) (9 - j)))"

lemma mcp_receives_append: "mcp_receives m (a @ b) s = mcp_receives m b (mcp_receives m a s)"
  by (induction m a s rule: mcp_receives.induct) auto

definition mcp_distinct :: "Mcp300x_pins \<Rightarrow> bool" where
  "mcp_distinct m \<longleftrightarrow> distinct [pinClock m, pinDigitalOut m, pinDigitalIn m, pinChipSelect m]"

text \<open>While it is selected: the bits it has, and the level of its input.\<close>

definition mcp_has :: "Mcp300x_pins \<Rightarrow> bool list \<Rightarrow> bool \<Rightarrow> GpioOperation list \<Rightarrow> bool" where
  "mcp_has m bs d h \<longleftrightarrow> mcp_receives m h (None, low) = (Some bs, gpio_bit d)"

lemma mcp_has_simps:
  assumes "mcp_distinct m" "mcp_has m bs d h"
  shows "mcp_has m bs d (h @ [op_write (pinClock m) low])" "mcp_has m (bs @ [d]) d (h @ [op_write (pinClock m) high])"
    "mcp_has m bs e (h @ [op_write (pinDigitalIn m) (gpio_bit e)])" "mcp_has m bs d (h @ [op_read p v])"
  using assms by (auto simp: mcp_has_def mcp_distinct_def mcp_receives_append)

lemma mcp_has_tick:
  assumes "mcp_distinct m" "mcp_has m bs d h"
  shows "mcp_has m (bs @ [d]) d (tickClock bus_write m h)"
  using mcp_has_simps(1)[OF assms(1) mcp_has_simps(2)[OF assms]] by (simp add: tickClock_def bus_write_def)

lemma bit_push1: "i < 7 \<Longrightarrow> bit (cmd * 2 :: Int8U) (7 - i) = bit cmd (6 - i)"
  using bit_push_bit_iff[of 1 cmd "7 - i"] by (auto simp: Suc_diff_Suc numeral_eq_Suc)

lemma mcp_has_command:
  assumes "mcp_distinct m"
  shows "mcp_has m bs d h \<Longrightarrow> n \<le> 8 \<Longrightarrow>
    \<exists>d'. mcp_has m (bs @ map (\<lambda>i. bit cmd (7 - i)) [0..<n]) d' (commandLoop bus_write m n cmd h)"
proof (induction n arbitrary: bs d cmd h)
  case (Suc n)
  let ?b = "bit cmd 7"
  have b: "(cmd AND 0x80 \<noteq> 0) = ?b"
    using and_exp_eq_0_iff_not_bit[of cmd 7] by (simp add: numeral_eq_Suc)
  have "mcp_has m bs ?b (bus_write (pinDigitalIn m) (gpio_bit ?b) h)"
    using mcp_has_simps(3)[OF assms Suc.prems(1), of ?b] by (simp add: bus_write_def)
  from mcp_has_tick[OF assms this] obtain d' where
    "mcp_has m ((bs @ [?b]) @ map (\<lambda>i. bit (push_bit 1 cmd) (7 - i)) [0..<n]) d'
       (commandLoop bus_write m n (push_bit 1 cmd) (tickClock bus_write m (bus_write (pinDigitalIn m) (gpio_bit ?b) h)))"
    using Suc.IH[of "bs @ [?b]" ?b] Suc.prems(2) by fastforce
  moreover have "map (\<lambda>i. bit (push_bit 1 cmd) (7 - i)) [0..<n] = map (\<lambda>i. bit cmd (7 - i)) [1..<Suc n]"
    using Suc.prems(2) by (simp only: map_Suc_upt[symmetric] One_nat_def map_map comp_def) (auto simp: bit_push1 simp del: upt_Suc)
  moreover have "[0..<Suc n] = 0 # [1..<Suc n]" by (simp add: upt_conv_Cons del: upt_Suc)
  ultimately show ?case using b by (intro exI[of _ d']) simp
qed auto

lemma div_pow_step: "u div 2 ^ Suc n * 2 + of_bool (bit u n) = u div (2 ^ n :: int)"
proof -
  have "u div 2 ^ Suc n = u div 2 ^ n div 2" by (simp add: zdiv_zmult2_eq[symmetric] mult.commute)
  then show ?thesis by (cases "even (u div 2 ^ n)") (simp_all add: bit_iff_odd odd_two_times_div_two_succ mult.commute[of _ 2])
qed

lemma mcp_value:
  assumes "mcp_distinct m" "mcp_documented model m adc level" "0 \<le> ch" "ch \<le> lastChannelPin model"
  shows "mcp_has m bs d h \<Longrightarrow> n \<le> 10 \<Longrightarrow> length bs = length (mcp_command model ch) + 11 - n \<Longrightarrow>
    take (length (mcp_command model ch)) bs = mcp_command model ch \<Longrightarrow>
    fst (valueLoop bus_write (bus_read level) m n (uint (adc ch) div 2 ^ n) h) = uint (adc ch)"
proof (induction n arbitrary: bs h)
  case (Suc n)
  let ?u = "uint (adc ch)" and ?h = "h @ [op_write (pinClock m) high]"
  have sel: "mcp_has m (bs @ [d]) d ?h" using mcp_has_simps(2)[OF assms(1) Suc.prems(1)] .
  have len: "length (bs @ [d]) = length (mcp_command model ch) + 2 + (9 - n)" using Suc.prems(2,3) by simp
  have tk: "take (length (mcp_command model ch)) (bs @ [d]) = mcp_command model ch" using Suc.prems(2-4) by simp
  have "level (?h @ [op_write (pinClock m) low]) = gpio_bit (bit (adc ch) (9 - (9 - n)))"
    using assms(2)[unfolded mcp_documented_def, rule_format, of ?h "bs @ [d]" ch "9 - n"] sel assms(3,4) len tk
    by (simp add: mcp_selected_def mcp_has_def)
  then have lv: "level (tickClock bus_write m h) = gpio_bit (bit ?u n)"
    using Suc.prems(2) by (simp add: tickClock_def bus_write_def bit_uint_iff)
  define h1 where "h1 = tickClock bus_write m h @ [op_read (pinDigitalOut m) (gpio_bit (bit ?u n))]"
  have h1: "mcp_has m (bs @ [d]) d h1"
    unfolding h1_def by (rule mcp_has_simps(4)[OF assms(1) mcp_has_tick[OF assms(1) Suc.prems(1)]])
  have "valueLoop bus_write (bus_read level) m (Suc n) (?u div 2 ^ Suc n) h =
      valueLoop bus_write (bus_read level) m n (?u div 2 ^ n) h1"
    using lv div_pow_step[of ?u n] by (auto simp: bus_read_def h1_def or_one_eq Let_def)
  then show ?case using Suc.IH[OF h1] Suc.prems(2,3) len tk by simp
qed simp

lemma mcp_command_bits:
  "0 \<le> ch \<Longrightarrow> ch \<le> lastChannelPin model \<Longrightarrow> getCmdOutInfo model ch = (cmd, n) \<Longrightarrow>
    n \<le> 8 \<and> n = length (mcp_command model ch) \<and> map (\<lambda>i. bit cmd (7 - i)) [0..<n] = mcp_command model ch"
proof (cases model)
  case Mcp3002
  assume a: "0 \<le> ch" "ch \<le> lastChannelPin model" "getCmdOutInfo model ch = (cmd, n)"
  then have "ch \<in> {0, 1}" using Mcp3002 by auto
  then show ?thesis using a(3) Mcp3002 by (auto simp: upt_rec)
next
  case Mcp3008
  assume a: "0 \<le> ch" "ch \<le> lastChannelPin model" "getCmdOutInfo model ch = (cmd, n)"
  then have "ch \<in> {0, 1, 2, 3, 4, 5, 6, 7}" using Mcp3008 by auto
  then show ?thesis using a(3) Mcp3008 by (auto simp: upt_rec)
qed

section \<open>Properties\<close>

text \<open>
  On any pins and whatever they answer, a reading is minus one exactly for a channel that the
  converter does not have, and then no pin is touched; otherwise it is a value of ten bits.
\<close>

theorem mcp_reading_has_ten_bits:
  "(if pinChannel < 0 \<or> lastChannelPin model < pinChannel then mcp_readAnalog wr rd model m pinChannel g = (- 1, g)
    else 0 \<le> fst (mcp_readAnalog wr rd model m pinChannel g) \<and> fst (mcp_readAnalog wr rd model m pinChannel g) \<le> 1023)"
proof (cases "pinChannel < 0 \<or> lastChannelPin model < pinChannel")
  case False
  obtain cmd n where c: "getCmdOutInfo model pinChannel = (cmd, n)" by fastforce
  define g2 where "g2 = tickClock wr m (commandLoop wr m n cmd
    (wr (pinChipSelect m) low (wr (pinClock m) low (wr (pinChipSelect m) high g))))"
  obtain r g3 where v: "valueLoop wr rd m 10 0 g2 = (r, g3)" by fastforce
  have "mcp_readAnalog wr rd model m pinChannel g = (r, wr (pinChipSelect m) high (tickClock wr m g3))"
    using False c v by (simp add: mcp_readAnalog_def g2_def)
  then show ?thesis using False valueLoop_range[of 0 0, OF _ _ v] by simp
qed (simp add: mcp_readAnalog_def)

text \<open>
  C19. With a converter that answers as its manual documents, whatever was done on the pins before,
  a reading of a channel is the sample the converter takes of that channel.
\<close>

theorem mcp_reads_the_sample:
  assumes "mcp_distinct m" "mcp_documented model m adc level" "0 \<le> ch" "ch \<le> lastChannelPin model"
  shows "fst (mcp_readAnalog bus_write (bus_read level) model m ch h) = uint (adc ch)"
proof -
  obtain cmd n where c: "getCmdOutInfo model ch = (cmd, n)" by fastforce
  note cb = mcp_command_bits[OF assms(3,4) c]
  define h1 where "h1 = bus_write (pinChipSelect m) low (bus_write (pinClock m) low (bus_write (pinChipSelect m) high h))"
  obtain sel din where "mcp_receives m h (None, low) = (sel, din)" by fastforce
  then have "mcp_has m [] (din = high) h1"
    using assms(1) by (cases din) (simp_all add: h1_def bus_write_def mcp_has_def mcp_receives_append mcp_distinct_def)
  from mcp_has_command[OF assms(1) this, of n cmd] cb obtain d
    where "mcp_has m (mcp_command model ch) d (commandLoop bus_write m n cmd h1)" by auto
  from mcp_has_tick[OF assms(1) this]
  have "fst (valueLoop bus_write (bus_read level) m 10 (uint (adc ch) div 2 ^ 10) (tickClock bus_write m (commandLoop bus_write m n cmd h1)))
      = uint (adc ch)"
    by (intro mcp_value[OF assms]) auto
  moreover have "uint (adc ch) div 2 ^ 10 = 0" using uint_lt2p[of "adc ch"] uint_ge_0[of "adc ch"] by (simp add: div_pos_pos_trivial)
  ultimately show ?thesis using assms(3,4) c by (simp add: mcp_readAnalog_def h1_def case_prod_unfold)
qed

text \<open>A converter that has 700 on the first channel and 5 on the second.\<close>

definition sampleConverter :: "Mcp300x_pins \<Rightarrow> GpioOperation list \<Rightarrow> GpioValue" where
  "sampleConverter m h = (case mcp_selected m (butlast h) of
     None \<Rightarrow> low
   | Some bs \<Rightarrow> gpio_bit (5 \<le> length bs \<and> bit (if bs ! 2 then 5 else 700 :: 10 word) (9 - (length bs - 5))))"

definition samplePins :: Mcp300x_pins where
  "samplePins = \<lparr>pinClock = 11, pinDigitalOut = 9, pinDigitalIn = 10, pinChipSelect = 8\<rparr>"

lemma mcp_reads_the_sample_witness:
  "fst (mcp_readAnalog bus_write (bus_read (sampleConverter samplePins)) Mcp3002 samplePins 0 []) = 700 \<and>
   fst (mcp_readAnalog bus_write (bus_read (sampleConverter samplePins)) Mcp3002 samplePins 1 (newMcp300x samplePins)) = 5"
proof -
  define adc where "adc = (\<lambda>ch::int. if ch = 1 then 5 else 700 :: 10 word)"
  have nth2: "bs ! 2 = (ch = 1)" if "take 3 bs = mcp_command Mcp3002 ch" "0 \<le> ch" "ch \<le> 1" for bs and ch :: int
  proof -
    have "ch \<in> {0, 1}" using that(2,3) by auto
    moreover have "bs ! 2 = take 3 bs ! 2" by simp
    ultimately show ?thesis using that(1) by auto
  qed
  have d: "mcp_documented Mcp3002 samplePins adc (sampleConverter samplePins)"
    unfolding mcp_documented_def
  proof (intro allI impI)
    fix h bs j and ch :: int
    assume a: "mcp_selected samplePins h = Some bs" "0 \<le> ch" "ch \<le> lastChannelPin Mcp3002" "j < 10"
      "length bs = length (mcp_command Mcp3002 ch) + 2 + j"
      "take (length (mcp_command Mcp3002 ch)) bs = mcp_command Mcp3002 ch"
    have "bs ! 2 = (ch = 1)" by (rule nth2) (use a(2,3,6) in \<open>simp_all add: numeral_3_eq_3\<close>)
    then show "sampleConverter samplePins (h @ [op_write (pinClock samplePins) low]) = gpio_bit (bit (adc ch) (9 - j))"
      using a(1,5) by (simp add: sampleConverter_def adc_def)
  qed
  have m: "mcp_distinct samplePins" by (simp add: mcp_distinct_def samplePins_def)
  show ?thesis using mcp_reads_the_sample[OF m d, of 0 "[]"] mcp_reads_the_sample[OF m d, of 1 "newMcp300x samplePins"]
    by (simp add: adc_def)
qed

end
