(* ===== verification/Spi_Output.thy ===== *)
theory Spi_Output
  imports C_Strings Errno
begin

text \<open>
  \<^verbatim>\<open>src/spi/linuxSpidevOutput.cpp\<close>, \<^verbatim>\<open>src/spi/StripSpeed.h\<close>,
  \<^verbatim>\<open>src/spi/SpiOutput.h\<close> and the recording output of
  \<^verbatim>\<open>src/spi/fakeSpiOutput.cpp\<close>. The kernel is a parameter: what each call answers is the
  record \<open>spi_env\<close>, and the answers to the transfer request are a sequence, since the code
  asks again when it is interrupted. The files it opens and closes are counted.
\<close>

section \<open>What the kernel answers and holds\<close>

type_synonym spi_config = "Int32U \<times> Int8U \<times> Int8U \<times> Int32U"

record spi_env =
  spiGlob :: "int + string list"
  realpath :: "string \<Rightarrow> string option"
  statAnswers :: bool
  isCharDevice :: bool
  openAnswers :: bool
  writesMode :: bool
  writesBits :: bool
  writesLsbFirst :: bool
  writesSpeed :: bool
  readsConfig :: "spi_config option"
  spiErrno :: int
  spiStrerror :: "int \<Rightarrow> string"

record fd_table =
  openFds :: "nat list"
  nextFd :: nat
  badFdCloses :: nat

definition openFd :: "fd_table \<Rightarrow> nat \<times> fd_table" where
  "openFd t = (nextFd t, t\<lparr>openFds := nextFd t # openFds t, nextFd := nextFd t + 1\<rparr>)"

definition closeFd :: "nat \<Rightarrow> fd_table \<Rightarrow> fd_table" where
  "closeFd n t = (if n \<in> set (openFds t) then t\<lparr>openFds := remove1 n (openFds t)\<rparr> else t\<lparr>badFdCloses := badFdCloses t + 1\<rparr>)"

section \<open>The code\<close>

definition spiDevicesPattern :: string where "spiDevicesPattern = ''/sys/bus/spi/devices/spi*.*''"
definition stripDeviceTreeSuffix :: string where "stripDeviceTreeSuffix = ''/oclock-strip-spi/lpd8806@0''"
definition stripBitsPerWord :: Int8U where "stripBitsPerWord = 8"
definition stripSpeedHz :: Int32U where "stripSpeedHz = 2000000"

definition spiError :: "spi_env \<Rightarrow> string \<Rightarrow> string \<Rightarrow> int \<Rightarrow> string" where
  "spiError e operation path errorNumber =
     ''spidev '' @ operation @ '' failed'' @ (if path \<noteq> '''' then '' on '' @ path else '''') @
     (if errorNumber \<noteq> 0 then '': '' @ spiStrerror e errorNumber else '''')"

definition spiEndsWith :: "string \<Rightarrow> string \<Rightarrow> bool" where
  "spiEndsWith v suffix \<longleftrightarrow> length suffix \<le> length v \<and> drop (length v - length suffix) v = suffix"

text \<open>The loop over the children: one without a node of the device tree is passed over.\<close>

fun matchingChildren :: "spi_env \<Rightarrow> string list \<Rightarrow> string list" where
  "matchingChildren e [] = []"
| "matchingChildren e (child # cs) = (case realpath e (child @ ''/of_node'') of
     None \<Rightarrow> matchingChildren e cs
   | Some resolved \<Rightarrow>
       if spiEndsWith resolved stripDeviceTreeSuffix then child # matchingChildren e cs else matchingChildren e cs)"

text \<open>The part after the last slash; all of it when there is none, since the position after the last one is then 0.\<close>

definition afterLastSlash :: "string \<Rightarrow> string" where
  "afterLastSlash s = rev (takeWhile (\<lambda>c. c \<noteq> CHR ''/'') (rev s))"

definition discoverStripDevice :: "spi_env \<Rightarrow> string + string" where
  "discoverStripDevice e = (case spiGlob e of
     Inl result \<Rightarrow> Inl (spiError e ''discovery (no SPI children)'' spiDevicesPattern (if result = GLOB_NOMATCH then ENOENT else EIO))
   | Inr paths \<Rightarrow>
       let matches = matchingChildren e paths
       in if length matches \<noteq> 1 then
            Inl (spiError e ''discovery (expected exactly one Office Clock strip child)'' spiDevicesPattern
              (if matches = [] then ENODEV else EEXIST))
          else
            let sysfsPath = hd matches; childName = afterLastSlash sysfsPath
            in if take 3 childName \<noteq> ''spi'' \<or> length childName \<le> 3
               then Inl (spiError e ''discovery (unexpected SPI child name)'' sysfsPath EINVAL)
               else Inr (''/dev/spidev'' @ drop 3 childName))"

record LinuxSpidevOutput =
  spiFd :: "nat option"
  devicePath :: string
  fds :: fd_table

definition newLinuxSpidevOutput :: "fd_table \<Rightarrow> LinuxSpidevOutput" where
  "newLinuxSpidevOutput t = \<lparr>spiFd = None, devicePath = '''', fds = t\<rparr>"

definition spi_configure :: "spi_env \<Rightarrow> string \<Rightarrow> string + unit" where
  "spi_configure e path =
     (if \<not> writesMode e then Inl (spiError e ''mode configuration'' path (spiErrno e))
      else if \<not> writesBits e then Inl (spiError e ''word-size configuration'' path (spiErrno e))
      else if \<not> writesLsbFirst e then Inl (spiError e ''bit-order configuration'' path (spiErrno e))
      else if \<not> writesSpeed e then Inl (spiError e ''speed configuration'' path (spiErrno e))
      else case readsConfig e of
        None \<Rightarrow> Inl (spiError e ''configuration verification'' path (spiErrno e))
      | Some (actualMode, actualBits, actualLsbFirst, actualSpeed) \<Rightarrow>
          if actualMode \<noteq> 0 \<or> actualBits \<noteq> stripBitsPerWord \<or> actualLsbFirst \<noteq> 0 \<or> actualSpeed \<noteq> stripSpeedHz
          then Inl (spiError e ''configuration verification (unexpected values)'' path EINVAL) else Inr ())"

text \<open>The try block: the state is the one at the throw.\<close>

definition spi_tryInitialize :: "spi_env \<Rightarrow> LinuxSpidevOutput \<Rightarrow> (string + unit) \<times> LinuxSpidevOutput" where
  "spi_tryInitialize e s = (case discoverStripDevice e of
     Inl err \<Rightarrow> (Inl err, s)
   | Inr path \<Rightarrow>
       let s1 = s\<lparr>devicePath := path\<rparr>
       in if \<not> statAnswers e then (Inl (spiError e ''device lookup'' path (spiErrno e)), s1)
          else if \<not> isCharDevice e then (Inl (spiError e ''device validation (not a character device)'' path ENODEV), s1)
          else if \<not> openAnswers e then (Inl (spiError e ''open'' path (spiErrno e)), s1)
          else
            let (n, t) = openFd (fds s1); s2 = s1\<lparr>spiFd := Some n, fds := t\<rparr>
            in (case spi_configure e path of Inl err \<Rightarrow> (Inl err, s2) | Inr _ \<Rightarrow> (Inr (), s2)))"

definition closeSpiFd :: "LinuxSpidevOutput \<Rightarrow> LinuxSpidevOutput" where
  "closeSpiFd s = (case spiFd s of None \<Rightarrow> s | Some n \<Rightarrow> s\<lparr>fds := closeFd n (fds s)\<rparr>)"

definition spi_initialize :: "spi_env \<Rightarrow> LinuxSpidevOutput \<Rightarrow> bool \<times> LinuxSpidevOutput" where
  "spi_initialize e s =
     (if spiFd s \<noteq> None then (True, s)
      else case spi_tryInitialize e s of
        (Inr _, s1) \<Rightarrow> (True, s1)
      | (Inl _, s1) \<Rightarrow> (False, (closeSpiFd s1)\<lparr>spiFd := None, devicePath := ''''\<rparr>))"

definition spi_destroy :: "LinuxSpidevOutput \<Rightarrow> LinuxSpidevOutput" where
  "spi_destroy s = closeSpiFd s"

text \<open>
  The request is made until it is not interrupted: \<open>answers k\<close> is the result and the error number
  of the \<open>k\<close>-th time. \<open>None\<close>: the loop does not end.
\<close>

partial_function (option) ioctlLoop :: "(nat \<Rightarrow> int \<times> int) \<Rightarrow> nat \<Rightarrow> (int \<times> int) option" where
  "ioctlLoop answers k =
     (let (result, errno) = answers k
      in if result < 0 \<and> errno = EINTR then ioctlLoop answers (k + 1) else Some (result, errno))"

record spi_ioc_transfer =
  tx_buf :: "Int8U list"
  tx_len :: Int32U
  tx_speed_hz :: Int32U
  tx_bits_per_word :: Int8U

datatype spi_outcome = SpiThrows string | SpiNothingToDo | SpiSent spi_ioc_transfer

text \<open>The data is the memory the pointer points to, and \<open>None\<close> for the null pointer.\<close>

definition spi_transfer ::
  "spi_env \<Rightarrow> (nat \<Rightarrow> int \<times> int) \<Rightarrow> Int8U list option \<Rightarrow> nat \<Rightarrow> LinuxSpidevOutput \<Rightarrow> spi_outcome option" where
  "spi_transfer e answers bytes n s =
     (if spiFd s = None then Some (SpiThrows (spiError e ''transfer (transport not initialized)'' (devicePath s) ENODEV))
      else if bytes = None \<and> n \<noteq> 0 then Some (SpiThrows (spiError e ''transfer (data is missing)'' (devicePath s) EINVAL))
      else if 2 ^ 32 - 1 < n then Some (SpiThrows (spiError e ''transfer (payload is too large)'' (devicePath s) E2BIG))
      else if n = 0 then Some SpiNothingToDo
      else case ioctlLoop answers 0 of
        None \<Rightarrow> None
      | Some (result, errno) \<Rightarrow>
          if result < 0 then Some (SpiThrows (spiError e ''transfer'' (devicePath s) errno))
          else if result \<noteq> sint (of_nat n :: 32 word) then Some (SpiThrows (spiError e ''transfer (short write)'' (devicePath s) EIO))
          else Some (SpiSent \<lparr>tx_buf = take n (the bytes), tx_len = of_nat n, tx_speed_hz = stripSpeedHz,
                 tx_bits_per_word = stripBitsPerWord\<rparr>))"

section \<open>The recording output\<close>

record FakeSpiOutput =
  initializeResult :: bool
  initialized :: bool
  transfers :: "Int8U list list"

definition newFakeSpiOutput :: FakeSpiOutput where
  "newFakeSpiOutput = \<lparr>initializeResult = True, initialized = False, transfers = []\<rparr>"

definition fakeSpi_initialize :: "FakeSpiOutput \<Rightarrow> bool \<times> FakeSpiOutput" where
  "fakeSpi_initialize s = (initializeResult s, s\<lparr>initialized := initializeResult s\<rparr>)"

definition fakeSpi_transfer :: "Int8U list option \<Rightarrow> nat \<Rightarrow> FakeSpiOutput \<Rightarrow> (string + unit) \<times> FakeSpiOutput" where
  "fakeSpi_transfer bytes n s =
     (if \<not> initialized s then (Inl ''fake SPI output is not initialized'', s)
      else if bytes = None \<and> n \<noteq> 0 then (Inl ''fake SPI output data is missing'', s)
      else (Inr (), s\<lparr>transfers := transfers s @ [if n \<noteq> 0 then take n (the bytes) else []]\<rparr>))"

definition fakeSpi_setInitializeResult :: "bool \<Rightarrow> FakeSpiOutput \<Rightarrow> FakeSpiOutput" where
  "fakeSpi_setInitializeResult r s = s\<lparr>initializeResult := r\<rparr>"

definition fakeSpi_clearTransfers :: "FakeSpiOutput \<Rightarrow> FakeSpiOutput" where
  "fakeSpi_clearTransfers s = s\<lparr>transfers := []\<rparr>"

section \<open>Facts\<close>

lemma matchingChildren_filter:
  "matchingChildren e cs = filter (\<lambda>c. \<exists>r. realpath e (c @ ''/of_node'') = Some r \<and> spiEndsWith r stripDeviceTreeSuffix) cs"
  by (induction cs) (auto split: option.splits)

lemma take3_spi: "take 3 s = ''spi'' \<and> 3 < length s \<longleftrightarrow> (\<exists>rest. rest \<noteq> [] \<and> s = ''spi'' @ rest)"
proof
  assume a: "take 3 s = ''spi'' \<and> 3 < length s"
  then have "s = ''spi'' @ drop 3 s" by (metis append_take_drop_id)
  moreover have "drop 3 s \<noteq> []" using a by simp
  ultimately show "\<exists>rest. rest \<noteq> [] \<and> s = ''spi'' @ rest" by blast
qed auto

lemma after_spi: "(take 3 s = ''spi'' \<and> 3 < length s) \<and> p = d @ drop 3 s \<longleftrightarrow> (\<exists>rest. s = ''spi'' @ rest \<and> rest \<noteq> [] \<and> p = d @ rest)"
  unfolding take3_spi by auto

lemma discover_eq: "discoverStripDevice e = Inr path \<longleftrightarrow> (\<exists>cs c. spiGlob e = Inr cs \<and> matchingChildren e cs = [c] \<and>
    (take 3 (afterLastSlash c) = ''spi'' \<and> 3 < length (afterLastSlash c)) \<and> path = ''/dev/spidev'' @ drop 3 (afterLastSlash c))"
proof (cases "spiGlob e")
  case (Inr cs)
  show ?thesis
  proof (cases "matchingChildren e cs" rule: remdups_adj.cases)
    case (2 c)
    then show ?thesis using Inr by (auto simp: discoverStripDevice_def Let_def)
  qed (use Inr in \<open>simp_all add: discoverStripDevice_def Let_def\<close>)
qed (simp add: discoverStripDevice_def)

definition interrupted :: "int \<times> int \<Rightarrow> bool" where
  "interrupted a \<longleftrightarrow> fst a < 0 \<and> snd a = EINTR"

lemma ioctlLoop_from:
  "(\<forall>i. j \<le> i \<and> i < j + k \<longrightarrow> interrupted (answers i)) \<Longrightarrow> \<not> interrupted (answers (j + k)) \<Longrightarrow>
    ioctlLoop answers j = Some (answers (j + k))"
proof (induction k arbitrary: j)
  case 0
  then show ?case by (subst ioctlLoop.simps) (auto simp: interrupted_def case_prod_unfold)
next
  case (Suc k)
  have "interrupted (answers j)" using Suc.prems(1) by auto
  moreover have "ioctlLoop answers (j + 1) = Some (answers (j + 1 + k))"
    by (rule Suc.IH) (use Suc.prems in auto)
  ultimately show ?case by (subst ioctlLoop.simps) (auto simp: interrupted_def case_prod_unfold)
qed

lemma ioctlLoop_never:
  assumes "ioctlLoop answers j = Some a" shows "\<exists>i. \<not> interrupted (answers i)"
proof (rule ioctlLoop.raw_induct[OF _ assms])
  fix loop answers k a
  assume ih: "\<And>answers k a. loop answers k = Some a \<Longrightarrow> \<exists>i. \<not> interrupted (answers i)"
    and l: "(let (result, errno) = answers k in if result < 0 \<and> errno = EINTR then loop answers (k + 1) else Some (result, errno)) = Some a"
  show "\<exists>i. \<not> interrupted (answers i)"
  proof (cases "interrupted (answers k)")
    case True
    then have "loop answers (k + 1) = Some a" using l by (simp add: interrupted_def case_prod_unfold)
    then show ?thesis by (rule ih)
  qed blast
qed

definition spi_ok :: "fd_table \<Rightarrow> LinuxSpidevOutput \<Rightarrow> bool" where
  "spi_ok t s \<longleftrightarrow> openFds (fds s) = (case spiFd s of None \<Rightarrow> [] | Some n \<Rightarrow> [n]) @ openFds t \<and> badFdCloses (fds s) = badFdCloses t \<and>
     (spiFd s = None \<longrightarrow> devicePath s = '''')"

text \<open>What the kernel answered when the output became ready.\<close>

definition spi_verified :: "spi_env \<Rightarrow> string \<Rightarrow> bool" where
  "spi_verified e path \<longleftrightarrow> discoverStripDevice e = Inr path \<and> isCharDevice e \<and>
     readsConfig e = Some (0, stripBitsPerWord, 0, stripSpeedHz)"

lemma spi_configure_verified: "spi_configure e path = Inr () \<Longrightarrow> readsConfig e = Some (0, stripBitsPerWord, 0, stripSpeedHz)"
  by (auto simp: spi_configure_def split: if_splits option.splits)

lemma spi_initialize_cases:
  assumes "spi_ok t s" "spi_initialize e s = (b, s')"
  shows "spi_ok t s' \<and> b = (spiFd s' \<noteq> None) \<and> (if spiFd s = None then b \<longrightarrow> spi_verified e (devicePath s') else s' = s)"
proof (cases "spiFd s")
  case None
  have f: "openFds (fds s) = openFds t" "badFdCloses (fds s) = badFdCloses t" using assms(1) None by (simp_all add: spi_ok_def)
  obtain r s1 where ti: "spi_tryInitialize e s = (r, s1)" by fastforce
  show ?thesis
  proof (cases r)
    case (Inr u)
    then show ?thesis using assms(2) None f ti spi_configure_verified
      by (auto simp: spi_initialize_def spi_tryInitialize_def spi_ok_def spi_verified_def openFd_def Let_def
          split: sum.splits if_splits)
  next
    case (Inl err)
    then show ?thesis using assms(2) None f ti
      by (auto simp: spi_initialize_def spi_tryInitialize_def spi_ok_def openFd_def closeSpiFd_def closeFd_def Let_def
          split: sum.splits if_splits)
  qed
next
  case (Some n)
  then show ?thesis using assms by (auto simp: spi_initialize_def)
qed

lemma spi_initializes:
  "spi_ok t s \<Longrightarrow> (spiFd s \<noteq> None \<longrightarrow> (\<exists>e \<in> es0. spi_verified e (devicePath s))) \<Longrightarrow>
    spi_ok t (fold (\<lambda>e s. snd (spi_initialize e s)) es s) \<and>
    (spiFd (fold (\<lambda>e s. snd (spi_initialize e s)) es s) \<noteq> None \<longrightarrow>
      (\<exists>e \<in> es0 \<union> set es. spi_verified e (devicePath (fold (\<lambda>e s. snd (spi_initialize e s)) es s))))"
proof (induction es arbitrary: s es0)
  case (Cons e es)
  obtain b s1 where i: "spi_initialize e s = (b, s1)" by fastforce
  note c = spi_initialize_cases[OF Cons.prems(1) i]
  have "spiFd s1 \<noteq> None \<longrightarrow> (\<exists>e \<in> insert e es0. spi_verified e (devicePath s1))"
    using c Cons.prems(2) by (auto split: if_splits)
  then show ?case using Cons.IH[of s1 "insert e es0"] c i by auto
qed auto

section \<open>Properties\<close>

text \<open>
  The strip's device is found exactly when one and only one child has the strip's node of the
  device tree, whatever other children there are and in whatever order they are listed; the device
  is then the one with the numbers of that child.
\<close>

theorem spi_finds_the_only_strip:
  "discoverStripDevice e = Inr path \<longleftrightarrow> (\<exists>children child rest. spiGlob e = Inr children \<and>
     filter (\<lambda>c. \<exists>r. realpath e (c @ ''/of_node'') = Some r \<and> spiEndsWith r stripDeviceTreeSuffix) children = [child] \<and>
     afterLastSlash child = ''spi'' @ rest \<and> rest \<noteq> [] \<and> path = ''/dev/spidev'' @ rest)"
  unfolding discover_eq matchingChildren_filter after_spi by blast

text \<open>
  C27. After any attempts to make the output ready, whatever the kernel answered to them, it holds
  the one file of its device and the kernel had confirmed the mode, the word size, the bit order
  and the speed; or it holds nothing. Its end gives the file back, and none is closed twice.
\<close>

theorem spi_ready_is_verified:
  "let s = fold (\<lambda>e s. snd (spi_initialize e s)) es (newLinuxSpidevOutput t)
   in (case spiFd s of
         None \<Rightarrow> openFds (fds s) = openFds t
       | Some n \<Rightarrow> openFds (fds s) = n # openFds t \<and> list_ex (\<lambda>e. spi_verified e (devicePath s)) es) \<and>
      openFds (fds (spi_destroy s)) = openFds t \<and> badFdCloses (fds (spi_destroy s)) = badFdCloses t"
proof -
  let ?s = "fold (\<lambda>e s. snd (spi_initialize e s)) es (newLinuxSpidevOutput t)"
  have "spi_ok t (newLinuxSpidevOutput t)" "spiFd (newLinuxSpidevOutput t) = None"
    by (simp_all add: spi_ok_def newLinuxSpidevOutput_def)
  then have "spi_ok t ?s" "spiFd ?s \<noteq> None \<longrightarrow> (\<exists>e \<in> set es. spi_verified e (devicePath ?s))"
    using spi_initializes[of t "newLinuxSpidevOutput t" "{}" es] by auto
  then show ?thesis
    by (auto simp: Let_def spi_ok_def spi_destroy_def closeSpiFd_def closeFd_def list_ex_iff split: option.splits)
qed

text \<open>
  C28. A transfer of some bytes on a ready output returns exactly when the kernel at some time
  answers with something other than an interruption, and it is the first such answer that decides: a
  failure and a short write are thrown, and otherwise all the bytes were sent, at the strip's speed.
\<close>

theorem spi_transfer_ends_at_first_answer:
  assumes "spiFd s \<noteq> None" "0 < length bs" "length bs < 2 ^ 31"
  shows "((\<exists>r. spi_transfer e answers (Some bs) (length bs) s = Some r) \<longleftrightarrow> (\<exists>k. \<not> interrupted (answers k))) \<and>
    ((\<forall>j < k. interrupted (answers j)) \<longrightarrow> \<not> interrupted (answers k) \<longrightarrow>
      spi_transfer e answers (Some bs) (length bs) s = Some (
        if fst (answers k) < 0 then SpiThrows (spiError e ''transfer'' (devicePath s) (snd (answers k)))
        else if fst (answers k) = int (length bs) then
          SpiSent \<lparr>tx_buf = bs, tx_len = of_nat (length bs), tx_speed_hz = 2000000, tx_bits_per_word = 8\<rparr>
        else SpiThrows (spiError e ''transfer (short write)'' (devicePath s) EIO)))"
proof -
  have len: "sint (of_nat (length bs) :: 32 word) = int (length bs)"
    using assms(3) by (simp add: signed_of_nat signed_take_bit_int_eq_self)
  have first: "spi_transfer e answers (Some bs) (length bs) s = Some (
        if fst (answers k) < 0 then SpiThrows (spiError e ''transfer'' (devicePath s) (snd (answers k)))
        else if fst (answers k) = int (length bs) then
          SpiSent \<lparr>tx_buf = bs, tx_len = of_nat (length bs), tx_speed_hz = 2000000, tx_bits_per_word = 8\<rparr>
        else SpiThrows (spiError e ''transfer (short write)'' (devicePath s) EIO))"
    if "\<forall>j < k. interrupted (answers j)" "\<not> interrupted (answers k)" for k
  proof -
    have "ioctlLoop answers 0 = Some (answers k)" using ioctlLoop_from[of 0 k answers] that by simp
    moreover obtain n where "spiFd s = Some n" using assms(1) by blast
    ultimately show ?thesis using assms(2,3) len
      by (cases "answers k") (simp add: spi_transfer_def stripSpeedHz_def stripBitsPerWord_def)
  qed
  have "\<exists>r. spi_transfer e answers (Some bs) (length bs) s = Some r" if "\<not> interrupted (answers i)" for i
    using first[of "LEAST i. \<not> interrupted (answers i)"] that by (metis (mono_tags, lifting) LeastI not_less_Least)
  moreover have "\<exists>i. \<not> interrupted (answers i)" if "spi_transfer e answers (Some bs) (length bs) s = Some r" for r
    using that assms ioctlLoop_never[of answers 0] by (auto simp: spi_transfer_def split: option.splits)
  ultimately show ?thesis using first by blast
qed

lemma spi_transfer_ends_at_first_answer_witness:
  "\<forall>e. spi_transfer e (\<lambda>k. if k < 3 then (- 1, EINTR) else (2, 0)) (Some [0x80, 0x81]) 2
     \<lparr>spiFd = Some 7, devicePath = ''/dev/spidev3.0'', fds = \<lparr>openFds = [7], nextFd = 8, badFdCloses = 0\<rparr>\<rparr> =
   Some (SpiSent \<lparr>tx_buf = [0x80, 0x81], tx_len = 2, tx_speed_hz = 2000000, tx_bits_per_word = 8\<rparr>)"
proof
  fix e
  let ?s = "\<lparr>spiFd = Some 7, devicePath = ''/dev/spidev3.0'', fds = \<lparr>openFds = [7], nextFd = 8, badFdCloses = 0\<rparr>\<rparr>"
  let ?a = "\<lambda>k::nat. if k < 3 then (- 1, EINTR) else (2, 0)"
  have "spi_transfer e ?a (Some [0x80, 0x81]) (length [0x80 :: Int8U, 0x81]) ?s =
      Some (SpiSent \<lparr>tx_buf = [0x80, 0x81], tx_len = of_nat (length [0x80 :: Int8U, 0x81]), tx_speed_hz = 2000000, tx_bits_per_word = 8\<rparr>)"
    using spi_transfer_ends_at_first_answer[of ?s "[0x80, 0x81]" e ?a 3] by (simp add: interrupted_def)
  then show "spi_transfer e ?a (Some [0x80, 0x81]) 2 ?s =
      Some (SpiSent \<lparr>tx_buf = [0x80, 0x81], tx_len = 2, tx_speed_hz = 2000000, tx_bits_per_word = 8\<rparr>)"
    by (simp add: numeral_2_eq_2)
qed

end
