(* ===== verification/Analog_Input.thy ===== *)
theory Analog_Input
  imports C_Strings
begin

text \<open>
  \<^verbatim>\<open>src/adc/linuxIioAnalogInput.cpp\<close>, \<^verbatim>\<open>src/adc/AnalogInput.h\<close> and
  the fixed input of \<^verbatim>\<open>src/adc/fakeAnalogInput.cpp\<close>: the light sensor's converter
  read through the files of the kernel's driver. The file system is a parameter: what the calls of an
  operation answer is the record \<open>iio_env\<close>.
\<close>

section \<open>The file system\<close>

record iio_env =
  directoryEntries :: "string list option"
  readDirectoryError :: int
  resolves :: "string \<Rightarrow> string option"
  contents :: "string \<Rightarrow> string option"
  readable :: "string \<Rightarrow> bool"

section \<open>The code\<close>

definition defaultIioDevicesRoot :: string where "defaultIioDevicesRoot = ''/sys/bus/iio/devices''"
definition adcDeviceTreeSuffix :: string where "adcDeviceTreeSuffix = ''/oclock-adc-spi/mcp3002@0''"
definition adcDriverName :: string where "adcDriverName = ''mcp3002''"
definition lastAdcChannel :: int where "lastAdcChannel = 1"
definition maxAdcValue :: int where "maxAdcValue = 1023"

definition adcEndsWith :: "string \<Rightarrow> string \<Rightarrow> bool" where
  "adcEndsWith v suffix \<longleftrightarrow> length suffix \<le> length v \<and> drop (length v - length suffix) v = suffix"

definition trimmed :: "char \<Rightarrow> bool" where
  "trimmed c \<longleftrightarrow> c = CHR 0x0D \<or> c = CHR 0x0A \<or> c = CHR '' '' \<or> c = CHR 0x09"

text \<open>\<^verbatim>\<open>std::getline\<close> fails on a file with nothing in it, and stops before the first line feed.\<close>

definition readSingleLine :: "iio_env \<Rightarrow> string \<Rightarrow> string" where
  "readSingleLine e path = (case contents e path of
     None \<Rightarrow> ''''
   | Some text \<Rightarrow>
       if text = '''' then ''''
       else rev (dropWhile trimmed (rev (takeWhile (\<lambda>c. c \<noteq> CHR 0x0A) text))))"

record LinuxIioAnalogInput =
  iioDevicesRoot :: string
  devicePath :: string

definition newLinuxIioAnalogInput :: "string \<Rightarrow> LinuxIioAnalogInput" where
  "newLinuxIioAnalogInput root = \<lparr>iioDevicesRoot = root, devicePath = ''''\<rparr>"

text \<open>The loop over the directory.\<close>

fun iioMatches :: "iio_env \<Rightarrow> string \<Rightarrow> string list \<Rightarrow> string list" where
  "iioMatches e root [] = []"
| "iioMatches e root (name # names) =
     (if take 10 name \<noteq> ''iio:device'' then iioMatches e root names
      else let candidate = root @ ''/'' @ name
           in case resolves e (candidate @ ''/of_node'') of
                None \<Rightarrow> iioMatches e root names
              | Some resolved \<Rightarrow>
                  if adcEndsWith resolved adcDeviceTreeSuffix then candidate # iioMatches e root names
                  else iioMatches e root names)"

definition channelAttribute :: "string \<Rightarrow> int \<Rightarrow> string" where
  "channelAttribute device channel = device @ ''/in_voltage'' @ dec_int channel @ ''_raw''"

definition iio_initialize :: "iio_env \<Rightarrow> LinuxIioAnalogInput \<Rightarrow> bool \<times> LinuxIioAnalogInput" where
  "iio_initialize e s =
     (let s1 = s\<lparr>devicePath := ''''\<rparr>
      in case directoryEntries e of
           None \<Rightarrow> (False, s1)
         | Some names \<Rightarrow>
             let matches = iioMatches e (iioDevicesRoot s1) names
             in if readDirectoryError e \<noteq> 0 then (False, s1)
                else if length matches \<noteq> 1 then (False, s1)
                else if readSingleLine e (hd matches @ ''/name'') \<noteq> adcDriverName then (False, s1)
                else if \<not> list_all (\<lambda>channel. readable e (channelAttribute (hd matches) channel)) [0..lastAdcChannel]
                then (False, s1)
                else (True, s1\<lparr>devicePath := hd matches\<rparr>))"

definition iio_readAnalog :: "iio_env \<Rightarrow> int \<Rightarrow> LinuxIioAnalogInput \<Rightarrow> int" where
  "iio_readAnalog e channel s =
     (if channel < 0 \<or> lastAdcChannel < channel \<or> devicePath s = '''' then - 1
      else
        let line = readSingleLine e (channelAttribute (devicePath s) channel)
        in if line = '''' then - 1
           else case strtol_end line of
             None \<Rightarrow> - 1
           | Some (v, rest, outOfRange) \<Rightarrow>
               if outOfRange \<or> rest \<noteq> '''' \<or> v < 0 \<or> maxAdcValue < v then - 1 else v)"

definition fakeAdc_readAnalog :: "int \<Rightarrow> int" where
  "fakeAdc_readAnalog channel = (if 0 \<le> channel \<and> channel \<le> 1 then 512 else - 1)"

section \<open>Facts\<close>

lemma iioMatches_filter:
  "iioMatches e root names = map (\<lambda>n. root @ ''/'' @ n) (filter (\<lambda>n. take 10 n = ''iio:device'' \<and>
     (\<exists>r. resolves e (root @ ''/'' @ n @ ''/of_node'') = Some r \<and> adcEndsWith r adcDeviceTreeSuffix)) names)"
  by (induction names) (auto simp: Let_def split: option.splits)

lemma digits_not_trimmed: "\<forall>c \<in> set (dec_nat n). \<not> trimmed c \<and> c \<noteq> CHR 0x0A"
  using dec_nat_digits[of n] by (fastforce simp: trimmed_def)

lemma dropWhile_digits: "dropWhile trimmed (rev (dec_nat n)) = rev (dec_nat n)"
  using digits_not_trimmed[of n] by (intro dropWhile_hd) (simp_all add: hd_rev)

section \<open>Properties\<close>

text \<open>
  C34. Whatever the files hold, a reading is minus one or a value of ten bits; and it is minus one for
  every channel but the two the converter has, and before the converter was found.
\<close>

theorem iio_reading_has_ten_bits:
  "- 1 \<le> iio_readAnalog e channel s \<and> iio_readAnalog e channel s \<le> 1023 \<and>
   (iio_readAnalog e channel s = - 1 \<or> devicePath s \<noteq> '''' \<and> (channel = 0 \<or> channel = 1))"
  by (auto simp: iio_readAnalog_def Let_def lastAdcChannel_def maxAdcValue_def split: option.splits)

text \<open>
  The converter is ready exactly when one device of the directory, and no other, has the node of
  the converter, its driver has the right name and both channels can be read. A failed attempt forgets
  the device of an earlier one.
\<close>

theorem iio_ready_means_found:
  "case iio_initialize e s of (b, s') \<Rightarrow>
     (if b then \<exists>names n. directoryEntries e = Some names \<and> readDirectoryError e = 0 \<and>
          filter (\<lambda>n. take 10 n = ''iio:device'' \<and> (\<exists>r. resolves e (iioDevicesRoot s @ ''/'' @ n @ ''/of_node'') = Some r \<and>
            adcEndsWith r adcDeviceTreeSuffix)) names = [n] \<and>
          devicePath s' = iioDevicesRoot s @ ''/'' @ n \<and> readSingleLine e (devicePath s' @ ''/name'') = ''mcp3002'' \<and>
          readable e (channelAttribute (devicePath s') 0) \<and> readable e (channelAttribute (devicePath s') 1)
      else devicePath s' = '''')"
  unfolding iio_initialize_def iioMatches_filter Let_def
  by (auto simp: lastAdcChannel_def adcDriverName_def length_Suc_conv upto_rec1 split: option.splits if_splits)

text \<open>
  When the driver wrote a number, with or without a line feed after it, a reading is that number if
  it has ten bits, and minus one if it does not.
\<close>

theorem iio_number_reads_back:
  assumes "devicePath s \<noteq> ''''" "channel = 0 \<or> channel = 1"
    "contents e (channelAttribute (devicePath s) channel) = Some (dec_nat n @ ending)" "ending = '''' \<or> hd ending = CHR 0x0A"
  shows "iio_readAnalog e channel s = (if n \<le> 1023 then int n else - 1)"
proof -
  have "takeWhile (\<lambda>c. c \<noteq> CHR 0x0A) (dec_nat n @ ending) = dec_nat n"
    using digits_not_trimmed[of n] assms(4) by (cases ending) (simp_all add: takeWhile_append2)
  then have "readSingleLine e (channelAttribute (devicePath s) channel) = dec_nat n"
    using assms(3) by (simp add: readSingleLine_def dropWhile_digits)
  then show ?thesis using assms(1,2)
    by (auto simp: iio_readAnalog_def lastAdcChannel_def maxAdcValue_def strtol_end_def scan_int_dec_nat)
qed

definition oneNumber :: iio_env where
  "oneNumber = \<lparr>directoryEntries = None, readDirectoryError = 0, resolves = (\<lambda>_. None),
     contents = (\<lambda>p. if p = ''/adc/in_voltage1_raw'' then Some (''731'' @ [CHR 0x0A]) else None), readable = (\<lambda>_. True)\<rparr>"

lemma iio_number_reads_back_witness:
  "iio_readAnalog oneNumber 1 \<lparr>iioDevicesRoot = '''', devicePath = ''/adc''\<rparr> = 731"
proof -
  have "dec_nat 731 = ''731''" by code_simp
  moreover have "channelAttribute ''/adc'' 1 = ''/adc/in_voltage1_raw''" by code_simp
  ultimately show ?thesis
    using iio_number_reads_back[of "\<lparr>iioDevicesRoot = '''', devicePath = ''/adc''\<rparr>" 1 oneNumber 731 "[CHR 0x0A]"]
    by (simp add: oneNumber_def)
qed

end
