(* ===== verification/Clock_Main.thy ===== *)
theory Clock_Main
  imports Inbox
begin

text \<open>
  \<^verbatim>\<open>src/main.cpp\<close>: the start and the end of the program. The devices are made
  ready, every inbox is created, the threads are started, the web server runs until it is stopped,
  and then the threads are told to end and are waited for. The threads run at the same time: a step
  of the whole program is one action of \<^verbatim>\<open>main\<close>, one round of the loop of a thread,
  or a signal of the timer that lets a waiting thread go on.
\<close>

section \<open>The program of \<^verbatim>\<open>main\<close>\<close>

datatype Singleton = LightSensorSingleton | MotionSensorSingleton | WebHandlerSingleton | DisplaySingleton
  | LedStripSingleton | MqttClientSingleton | DictionarySingleton | TimerTickSingleton | InboxRegistrySingleton

datatype main_action =
    CreateInbox ThreadId
  | StartThread ThreadId
  | RunServer
  | BroadcastTerminate ThreadId
  | JoinThread ThreadId
  | SendTerminate ThreadId
  | ShutdownSingleton Singleton

datatype ThreadMain = displayMain | ledStripMain | timerTickMain | lightSensorMain | motionSensorMain | mqttClientMain | dictionaryMain

definition threadMainFunction :: "ThreadId \<Rightarrow> string + ThreadMain" where
  "threadMainFunction t = (case t of
     threadIdDisplay \<Rightarrow> Inr displayMain
   | threadIdLedStrip \<Rightarrow> Inr ledStripMain
   | threadIdTimerTick \<Rightarrow> Inr timerTickMain
   | threadIdLightSensor \<Rightarrow> Inr lightSensorMain
   | threadIdMotionSensor \<Rightarrow> Inr motionSensorMain
   | threadIdMqttClient \<Rightarrow> Inr mqttClientMain
   | threadIdDictionary \<Rightarrow> Inr dictionaryMain
   | _ \<Rightarrow> Inl ''allocThreadInfoArray got bad ThreadId'')"

definition main_program :: "main_action list" where
  "main_program =
     map CreateInbox threadIds @
     map StartThread threadIds @
     [RunServer, BroadcastTerminate threadIdTimerTick] @
     map JoinThread (filter (\<lambda>t. t \<noteq> threadIdTimerTick) threadIds) @
     [SendTerminate threadIdTimerTick, JoinThread threadIdTimerTick] @
     map ShutdownSingleton [LightSensorSingleton, MotionSensorSingleton, WebHandlerSingleton, DisplaySingleton,
       LedStripSingleton, MqttClientSingleton, DictionarySingleton, TimerTickSingleton, InboxRegistrySingleton]"

text \<open>
  What \<^verbatim>\<open>main\<close> does when the devices answer so: a message and a failure, or the program.
  The output of the strip may be missing, the analog input may not.
\<close>

definition clock_main :: "bool \<Rightarrow> bool option \<Rightarrow> bool option \<Rightarrow> string + main_action list" where
  "clock_main gpioReady spiReady analogReady =
     (if \<not> gpioReady then Inl ''Unable to initialize GPIO access''
      else if spiReady = Some False then Inl ''Unable to initialize strip SPI output''
      else if analogReady \<noteq> Some True then Inl ''Unable to initialize analog input''
      else if list_all (\<lambda>t. \<not> isl (threadMainFunction t)) threadIds then Inr main_program
      else Inl ''allocThreadInfoArray got bad ThreadId'')"

section \<open>The threads\<close>

text \<open>
  A thread that waits for a signal of the timer is \<open>Waiting\<close>. The dictionary and the MQTT client
  wait for a message instead; the timer itself does not wait.
\<close>

datatype thread_state = NotStarted | Running | Waiting | Ended

record clock_run =
  mainAt :: nat
  inboxes :: InboxRegistry
  threads :: "ThreadId \<Rightarrow> thread_state"

definition clockStart :: clock_run where
  "clockStart = \<lparr>mainAt = 0, inboxes = (\<lambda>_. None), threads = (\<lambda>_. NotStarted)\<rparr>"

definition sendMessage :: "InboxMsg \<Rightarrow> ThreadId \<Rightarrow> InboxRegistry \<Rightarrow> InboxRegistry" where
  "sendMessage m t r = (let (q, r1) = getInbox t r in r1(t \<mapsto> addMessage m q))"

definition sendTerminateMessage :: "ThreadId \<Rightarrow> InboxRegistry \<Rightarrow> InboxRegistry" where
  "sendTerminateMessage t = sendMessage (mkInboxMsg inboxMsgTypeTerminate) t"

definition main_act :: "main_action \<Rightarrow> clock_run \<Rightarrow> clock_run option" where
  "main_act a s = (case a of
     CreateInbox t \<Rightarrow> Some (s\<lparr>inboxes := snd (getInbox t (inboxes s))\<rparr>)
   | StartThread t \<Rightarrow> Some (s\<lparr>threads := (threads s)(t := Running)\<rparr>)
   | RunServer \<Rightarrow> Some s
   | BroadcastTerminate from \<Rightarrow> Some (s\<lparr>inboxes := broadcast (mkInboxMsg inboxMsgTypeTerminate) from (inboxes s)\<rparr>)
   | JoinThread t \<Rightarrow> if threads s t = Ended then Some s else None
   | SendTerminate t \<Rightarrow> Some (s\<lparr>inboxes := sendTerminateMessage t (inboxes s)\<rparr>)
   | ShutdownSingleton x \<Rightarrow> Some (if x = InboxRegistrySingleton then s\<lparr>inboxes := (\<lambda>_. None)\<rparr> else s))"

text \<open>
  The messages a round sends, to inboxes that there are; only \<^verbatim>\<open>main\<close> tells a thread
  to end.
\<close>

definition deliver :: "ThreadId \<times> InboxMsg \<Rightarrow> InboxRegistry \<Rightarrow> InboxRegistry" where
  "deliver x r = r(fst x := map_option (addMessage (snd x)) (r (fst x)))"

datatype clock_label = MainStep | Round ThreadId "(ThreadId \<times> InboxMsg) list" | WakeUp ThreadId

definition waitsForMessage :: "ThreadId \<Rightarrow> bool" where
  "waitsForMessage t \<longleftrightarrow> t = threadIdDictionary \<or> t = threadIdMqttClient"

definition isTerminate :: "InboxMsg \<Rightarrow> bool" where
  "isTerminate m \<longleftrightarrow> inboxMsgType m = inboxMsgTypeTerminate"

definition thread_round :: "ThreadId \<Rightarrow> (ThreadId \<times> InboxMsg) list \<Rightarrow> clock_run \<Rightarrow> clock_run option" where
  "thread_round t sent s =
     (let (q, r) = getInbox t (inboxes s); (msg, q1) = getMessage q; r1 = r(t \<mapsto> q1)
      in if threads s t \<noteq> Running \<or> list_ex (\<lambda>(_, m). isTerminate m) sent \<or> (waitsForMessage t \<and> msg = None) then None
         else if map_option inboxMsgType msg = Some inboxMsgTypeTerminate then
           Some (s\<lparr>inboxes := r1, threads := (threads s)(t := Ended)\<rparr>)
         else Some (s\<lparr>inboxes := fold deliver sent r1,
                     threads := (threads s)(t := if waitsForMessage t \<or> t = threadIdTimerTick then Running else Waiting)\<rparr>))"

definition clock_step :: "clock_label \<Rightarrow> clock_run \<Rightarrow> clock_run option" where
  "clock_step l s = (case l of
     MainStep \<Rightarrow>
       if mainAt s < length main_program
       then map_option (\<lambda>s1. s1\<lparr>mainAt := mainAt s + 1\<rparr>) (main_act (main_program ! mainAt s) s) else None
   | Round t sent \<Rightarrow> thread_round t sent s
   | WakeUp t \<Rightarrow>
       if threads s t = Waiting \<and> threads s threadIdTimerTick = Running
       then Some (s\<lparr>threads := (threads s)(t := Running)\<rparr>) else None)"

fun clock_runs :: "clock_label list \<Rightarrow> clock_run \<Rightarrow> clock_run option" where
  "clock_runs [] s = Some s"
| "clock_runs (l # ls) s = (case clock_step l s of None \<Rightarrow> None | Some s1 \<Rightarrow> clock_runs ls s1)"

inductive clock_reachable :: "clock_run \<Rightarrow> bool" where
  start: "clock_reachable clockStart"
| step: "clock_reachable s \<Longrightarrow> clock_step l s = Some s' \<Longrightarrow> clock_reachable s'"

section \<open>The order of the program\<close>

lemma program_order:
  "list_all (\<lambda>n. let D = set (take n main_program); all = \<lambda>f. list_all (\<lambda>t. f t \<in> D) threadIds;
      tell = (BroadcastTerminate threadIdTimerTick \<in> D); shut = (ShutdownSingleton InboxRegistrySingleton \<in> D)
    in case main_program ! n of
      StartThread t \<Rightarrow> all CreateInbox \<and> \<not> tell \<and> SendTerminate t \<notin> D \<and> JoinThread t \<notin> D \<and> StartThread t \<notin> D \<and> t \<in> set threadIds
    | BroadcastTerminate t \<Rightarrow> t = threadIdTimerTick \<and> all CreateInbox \<and> all StartThread \<and> \<not> shut
    | SendTerminate t \<Rightarrow> t = threadIdTimerTick \<and> \<not> shut \<and> list_all (\<lambda>t. t = threadIdTimerTick \<or> JoinThread t \<in> D) threadIds
    | JoinThread t \<Rightarrow> all StartThread \<and> t \<in> set threadIds \<and> \<not> shut \<and>
        (if t = threadIdTimerTick then SendTerminate t \<in> D else tell \<and> SendTerminate threadIdTimerTick \<notin> D)
    | ShutdownSingleton _ \<Rightarrow> all JoinThread
    | _ \<Rightarrow> True) [0..<length main_program]"
  by code_simp

definition acted :: "clock_run \<Rightarrow> main_action set" where
  "acted s = set (take (mainAt s) main_program)"

lemma program_at:
  assumes "mainAt s < length main_program"
  shows "main_program ! mainAt s = StartThread t \<Longrightarrow> (\<forall>u \<in> set threadIds. CreateInbox u \<in> acted s) \<and>
      BroadcastTerminate threadIdTimerTick \<notin> acted s \<and> SendTerminate t \<notin> acted s \<and> JoinThread t \<notin> acted s \<and>
      StartThread t \<notin> acted s \<and> t \<in> set threadIds"
    and "main_program ! mainAt s = BroadcastTerminate t \<Longrightarrow> t = threadIdTimerTick \<and> (\<forall>u \<in> set threadIds. CreateInbox u \<in> acted s) \<and>
      (\<forall>u \<in> set threadIds. StartThread u \<in> acted s) \<and> ShutdownSingleton InboxRegistrySingleton \<notin> acted s"
    and "main_program ! mainAt s = SendTerminate t \<Longrightarrow> t = threadIdTimerTick \<and> ShutdownSingleton InboxRegistrySingleton \<notin> acted s \<and>
      (\<forall>u \<in> set threadIds. u = threadIdTimerTick \<or> JoinThread u \<in> acted s)"
    and "main_program ! mainAt s = JoinThread t \<Longrightarrow> (\<forall>u \<in> set threadIds. StartThread u \<in> acted s) \<and> t \<in> set threadIds \<and>
      ShutdownSingleton InboxRegistrySingleton \<notin> acted s \<and>
      (if t = threadIdTimerTick then SendTerminate t \<in> acted s
       else BroadcastTerminate threadIdTimerTick \<in> acted s \<and> SendTerminate threadIdTimerTick \<notin> acted s)"
    and "main_program ! mainAt s = ShutdownSingleton x \<Longrightarrow> \<forall>u \<in> set threadIds. JoinThread u \<in> acted s"
proof -
  have m: "mainAt s \<in> set [0..<length main_program]" using assms by simp
  note o = program_order[unfolded list_all_iff Let_def, rule_format, OF m, folded acted_def]
  show "main_program ! mainAt s = StartThread t \<Longrightarrow> (\<forall>u \<in> set threadIds. CreateInbox u \<in> acted s) \<and>
      BroadcastTerminate threadIdTimerTick \<notin> acted s \<and> SendTerminate t \<notin> acted s \<and> JoinThread t \<notin> acted s \<and>
      StartThread t \<notin> acted s \<and> t \<in> set threadIds" using o by simp
  show "main_program ! mainAt s = BroadcastTerminate t \<Longrightarrow> t = threadIdTimerTick \<and> (\<forall>u \<in> set threadIds. CreateInbox u \<in> acted s) \<and>
      (\<forall>u \<in> set threadIds. StartThread u \<in> acted s) \<and> ShutdownSingleton InboxRegistrySingleton \<notin> acted s" using o by simp
  show "main_program ! mainAt s = SendTerminate t \<Longrightarrow> t = threadIdTimerTick \<and> ShutdownSingleton InboxRegistrySingleton \<notin> acted s \<and>
      (\<forall>u \<in> set threadIds. u = threadIdTimerTick \<or> JoinThread u \<in> acted s)" using o by simp
  show "main_program ! mainAt s = JoinThread t \<Longrightarrow> (\<forall>u \<in> set threadIds. StartThread u \<in> acted s) \<and> t \<in> set threadIds \<and>
      ShutdownSingleton InboxRegistrySingleton \<notin> acted s \<and>
      (if t = threadIdTimerTick then SendTerminate t \<in> acted s
       else BroadcastTerminate threadIdTimerTick \<in> acted s \<and> SendTerminate threadIdTimerTick \<notin> acted s)" using o by (cases "t = threadIdTimerTick") simp_all
  show "main_program ! mainAt s = ShutdownSingleton x \<Longrightarrow> \<forall>u \<in> set threadIds. JoinThread u \<in> acted s" using o by simp
qed

lemma acted_Suc: "mainAt s < length main_program \<Longrightarrow>
    set (take (Suc (mainAt s)) main_program) = insert (main_program ! mainAt s) (acted s)"
  by (simp add: acted_def take_Suc_conv_app_nth)

section \<open>What holds in every run\<close>

text \<open>The messages of an inbox up to the one that tells the thread to end, and whether there is one.\<close>

definition pending :: "ThreadId \<Rightarrow> InboxRegistry \<Rightarrow> InboxMsg list" where
  "pending t r = (case r t of None \<Rightarrow> [] | Some q \<Rightarrow> msgs q)"

definition told :: "ThreadId \<Rightarrow> InboxRegistry \<Rightarrow> bool" where
  "told t r \<longleftrightarrow> list_ex isTerminate (pending t r)"

definition roundsLeft :: "ThreadId \<Rightarrow> clock_run \<Rightarrow> nat" where
  "roundsLeft t s = (if threads s t = Ended then 0
     else Suc (length (takeWhile (\<lambda>m. \<not> isTerminate m) (pending t (inboxes s)))))"

lemma pending_getInbox [simp]: "pending t (snd (getInbox u r)) = pending t r"
  by (auto simp: pending_def getInbox_def split: option.split)

lemma pending_send: "pending t (sendMessage m u r) = pending t r @ (if t = u then [m] else [])"
  by (auto simp: pending_def sendMessage_def getInbox_def split: option.split)

lemma deliver_None [simp]: "deliver x r t = None \<longleftrightarrow> r t = None"
  by (simp add: deliver_def)

lemma pending_deliver: "pending t (deliver x r) = pending t r @ (if t = fst x \<and> r t \<noteq> None then [snd x] else [])"
  by (auto simp: pending_def deliver_def split: option.split)

lemma pending_sends: "pending t (fold deliver sent r) =
    pending t r @ (if r t = None then [] else map snd (filter (\<lambda>x. fst x = t) sent))"
  by (induction sent arbitrary: r) (auto simp: pending_deliver)

lemma pending_broadcast: "pending t (broadcast m from r) = pending t r @ (if t \<noteq> from \<and> r t \<noteq> None then [m] else [])"
  by (auto simp: pending_def broadcast_def split: option.split)

lemma isTerminate_mk [simp]: "isTerminate (mkInboxMsg inboxMsgTypeTerminate)"
  by (simp add: isTerminate_def mkInboxMsg_def initPayload_def)

lemma roundsLeft_told: "told t r \<Longrightarrow> takeWhile (\<lambda>m. \<not> isTerminate m) (pending t r @ ms) = takeWhile (\<lambda>m. \<not> isTerminate m) (pending t r)"
  by (auto simp: told_def list_ex_iff takeWhile_append1)

lemma sends_keep: "fold deliver sent r u = None \<longleftrightarrow> r u = None"
  by (induction sent arbitrary: r) simp_all

text \<open>A round takes the first message of its inbox, if there is one.\<close>

lemma thread_round_cases:
  assumes "thread_round t sent s = Some s'"
  shows "threads s t = Running \<and> mainAt s' = mainAt s \<and> \<not> list_ex isTerminate (map snd sent) \<and>
    (\<forall>u. u \<noteq> t \<longrightarrow> threads s' u = threads s u) \<and> (\<forall>u. inboxes s u \<noteq> None \<longrightarrow> inboxes s' u \<noteq> None) \<and>
    (t = threadIdTimerTick \<longrightarrow> threads s' t \<noteq> Waiting) \<and>
    (\<exists>more. \<not> list_ex isTerminate more \<and>
      (\<forall>u. u \<noteq> t \<longrightarrow> (\<exists>ms. \<not> list_ex isTerminate ms \<and> pending u (inboxes s') = pending u (inboxes s) @ ms)) \<and>
      (case pending t (inboxes s) of
         [] \<Rightarrow> pending t (inboxes s') = more \<and> threads s' t \<in> {Running, Waiting}
       | m # ms \<Rightarrow> pending t (inboxes s') = ms @ more \<and>
           (if isTerminate m then threads s' t = Ended else threads s' t \<in> {Running, Waiting})))"
proof -
  obtain q r where g: "getInbox t (inboxes s) = (q, r)" by fastforce
  obtain msg q1 where m: "getMessage q = (msg, q1)" by fastforce
  define r1 where "r1 = r(t \<mapsto> q1)"
  have p: "pending u r1 = (if u = t then msgs q1 else pending u (inboxes s))" for u
    using g pending_getInbox[of u t "inboxes s"] by (simp add: r1_def pending_def)
  have pt: "pending t (inboxes s) = msgs q" using g by (auto simp: getInbox_def pending_def newInbox_def split: option.splits)
  have q: "msg = None \<and> msgs q = [] \<and> msgs q1 = [] \<or> (\<exists>x xs. msg = Some x \<and> msgs q = x # xs \<and> msgs q1 = xs)"
    using m by (auto simp: getMessage_def split: list.splits)
  have k: "inboxes s u \<noteq> None \<Longrightarrow> r1 u \<noteq> None" for u
    using g by (auto simp: r1_def getInbox_def split: option.splits)
  have f: "threads s t = Running" "\<not> list_ex (\<lambda>(_, m). isTerminate m) sent"
    using assms g m by (auto simp: thread_round_def Let_def split: if_splits)
  have nt: "\<not> list_ex isTerminate (map snd sent)" "\<not> list_ex isTerminate (map snd (filter (\<lambda>x. fst x = u) sent))" for u
    using f(2) by (auto simp: list_ex_iff)
  show ?thesis
  proof (cases "map_option inboxMsgType msg = Some inboxMsgTypeTerminate")
    case True
    then have "s' = s\<lparr>inboxes := r1, threads := (threads s)(t := Ended)\<rparr>"
      using assms g m by (auto simp: thread_round_def r1_def Let_def split: if_splits)
    then show ?thesis using True f nt p pt q k by (auto simp: isTerminate_def intro!: exI[of _ "[]"])
  next
    case False
    let ?st = "if waitsForMessage t \<or> t = threadIdTimerTick then Running else Waiting"
    have s': "s' = s\<lparr>inboxes := fold deliver sent r1, threads := (threads s)(t := ?st)\<rparr>"
      using False assms g m by (auto simp: thread_round_def r1_def Let_def split: if_splits)
    have o: "\<exists>ms. \<not> list_ex isTerminate ms \<and> pending u (inboxes s') = pending u (inboxes s) @ ms" if "u \<noteq> t" for u
      using that nt(2)[of u] by (auto simp: s' pending_sends p)
    have t: "pending t (inboxes s') = msgs q1 @ map snd (filter (\<lambda>x. fst x = t) sent)"
      by (simp add: s' pending_sends p) (simp add: r1_def)
    show ?thesis using False f nt(1) nt(2)[of t] o t pt q k sends_keep[of sent r1]
      by (intro conjI exI[of _ "map snd (filter (\<lambda>x. fst x = t) sent)"]) (auto simp: s' isTerminate_def)
  qed
qed

definition clock_inv :: "clock_run \<Rightarrow> bool" where
  "clock_inv s \<longleftrightarrow> mainAt s \<le> length main_program \<and>
     (\<forall>t. StartThread t \<in> acted s \<longleftrightarrow> threads s t \<noteq> NotStarted) \<and>
     (\<forall>t. CreateInbox t \<in> acted s \<and> ShutdownSingleton InboxRegistrySingleton \<notin> acted s \<longrightarrow> inboxes s t \<noteq> None) \<and>
     (\<forall>t \<in> set threadIds. t \<noteq> threadIdTimerTick \<and> BroadcastTerminate threadIdTimerTick \<in> acted s \<longrightarrow>
        threads s t = Ended \<or> told t (inboxes s)) \<and>
     (if SendTerminate threadIdTimerTick \<in> acted s then threads s threadIdTimerTick = Ended \<or> told threadIdTimerTick (inboxes s)
      else threads s threadIdTimerTick \<noteq> Ended \<and> \<not> told threadIdTimerTick (inboxes s)) \<and>
     (\<forall>t. JoinThread t \<in> acted s \<longrightarrow> threads s t = Ended) \<and> threads s threadIdTimerTick \<noteq> Waiting"

lemma told_round:
  assumes "thread_round t sent s = Some s'"
  shows "threads s u = Ended \<or> told u (inboxes s) \<Longrightarrow> threads s' u = Ended \<or> told u (inboxes s')"
    and "\<not> told u (inboxes s) \<Longrightarrow> threads s u \<noteq> Ended \<Longrightarrow> \<not> told u (inboxes s') \<and> threads s' u \<noteq> Ended"
proof -
  note c = thread_round_cases[OF assms]
  have "(threads s u = Ended \<or> told u (inboxes s) \<longrightarrow> threads s' u = Ended \<or> told u (inboxes s')) \<and>
    (\<not> told u (inboxes s) \<and> threads s u \<noteq> Ended \<longrightarrow> \<not> told u (inboxes s') \<and> threads s' u \<noteq> Ended)"
  proof (cases "u = t")
    case True
    then show ?thesis using c by (cases "pending t (inboxes s)") (auto simp: told_def split: if_splits)
  next
    case False
    then obtain ms where "pending u (inboxes s') = pending u (inboxes s) @ ms" "\<not> list_ex isTerminate ms" "threads s' u = threads s u"
      using c by blast
    then show ?thesis by (auto simp: told_def)
  qed
  then show "threads s u = Ended \<or> told u (inboxes s) \<Longrightarrow> threads s' u = Ended \<or> told u (inboxes s')"
    and "\<not> told u (inboxes s) \<Longrightarrow> threads s u \<noteq> Ended \<Longrightarrow> \<not> told u (inboxes s') \<and> threads s' u \<noteq> Ended" by blast+
qed

lemma thread_state_round:
  assumes "thread_round t sent s = Some s'"
  shows "threads s' u = NotStarted \<longleftrightarrow> threads s u = NotStarted" "threads s u = Ended \<Longrightarrow> threads s' u = Ended"
    "threads s threadIdTimerTick \<noteq> Waiting \<Longrightarrow> threads s' threadIdTimerTick \<noteq> Waiting"
proof -
  note c = thread_round_cases[OF assms]
  have t: "threads s' t \<noteq> NotStarted" "threads s t = Running"
    using c by (cases "pending t (inboxes s)"; auto split: if_splits)+
  show "threads s' u = NotStarted \<longleftrightarrow> threads s u = NotStarted" using c t by (cases "u = t") auto
  show "threads s u = Ended \<Longrightarrow> threads s' u = Ended" using c t by (cases "u = t") auto
  show "threads s threadIdTimerTick \<noteq> Waiting \<Longrightarrow> threads s' threadIdTimerTick \<noteq> Waiting"
    using c by (cases "t = threadIdTimerTick") auto
qed

lemma clock_inv_round:
  assumes "clock_inv s" "thread_round t sent s = Some s'" shows "clock_inv s'"
proof -
  note c = thread_round_cases[OF assms(2)]
  have a: "acted s' = acted s" and m: "mainAt s' = mainAt s" using c by (simp_all add: acted_def)
  have k: "inboxes s u \<noteq> None \<Longrightarrow> inboxes s' u \<noteq> None" for u using c by blast
  note i = assms(1)[unfolded clock_inv_def]
  have tt: "if SendTerminate threadIdTimerTick \<in> acted s then threads s' threadIdTimerTick = Ended \<or> told threadIdTimerTick (inboxes s')
      else threads s' threadIdTimerTick \<noteq> Ended \<and> \<not> told threadIdTimerTick (inboxes s')"
    using i told_round[OF assms(2), of threadIdTimerTick] by (cases "SendTerminate threadIdTimerTick \<in> acted s") simp_all
  show ?thesis unfolding clock_inv_def a m
    using i k tt told_round(1)[OF assms(2)] thread_state_round[OF assms(2)] by blast
qed

lemma clock_inv_wake:
  assumes "clock_inv s" "threads s t = Waiting"
  shows "clock_inv (s\<lparr>threads := (threads s)(t := Running)\<rparr>)"
proof -
  have t: "threads s u \<noteq> Ended" if "u = t" for u using assms(2) that by simp
  show ?thesis using assms unfolding clock_inv_def by (auto simp: acted_def split: if_splits)
qed

lemma told_simps [simp]:
  "told t (snd (getInbox u r)) = told t r"
  "told t (broadcast (mkInboxMsg inboxMsgTypeTerminate) from r) \<longleftrightarrow> told t r \<or> t \<noteq> from \<and> r t \<noteq> None"
  "told t (sendTerminateMessage u r) \<longleftrightarrow> told t r \<or> t = u"
  by (auto simp: told_def pending_broadcast sendTerminateMessage_def pending_send)

lemma broadcast_None: "broadcast m from r t = None \<longleftrightarrow> r t = None"
  by (simp add: broadcast_def)

lemma timer_is_thread [simp]: "threadIdTimerTick \<in> set threadIds"
  by (simp add: threadIds_def)

lemma clock_inv_main:
  assumes i: "clock_inv s" and m: "mainAt s < length main_program" and s1: "main_act (main_program ! mainAt s) s = Some s1"
  shows "clock_inv (s1\<lparr>mainAt := mainAt s + 1\<rparr>)"
proof -
  let ?s = "s1\<lparr>mainAt := mainAt s + 1\<rparr>"
  have a: "acted ?s = insert (main_program ! mainAt s) (acted s)" using acted_Suc[OF m] by (simp add: acted_def)
  have len: "mainAt ?s \<le> length main_program" using m by simp
  note i = i[unfolded clock_inv_def]
  note at = program_at[OF m]
  show ?thesis
  proof (cases "main_program ! mainAt s")
    case (CreateInbox t)
    then have "s1 = s\<lparr>inboxes := snd (getInbox t (inboxes s))\<rparr>" using s1 by (simp add: main_act_def)
    moreover have "snd (getInbox t (inboxes s)) u \<noteq> None \<longleftrightarrow> u = t \<or> inboxes s u \<noteq> None" for u
      by (auto simp: getInbox_def split: option.split)
    ultimately show ?thesis using i CreateInbox len unfolding clock_inv_def a by auto
  next
    case (StartThread t)
    then have "s1 = s\<lparr>threads := (threads s)(t := Running)\<rparr>" using s1 by (simp add: main_act_def)
    then show ?thesis using i StartThread at(1)[OF StartThread] len unfolding clock_inv_def a by auto
  next
    case RunServer
    then show ?thesis using i s1 len unfolding clock_inv_def a by (auto simp: main_act_def)
  next
    case (BroadcastTerminate t)
    note b = at(2)[OF BroadcastTerminate]
    have s: "s1 = s\<lparr>inboxes := broadcast (mkInboxMsg inboxMsgTypeTerminate) threadIdTimerTick (inboxes s)\<rparr>"
      using s1 BroadcastTerminate b by (simp add: main_act_def)
    have "inboxes s u \<noteq> None" if "u \<in> set threadIds" for u using i b that by blast
    then show ?thesis using i BroadcastTerminate b s len unfolding clock_inv_def a by (auto simp: broadcast_None)
  next
    case (JoinThread t)
    then have "s1 = s" "threads s t = Ended" using s1 by (simp_all add: main_act_def split: if_splits)
    then show ?thesis using i JoinThread len unfolding clock_inv_def a by auto
  next
    case (SendTerminate t)
    note b = at(3)[OF SendTerminate]
    have s: "s1 = s\<lparr>inboxes := sendTerminateMessage threadIdTimerTick (inboxes s)\<rparr>" using s1 SendTerminate b by (simp add: main_act_def)
    moreover have "inboxes s u \<noteq> None \<Longrightarrow> sendTerminateMessage threadIdTimerTick (inboxes s) u \<noteq> None" for u
      by (auto simp: sendTerminateMessage_def sendMessage_def getInbox_def split: option.splits)
    ultimately show ?thesis using i SendTerminate b len unfolding clock_inv_def a by auto
  next
    case (ShutdownSingleton x)
    note b = at(5)[OF ShutdownSingleton]
    have e: "threads s u = Ended" if "u \<in> set threadIds" for u using i b that by blast
    show ?thesis
    proof (cases "x = InboxRegistrySingleton")
      case True
      then have "s1 = s\<lparr>inboxes := (\<lambda>_. None)\<rparr>" using s1 ShutdownSingleton by (simp add: main_act_def)
      then show ?thesis using i ShutdownSingleton True e len unfolding clock_inv_def a by (auto split: if_splits)
    next
      case False
      then have "s1 = s" using s1 ShutdownSingleton by (simp add: main_act_def)
      then show ?thesis using i ShutdownSingleton False len unfolding clock_inv_def a by auto
    qed
  qed
qed

lemma clock_inv_step: "clock_inv s \<Longrightarrow> clock_step l s = Some s' \<Longrightarrow> clock_inv s'"
  by (cases l) (auto simp: clock_step_def split: if_splits intro: clock_inv_main[simplified] clock_inv_round clock_inv_wake)

lemma clock_inv_reachable: "clock_reachable s \<Longrightarrow> clock_inv s"
proof (induction rule: clock_reachable.induct)
  case start
  show ?case by (simp add: clock_inv_def clockStart_def acted_def told_def pending_def)
qed (rule clock_inv_step)

lemma clock_reachable_runs: "clock_reachable s \<Longrightarrow> clock_runs ls s = Some s' \<Longrightarrow> clock_reachable s'"
  by (induction ls arbitrary: s) (auto split: option.splits intro: clock_reachable.step)

definition isRound :: "ThreadId \<Rightarrow> clock_label \<Rightarrow> bool" where
  "isRound t l = (case l of Round u _ \<Rightarrow> u = t | _ \<Rightarrow> False)"

text \<open>The thread is started and has ended or has been told to end.\<close>

definition ending :: "ThreadId \<Rightarrow> clock_run \<Rightarrow> bool" where
  "ending t s \<longleftrightarrow> t \<in> set threadIds \<and> threads s t \<noteq> NotStarted \<and> (threads s t = Ended \<or> told t (inboxes s))"

lemma roundsLeft_more:
  assumes "ending t s" "threads s' t = Ended \<longleftrightarrow> threads s t = Ended" "threads s' t \<noteq> NotStarted"
    "threads s t = Ended \<or> pending t (inboxes s') = pending t (inboxes s) @ ms"
  shows "ending t s' \<and> roundsLeft t s' = roundsLeft t s"
  using assms roundsLeft_told[of t "inboxes s" ms] by (auto simp: ending_def roundsLeft_def told_def)

lemma roundsLeft_round:
  assumes "ending t s" "thread_round t sent s = Some s'"
  shows "ending t s' \<and> roundsLeft t s = Suc (roundsLeft t s')"
proof -
  note c = thread_round_cases[OF assms(2)]
  have e: "ending t s'" using assms c thread_state_round(1)[OF assms(2), of t] told_round(1)[OF assms(2), of t]
    by (auto simp: ending_def)
  have "told t (inboxes s)" "threads s t \<noteq> Ended" using assms(1) c by (auto simp: ending_def)
  then obtain m ms where p: "pending t (inboxes s) = m # ms" by (cases "pending t (inboxes s)") (auto simp: told_def)
  show ?thesis
  proof (cases "isTerminate m")
    case True
    then show ?thesis using e c p \<open>threads s t \<noteq> Ended\<close> by (auto simp: roundsLeft_def)
  next
    case False
    then have t: "list_ex isTerminate ms" using \<open>told t (inboxes s)\<close> p by (simp add: told_def)
    obtain more where m: "pending t (inboxes s') = ms @ more" using c p by auto
    have "takeWhile (\<lambda>m. \<not> isTerminate m) (ms @ more) = takeWhile (\<lambda>m. \<not> isTerminate m) ms"
      using t by (auto simp: list_ex_iff takeWhile_append1)
    moreover have "threads s' t \<noteq> Ended" using c p False by auto
    ultimately show ?thesis using e p False m \<open>threads s t \<noteq> Ended\<close> by (simp add: roundsLeft_def)
  qed
qed

lemma roundsLeft_main:
  assumes i: "clock_inv s" and m: "mainAt s < length main_program" and s1: "main_act (main_program ! mainAt s) s = Some s1"
    and e: "ending t s"
  shows "ending t (s1\<lparr>mainAt := k\<rparr>) \<and> roundsLeft t (s1\<lparr>mainAt := k\<rparr>) = roundsLeft t s"
proof -
  note i = i[unfolded clock_inv_def]
  note at = program_at[OF m]
  show ?thesis
  proof (cases "main_program ! mainAt s")
    case (StartThread u)
    then have "threads s u = NotStarted" using at(1)[OF StartThread] i by blast
    then have "u \<noteq> t" using e by (auto simp: ending_def)
    then show ?thesis using s1 StartThread e by (intro roundsLeft_more[of t s _ "[]"]) (auto simp: main_act_def ending_def)
  next
    case (ShutdownSingleton x)
    have "threads s t = Ended" using i at(5)[OF ShutdownSingleton] e by (auto simp: ending_def)
    then show ?thesis using s1 ShutdownSingleton e by (intro roundsLeft_more[of t s _ "[]"]) (auto simp: main_act_def ending_def split: if_splits)
  next
    case (BroadcastTerminate u)
    then show ?thesis using s1 e
      by (intro roundsLeft_more[of t s _ "if t \<noteq> u \<and> inboxes s t \<noteq> None then [mkInboxMsg inboxMsgTypeTerminate] else []"])
        (auto simp: main_act_def ending_def pending_broadcast)
  next
    case (SendTerminate u)
    then show ?thesis using s1 e
      by (intro roundsLeft_more[of t s _ "if t = u then [mkInboxMsg inboxMsgTypeTerminate] else []"])
        (auto simp: main_act_def ending_def sendTerminateMessage_def pending_send)
  qed (use s1 e in \<open>intro roundsLeft_more[of t s _ "[]"]; auto simp: main_act_def ending_def split: if_splits\<close>)+
qed

lemma roundsLeft_step:
  assumes "clock_inv s" "clock_step l s = Some s'" "ending t s"
  shows "ending t s' \<and> roundsLeft t s = roundsLeft t s' + (if isRound t l then 1 else 0)"
proof (cases l)
  case MainStep
  then show ?thesis using assms roundsLeft_main[OF assms(1) _ _ assms(3)]
    by (auto simp: clock_step_def isRound_def split: if_splits)
next
  case (Round u sent)
  show ?thesis
  proof (cases "u = t")
    case True
    then show ?thesis using roundsLeft_round[OF assms(3)] assms(2) Round by (auto simp: clock_step_def isRound_def)
  next
    case False
    have r: "thread_round u sent s = Some s'" using assms(2) Round by (simp add: clock_step_def)
    from thread_round_cases[OF r] obtain ms where "pending t (inboxes s') = pending t (inboxes s) @ ms" "threads s' t = threads s t"
      using False by metis
    then show ?thesis using roundsLeft_more[OF assms(3), of s' ms] assms(3) False Round by (simp add: isRound_def ending_def)
  qed
next
  case (WakeUp u)
  then show ?thesis using assms(2,3)
    by (auto simp: clock_step_def isRound_def ending_def roundsLeft_def split: if_splits)
qed

lemma roundsLeft_runs:
  "clock_reachable s \<Longrightarrow> ending t s \<Longrightarrow> clock_runs ls s = Some s' \<Longrightarrow>
    roundsLeft t s = roundsLeft t s' + length (filter (isRound t) ls)"
proof (induction ls arbitrary: s)
  case (Cons l ls)
  then obtain s1 where s1: "clock_step l s = Some s1" "clock_runs ls s1 = Some s'" by (auto split: option.splits)
  have "ending t s1" "roundsLeft t s = roundsLeft t s1 + (if isRound t l then 1 else 0)"
    using roundsLeft_step[OF clock_inv_reachable s1(1)] Cons.prems by blast+
  then show ?case using Cons.IH[OF clock_reachable.step[OF Cons.prems(1) s1(1)]] s1(2) by simp
qed simp

lemma join_ending:
  assumes "clock_inv s" "mainAt s < length main_program" "main_program ! mainAt s = JoinThread t"
  shows "ending t s"
  using assms program_at(4)[OF assms(2,3)] unfolding clock_inv_def ending_def by (auto split: if_splits)

section \<open>Properties\<close>

text \<open>
  C2. The shutdown never hangs. In every run, whatever the threads do and send each other and whenever
  they run, \<^verbatim>\<open>main\<close> can go on, or it waits for a thread that has been told to end and
  that can make its next round or be woken by the timer. When \<^verbatim>\<open>main\<close> is done, every
  thread has ended.
\<close>

theorem shutdown_never_hangs:
  assumes "clock_reachable s"
  shows "if mainAt s = length main_program then list_all (\<lambda>t. threads s t = Ended) threadIds
    else clock_step MainStep s \<noteq> None \<or> (\<exists>t. main_program ! mainAt s = JoinThread t \<and> told t (inboxes s) \<and>
      (clock_step (Round t []) s \<noteq> None \<or> clock_step (WakeUp t) s \<noteq> None))"
proof (cases "mainAt s = length main_program")
  case True
  have "list_all (\<lambda>t. JoinThread t \<in> set main_program) threadIds" by code_simp
  then have "list_all (\<lambda>t. JoinThread t \<in> acted s) threadIds" using True by (simp add: acted_def)
  then show ?thesis using True clock_inv_reachable[OF assms] by (auto simp: clock_inv_def list_all_iff)
next
  case False
  note i = clock_inv_reachable[OF assms]
  have m: "mainAt s < length main_program" using i False by (simp add: clock_inv_def)
  show ?thesis
  proof (cases "clock_step MainStep s")
    case None
    then obtain t where t: "main_program ! mainAt s = JoinThread t" "threads s t \<noteq> Ended"
      using m by (auto simp: clock_step_def main_act_def split: main_action.splits if_splits)
    have e: "ending t s" by (rule join_ending[OF i m t(1)])
    then have told: "told t (inboxes s)" using t(2) by (simp add: ending_def)
    show ?thesis
    proof (cases "threads s t")
      case Running
      obtain q where q: "inboxes s t = Some q" "msgs q \<noteq> []"
        using told by (cases "inboxes s t") (force simp: told_def pending_def)+
      then have "fst (getMessage q) \<noteq> None" by (auto simp: getMessage_def split: list.split)
      then have "clock_step (Round t []) s \<noteq> None"
        using Running q by (auto simp: clock_step_def thread_round_def getInbox_def Let_def split: prod.splits)
      then show ?thesis using False t told by auto
    next
      case Waiting
      have "t \<noteq> threadIdTimerTick" using Waiting i by (auto simp: clock_inv_def)
      then have "threads s threadIdTimerTick = Running"
        using i program_at(4)[OF m t(1)] by (cases "threads s threadIdTimerTick") (auto simp: clock_inv_def)
      then have "clock_step (WakeUp t) s \<noteq> None" using Waiting by (simp add: clock_step_def)
      then show ?thesis using False t told by auto
    qed (use e t(2) in \<open>auto simp: ending_def\<close>)
  qed (use False in simp)
qed

text \<open>
  C13. A thread that \<^verbatim>\<open>main\<close> waits for makes a bounded number of rounds: one for each
  message before the one that tells it to end, and one for that. However the other threads are
  interleaved and whatever they send, after exactly so many rounds it has ended, and not before.
\<close>

theorem joined_thread_ends_in_bounded_rounds:
  assumes "clock_reachable s" "mainAt s < length main_program" "main_program ! mainAt s = JoinThread t"
    "clock_runs ls s = Some s'"
  shows "length (filter (isRound t) ls) \<le> roundsLeft t s \<and>
    (length (filter (isRound t) ls) = roundsLeft t s \<longleftrightarrow> threads s' t = Ended)"
proof -
  have "ending t s" by (rule join_ending[OF clock_inv_reachable[OF assms(1)] assms(2,3)])
  from roundsLeft_runs[OF assms(1) this assms(4)] show ?thesis by (auto simp: roundsLeft_def)
qed


text \<open>A run with a message before the one that tells the display to end.\<close>

definition startedClock :: "clock_label list" where
  "startedClock = replicate 15 MainStep @ [Round threadIdLightSensor [(threadIdDisplay, timerTickMessage)], MainStep]"

definition lastRounds :: "clock_label list" where
  "lastRounds = [Round threadIdDisplay [], WakeUp threadIdDisplay, Round threadIdDisplay []]"

lemma sample_run:
  "case clock_runs startedClock clockStart of
     None \<Rightarrow> False
   | Some s \<Rightarrow> mainAt s = 16 \<and> roundsLeft threadIdDisplay s = 2 \<and> clock_step MainStep s = None \<and> clock_runs lastRounds s \<noteq> None"
  by code_simp

lemma shutdown_never_hangs_witness:
  "\<exists>s. clock_runs startedClock clockStart = Some s \<and> mainAt s = 16 \<and>
     (\<exists>t. clock_step (Round t []) s \<noteq> None \<or> clock_step (WakeUp t) s \<noteq> None)"
proof -
  obtain s where s: "clock_runs startedClock clockStart = Some s" "mainAt s = 16" "clock_step MainStep s = None"
    using sample_run by (auto split: option.splits)
  have "16 \<noteq> length main_program" by code_simp
  then show ?thesis using s shutdown_never_hangs[OF clock_reachable_runs[OF clock_reachable.start s(1)]] by auto
qed

lemma joined_thread_ends_in_bounded_rounds_witness:
  "\<exists>s s'. clock_runs startedClock clockStart = Some s \<and> clock_runs lastRounds s = Some s' \<and> threads s' threadIdDisplay = Ended"
proof -
  obtain s s' where s: "clock_runs startedClock clockStart = Some s" "mainAt s = 16" "roundsLeft threadIdDisplay s = 2"
      "clock_runs lastRounds s = Some s'"
    using sample_run by (auto split: option.splits)
  have p: "16 < length main_program" "main_program ! 16 = JoinThread threadIdDisplay" by code_simp+
  have "length (filter (isRound threadIdDisplay) lastRounds) = 2" by (simp add: lastRounds_def isRound_def)
  then show ?thesis
    using joined_thread_ends_in_bounded_rounds[OF clock_reachable_runs[OF clock_reachable.start s(1)], of threadIdDisplay lastRounds s'] s p
    by auto
qed

end
