(* ===== verification/Clock_Rounds.thy ===== *)
theory Clock_Rounds
  imports Clock_Main Mqtt_Client
begin

text \<open>
  The rounds of the abstract threads of \<^verbatim>\<open>Clock_Main\<close> are those of the loops of the
  code, for the two threads whose models hold the inboxes: the timer, which sends messages to
  others, and the MQTT client, which waits for messages.
\<close>

lemma tickEntry_delivers:
  "\<exists>sent. (\<forall>x \<in> set sent. snd x = timerTickMessage) \<and> tickInboxes (tickEntry e w) = fold deliver sent (tickInboxes w)"
proof -
  obtain s r where t: "tickService (services w (snd e)) (tickInboxes w) = (s, r)" by fastforce
  have "r = tickInboxes w \<or> (\<exists>u. r = deliver (u, timerTickMessage) (tickInboxes w))"
    using t by (auto simp: tickService_def expireTrigger_def Let_def deliver_def split: if_splits TickTrigger.splits prod.splits)
  then show ?thesis
  proof
    assume "r = tickInboxes w"
    then show ?thesis using t by (intro exI[of _ "[]"]) (simp add: tickEntry_def)
  next
    assume "\<exists>u. r = deliver (u, timerTickMessage) (tickInboxes w)"
    then obtain u where "r = deliver (u, timerTickMessage) (tickInboxes w)" ..
    then show ?thesis using t by (intro exI[of _ "[(u, timerTickMessage)]"]) (simp add: tickEntry_def)
  qed
qed

lemma ticks_deliver:
  "\<exists>sent. (\<forall>x \<in> set sent. snd x = timerTickMessage) \<and> tickInboxes (fold tickEntry es w) = fold deliver sent (tickInboxes w)"
proof (induction es arbitrary: w)
  case (Cons e es)
  obtain a where a: "\<forall>x \<in> set a. snd x = timerTickMessage" "tickInboxes (tickEntry e w) = fold deliver a (tickInboxes w)"
    using tickEntry_delivers by blast
  obtain b where b: "\<forall>x \<in> set b. snd x = timerTickMessage"
      "tickInboxes (fold tickEntry es (tickEntry e w)) = fold deliver b (tickInboxes (tickEntry e w))"
    using Cons.IH by blast
  show ?case using a b by (intro exI[of _ "a @ b"]) auto
qed (intro exI[of _ "[]"], simp)

text \<open>What the MQTT client does with a message leaves the inboxes alone.\<close>

lemma inboxes_onInfo [simp]: "tickInboxes (mqttTimer (onInfo f c)) = tickInboxes (mqttTimer c)"
  by (simp add: onInfo_def)

lemma inboxes_update [simp]: "tickInboxes (update_service sid f w) = tickInboxes w"
  by (simp add: update_service_def)

lemma inboxes_onTimer [simp]: "tickInboxes (mqttTimer (onTimer f c)) = tickInboxes (f (mqttTimer c))"
  by (simp add: onTimer_def)

lemma inboxes_ready [simp]: "tickInboxes (mqttTimer (readyForTimerTickServiceMessage base b c)) = tickInboxes (mqttTimer c)"
  by (simp add: readyForTimerTickServiceMessage_def)

lemma inboxes_publish [simp]: "tickInboxes (mqttTimer (doPublish rc topic text retain c)) = tickInboxes (mqttTimer c)"
  by (simp add: doPublish_def)

lemma inboxes_test [simp]: "tickInboxes (mqttTimer (snd (testAndReset sid c))) = tickInboxes (mqttTimer c)"
  by (simp add: testAndReset_def split: prod.split)

lemma inboxes_callbacks [simp]: "tickInboxes (mqttTimer (fold mqtt_callback_run cs c)) = tickInboxes (mqttTimer c)"
proof (induction cs arbitrary: c)
  case (Cons x cs)
  then show ?case
    by (cases x) (simp_all add: mqtt_on_connect_def mqtt_on_disconnect_def mqtt_on_publish_def mqtt_on_message_def)
qed simp

lemma inboxes_start [simp]: "tickInboxes (snd (startTimerTickService k w)) = tickInboxes w"
  by (simp add: startTimerTickService_def split: option.split)

lemma inboxes_report [simp]: "tickInboxes (mqttTimer (doPeriodicReport e c)) = tickInboxes (mqttTimer c)"
  by (simp add: doPeriodicReport_def)

lemma inboxes_tick: "tickInboxes (mqttTimer (mqtt_tickMessage base e c)) = tickInboxes (mqttTimer c)"
  unfolding mqtt_tickMessage_def Let_def by (simp add: case_prod_unfold)

lemma inboxes_handle: "tickInboxes (mqttTimer (mqtt_handle base e t c)) = tickInboxes (mqttTimer c)"
proof (cases t)
  case inboxMsgTypeMotionOn
  obtain b c1 where t: "testAndReset (motionDamperService base) c = (b, c1)" by fastforce
  then have "tickInboxes (mqttTimer c1) = tickInboxes (mqttTimer c)" using inboxes_test[of "motionDamperService base" c] by simp
  then show ?thesis using inboxMsgTypeMotionOn t by (cases b) (simp_all add: mqtt_handle_def mqtt_motionOn_def Let_def)
next
  case inboxMsgTypeMotionOff
  then show ?thesis by (simp add: mqtt_handle_def mqtt_motionOff_def doPublish_def onInfo_def)
qed (simp_all add: mqtt_handle_def inboxes_tick)

section \<open>Property\<close>

text \<open>
  C18. The loops of the code make the rounds of the abstract threads. A round of the timer's loop
  does to the inboxes what an abstract round does that sends some messages, and ends the thread when
  that does; and a round of the MQTT client's loop blocks, leaves the inboxes, and ends exactly as
  the abstract round that sends nothing.
\<close>

theorem loops_make_the_rounds:
  "(\<exists>sent s. thread_round threadIdTimerTick sent \<lparr>mainAt = n, inboxes = tickInboxes w, threads = ts(threadIdTimerTick := Running)\<rparr> = Some s \<and>
     inboxes s = tickInboxes (snd (timerLoopStep w)) \<and> (threads s threadIdTimerTick \<noteq> Ended) = fst (timerLoopStep w)) \<and>
   map_option (\<lambda>s. (threads s threadIdMqttClient \<noteq> Ended, inboxes s))
     (thread_round threadIdMqttClient [] \<lparr>mainAt = n, inboxes = tickInboxes (mqttTimer c), threads = ts(threadIdMqttClient := Running)\<rparr>) =
   map_option (\<lambda>(goes_on, c1). (goes_on, tickInboxes (mqttTimer c1))) (mqttLoopStep base e c)"
proof
  obtain q r where g: "getInbox threadIdTimerTick (tickInboxes w) = (q, r)" by fastforce
  obtain msg q1 where m: "getMessage q = (msg, q1)" by fastforce
  define w1 where "w1 = w\<lparr>tickInboxes := r(threadIdTimerTick \<mapsto> q1)\<rparr>"
  let ?s = "\<lparr>mainAt = n, inboxes = tickInboxes w, threads = ts(threadIdTimerTick := Running)\<rparr>"
  show "\<exists>sent s. thread_round threadIdTimerTick sent ?s = Some s \<and>
     inboxes s = tickInboxes (snd (timerLoopStep w)) \<and> (threads s threadIdTimerTick \<noteq> Ended) = fst (timerLoopStep w)"
  proof (cases "map_option inboxMsgType msg = Some inboxMsgTypeTerminate")
    case True
    then show ?thesis using g m
      by (intro exI[of _ "[]"]) (simp add: thread_round_def timerLoopStep_def waitsForMessage_def)
  next
    case False
    obtain sent where sent: "\<forall>x \<in> set sent. snd x = timerTickMessage"
        "tickInboxes (fold tickEntry (timerTickServices w1) w1) = fold deliver sent (tickInboxes w1)"
      using ticks_deliver by blast
    have "\<not> list_ex (\<lambda>(_, m). isTerminate m) sent"
      using sent(1) by (auto simp: list_ex_iff timerTickMessage_def isTerminate_def mkInboxMsg_def initPayload_def)
    then show ?thesis using g m False sent(2)
      by (intro exI[of _ sent]) (simp add: thread_round_def timerLoopStep_def waitsForMessage_def timerTick_def w1_def Let_def)
  qed
next
  show "map_option (\<lambda>s. (threads s threadIdMqttClient \<noteq> Ended, inboxes s))
     (thread_round threadIdMqttClient [] \<lparr>mainAt = n, inboxes = tickInboxes (mqttTimer c), threads = ts(threadIdMqttClient := Running)\<rparr>) =
   map_option (\<lambda>(goes_on, c1). (goes_on, tickInboxes (mqttTimer c1))) (mqttLoopStep base e c)"
  proof (cases "tickInboxes (mqttTimer c) threadIdMqttClient")
    case None
    then show ?thesis
      by (simp add: thread_round_def mqttLoopStep_def getInbox_def getMessage_def newInbox_def waitsForMessage_def)
  next
    case (Some q)
    obtain msg q1 where m: "getMessage q = (msg, q1)" by fastforce
    show ?thesis
    proof (cases msg)
      case None
      then have "waitForMessage q = None" using m waitForMessage_iff[of q] by (cases "waitForMessage q") auto
      then show ?thesis using Some None m by (simp add: thread_round_def mqttLoopStep_def getInbox_def waitsForMessage_def)
    next
      case (Some x)
      then have "waitForMessage q = Some (x, q1)" using m waitForMessage_iff by blast
      then show ?thesis using \<open>tickInboxes (mqttTimer c) threadIdMqttClient = Some q\<close> Some m
        by (simp add: thread_round_def mqttLoopStep_def getInbox_def waitsForMessage_def inboxes_handle Let_def)
    qed
  qed
qed
end
