(* ===== verification/Spec2Isabelle.thy ===== *)
theory Spec2Isabelle
  imports Led_Strip Display Worker_Handler Status_Json Pulsar_Server Device_Threads Wiring_Pi Gpiod_Gpio Mcp300x Spi_Output Analog_Input Clock_Rounds
begin

text \<open>
  The control program of an office clock (an LED matrix, an LED strip, a light sensor, a motion
  sensor, an MQTT client and a web server on a Raspberry Pi), modelled from its C++ sources.

  \<^bold>\<open>The program.\<close> \<^verbatim>\<open>src/main.cpp\<close> makes the devices ready, creates an inbox for each thread,
  starts the threads and runs the web server. Each thread is a loop: it takes a message from its
  inbox, waits for the timer or for a message, and does its work. The threads talk in three ways:
  messages in inboxes (\<^verbatim>\<open>src/inbox.cpp\<close>), the services of the timer (\<^verbatim>\<open>src/timerTick.cpp\<close>), and lists of
  requests that the web handlers fill and the display and the strip empty. When the server stops,
  every thread is told to end, the timer last, because the others wait for its signals.

  \<^bold>\<open>The theories.\<close> A state is a record with the fields of the class, an operation is a function of
  the same name from the state to the state and the result, an exception is the left side of a sum,
  and what comes from outside (random numbers, readings, the answers of the kernel and of libraries)
  is an argument. The step of a thread is one round of its loop.

  \<^item> \<open>Prelude\<close>, \<open>Interfaces\<close>, \<open>C_Strings\<close>, \<open>Errno\<close>: integer types, the ordered map that stands for
    \<^verbatim>\<open>std::map\<close>, the locales (queue, countdown, store of cells) that several components interpret, the
    parts of the C library in use, error numbers.
  \<^item> \<open>Common_Utils\<close>, \<open>Inbox\<close>, \<open>Timer_Tick\<close>: \<^verbatim>\<open>src/commonUtils.cpp\<close>, \<^verbatim>\<open>src/inbox.cpp\<close>,
    \<^verbatim>\<open>src/timerTick.cpp\<close>. A broadcast reaches every inbox but the sender's, in order; a periodic
    service fires at the multiples of its period, which is one tick longer than its interval.
  \<^item> \<open>Dictionary\<close>: \<^verbatim>\<open>src/dictionary.cpp\<close>. The entries with their expiry services refine a map from
    keys to values and remaining lives; a walk over the entries ends and gives every live one once.
  \<^item> \<open>Gpio_Lines\<close>, \<open>Gpiod_Gpio\<close>, \<open>Wiring_Pi\<close>: \<^verbatim>\<open>src/gpio\<close>. The recording pins, the value registers, and the two
    backends, the one that owns its lines through libgpiod, with both paths for values, and the one on
    wiringPi. All that is taken from libgpiod is given back once, the fast path writes what the slow one
    does, and the pins of wiringPi have the levels that the operations leave them with.
  \<^item> \<open>Mcp300x\<close>, \<open>Analog_Input\<close>, \<open>Spi_Output\<close>: \<^verbatim>\<open>mcp300x\<close>, \<^verbatim>\<open>src/adc\<close>, \<^verbatim>\<open>src/spi\<close>. The bit-banged
    converter, the converter behind the kernel's driver, and the strip's SPI output. A reading is the
    sample of the asked channel, or minus one; a transfer ends at the first answer that is not an
    interruption; an output is ready only when its configuration was read back.
  \<^item> \<open>Light_Sensor\<close>, \<open>Motion_Sensor\<close>: the average of the last readings, and the counters of the time
    since the last change.
  \<^item> \<open>LPD8806\<close>, \<open>Led_Strip_Internal\<close>, \<open>Led_Strip\<close>: the driver of the strip, its modes, its thread.
    The bits on the pins are those of the frame sent over SPI; each mode shows what it is named for.
  \<^item> \<open>Matrix_Data\<close>, \<open>HT1632\<close>, \<open>Matrix_Text\<close>: the fonts, images and messages as the sources have them,
    the driver of the matrix, and text. Copying an image cell by cell is copying its pixels.
  \<^item> \<open>Display_Internal\<close>, \<open>Display_Safety\<close>, \<open>Display_Behaviour\<close>, \<open>Display_Clock\<close>, \<open>Display\<close>:
    \<^verbatim>\<open>src/displayInternal.cpp\<close> and \<^verbatim>\<open>src/display.cpp\<close>. The state is well formed in every run; a message
    ends after its passes or its timeout; the resting display visits every pixel; the face shows the
    time; requests are served in order.
  \<^item> \<open>Device_Threads\<close>: the threads of the two sensors and of the strip with the services of the timer they
    wait for, from \<^verbatim>\<open>lightSensorMain\<close>, \<^verbatim>\<open>motionSensorMain\<close> and \<^verbatim>\<open>ledStripMain\<close> on. A round is made exactly once in
    a period of its service, and a thread that ends leaves the services registered that were before.
  \<^item> \<open>Status_Report\<close>, \<open>Status_Json\<close>, \<open>Mqtt_Client\<close>: \<^verbatim>\<open>src/statusReport.cpp\<close>, \<^verbatim>\<open>src/statusReportGather.cpp\<close>,
    \<^verbatim>\<open>src/mqttClient.cpp\<close>. The status document is derived, part by part, in a grammar of JSON that is stated as
    inductive predicates, as a text of the snapshot's value; motion is announced at most every ten minutes.
  \<^item> \<open>Web_Post\<close>, \<open>Web_Handler\<close>, \<open>Web_Requests\<close>: \<^verbatim>\<open>src/webHandlerInternal.cpp\<close>. The reader of forms
    recovers the fields and stays in its arrays on every body; every request is counted once; what is
    posted reaches the display and the status.
  \<^item> \<open>Pulsar_Server\<close>, \<open>Worker_Handler\<close>: \<^verbatim>\<open>pulsar\<close>, the web server that \<^verbatim>\<open>main\<close> runs: its options, its logger, the
    listening socket, the workers, start and tear-down, and the reply to a request. The C library, the
    kernel and libevent answer the calls that may fail by a sequence of answers, and what they hand out is written
    down until it is given back: a run that returns has given everything back once, a run ends unless a stop byte is
    lost, the port is bound as it was asked for, and a reply has one content type.
  \<^item> \<open>Clock_Main\<close>, \<open>Clock_Rounds\<close>: \<^verbatim>\<open>src/main.cpp\<close>. The program of \<^verbatim>\<open>main\<close> as a list of actions,
    interleaved with the rounds of the threads in every order: the shutdown never hangs, and a thread
    that is waited for ends after a bounded number of rounds. The loops of the timer and of the MQTT
    client make such rounds.

  \<^bold>\<open>Interfaces.\<close> \<open>fifo\<close> is interpreted by the inboxes and the two lists of requests, \<open>countdown\<close> by
  the services of the timer and the timeouts of the strip and of the messages, \<open>cell_store\<close> by both
  pixel memories, \<open>gpio_port\<close> by the recording pins and by pins with a device on them.

  \<^bold>\<open>Bounds and termination.\<close> There is no fuel. Loops over counters and lists are structural or have a
  measure. The two loops that the code does not bound, the transfer and the \<^verbatim>\<open>send\<close> that are repeated
  while they are interrupted (\<open>Spi_Output\<close>, \<open>Pulsar_Server\<close>), are partial functions whose value \<open>None\<close> is that they do not
  end, and when they end is proved. A join that waits for ever is a result of its own (\<open>Hangs\<close>). Widths are those of a 32-bit target and overflow is kept where the code can
  reach it (the counters, the cookies of the timer, timeouts posted from outside).

  \<^bold>\<open>Parameters.\<close> libevent, libmosquitto, libgpiod, wiringPi, the kernel's files, the clock, the random device and
  the devices on the pins are arguments of the definitions that use them. What is assumed of the
  registers of the BCM2835, of the converter, of the pins of wiringPi and of the headers of libevent is what their
  manuals document, as named hypotheses, with a concrete instance each.

  \<^bold>\<open>Not modelled.\<close> Mutexes are not: an operation under its lock is one step, and the interleaving of
  threads is that of rounds. In \<open>Pulsar_Server\<close> what a worker's thread does before it
  waits for events is put into its start, and what it does afterwards into its join. Text on \<^verbatim>\<open>stdout\<close> and \<^verbatim>\<open>stderr\<close> and the log lines
  of the threads are left out. \<^verbatim>\<open>misc\<close> holds stand-alone examples and helpers of a migration, and \<^verbatim>\<open>tests\<close> the tests.
\<close>

end
